(* ===== verification/Prelude.thy ===== *)
theory Prelude
  imports Complex_Main "HOL-Library.Word"
begin

text \<open>
  What every other theory shares: the names of Go's machine types, the fixed width
  arithmetic of \<^verbatim>\<open>int\<close> and \<^verbatim>\<open>time.Duration\<close>, Go maps, the "keep the last n" operation of
  every bounded log of the program, and the collections the component proofs use.

  A Go map is a list of pairs with distinct keys. The order of the list is the order in which
  \<^verbatim>\<open>range\<close> visits the map; Go leaves that order open, so a lemma about an arbitrary
  representation is a lemma about every order.
\<close>

named_theorems go_defs "definitions of small wrappers, unfolded by simp add: go_defs"
named_theorems gomap "laws of Go maps"

section \<open>Machine types\<close>

type_synonym u8 = "8 word"
type_synonym u16 = "16 word"
type_synonym u32 = "32 word"
type_synonym u64 = "64 word"
type_synonym pid = u32
type_synonym gostring = string

definition i64_max :: int where "i64_max = 9223372036854775807"
definition i64_min :: int where "i64_min = -9223372036854775808"

text \<open>Two's complement wrap-around of Go's 64-bit \<^verbatim>\<open>int\<close> and \<^verbatim>\<open>time.Duration\<close>.\<close>

definition wrap64 :: "int \<Rightarrow> int" where
  "wrap64 x = (x + 9223372036854775808) mod 18446744073709551616 - 9223372036854775808"

text \<open>Saturation, as \<^verbatim>\<open>Time.Sub\<close> saturates.\<close>

definition sat64 :: "int \<Rightarrow> int" where
  "sat64 x = (if x < i64_min then i64_min else if i64_max < x then i64_max else x)"

definition is_i64 :: "int \<Rightarrow> bool" where
  "is_i64 x \<longleftrightarrow> i64_min \<le> x \<and> x \<le> i64_max"

lemma wrap64_id: "is_i64 x \<Longrightarrow> wrap64 x = x"
  unfolding wrap64_def is_i64_def i64_min_def i64_max_def by (simp add: mod_pos_pos_trivial)

lemma wrap64_range: "is_i64 (wrap64 x)"
proof -
  have "0 \<le> (x + 9223372036854775808) mod 18446744073709551616"
    "(x + 9223372036854775808) mod 18446744073709551616 < (18446744073709551616 :: int)"
    by simp_all
  then show ?thesis unfolding is_i64_def wrap64_def i64_min_def i64_max_def by linarith
qed

lemma sat64_id: "is_i64 x \<Longrightarrow> sat64 x = x"
  by (simp add: sat64_def is_i64_def)

lemma sat64_range: "is_i64 (sat64 x)"
  by (simp add: sat64_def is_i64_def i64_min_def i64_max_def)

lemma sat64_mono: "x \<le> y \<Longrightarrow> sat64 x \<le> sat64 y"
  by (simp add: sat64_def i64_min_def i64_max_def)

lemma sat64_less_iff: "is_i64 d \<Longrightarrow> sat64 x < d \<longleftrightarrow> x < d \<and> i64_min < d"
  by (auto simp: sat64_def is_i64_def i64_min_def i64_max_def)

text \<open>Go's integer division and remainder truncate towards zero.\<close>

definition go_div :: "int \<Rightarrow> int \<Rightarrow> int" where
  "go_div a b = sgn a * sgn b * (\<bar>a\<bar> div \<bar>b\<bar>)"

definition go_rem :: "int \<Rightarrow> int \<Rightarrow> int" where
  "go_rem a b = a - b * go_div a b"

lemma go_div_nonneg: "0 \<le> a \<Longrightarrow> 0 < b \<Longrightarrow> go_div a b = a div b"
  by (cases "a = 0") (auto simp: go_div_def)

lemma go_rem_nonneg: "0 \<le> a \<Longrightarrow> 0 < b \<Longrightarrow> go_rem a b = a mod b"
  by (simp add: go_rem_def go_div_nonneg minus_mult_div_eq_mod)

section \<open>Go maps\<close>

type_synonym ('k, 'v) gomap = "('k \<times> 'v) list"

abbreviation mget :: "('k, 'v) gomap \<Rightarrow> 'k \<Rightarrow> 'v option" where
  "mget m k \<equiv> map_of m k"

fun mput :: "'k \<Rightarrow> 'v \<Rightarrow> ('k, 'v) gomap \<Rightarrow> ('k, 'v) gomap" where
  "mput k v [] = [(k, v)]"
| "mput k v ((a, b) # m) = (if a = k then (k, v) # m else (a, b) # mput k v m)"

fun mdel :: "'k \<Rightarrow> ('k, 'v) gomap \<Rightarrow> ('k, 'v) gomap" where
  "mdel k [] = []"
| "mdel k ((a, b) # m) = (if a = k then mdel k m else (a, b) # mdel k m)"

abbreviation mkeys :: "('k, 'v) gomap \<Rightarrow> 'k list" where
  "mkeys m \<equiv> map fst m"

abbreviation mhas :: "('k, 'v) gomap \<Rightarrow> 'k \<Rightarrow> bool" where
  "mhas m k \<equiv> k \<in> fst ` set m"

text \<open>One entry per key: the invariant every Go map has by construction.\<close>

definition wf_map :: "('k, 'v) gomap \<Rightarrow> bool" where
  "wf_map m \<longleftrightarrow> distinct (mkeys m)"

text \<open>Deleting in a \<^verbatim>\<open>range\<close> loop the entries that fail a test: safe in Go.\<close>

definition mfilter :: "('k \<Rightarrow> 'v \<Rightarrow> bool) \<Rightarrow> ('k, 'v) gomap \<Rightarrow> ('k, 'v) gomap" where
  "mfilter P m = filter (\<lambda>(k, v). P k v) m"

lemma mget_mput [simp, gomap]: "mget (mput k v m) = (mget m)(k \<mapsto> v)"
  by (induction m) (auto simp: fun_eq_iff)

lemma mget_mdel [simp, gomap]: "mget (mdel k m) = (mget m)(k := None)"
  by (induction m) (auto simp: fun_eq_iff)

lemma mkeys_mput: "mkeys (mput k v m) = (if mhas m k then mkeys m else mkeys m @ [k])"
  by (induction k v m rule: mput.induct) auto

lemma mkeys_mdel: "mkeys (mdel k m) = filter (\<lambda>a. a \<noteq> k) (mkeys m)"
  by (induction k m rule: mdel.induct) auto

lemma mhas_mput [simp, gomap]: "fst ` set (mput k v m) = insert k (fst ` set m)"
  by (induction k v m rule: mput.induct) auto

lemma mhas_mdel [simp, gomap]: "fst ` set (mdel k m) = fst ` set m - {k}"
  by (induction k m rule: mdel.induct) auto

lemma wf_map_Nil [simp, intro]: "wf_map []"
  by (simp add: wf_map_def)

lemma wf_map_mput [simp, intro]: "wf_map m \<Longrightarrow> wf_map (mput k v m)"
  by (simp add: wf_map_def mkeys_mput)

lemma wf_map_mdel [simp, intro]: "wf_map m \<Longrightarrow> wf_map (mdel k m)"
  by (simp add: wf_map_def mkeys_mdel)

lemma mdel_absent [simp]: "\<not> mhas m k \<Longrightarrow> mdel k m = m"
  by (induction k m rule: mdel.induct) auto

lemma length_mput: "length (mput k v m) = (if mhas m k then length m else Suc (length m))"
  by (induction k v m rule: mput.induct) auto

lemma length_mdel: "wf_map m \<Longrightarrow> length (mdel k m) = (if mhas m k then length m - 1 else length m)"
proof (induction k m rule: mdel.induct)
  case (2 k a b m)
  then show ?case by (cases m) (auto simp: wf_map_def)
qed simp

lemma length_mdel_le: "length (mdel k m) \<le> length m"
  by (induction m) auto

lemma set_mdel_subset: "set (mdel k m) \<subseteq> set m"
  by (induction k m rule: mdel.induct) auto

lemma set_mput_subset: "set (mput k v m) \<subseteq> insert (k, v) (set m)"
  by (induction k v m rule: mput.induct) auto

lemma mget_None_iff: "mget m k = None \<longleftrightarrow> \<not> mhas m k"
  by (simp add: map_of_eq_None_iff)

lemma mget_Some_mhas: "mget m k = Some v \<Longrightarrow> mhas m k"
  by (force dest: map_of_SomeD)

lemma mget_mem: "wf_map m \<Longrightarrow> (k, v) \<in> set m \<Longrightarrow> mget m k = Some v"
  by (simp add: wf_map_def)

lemma wf_map_mfilter [simp, intro]: "wf_map m \<Longrightarrow> wf_map (mfilter P m)"
  unfolding mfilter_def wf_map_def by (induction m) auto

lemma length_mfilter_le: "length (mfilter P m) \<le> length m"
  by (simp add: mfilter_def)

lemma mget_mfilter [gomap]:
  "wf_map m \<Longrightarrow> mget (mfilter P m) k =
     (case mget m k of None \<Rightarrow> None | Some v \<Rightarrow> if P k v then Some v else None)"
proof (induction m)
  case (Cons e m)
  obtain a b where e: "e = (a, b)" by (cases e)
  from Cons.prems e have "wf_map m" and a: "\<not> mhas m a" by (auto simp: wf_map_def)
  from a have "\<not> mhas (mfilter P m) a" unfolding mfilter_def by (induction m) auto
  then have "mget (mfilter P m) a = None" by (simp add: mget_None_iff)
  with Cons.IH [OF \<open>wf_map m\<close>] e show ?case by (auto simp: mfilter_def)
qed (simp add: mfilter_def)

lemma mkeys_mfilter_subset: "set (mkeys (mfilter P m)) \<subseteq> set (mkeys m)"
  by (auto simp: mfilter_def)

lemma mhas_mfilter_key: "mhas (mfilter (\<lambda>k v. P k) m) k \<longleftrightarrow> P k \<and> mhas m k"
  by (force simp: mfilter_def)

section \<open>Keeping the last entries of a log\<close>

definition take_last :: "nat \<Rightarrow> 'a list \<Rightarrow> 'a list" where
  "take_last n xs = drop (length xs - n) xs"

lemma length_take_last [simp]: "length (take_last n xs) = min n (length xs)"
  by (simp add: take_last_def)

lemma take_last_Nil [simp]: "take_last n [] = []"
  by (simp add: take_last_def)

lemma take_last_0 [simp]: "take_last 0 xs = []"
  by (simp add: take_last_def)

lemma take_last_all [simp]: "length xs \<le> n \<Longrightarrow> take_last n xs = xs"
  by (simp add: take_last_def)

lemma take_last_append: "n \<le> length ys \<Longrightarrow> take_last n (xs @ ys) = take_last n ys"
  by (simp add: take_last_def)

lemma take_last_take_last: "m \<le> n \<Longrightarrow> take_last m (take_last n xs) = take_last m xs"
  by (cases "n \<le> length xs") (simp_all add: take_last_def)

text \<open>Trimming before an append or after it is the same.\<close>

lemma take_last_push: "take_last n (take_last n xs @ ys) = take_last n (xs @ ys)"
proof (cases "length xs \<le> n")
  case False
  then have "length xs - (length xs - n) = n" by simp
  with False show ?thesis by (simp add: take_last_def add.commute)
qed simp

lemma last_take_last: "0 < n \<Longrightarrow> xs \<noteq> [] \<Longrightarrow> last (take_last n xs) = last xs"
  by (simp add: take_last_def)

lemma set_take_last: "set (take_last n xs) \<subseteq> set xs"
  by (simp add: take_last_def set_drop_subset)

lemma take_last_full: "length xs = n \<Longrightarrow> 0 < n \<Longrightarrow> take_last n (xs @ [x]) = tl xs @ [x]"
  by (simp add: take_last_def drop_Suc)

section \<open>A bounded log as an interface\<close>

text \<open>
  The program keeps several bounded histories (ring buffers, alert history, background runs, chat
  turns), each with its own code. What their clients rely on is one law: a push keeps the last
  \<open>cap s\<close> entries of the old contents followed by the new ones.
\<close>

locale bounded_log =
  fixes good :: "'s \<Rightarrow> bool"
    and cap :: "'s \<Rightarrow> nat"
    and view :: "'s \<Rightarrow> 'e list"
    and push :: "'e \<Rightarrow> 's \<Rightarrow> 's"
  assumes good_push: "good s \<Longrightarrow> good (push e s)"
    and cap_push: "good s \<Longrightarrow> cap (push e s) = cap s"
    and view_push: "good s \<Longrightarrow> view (push e s) = take_last (cap s) (view s @ [e])"
    and view_bound: "good s \<Longrightarrow> length (view s) \<le> cap s"
begin

lemma good_run: "good s \<Longrightarrow> good (fold push es s)"
  by (induction es arbitrary: s) (auto simp: good_push)

lemma cap_run: "good s \<Longrightarrow> cap (fold push es s) = cap s"
  by (induction es arbitrary: s) (auto simp: good_push cap_push)

lemma run_view: "good s \<Longrightarrow> view (fold push es s) = take_last (cap s) (view s @ es)"
proof (induction es arbitrary: s)
  case Nil
  then show ?case by (simp add: view_bound)
next
  case (Cons e es)
  then have "view (fold push (e # es) s) = take_last (cap s) (take_last (cap s) (view s @ [e]) @ es)"
    by (simp add: good_push cap_push view_push)
  also have "\<dots> = take_last (cap s) ((view s @ [e]) @ es)" by (rule take_last_push)
  finally show ?case by simp
qed

lemma run_bound: "good s \<Longrightarrow> length (view (fold push es s)) \<le> cap s"
  by (simp add: run_view)

lemma newest_last: "good s \<Longrightarrow> 0 < cap s \<Longrightarrow> last (view (push e s)) = e"
  by (simp add: view_push last_take_last)

end

end
