(* ===== verification/Steps.thy ===== *)
theory Steps
  imports Main
begin

text \<open>
  What the parts of the program that run beside each other share: each is a relation of steps on a state, an interleaving
  is a run of that relation, and what every step keeps holds in every state that is reached. Where each step also
  takes something away and only a final state has no step ahead, every run comes to its end.
\<close>

locale invariant_steps =
  fixes step :: "'s \<Rightarrow> 's \<Rightarrow> bool" and inv :: "'s \<Rightarrow> bool"
  assumes keeps: "step s s' \<Longrightarrow> inv s \<Longrightarrow> inv s'"
begin

lemma steps_keep: "step\<^sup>*\<^sup>* s s' \<Longrightarrow> inv s \<Longrightarrow> inv s'"
  by (induction rule: rtranclp_induct) (auto intro: keeps)

lemma run_keep: "(step ^^ n) s s' \<Longrightarrow> inv s \<Longrightarrow> inv s'"
  using steps_keep relpowp_imp_rtranclp by fast

end

locale ending_steps = invariant_steps step inv for step inv +
  fixes rank :: "'s \<Rightarrow> nat" and final :: "'s \<Rightarrow> bool"
  assumes goes_down: "step s s' \<Longrightarrow> inv s \<Longrightarrow> rank s' < rank s"
    and goes_on: "inv s \<Longrightarrow> \<not> final s \<Longrightarrow> \<exists>s'. step s s'"
begin

lemma run_short: "(step ^^ n) s s' \<Longrightarrow> inv s \<Longrightarrow> n + rank s' \<le> rank s"
proof (induction n arbitrary: s')
  case (Suc n)
  then obtain u where u: "(step ^^ n) s u" "step u s'" by (auto elim: relpowp_Suc_E)
  then show ?case using Suc.IH [OF u(1) Suc.prems(2)] goes_down [OF u(2) run_keep [OF u(1) Suc.prems(2)]] by simp
qed simp

text \<open>From every state the end can still be reached, and a run that cannot go on has reached it.\<close>

lemma ends: "inv s \<Longrightarrow> \<exists>s'. step\<^sup>*\<^sup>* s s' \<and> final s'"
proof (induction "rank s" arbitrary: s rule: less_induct)
  case less
  show ?case
  proof (cases "final s")
    case False
    then obtain u where u: "step s u" using goes_on less.prems by blast
    then show ?thesis
      using less.hyps [OF goes_down [OF u less.prems] keeps [OF u less.prems]] converse_rtranclp_into_rtranclp by fastforce
  qed blast
qed

lemma no_endless_run: "inv (f 0) \<Longrightarrow> \<not> (\<forall>i. step (f i) (f (Suc i)))"
proof
  assume i: "inv (f 0)" and f: "\<forall>i. step (f i) (f (Suc i))"
  have "(step ^^ n) (f 0) (f n)" for n using f by (induction n) auto
  from run_short [OF this i, of "Suc (rank (f 0))"] show False by simp
qed

end

end
