(* ===== verification/Emitter.thy ===== *)
theory Emitter
  imports Prelude Steps "HOL-Library.Multiset"
begin

text \<open>
  \<^verbatim>\<open>internal/event/emitter.go\<close>: the non-blocking publisher every component reports through. A
  subscriber is a number; a notification is a subscriber with the event type and payload it is
  called with. The semaphore of 64 slots is the list of notifications in flight. \<^verbatim>\<open>Emit\<close> copies
  the subscribers under the lock and then dispatches one notification after the other, while other
  goroutines subscribe, emit, and finish (or panic in) their handlers: the step relation lets these
  interleave in every order.
\<close>

record 'd notification =
  n_sub :: nat
  n_type :: gostring
  n_data :: 'd

record 'd Emitter =
  em_subs :: "nat list"
  em_typedOn :: "(gostring, nat list) gomap"
  em_sem :: "'d notification list"
  em_delivered :: "'d notification list"
  em_panics :: "'d notification list"
  em_dropped :: "'d notification list"

definition sem_cap :: nat where "sem_cap = 64"

definition NewEmitter :: "'d Emitter" where
  "NewEmitter = \<lparr>em_subs = [], em_typedOn = [], em_sem = [], em_delivered = [], em_panics = [], em_dropped = []\<rparr>"

definition Subscribe :: "nat \<Rightarrow> 'd Emitter \<Rightarrow> 'd Emitter" where
  "Subscribe fn e = e\<lparr>em_subs := em_subs e @ [fn]\<rparr>"

definition typed_handlers :: "gostring \<Rightarrow> 'd Emitter \<Rightarrow> nat list" where
  "typed_handlers t e = (case mget (em_typedOn e) t of None \<Rightarrow> [] | Some fs \<Rightarrow> fs)"

definition On :: "gostring \<Rightarrow> nat \<Rightarrow> 'd Emitter \<Rightarrow> 'd Emitter" where
  "On t fn e = e\<lparr>em_typedOn := mput t (typed_handlers t e @ [fn]) (em_typedOn e)\<rparr>"

text \<open>The notifications an emission has to dispatch, in order: all subscribers, then the typed ones.\<close>

definition emit_plan :: "gostring \<Rightarrow> 'd \<Rightarrow> 'd Emitter \<Rightarrow> 'd notification list" where
  "emit_plan t d e = map (\<lambda>fn. \<lparr>n_sub = fn, n_type = t, n_data = d\<rparr>) (em_subs e @ typed_handlers t e)"

text \<open>\<^verbatim>\<open>dispatch\<close>: take a slot of the semaphore or drop the notification; never wait.\<close>

definition dispatch :: "'d notification \<Rightarrow> 'd Emitter \<Rightarrow> 'd Emitter" where
  "dispatch n e =
     (if length (em_sem e) < sem_cap then e\<lparr>em_sem := em_sem e @ [n]\<rparr>
      else e\<lparr>em_dropped := em_dropped e @ [n]\<rparr>)"

text \<open>\<^verbatim>\<open>Emit\<close> when nothing else runs in between.\<close>

definition Emit :: "gostring \<Rightarrow> 'd \<Rightarrow> 'd Emitter \<Rightarrow> 'd Emitter" where
  "Emit t d e = fold dispatch (emit_plan t d e) e"

text \<open>The handler of one notification in flight ends, by returning or in a recovered panic.\<close>

definition finish :: "bool \<Rightarrow> 'd notification \<Rightarrow> 'd Emitter \<Rightarrow> 'd Emitter" where
  "finish panics n e =
     (let e = e\<lparr>em_sem := remove1 n (em_sem e)\<rparr>
      in if panics then e\<lparr>em_panics := em_panics e @ [n]\<rparr> else e\<lparr>em_delivered := em_delivered e @ [n]\<rparr>)"

section \<open>Interleavings\<close>

text \<open>
  A state of the whole: the emitter and, per emission under way, what it still has to dispatch.
\<close>

type_synonym 'd emission = "'d notification list"
type_synonym 'd emit_state = "'d Emitter \<times> 'd emission list"

inductive emit_step :: "'d emit_state \<Rightarrow> 'd emit_state \<Rightarrow> bool" where
  step_subscribe: "emit_step (e, q) (Subscribe fn e, q)"
| step_on: "emit_step (e, q) (On t fn e, q)"
| step_emit: "emit_step (e, q) (e, q @ [emit_plan t d e])"
| step_dispatch: "emit_step (e, q1 @ (n # ns) # q2) (dispatch n e, q1 @ ns # q2)"
| step_finish: "n \<in> set (em_sem e) \<Longrightarrow> emit_step (e, q) (finish panics n e, q)"

definition emit_reachable :: "'d emit_state \<Rightarrow> bool" where "emit_reachable s \<longleftrightarrow> emit_step\<^sup>*\<^sup>* (NewEmitter, []) s"

inductive_cases emit_stepE [elim]: "emit_step (e, q) s'"

definition pending :: "'d emission list \<Rightarrow> 'd notification multiset" where
  "pending q = mset (concat q)"

definition settled :: "'d Emitter \<Rightarrow> 'd notification multiset" where
  "settled e = mset (em_sem e) + mset (em_delivered e) + mset (em_panics e) + mset (em_dropped e)"

lemma settled_dispatch: "settled (dispatch n e) = add_mset n (settled e)"
  by (simp add: settled_def dispatch_def)

lemma settled_finish: "n \<in> set (em_sem e) \<Longrightarrow> settled (finish p n e) = settled e"
  by (simp add: settled_def finish_def Let_def)

lemma settled_register [simp]: "settled (Subscribe fn e) = settled e" "settled (On t fn e) = settled e"
  by (simp_all add: settled_def Subscribe_def On_def)

lemma pending_split: "pending (q1 @ (n # ns) # q2) = add_mset n (pending (q1 @ ns # q2))"
  by (simp add: pending_def)

definition bounded :: "'d Emitter \<Rightarrow> bool" where
  "bounded e \<longleftrightarrow> length (em_sem e) \<le> sem_cap"

lemma bounded_dispatch: "bounded e \<Longrightarrow> bounded (dispatch n e)"
  by (simp add: bounded_def dispatch_def)

lemma bounded_finish: "bounded e \<Longrightarrow> bounded (finish p n e)"
  by (simp add: bounded_def finish_def Let_def length_remove1 le_diff_conv)

lemma bounded_register [simp]: "bounded (Subscribe fn e) = bounded e" "bounded (On t fn e) = bounded e"
  by (simp_all add: bounded_def Subscribe_def On_def)

interpretation emit_bound: invariant_steps emit_step "\<lambda>s. bounded (fst s)"
  by unfold_locales (auto elim!: emit_step.cases simp: bounded_dispatch bounded_finish)

lemma reachable_bounded: "emit_reachable s \<Longrightarrow> bounded (fst s)"
  unfolding emit_reachable_def by (erule emit_bound.steps_keep) (simp add: bounded_def NewEmitter_def)

text \<open>One step other than starting an emission keeps the notifications there are.\<close>

lemma step_accounts:
  assumes "emit_step (e, q) (e', q')"
  shows "settled e' + pending q' = settled e + pending q \<or>
    (e' = e \<and> (\<exists>t d. q' = q @ [emit_plan t d e]))"
  using assms
  by cases (auto simp: settled_dispatch settled_finish pending_split)

text \<open>
  C27. Whatever the interleaving, at most 64 handlers run at once, and a step either starts a new
  emission, whose plan it adds, or moves notifications without losing or duplicating one: each is
  waiting for its dispatch, in flight, delivered, ended in a recovered panic, or counted as dropped.
\<close>

theorem emitter_accounts:
  assumes "emit_reachable (e, q)" and "emit_step (e, q) (e', q')"
  shows "length (em_sem e') \<le> 64 \<and>
    (settled e' + pending q' = settled e + pending q \<or>
     (\<exists>t d. settled e' + pending q' = settled e + pending q + mset (emit_plan t d e)))"
proof -
  have "bounded e'" using emit_bound.keeps [OF assms(2)] reachable_bounded [OF assms(1)] by simp
  moreover have "settled e' + pending q' = settled e + pending q \<or>
     (\<exists>t d. settled e' + pending q' = settled e + pending q + mset (emit_plan t d e))"
    using step_accounts [OF assms(2)]
  proof
    assume "e' = e \<and> (\<exists>t d. q' = q @ [emit_plan t d e])"
    then obtain t d where "e' = e" "q' = q @ [emit_plan t d e]" by blast
    then have "settled e' + pending q' = settled e + pending q + mset (emit_plan t d e)"
      by (simp add: pending_def)
    then show ?thesis by blast
  qed blast
  ultimately show ?thesis by (simp add: bounded_def sem_cap_def)
qed

theorem emitter_accounts_witness:
  "length (em_sem (Subscribe 3 (NewEmitter :: nat Emitter))) \<le> 64"
  using emitter_accounts [OF _ step_subscribe [of NewEmitter "[]" 3]] by (simp add: emit_reachable_def)

lemma fold_dispatch_room:
  "length (em_sem e) + length ns \<le> sem_cap \<Longrightarrow> fold dispatch ns e = e\<lparr>em_sem := em_sem e @ ns\<rparr>"
proof (induction ns arbitrary: e)
  case (Cons n ns)
  then have "dispatch n e = e\<lparr>em_sem := em_sem e @ [n]\<rparr>" by (simp add: dispatch_def)
  with Cons show ?case by simp
qed simp

text \<open>
  When there is room in the semaphore an emission drops nothing: exactly the subscribers and the
  handlers of its type are started, in registration order, with its type and payload, and the
  registrations are unchanged.
\<close>

theorem Emit_delivers:
  assumes "length (em_sem e) + length (em_subs e) + length (typed_handlers t e) \<le> 64"
  shows "Emit t d e = e\<lparr>em_sem := em_sem e @
     map (\<lambda>fn. \<lparr>n_sub = fn, n_type = t, n_data = d\<rparr>) (em_subs e) @
     map (\<lambda>fn. \<lparr>n_sub = fn, n_type = t, n_data = d\<rparr>) (typed_handlers t e)\<rparr>"
  unfolding Emit_def using assms by (subst fold_dispatch_room) (simp_all add: emit_plan_def sem_cap_def)

theorem Emit_delivers_witness:
  "map n_sub (em_sem (Emit ''alert'' (7 :: nat) (On ''alert'' 2 (Subscribe 1 NewEmitter)))) = [1, 2]"
  using Emit_delivers [of "On ''alert'' 2 (Subscribe 1 NewEmitter)" "''alert''" "7 :: nat"]
  by (simp add: On_def Subscribe_def NewEmitter_def typed_handlers_def)

end
