(* ===== verification/GoText.thy ===== *)
theory GoText
  imports Prelude
begin

text \<open>
  The functions of Go's \<^verbatim>\<open>strings\<close>, \<^verbatim>\<open>strconv\<close> and \<^verbatim>\<open>bytes\<close> packages that the program calls.
  A Go string is a sequence of bytes, a HOL \<open>string\<close>. \<^verbatim>\<open>TrimSpace\<close> and \<^verbatim>\<open>Fields\<close> are exact, the
  multi-byte white space of Unicode included. Case mapping is exact on ASCII; on a string with a
  byte from 128 up it needs the Unicode tables, which are not modelled: there the result is an
  unspecified string, so every theorem holds whatever the tables say.
\<close>

section \<open>Bytes and case\<close>

abbreviation byte_val :: "char \<Rightarrow> nat" where
  "byte_val c \<equiv> of_char c"

definition ascii_byte :: "char \<Rightarrow> bool" where
  "ascii_byte c \<longleftrightarrow> byte_val c < 128"

definition lower_byte :: "char \<Rightarrow> char" where
  "lower_byte c = (if 65 \<le> byte_val c \<and> byte_val c \<le> 90 then char_of (byte_val c + 32) else c)"

definition upper_byte :: "char \<Rightarrow> char" where
  "upper_byte c = (if 97 \<le> byte_val c \<and> byte_val c \<le> 122 then char_of (byte_val c - 32) else c)"

definition all_ascii :: "gostring \<Rightarrow> bool" where
  "all_ascii s \<longleftrightarrow> list_all ascii_byte s"

text \<open>The Unicode parts: fixed but unspecified.\<close>

definition unicode_lower :: "gostring \<Rightarrow> gostring" where "unicode_lower = undefined"
definition unicode_upper :: "gostring \<Rightarrow> gostring" where "unicode_upper = undefined"
definition unicode_fold :: "gostring \<Rightarrow> gostring" where "unicode_fold = undefined"

definition to_lower :: "gostring \<Rightarrow> gostring" where
  "to_lower s = (if all_ascii s then map lower_byte s else unicode_lower s)"

definition to_upper :: "gostring \<Rightarrow> gostring" where
  "to_upper s = (if all_ascii s then map upper_byte s else unicode_upper s)"

text \<open>\<^verbatim>\<open>strings.EqualFold\<close>: equality of case-folded forms.\<close>

definition fold_form :: "gostring \<Rightarrow> gostring" where
  "fold_form s = (if all_ascii s then map lower_byte s else unicode_fold s)"

definition equal_fold :: "gostring \<Rightarrow> gostring \<Rightarrow> bool" where
  "equal_fold s t \<longleftrightarrow> fold_form s = fold_form t"

lemma equal_fold_refl [simp]: "equal_fold s s"
  by (simp add: equal_fold_def)

lemma equal_fold_sym: "equal_fold s t \<longleftrightarrow> equal_fold t s"
  by (auto simp: equal_fold_def)

lemma equal_fold_trans [trans]: "equal_fold s t \<Longrightarrow> equal_fold t u \<Longrightarrow> equal_fold s u"
  by (simp add: equal_fold_def)

lemma lower_byte_ascii [simp]: "ascii_byte (lower_byte c) = ascii_byte c"
  by (simp add: ascii_byte_def lower_byte_def)

lemma lower_byte_idem [simp]: "lower_byte (lower_byte c) = lower_byte c"
  by (simp add: lower_byte_def)

lemma all_ascii_map_lower [simp]: "all_ascii (map lower_byte s) = all_ascii s"
  by (simp add: all_ascii_def list.pred_map o_def)

lemma all_ascii_Nil [simp]: "all_ascii []"
  by (simp add: all_ascii_def)

lemma all_ascii_append [simp]: "all_ascii (s @ t) \<longleftrightarrow> all_ascii s \<and> all_ascii t"
  by (simp add: all_ascii_def)

lemma all_ascii_Cons: "all_ascii (c # s) \<longleftrightarrow> ascii_byte c \<and> all_ascii s"
  by (simp add: all_ascii_def)

lemma to_lower_Nil [simp]: "to_lower [] = []"
  by (simp add: to_lower_def)

lemma to_lower_idem_ascii: "all_ascii s \<Longrightarrow> to_lower (to_lower s) = to_lower s"
  by (simp add: to_lower_def)

lemma equal_fold_to_lower_ascii: "all_ascii s \<Longrightarrow> equal_fold (to_lower s) s"
  by (simp add: equal_fold_def fold_form_def to_lower_def)

section \<open>White space\<close>

text \<open>
  The number of bytes of the white space character (\<^verbatim>\<open>unicode.IsSpace\<close>) a string starts with,
  0 when it starts with none, and the same for the end of a string, given reversed.
\<close>

definition ascii_space :: "nat \<Rightarrow> bool" where
  "ascii_space n \<longleftrightarrow> n = 32 \<or> (9 \<le> n \<and> n \<le> 13)"

definition space3 :: "nat \<Rightarrow> nat \<Rightarrow> nat \<Rightarrow> bool" where
  "space3 a b c \<longleftrightarrow>
     (a = 225 \<and> b = 154 \<and> c = 128) \<or>
     (a = 226 \<and> b = 128 \<and> ((128 \<le> c \<and> c \<le> 138) \<or> c = 168 \<or> c = 169 \<or> c = 175)) \<or>
     (a = 226 \<and> b = 129 \<and> c = 159) \<or>
     (a = 227 \<and> b = 128 \<and> c = 128)"

definition space2 :: "nat \<Rightarrow> nat \<Rightarrow> bool" where
  "space2 a b \<longleftrightarrow> a = 194 \<and> (b = 133 \<or> b = 160)"

fun ws_len :: "gostring \<Rightarrow> nat" where
  "ws_len [] = 0"
| "ws_len (a # s) =
     (if ascii_space (byte_val a) then 1
      else case s of
        [] \<Rightarrow> 0
      | b # t \<Rightarrow>
          if space2 (byte_val a) (byte_val b) then 2
          else (case t of [] \<Rightarrow> 0 | c # u \<Rightarrow>
                  if space3 (byte_val a) (byte_val b) (byte_val c) then 3 else 0))"

fun ws_len_rev :: "gostring \<Rightarrow> nat" where
  "ws_len_rev [] = 0"
| "ws_len_rev (a # s) =
     (if ascii_space (byte_val a) then 1
      else case s of
        [] \<Rightarrow> 0
      | b # t \<Rightarrow>
          if space2 (byte_val b) (byte_val a) then 2
          else (case t of [] \<Rightarrow> 0 | c # u \<Rightarrow>
                  if space3 (byte_val c) (byte_val b) (byte_val a) then 3 else 0))"

lemma ws_len_le: "ws_len s \<le> length s"
  by (cases s rule: ws_len.cases) (auto split: list.splits)

lemma ws_len_rev_le: "ws_len_rev s \<le> length s"
  by (cases s rule: ws_len_rev.cases) (auto split: list.splits)

lemma ws_len_dec: "0 < ws_len s \<Longrightarrow> length s - ws_len s < length s"
  using ws_len_le [of s] by simp

lemma ws_len_rev_dec: "0 < ws_len_rev s \<Longrightarrow> length s - ws_len_rev s < length s"
  using ws_len_rev_le [of s] by simp

function trim_left :: "gostring \<Rightarrow> gostring" where
  "trim_left s = (if ws_len s = 0 then s else trim_left (drop (ws_len s) s))"
  by pat_completeness auto
termination
  by (relation "measure length") (auto simp del: ws_len.simps intro: ws_len_dec)

function trim_left_rev :: "gostring \<Rightarrow> gostring" where
  "trim_left_rev s = (if ws_len_rev s = 0 then s else trim_left_rev (drop (ws_len_rev s) s))"
  by pat_completeness auto
termination
  by (relation "measure length") (auto simp del: ws_len_rev.simps intro: ws_len_rev_dec)

declare trim_left.simps [simp del] trim_left_rev.simps [simp del]

definition trim_right_space :: "gostring \<Rightarrow> gostring" where
  "trim_right_space s = rev (trim_left_rev (rev s))"

definition trim_space :: "gostring \<Rightarrow> gostring" where
  "trim_space s = trim_right_space (trim_left s)"

lemma ws_len_trim_left [simp]: "ws_len (trim_left s) = 0"
  by (induction s rule: trim_left.induct) (simp add: trim_left.simps)

lemma ws_len_rev_trim [simp]: "ws_len_rev (trim_left_rev s) = 0"
  by (induction s rule: trim_left_rev.induct) (simp add: trim_left_rev.simps)

lemma trim_left_id: "ws_len s = 0 \<Longrightarrow> trim_left s = s"
  by (simp add: trim_left.simps)

lemma trim_left_rev_id: "ws_len_rev s = 0 \<Longrightarrow> trim_left_rev s = s"
  by (simp add: trim_left_rev.simps)

lemma trim_left_rev_suffix: "\<exists>p. s = p @ trim_left_rev s"
proof (induction s rule: trim_left_rev.induct)
  case (1 s)
  show ?case
  proof (cases "ws_len_rev s = 0")
    case True
    then show ?thesis by (simp add: trim_left_rev_id)
  next
    case False
    then obtain p where "drop (ws_len_rev s) s = p @ trim_left_rev (drop (ws_len_rev s) s)"
      using "1.IH" by blast
    then have "s = take (ws_len_rev s) s @ p @ trim_left_rev s"
      using False by (metis append_take_drop_id trim_left_rev.simps)
    then show ?thesis by (metis append_assoc)
  qed
qed

text \<open>Cutting the end of a string off does not make white space appear at its start.\<close>

lemma ws_len_prefix: "ws_len (p @ q) = 0 \<Longrightarrow> ws_len p = 0"
  by (cases p rule: ws_len.cases) (auto split: list.splits if_splits)

lemma trim_space_idem [simp]: "trim_space (trim_space s) = trim_space s"
proof -
  define t where "t = trim_left s"
  obtain p where p: "rev t = p @ trim_left_rev (rev t)"
    using trim_left_rev_suffix by blast
  have "rev (rev t) = rev (trim_left_rev (rev t)) @ rev p"
    by (subst p) simp
  then have "t = trim_right_space t @ rev p"
    by (simp add: trim_right_space_def)
  then have "ws_len (trim_right_space t) = 0"
    using ws_len_prefix ws_len_trim_left t_def by metis
  moreover have "trim_right_space (trim_right_space t) = trim_right_space t"
    by (simp add: trim_right_space_def trim_left_rev_id)
  ultimately show ?thesis
    by (simp add: trim_space_def trim_left_id t_def [symmetric])
qed

lemma trim_space_Nil [simp]: "trim_space [] = []"
  by (simp add: trim_space_def trim_left_id trim_right_space_def trim_left_rev_id)

section \<open>Searching\<close>

definition has_prefix :: "gostring \<Rightarrow> gostring \<Rightarrow> bool" where
  "has_prefix s p \<longleftrightarrow> take (length p) s = p"

definition has_suffix :: "gostring \<Rightarrow> gostring \<Rightarrow> bool" where
  "has_suffix s p \<longleftrightarrow> length p \<le> length s \<and> drop (length s - length p) s = p"

definition trim_prefix :: "gostring \<Rightarrow> gostring \<Rightarrow> gostring" where
  "trim_prefix s p = (if has_prefix s p then drop (length p) s else s)"

definition trim_suffix :: "gostring \<Rightarrow> gostring \<Rightarrow> gostring" where
  "trim_suffix s p = (if has_suffix s p then take (length s - length p) s else s)"

text \<open>\<^verbatim>\<open>strings.Index\<close>, with \<open>None\<close> for -1.\<close>

fun str_index :: "gostring \<Rightarrow> gostring \<Rightarrow> nat option" where
  "str_index [] p = (if p = [] then Some 0 else None)"
| "str_index (c # s) p =
     (if has_prefix (c # s) p then Some 0 else map_option Suc (str_index s p))"

definition str_contains :: "gostring \<Rightarrow> gostring \<Rightarrow> bool" where
  "str_contains s p \<longleftrightarrow> str_index s p \<noteq> None"

text \<open>\<^verbatim>\<open>strings.IndexByte\<close>.\<close>

fun index_byte :: "gostring \<Rightarrow> char \<Rightarrow> nat option" where
  "index_byte [] b = None"
| "index_byte (c # s) b = (if c = b then Some 0 else map_option Suc (index_byte s b))"

lemma has_prefix_append: "has_prefix (p @ s) p"
  by (simp add: has_prefix_def)

lemma has_prefix_iff: "has_prefix s p \<longleftrightarrow> (\<exists>t. s = p @ t)"
  unfolding has_prefix_def by (metis append_take_drop_id append_eq_conv_conj)

lemma has_suffix_iff: "has_suffix s p \<longleftrightarrow> (\<exists>t. s = t @ p)"
proof
  show "has_suffix s p \<Longrightarrow> \<exists>t. s = t @ p"
    unfolding has_suffix_def by (metis append_take_drop_id)
qed (auto simp: has_suffix_def)

lemma has_suffix_tail: "length q \<le> length p \<Longrightarrow> has_suffix (s @ p) q \<longleftrightarrow> has_suffix p q"
  by (auto simp: has_suffix_def)

lemma has_suffix_last: "q \<noteq> [] \<Longrightarrow> last s \<noteq> last q \<Longrightarrow> \<not> has_suffix s q"
  by (auto simp: has_suffix_iff)

lemma trim_suffix_append [simp]: "trim_suffix (s @ p) p = s"
  by (simp add: trim_suffix_def has_suffix_def)

lemma trim_suffix_none: "\<not> has_suffix s p \<Longrightarrow> trim_suffix s p = s"
  by (simp add: trim_suffix_def)

lemma str_index_Some: "str_index s p = Some i \<Longrightarrow> \<exists>t u. s = t @ p @ u \<and> length t = i"
proof (induction s arbitrary: i)
  case Nil
  then show ?case by (simp split: if_splits)
next
  case (Cons c s)
  show ?case
  proof (cases "has_prefix (c # s) p")
    case True
    then show ?thesis using Cons.prems has_prefix_iff [of "c # s" p] by auto
  next
    case False
    then obtain j where "str_index s p = Some j" and "i = Suc j"
      using Cons.prems by auto
    then obtain t u where "s = t @ p @ u" "length t = j" using Cons.IH by blast
    then have "c # s = (c # t) @ p @ u \<and> length (c # t) = i" using \<open>i = Suc j\<close> by simp
    then show ?thesis by blast
  qed
qed

lemma str_index_complete: "str_index (t @ p @ u) p \<noteq> None"
proof (induction t)
  case Nil
  show ?case using has_prefix_append [of p u] by (cases "p @ u") auto
qed auto

lemma str_contains_iff: "str_contains s p \<longleftrightarrow> (\<exists>t u. s = t @ p @ u)"
  unfolding str_contains_def using str_index_Some str_index_complete by fastforce

lemma index_byte_Some:
  "index_byte s b = Some i \<Longrightarrow> i < length s \<and> s ! i = b \<and> b \<notin> set (take i s)"
  by (induction s arbitrary: i) (auto split: if_splits)

lemma index_byte_None: "index_byte s b = None \<longleftrightarrow> b \<notin> set s"
  by (induction s) auto

section \<open>Splitting, trimming and joining\<close>

fun split_byte :: "char \<Rightarrow> gostring \<Rightarrow> gostring list" where
  "split_byte b [] = [[]]"
| "split_byte b (c # s) =
     (if c = b then [] # split_byte b s
      else case split_byte b s of [] \<Rightarrow> [[c]] | w # ws \<Rightarrow> (c # w) # ws)"

definition trim_right_byte :: "char \<Rightarrow> gostring \<Rightarrow> gostring" where
  "trim_right_byte b s = rev (dropWhile (\<lambda>c. c = b) (rev s))"

definition trim_byte :: "char \<Rightarrow> gostring \<Rightarrow> gostring" where
  "trim_byte b s = trim_right_byte b (dropWhile (\<lambda>c. c = b) s)"

fun str_join :: "gostring \<Rightarrow> gostring list \<Rightarrow> gostring" where
  "str_join sep [] = []"
| "str_join sep [w] = w"
| "str_join sep (w # v # ws) = w @ sep @ str_join sep (v # ws)"

text \<open>
  \<^verbatim>\<open>strings.Fields\<close>. The first argument is the word being read, reversed; the second counts
  the bytes of a white space character still to be skipped.
\<close>

fun fields_loop :: "gostring \<Rightarrow> nat \<Rightarrow> gostring \<Rightarrow> gostring list" where
  "fields_loop w k [] = (if w = [] then [] else [rev w])"
| "fields_loop w (Suc k) (c # s) = fields_loop w k s"
| "fields_loop w 0 (c # s) =
     (if ws_len (c # s) = 0 then fields_loop (c # w) 0 s
      else (if w = [] then [] else [rev w]) @ fields_loop [] (ws_len (c # s) - 1) s)"

definition str_fields :: "gostring \<Rightarrow> gostring list" where
  "str_fields s = fields_loop [] 0 s"

lemma fields_nonempty: "w \<in> set (fields_loop acc k s) \<Longrightarrow> w \<noteq> []"
  by (induction acc k s rule: fields_loop.induct) (auto split: if_splits)

lemma split_byte_nonempty: "split_byte b s \<noteq> []"
  by (induction s) (auto split: list.splits)

lemma split_join: "str_join [b] (split_byte b s) = s"
proof (induction s)
  case (Cons c s)
  obtain w ws where "split_byte b s = w # ws"
    using split_byte_nonempty [of b s] by (cases "split_byte b s") auto
  with Cons show ?case by (cases ws) auto
qed simp

lemma split_byte_no_sep: "w \<in> set (split_byte b s) \<Longrightarrow> b \<notin> set w"
  by (induction s arbitrary: w) (auto split: if_splits list.splits)

section \<open>Decimal numbers\<close>

definition digit_char :: "nat \<Rightarrow> char" where
  "digit_char d = char_of (48 + d)"

definition digit_val :: "char \<Rightarrow> nat option" where
  "digit_val c = (if 48 \<le> byte_val c \<and> byte_val c \<le> 57 then Some (byte_val c - 48) else None)"

fun nat_str :: "nat \<Rightarrow> gostring" where
  "nat_str n = (if n < 10 then [digit_char n] else nat_str (n div 10) @ [digit_char (n mod 10)])"

declare nat_str.simps [simp del]

definition int_str :: "int \<Rightarrow> gostring" where
  "int_str i = (if i < 0 then CHR ''-'' # nat_str (nat (- i)) else nat_str (nat i))"

datatype num_error = NumSyntax | NumRange

text \<open>
  The loop of \<^verbatim>\<open>strconv.ParseUint\<close> for base 10 and the given bit size: the value read so far, and
  the value and error returned (on overflow the maximum, on a bad digit 0).
\<close>

fun parse_uint_loop :: "nat \<Rightarrow> nat \<Rightarrow> gostring \<Rightarrow> nat \<times> num_error option" where
  "parse_uint_loop bits n [] = (n, None)"
| "parse_uint_loop bits n (c # s) =
     (case digit_val c of
        None \<Rightarrow> (0, Some NumSyntax)
      | Some d \<Rightarrow>
          if 2 ^ bits - 1 < 10 * n + d then (2 ^ bits - 1, Some NumRange)
          else parse_uint_loop bits (10 * n + d) s)"

definition parse_uint :: "nat \<Rightarrow> gostring \<Rightarrow> nat \<times> num_error option" where
  "parse_uint bits s = (if s = [] then (0, Some NumSyntax) else parse_uint_loop bits 0 s)"

lemma digit_val_char [simp]: "d < 10 \<Longrightarrow> digit_val (digit_char d) = Some d"
  by (simp add: digit_val_def digit_char_def)

lemma digit_char_inj: "a < 10 \<Longrightarrow> b < 10 \<Longrightarrow> digit_char a = digit_char b \<longleftrightarrow> a = b"
  using digit_val_char by fastforce

lemma nat_str_nonempty [simp]: "nat_str n \<noteq> []"
  by (subst nat_str.simps) simp

lemma parse_uint_loop_append:
  "parse_uint_loop bits n (s @ t) =
     (case parse_uint_loop bits n s of
        (m, None) \<Rightarrow> parse_uint_loop bits m t
      | (m, Some e) \<Rightarrow> (m, Some e))"
  by (induction bits n s rule: parse_uint_loop.induct) (auto split: option.splits)

text \<open>Printing a number and parsing it back.\<close>

lemma parse_uint_loop_nat_str: "n < 2 ^ bits \<Longrightarrow> parse_uint_loop bits 0 (nat_str n) = (n, None)"
proof (induction n rule: nat_str.induct)
  case (1 n)
  show ?case
  proof (cases "n < 10")
    case True
    with "1.prems" show ?thesis by (simp add: nat_str.simps [of n])
  next
    case False
    from "1.prems" have "n div 10 < 2 ^ bits" by linarith
    with False "1.IH" have "parse_uint_loop bits 0 (nat_str (n div 10)) = (n div 10, None)"
      by blast
    with False "1.prems" show ?thesis
      by (simp add: nat_str.simps [of n] parse_uint_loop_append not_less)
  qed
qed

lemma parse_uint_nat_str: "n < 2 ^ bits \<Longrightarrow> parse_uint bits (nat_str n) = (n, None)"
  by (simp add: parse_uint_def parse_uint_loop_nat_str)

lemma nat_str_inj: "nat_str m = nat_str n \<longleftrightarrow> m = n"
proof
  assume eq: "nat_str m = nat_str n"
  define k where "k = m + n"
  have "m < 2 ^ k" "n < 2 ^ k"
    unfolding k_def by (meson less_exp le_less_trans le_add1 le_add2 )+
  then have "(m, None) = (n, None :: num_error option)"
    using parse_uint_nat_str eq by metis
  then show "m = n" by simp
qed simp

lemma parse_uint_bound: "parse_uint bits s = (n, e) \<Longrightarrow> n < 2 ^ bits"
proof -
  have "m < 2 ^ bits \<Longrightarrow> fst (parse_uint_loop bits m s) < 2 ^ bits" for m
    by (induction bits m s rule: parse_uint_loop.induct) (auto split: option.splits)
  from this [of 0] show "parse_uint bits s = (n, e) \<Longrightarrow> n < 2 ^ bits"
    by (auto simp: parse_uint_def split: if_splits)
qed

lemma digit_char_not_slash: "d < 10 \<Longrightarrow> digit_char d \<noteq> CHR ''/''"
proof
  assume "d < 10" and "digit_char d = CHR ''/''"
  then have "digit_val (CHR ''/'') = Some d" by (metis digit_val_char)
  then show False by (simp add: digit_val_def)
qed

lemma nat_str_no_slash: "CHR ''/'' \<notin> set (nat_str n)"
proof (induction n rule: nat_str.induct)
  case (1 n)
  then show ?case
    using digit_char_not_slash [of n] digit_char_not_slash [of "n mod 10"]
    by (auto simp: nat_str.simps [of n])
qed

lemma nat_str_digits: "c \<in> set (nat_str n) \<Longrightarrow> 48 \<le> byte_val c \<and> byte_val c \<le> 57"
proof (induction n rule: nat_str.induct)
  case (1 n)
  have "48 \<le> byte_val (digit_char d) \<and> byte_val (digit_char d) \<le> 57" if "d < 10" for d
    using that by (simp add: digit_char_def)
  with 1 show ?case by (auto simp: nat_str.simps [of n] split: if_splits)
qed

lemma all_ascii_nat_str [simp]: "all_ascii (nat_str n)"
  using nat_str_digits [of _ n] by (force simp: all_ascii_def list_all_iff ascii_byte_def)

lemma upper_nat_str [simp]: "map upper_byte (nat_str n) = nat_str n"
  using nat_str_digits [of _ n] by (force simp: upper_byte_def intro: map_idI)

lemma to_upper_nat_str: "all_ascii t \<Longrightarrow> to_upper (nat_str n @ t) = nat_str n @ map upper_byte t"
  by (simp add: to_upper_def)

text \<open>A string that starts and ends with a printable ASCII byte has no white space to trim.\<close>

lemma trim_space_printable:
  assumes "s \<noteq> []" and "32 < byte_val (hd s)" "byte_val (hd s) < 128"
    and "32 < byte_val (last s)" "byte_val (last s) < 128"
  shows "trim_space s = s"
proof -
  have ws: "ws_len (c # t) = 0" "ws_len_rev (c # t) = 0" if "32 < byte_val c" "byte_val c < 128" for c t
    using that by (auto simp: ascii_space_def space2_def space3_def split: list.splits)
  obtain c t where c: "s = c # t" using assms(1) by (cases s) auto
  obtain t' c' where c': "s = t' @ [c']" using assms(1) by (cases s rule: rev_cases) auto
  have "trim_left s = s" using ws(1) assms(2,3) c by (simp add: trim_left_id)
  moreover have "trim_left_rev (rev s) = rev s" using ws(2) assms(4,5) c' by (simp add: trim_left_rev_id)
  ultimately show ?thesis by (simp add: trim_space_def trim_right_space_def)
qed

lemma trim_space_nat_str [simp]: "trim_space (nat_str n) = nat_str n"
  using nat_str_digits [of "hd (nat_str n)" n] nat_str_digits [of "last (nat_str n)" n]
  by (intro trim_space_printable) auto

end
