(* ===== verification/GoFloat.thy ===== *)
theory GoFloat
  imports GoText
begin

text \<open>
  Go's \<^verbatim>\<open>float64\<close>: IEEE 754 binary64 values with rounding to nearest, ties to even. A finite
  value is the rational number it stands for; the two zeros are one value (no operation of the
  program tells them apart except the printing of a sign). Every operation computes exactly and
  rounds once, so the definitions evaluate. The second part holds \<^verbatim>\<open>time.Time\<close> and
  \<^verbatim>\<open>time.Duration\<close>: an instant is the number of nanoseconds since Go's zero time, so
  \<^verbatim>\<open>IsZero\<close> is equality with 0, and a duration is an \<^verbatim>\<open>int64\<close> of nanoseconds.
\<close>

section \<open>Rounding\<close>

datatype f64 = NaN | PInf | NInf | Fin rat

function bit_len :: "int \<Rightarrow> int" where
  "bit_len n = (if n \<le> 0 then 0 else 1 + bit_len (n div 2))"
  by pat_completeness auto
termination
  by (relation "measure nat") auto

declare bit_len.simps [simp del]

definition pow2 :: "int \<Rightarrow> rat" where
  "pow2 e = (if 0 \<le> e then 2 ^ nat e else 1 / 2 ^ nat (- e))"

text \<open>The exponent of a positive rational: \<open>pow2 e \<le> r < pow2 (e + 1)\<close>.\<close>

definition ilog2 :: "rat \<Rightarrow> int" where
  "ilog2 r = (let (p, q) = quotient_of r;
                  e = bit_len p - bit_len q
              in if pow2 e \<le> r then e else e - 1)"

definition round_even :: "rat \<Rightarrow> int" where
  "round_even x = (let f = \<lfloor>x\<rfloor>; d = x - of_int f
                   in if d < 1 / 2 then f else if 1 / 2 < d then f + 1
                      else if even f then f else f + 1)"

definition ulp :: "rat \<Rightarrow> rat" where
  "ulp x = pow2 (max (ilog2 \<bar>x\<bar>) (- 1022) - 52)"

definition rnd :: "rat \<Rightarrow> f64" where
  "rnd x = (if x = 0 then Fin 0
            else let y = of_int (round_even (x / ulp x)) * ulp x
                 in if pow2 1024 \<le> \<bar>y\<bar> then (if 0 < x then PInf else NInf) else Fin y)"

lemma pow2_pos [simp]: "0 < pow2 e"
  by (simp add: pow2_def)

lemma pow2_powi: "pow2 e = 2 powi e"
  by (simp add: pow2_def power_int_def field_simps)

lemma pow2_add: "pow2 (a + b) = pow2 a * pow2 b"
  by (simp add: pow2_powi power_int_add)

lemma pow2_mono: "a \<le> b \<Longrightarrow> pow2 a \<le> pow2 b"
  by (simp add: pow2_powi power_int_increasing)

lemma pow2_less_iff: "pow2 a < pow2 b \<longleftrightarrow> a < b"
  using power_int_strict_increasing [of a b "2::rat"] pow2_mono [of b a]
  by (auto simp: pow2_powi not_less [symmetric])

lemma pow2_Suc: "pow2 (e + 1) = 2 * pow2 e"
  by (simp add: pow2_add) (simp add: pow2_def)

lemma bit_len_bounds:
  "0 < n \<Longrightarrow> pow2 (bit_len n - 1) \<le> of_int n \<and> of_int n < pow2 (bit_len n) \<and> 0 < bit_len n"
proof (induction n rule: bit_len.induct)
  case (1 n)
  show ?case
  proof (cases "n div 2 \<le> 0")
    case True
    then have "n = 1" using "1.prems" by linarith
    then show ?thesis by (simp add: bit_len.simps [of 1] bit_len.simps [of 0] pow2_def)
  next
    case False
    define k where "k = bit_len (n div 2)"
    from False "1.IH" "1.prems" have IH: "pow2 (k - 1) \<le> of_int (n div 2)" "of_int (n div 2) < pow2 k" "0 < k"
      by (auto simp: k_def)
    have k: "bit_len n = k + 1" using False "1.prems" by (simp add: bit_len.simps [of n] k_def)
    have n: "2 * (n div 2) \<le> n" "n \<le> 2 * (n div 2) + 1" by linarith+
    have "pow2 k = 2 * pow2 (k - 1)" using pow2_Suc [of "k - 1"] by simp
    also have "\<dots> \<le> of_int (2 * (n div 2))" using IH(1) by simp
    also have "\<dots> \<le> of_int n" using n(1) by (simp only: of_int_le_iff)
    finally have 1: "pow2 k \<le> of_int n" .
    have "pow2 k = of_int (2 ^ nat k)" using IH(3) by (simp add: pow2_def)
    then have "n div 2 + 1 \<le> 2 ^ nat k"
      using IH(2) by (simp only: of_int_less_iff zless_iff_Suc_zadd) linarith
    then have "n < 2 * 2 ^ nat k" using n(2) by linarith
    then have "of_int n < (of_int (2 * 2 ^ nat k) :: rat)" by (simp only: of_int_less_iff)
    also have "\<dots> = pow2 (k + 1)" using IH(3) by (simp add: pow2_Suc) (simp add: pow2_def)
    finally show ?thesis using 1 k IH(3) by simp
  qed
qed

lemma ilog2_bounds:
  assumes "0 < r"
  shows "pow2 (ilog2 r) \<le> r" and "r < pow2 (ilog2 r + 1)"
proof -
  obtain p q where pq: "quotient_of r = (p, q)" by (cases "quotient_of r")
  have q: "0 < q" and r: "r = of_int p / of_int q"
    using quotient_of_denom_pos [OF pq] quotient_of_div [OF pq] by auto
  have p: "0 < p" using assms q r by (simp add: zero_less_divide_iff)
  define a where "a = bit_len p"
  define b where "b = bit_len q"
  have P: "pow2 (a - 1) \<le> of_int p" "of_int p < pow2 a"
    using bit_len_bounds [OF p] by (auto simp: a_def)
  have Q: "pow2 (b - 1) \<le> of_int q" "of_int q < pow2 b"
    using bit_len_bounds [OF q] by (auto simp: b_def)
  define e where "e = a - b"
  have "r < pow2 (e + 1)"
  proof -
    have "of_int p < pow2 (e + 1) * pow2 (b - 1)"
      using P(2) by (simp add: pow2_add [symmetric] e_def)
    also have "\<dots> \<le> pow2 (e + 1) * of_int q" using Q(1) by (simp add: less_imp_le)
    finally show ?thesis using q r by (simp add: pos_divide_less_eq)
  qed
  moreover have "pow2 (e - 1) \<le> r"
  proof -
    have "pow2 (e - 1) * of_int q \<le> pow2 (e - 1) * pow2 b" using Q(2) by (simp add: less_imp_le)
    also have "\<dots> \<le> of_int p" using P(1) by (simp add: pow2_add [symmetric] e_def algebra_simps)
    finally show ?thesis using q r by (simp add: pos_le_divide_eq)
  qed
  moreover have "ilog2 r = (if pow2 e \<le> r then e else e - 1)"
    by (simp add: ilog2_def pq a_def b_def e_def)
  ultimately show "pow2 (ilog2 r) \<le> r" and "r < pow2 (ilog2 r + 1)"
    by (auto split: if_splits)
qed

lemma ulp_pos [simp]: "0 < ulp x"
  by (simp add: ulp_def)

lemma round_even_of_int [simp]: "round_even (of_int i) = i"
  by (simp add: round_even_def)

lemma round_even_error: "\<bar>of_int (round_even x) - x\<bar> \<le> 1 / 2"
proof -
  have "of_int \<lfloor>x\<rfloor> \<le> x" "x < of_int \<lfloor>x\<rfloor> + 1" by linarith+
  then show ?thesis by (auto simp: round_even_def Let_def abs_le_iff)
qed

lemma round_even_nonneg: "0 \<le> x \<Longrightarrow> 0 \<le> round_even x"
proof -
  assume "0 \<le> x"
  then have "0 \<le> \<lfloor>x\<rfloor>" by simp
  then show ?thesis by (auto simp: round_even_def Let_def)
qed

lemma round_even_nonpos: "x \<le> 0 \<Longrightarrow> round_even x \<le> 0"
proof -
  assume "x \<le> 0"
  show ?thesis
  proof (cases "\<lfloor>x\<rfloor> = 0")
    case True
    with \<open>x \<le> 0\<close> have "x = 0" using of_int_floor_le [of x] by simp
    then show ?thesis by (simp add: round_even_def)
  next
    case False
    moreover have "\<lfloor>x\<rfloor> \<le> 0" using \<open>x \<le> 0\<close> by linarith
    ultimately show ?thesis by (auto simp: round_even_def Let_def)
  qed
qed

text \<open>Rounding keeps the sign, and integers of at most 53 bits are kept exactly.\<close>

lemma rnd_0 [simp]: "rnd 0 = Fin 0"
  by (simp add: rnd_def)

lemma rnd_nonneg: "0 \<le> x \<Longrightarrow> rnd x = PInf \<or> (\<exists>y\<ge>0. rnd x = Fin y)"
  by (auto simp: rnd_def Let_def intro!: mult_nonneg_nonneg round_even_nonneg divide_nonneg_pos less_imp_le [OF ulp_pos])

lemma rnd_not_NaN [simp]: "rnd x \<noteq> NaN"
  by (simp add: rnd_def Let_def)

lemma rnd_of_int: "\<bar>i\<bar> \<le> 9007199254740992 \<Longrightarrow> rnd (of_int i) = Fin (of_int i)"
proof (cases "i = 0")
  case False
  assume i: "\<bar>i\<bar> \<le> 9007199254740992"
  define r :: rat where "r = \<bar>of_int i\<bar>"
  have r: "1 \<le> r" "r \<le> 9007199254740992"
  proof -
    have "r = of_int \<bar>i\<bar>" by (simp add: r_def)
    moreover have "of_int 1 \<le> (of_int \<bar>i\<bar> :: rat)" using False by (simp only: of_int_le_iff)
    moreover have "(of_int \<bar>i\<bar> :: rat) \<le> of_int 9007199254740992" using i by (simp only: of_int_le_iff)
    ultimately show "1 \<le> r" "r \<le> 9007199254740992" by auto
  qed
  define e where "e = ilog2 r"
  have e: "pow2 e \<le> r" "r < pow2 (e + 1)" using ilog2_bounds [of r] r by (auto simp: e_def)
  have "pow2 0 < pow2 (e + 1)" using e(2) r(1) by (simp add: pow2_def [of 0])
  then have e0: "0 \<le> e" by (simp add: pow2_less_iff)
  have "pow2 e < pow2 54" using e(1) r(2) by (simp add: pow2_def [of 54])
  then have e54: "e < 54" by (simp add: pow2_less_iff)
  have u: "ulp (of_int i) = pow2 (e - 52)" using e0 by (simp add: ulp_def r_def e_def)
  have "\<exists>k. of_int i / pow2 (e - 52) = (of_int k :: rat)"
  proof (cases "e \<le> 52")
    case True
    then have "of_int i / pow2 (e - 52) = of_int i * pow2 (52 - e)"
      using pow2_add [of "52 - e" "e - 52"] pow2_pos [of "e - 52"]
      by (simp add: divide_eq_eq mult.assoc pow2_def [of 0] less_imp_neq [symmetric])
    also have "\<dots> = of_int (i * 2 ^ nat (52 - e))" using True by (simp add: pow2_def)
    finally show ?thesis by blast
  next
    case False
    then have "e = 53" using e54 by simp
    then have "9007199254740992 \<le> r" using e(1) by (simp add: pow2_def)
    then have "r = of_int 9007199254740992" using r(2) by simp
    then have "of_int \<bar>i\<bar> = (of_int 9007199254740992 :: rat)" by (simp add: r_def)
    then have "\<bar>i\<bar> = 9007199254740992" by (simp only: of_int_eq_iff)
    then have "i = 2 * 4503599627370496 \<or> i = 2 * - 4503599627370496" by auto
    then obtain m where m: "i = 2 * m" by blast
    have "of_int i / pow2 (e - 52) = (of_int m :: rat)" using \<open>e = 53\<close> m by (simp add: pow2_def)
    then show ?thesis by blast
  qed
  then obtain k where k: "of_int i / pow2 (e - 52) = (of_int k :: rat)" by blast
  then have kk: "of_int k * pow2 (e - 52) = (of_int i :: rat)"
    using pow2_pos [of "e - 52"] by (simp add: field_simps)
  have "r < pow2 1024"
  proof -
    have "r \<le> pow2 53" using r(2) by (simp add: pow2_def)
    also have "\<dots> < pow2 1024" by (simp only: pow2_less_iff)
    finally show ?thesis .
  qed
  then have "\<not> pow2 1024 \<le> \<bar>of_int i\<bar>" by (simp add: r_def)
  then show ?thesis using False by (simp add: rnd_def u k kk)
qed simp

lemma rnd_of_nat: "n \<le> 9007199254740992 \<Longrightarrow> rnd (of_nat n) = Fin (of_nat n)"
  using rnd_of_int [of "int n"] by simp

lemma rnd_numeral: "numeral n \<le> (9007199254740992 :: int) \<Longrightarrow> rnd (numeral n) = Fin (numeral n)"
  using rnd_of_int [of "numeral n"] by simp

lemma rnd_1 [simp]: "rnd 1 = Fin 1"
  using rnd_of_int [of 1] by simp

section \<open>Operations\<close>

definition sgn_inf :: "rat \<Rightarrow> f64" where
  "sgn_inf r = (if 0 < r then PInf else if r < 0 then NInf else NaN)"

fun fneg :: "f64 \<Rightarrow> f64" where
  "fneg NaN = NaN" | "fneg PInf = NInf" | "fneg NInf = PInf" | "fneg (Fin r) = Fin (- r)"

fun fadd :: "f64 \<Rightarrow> f64 \<Rightarrow> f64" where
  "fadd NaN y = NaN"
| "fadd x NaN = NaN"
| "fadd PInf NInf = NaN"
| "fadd NInf PInf = NaN"
| "fadd PInf y = PInf"
| "fadd NInf y = NInf"
| "fadd x PInf = PInf"
| "fadd x NInf = NInf"
| "fadd (Fin a) (Fin b) = rnd (a + b)"

definition fsub :: "f64 \<Rightarrow> f64 \<Rightarrow> f64" where
  "fsub x y = fadd x (fneg y)"

fun fmul :: "f64 \<Rightarrow> f64 \<Rightarrow> f64" where
  "fmul NaN y = NaN"
| "fmul x NaN = NaN"
| "fmul (Fin a) (Fin b) = rnd (a * b)"
| "fmul (Fin a) PInf = sgn_inf a"
| "fmul (Fin a) NInf = sgn_inf (- a)"
| "fmul PInf (Fin b) = sgn_inf b"
| "fmul NInf (Fin b) = sgn_inf (- b)"
| "fmul PInf PInf = PInf"
| "fmul NInf NInf = PInf"
| "fmul PInf NInf = NInf"
| "fmul NInf PInf = NInf"

text \<open>Division by zero gives an infinity, and 0/0 is not a number: Go does not panic here.\<close>

fun fdiv :: "f64 \<Rightarrow> f64 \<Rightarrow> f64" where
  "fdiv NaN y = NaN"
| "fdiv x NaN = NaN"
| "fdiv (Fin a) (Fin b) = (if b = 0 then sgn_inf a else rnd (a / b))"
| "fdiv (Fin a) PInf = Fin 0"
| "fdiv (Fin a) NInf = Fin 0"
| "fdiv PInf (Fin b) = (if b < 0 then NInf else PInf)"
| "fdiv NInf (Fin b) = (if b < 0 then PInf else NInf)"
| "fdiv x y = NaN"

fun flt :: "f64 \<Rightarrow> f64 \<Rightarrow> bool" where
  "flt NaN y = False"
| "flt x NaN = False"
| "flt (Fin a) (Fin b) = (a < b)"
| "flt PInf y = False"
| "flt x NInf = False"
| "flt NInf y = True"
| "flt x PInf = True"

definition feq :: "f64 \<Rightarrow> f64 \<Rightarrow> bool" where
  "feq x y \<longleftrightarrow> x = y \<and> x \<noteq> NaN"

definition fle :: "f64 \<Rightarrow> f64 \<Rightarrow> bool" where
  "fle x y \<longleftrightarrow> flt x y \<or> feq x y"

fun fabs :: "f64 \<Rightarrow> f64" where
  "fabs NaN = NaN" | "fabs PInf = PInf" | "fabs NInf = PInf" | "fabs (Fin r) = Fin \<bar>r\<bar>"

text \<open>
  \<^verbatim>\<open>math.Sqrt\<close>, correctly rounded: the integer square root of the argument scaled so that the
  root has 53 bits. A half way case cannot arise, so the comparison with the half decides.
\<close>

function isqrt :: "int \<Rightarrow> int" where
  "isqrt n = (if n \<le> 0 then 0
              else let r = 2 * isqrt (n div 4) in if (r + 1) * (r + 1) \<le> n then r + 1 else r)"
  by pat_completeness auto
termination
  by (relation "measure nat") auto

declare isqrt.simps [simp del]

fun fsqrt :: "f64 \<Rightarrow> f64" where
  "fsqrt NaN = NaN"
| "fsqrt PInf = PInf"
| "fsqrt NInf = NaN"
| "fsqrt (Fin r) =
     (if r < 0 then NaN else if r = 0 then Fin 0
      else let u = pow2 (ilog2 r div 2 - 52);
               x = r / (u * u);
               n = isqrt \<lfloor>x\<rfloor>
           in Fin (of_int (if (of_int n + 1 / 2) * (of_int n + 1 / 2) < x then n + 1 else n) * u))"

lemma isqrt_bounds: "0 \<le> n \<Longrightarrow> 0 \<le> isqrt n \<and> isqrt n * isqrt n \<le> n \<and> n < (isqrt n + 1) * (isqrt n + 1)"
proof (induction n rule: isqrt.induct)
  case (1 n)
  show ?case
  proof (cases "n \<le> 0")
    case True
    then show ?thesis using "1.prems" by (simp add: isqrt.simps)
  next
    case False
    define m where "m = isqrt (n div 4)"
    from False "1.IH" have m: "0 \<le> m" "m * m \<le> n div 4" "n div 4 < (m + 1) * (m + 1)"
      by (auto simp: m_def)
    have "4 * (m * m) \<le> n" using m(2) by linarith
    moreover have "n < 4 * ((m + 1) * (m + 1))" using m(3) by linarith
    ultimately show ?thesis using False m(1)
      by (simp add: isqrt.simps [of n] m_def [symmetric] Let_def algebra_simps)
  qed
qed

definition f64_of_int :: "int \<Rightarrow> f64" where
  "f64_of_int i = rnd (of_int i)"

definition f64_of_u64 :: "u64 \<Rightarrow> f64" where
  "f64_of_u64 w = rnd (of_int (uint w))"

definition f64_of_u32 :: "u32 \<Rightarrow> f64" where
  "f64_of_u32 w = rnd (of_int (uint w))"

text \<open>
  Conversion to an integer truncates. Outside the range of the integer type Go leaves the value
  to the implementation, so there it is an unspecified function of the argument.
\<close>

definition rat_trunc :: "rat \<Rightarrow> int" where
  "rat_trunc r = (if r < 0 then - \<lfloor>- r\<rfloor> else \<lfloor>r\<rfloor>)"

definition int_out_of_range :: "f64 \<Rightarrow> int" where "int_out_of_range = undefined"
definition u64_out_of_range :: "f64 \<Rightarrow> u64" where "u64_out_of_range = undefined"

fun int_of_f64 :: "f64 \<Rightarrow> int" where
  "int_of_f64 (Fin r) = (if is_i64 (rat_trunc r) then rat_trunc r else wrap64 (int_out_of_range (Fin r)))"
| "int_of_f64 x = wrap64 (int_out_of_range x)"

fun u64_of_f64 :: "f64 \<Rightarrow> u64" where
  "u64_of_f64 (Fin r) =
     (if 0 \<le> rat_trunc r \<and> rat_trunc r < 18446744073709551616 then word_of_int (rat_trunc r)
      else u64_out_of_range (Fin r))"
| "u64_of_f64 x = u64_out_of_range x"

lemma rat_trunc_of_int [simp]: "rat_trunc (of_int i) = i"
  by (simp add: rat_trunc_def flip: of_int_minus)

lemma u64_of_f64_int:
  "0 \<le> i \<Longrightarrow> i \<le> 9007199254740992 \<Longrightarrow> u64_of_f64 (Fin (of_int i)) = word_of_int i"
  by simp

definition is_fin :: "f64 \<Rightarrow> bool" where
  "is_fin x \<longleftrightarrow> (\<exists>r. x = Fin r)"

text \<open>The values from 0 up: closed under what the percentages are computed with.\<close>

fun fnonneg :: "f64 \<Rightarrow> bool" where
  "fnonneg NaN = False" | "fnonneg PInf = True" | "fnonneg NInf = False" | "fnonneg (Fin r) = (0 \<le> r)"

lemma flt_irrefl [simp]: "\<not> flt x x"
  by (cases x) auto

lemma flt_trans: "flt x y \<Longrightarrow> flt y z \<Longrightarrow> flt x z"
  by (cases x; cases y; cases z) auto

lemma flt_not_fle: "x \<noteq> NaN \<Longrightarrow> y \<noteq> NaN \<Longrightarrow> \<not> flt x y \<longleftrightarrow> fle y x"
  by (cases x; cases y) (auto simp: fle_def feq_def)

lemma fle_trans: "fle x y \<Longrightarrow> fle y z \<Longrightarrow> fle x z"
  by (cases x; cases y; cases z) (auto simp: fle_def feq_def)

lemma fnonneg_rnd: "0 \<le> x \<Longrightarrow> fnonneg (rnd x)"
  using rnd_nonneg by fastforce

lemma fnonneg_f64_of_u64 [simp]: "fnonneg (f64_of_u64 w)"
  unfolding f64_of_u64_def
  by (rule fnonneg_rnd) (simp only: of_int_0_le_iff unsigned_greater_eq)

lemma fnonneg_fdiv: "fnonneg x \<Longrightarrow> fnonneg (Fin c) \<Longrightarrow> c \<noteq> 0 \<Longrightarrow> fnonneg (fdiv x (Fin c))"
  by (cases x) (auto intro!: fnonneg_rnd)

lemma fnonneg_fmul: "fnonneg x \<Longrightarrow> 0 < c \<Longrightarrow> fnonneg (fmul x (Fin c))"
  by (cases x) (auto simp: sgn_inf_def intro!: fnonneg_rnd)

section \<open>Instants and durations\<close>

type_synonym gotime = int
type_synonym duration = int

definition zero_time :: gotime where "zero_time = 0"
definition microsecond :: duration where "microsecond = 1000"
definition millisecond :: duration where "millisecond = 1000000"
definition second :: duration where "second = 1000000000"
definition minute :: duration where "minute = 60000000000"
definition hour :: duration where "hour = 3600000000000"

lemmas time_units = microsecond_def millisecond_def second_def minute_def hour_def zero_time_def

definition t_sub :: "gotime \<Rightarrow> gotime \<Rightarrow> duration" where
  "t_sub t u = sat64 (t - u)"

definition t_add :: "gotime \<Rightarrow> duration \<Rightarrow> gotime" where
  "t_add t d = t + d"

definition t_after :: "gotime \<Rightarrow> gotime \<Rightarrow> bool" where
  "t_after t u \<longleftrightarrow> u < t"

definition t_before :: "gotime \<Rightarrow> gotime \<Rightarrow> bool" where
  "t_before t u \<longleftrightarrow> t < u"

definition t_is_zero :: "gotime \<Rightarrow> bool" where
  "t_is_zero t \<longleftrightarrow> t = zero_time"

lemmas time_defs = t_sub_def t_add_def t_after_def t_before_def t_is_zero_def

text \<open>Seconds since 1970, and the instant of such a number of seconds, whose offset wraps.\<close>

definition t_unix :: "gotime \<Rightarrow> int" where
  "t_unix t = t div second - 62135596800"

definition unix_time :: "int \<Rightarrow> gotime" where
  "unix_time s = wrap64 (s + 62135596800) * second"

text \<open>\<^verbatim>\<open>time.Duration(n) * unit\<close>: 64-bit multiplication.\<close>

definition dur_mul :: "int \<Rightarrow> duration \<Rightarrow> duration" where
  "dur_mul n d = wrap64 (n * d)"

definition dur_parts :: "duration \<Rightarrow> duration \<Rightarrow> f64" where
  "dur_parts d unit = fadd (f64_of_int (go_div d unit)) (fdiv (f64_of_int (go_rem d unit)) (f64_of_int unit))"

definition dur_seconds :: "duration \<Rightarrow> f64" where "dur_seconds d = dur_parts d second"
definition dur_minutes :: "duration \<Rightarrow> f64" where "dur_minutes d = dur_parts d minute"

definition dur_truncate :: "duration \<Rightarrow> duration \<Rightarrow> duration" where
  "dur_truncate d m = (if m \<le> 0 then d else d - go_rem d m)"

lemma t_sub_self [simp]: "t_sub t t = 0"
  by (simp add: t_sub_def sat64_def i64_min_def i64_max_def)

lemma t_sub_mono: "t \<le> t' \<Longrightarrow> t_sub t u \<le> t_sub t' u"
  by (simp add: t_sub_def sat64_mono)

lemma dur_mul_id: "is_i64 (n * d) \<Longrightarrow> dur_mul n d = n * d"
  by (simp add: dur_mul_def wrap64_id)

lemma t_unix_unix_time: "is_i64 (s + 62135596800) \<Longrightarrow> t_unix (unix_time s) = s"
  by (simp add: t_unix_def unix_time_def second_def wrap64_id)

end
