(* ===== verification/GoFmt.thy ===== *)
theory GoFmt
  imports GoText GoFloat
begin

text \<open>
  Error values and the formatting verbs the program uses. An error made by \<^verbatim>\<open>errors.New\<close> is
  identified by its text (the program's sentinels have distinct texts), one made by \<^verbatim>\<open>fmt.Errorf\<close>
  by its format and arguments, so \<^verbatim>\<open>errors.Is\<close> can look through \<^verbatim>\<open>%w\<close>; \<open>ErrSys\<close> is an error that
  comes out of the operating system or a library, with its text.

  \<open>sprintf\<close> interprets the format string: \<^verbatim>\<open>%s %q %d %v %w %f %x %X\<close> with the flag \<^verbatim>\<open>-\<close> or \<^verbatim>\<open>0\<close>, a width and
  a precision. \<^verbatim>\<open>%.nf\<close> rounds the exact value half to even, as Go does.
\<close>

datatype goerror =
    ErrNew string
  | ErrSys string
  | Errorf string "farg list"
and farg =
    FStr string
  | FInt int
  | FF64 f64
  | FDur duration
  | FErr goerror
  | FWrap goerror

section \<open>Numbers and durations\<close>

fun repeat_char :: "nat \<Rightarrow> char \<Rightarrow> string" where
  "repeat_char 0 c = []"
| "repeat_char (Suc n) c = c # repeat_char n c"

definition pad_left :: "nat \<Rightarrow> char \<Rightarrow> string \<Rightarrow> string" where
  "pad_left w c s = repeat_char (w - length s) c @ s"

definition pad_right :: "nat \<Rightarrow> string \<Rightarrow> string" where
  "pad_right w s = s @ repeat_char (w - length s) CHR '' ''"

definition fixed_digits :: "nat \<Rightarrow> rat \<Rightarrow> string" where
  "fixed_digits prec r =
     (let k = round_even (\<bar>r\<bar> * of_int (10 ^ prec));
          whole = nat_str (nat (k div 10 ^ prec));
          frac = pad_left prec CHR ''0'' (nat_str (nat (k mod 10 ^ prec)))
      in (if r < 0 then ''-'' else []) @ whole @ (if prec = 0 then [] else CHR ''.'' # frac))"

fun fmt_fixed :: "nat \<Rightarrow> f64 \<Rightarrow> string" where
  "fmt_fixed prec NaN = ''NaN''"
| "fmt_fixed prec PInf = ''+Inf''"
| "fmt_fixed prec NInf = ''-Inf''"
| "fmt_fixed prec (Fin r) = fixed_digits prec r"

definition strip_zeros :: "string \<Rightarrow> string" where
  "strip_zeros s = rev (dropWhile (\<lambda>c. c = CHR ''0'') (rev s))"

text \<open>\<^verbatim>\<open>fmtFrac\<close> of package time: the whole part and a fraction without trailing zeros.\<close>

definition frac_str :: "int \<Rightarrow> nat \<Rightarrow> string" where
  "frac_str v prec =
     (let f = strip_zeros (pad_left prec CHR ''0'' (nat_str (nat (v mod 10 ^ prec))))
      in nat_str (nat (v div 10 ^ prec)) @ (if f = [] then [] else CHR ''.'' # f))"

definition dur_string :: "duration \<Rightarrow> string" where
  "dur_string d =
     (let u = \<bar>d\<bar>; sign = (if d < 0 then ''-'' else []);
          body =
            (if u = 0 then ''0s''
             else if u < 1000 then nat_str (nat u) @ ''ns''
             else if u < 1000000 then frac_str u 3 @ [CHR 0xC2, CHR 0xB5, CHR ''s'']
             else if u < 1000000000 then frac_str u 6 @ ''ms''
             else
               (let m = u div 60000000000; s = frac_str (u mod 60000000000) 9 @ ''s'' in
                if m = 0 then s
                else if m div 60 = 0 then nat_str (nat m) @ ''m'' @ s
                else nat_str (nat (m div 60)) @ ''h'' @ nat_str (nat (m mod 60)) @ ''m'' @ s))
      in sign @ body)"

fun hex_digits :: "char list \<Rightarrow> nat \<Rightarrow> nat \<Rightarrow> string" where
  "hex_digits ds 0 n = []"
| "hex_digits ds (Suc fuel) n =
     (if n < 16 then [ds ! n] else hex_digits ds fuel (n div 16) @ [ds ! (n mod 16)])"

definition hex_str :: "bool \<Rightarrow> int \<Rightarrow> string" where
  "hex_str upper i =
     (if i < 0 then ''-'' else []) @
     hex_digits (if upper then ''0123456789ABCDEF'' else ''0123456789abcdef'') 16 (nat \<bar>i\<bar>)"

section \<open>Format strings\<close>

record fspec =
  fs_minus :: bool
  fs_zero :: bool
  fs_width :: nat
  fs_prec :: "nat option"

definition no_spec :: fspec where
  "no_spec = \<lparr>fs_minus = False, fs_zero = False, fs_width = 0, fs_prec = None\<rparr>"

definition spec_digit :: "nat \<Rightarrow> fspec \<Rightarrow> fspec" where
  "spec_digit d f =
     (case fs_prec f of
        Some p \<Rightarrow> f\<lparr>fs_prec := Some (10 * p + d)\<rparr>
      | None \<Rightarrow> if d = 0 \<and> fs_width f = 0 then f\<lparr>fs_zero := True\<rparr>
                else f\<lparr>fs_width := 10 * fs_width f + d\<rparr>)"

definition pad_spec :: "fspec \<Rightarrow> string \<Rightarrow> string" where
  "pad_spec f s =
     (if fs_minus f then pad_right (fs_width f) s
      else pad_left (fs_width f) (if fs_zero f then CHR ''0'' else CHR '' '') s)"

text \<open>\<^verbatim>\<open>strconv.Quote\<close>, exact on ASCII; elsewhere it needs the Unicode tables and is unspecified.\<close>

definition unicode_quote :: "string \<Rightarrow> string" where "unicode_quote = undefined"

definition quote_byte :: "char \<Rightarrow> string" where
  "quote_byte c =
     (let n = byte_val c in
      if n = 34 \<or> n = 92 then [CHR 0x5C, c]
      else if 32 \<le> n \<and> n < 127 then [c]
      else CHR 0x5C #
        (if n = 7 then ''a'' else if n = 8 then ''b'' else if n = 12 then ''f'' else if n = 10 then ''n''
         else if n = 13 then ''r'' else if n = 9 then ''t'' else if n = 11 then ''v''
         else CHR ''x'' # pad_left 2 CHR ''0'' (hex_str False (int n))))"

definition quote_str :: "string \<Rightarrow> string" where
  "quote_str s =
     (if all_ascii s then CHR 0x22 # concat (map quote_byte s) @ [CHR 0x22] else unicode_quote s)"

text \<open>One argument under one verb; an argument the verb does not fit prints as Go's complaint.\<close>

fun verb_str :: "fspec \<Rightarrow> char \<Rightarrow> farg \<Rightarrow> string" where
  "verb_str f v (FStr s) = (if v = CHR ''q'' then quote_str s else s)"
| "verb_str f v (FInt i) =
     (if v = CHR ''x'' then hex_str False i else if v = CHR ''X'' then hex_str True i else int_str i)"
| "verb_str f v (FF64 x) =
     (if v = CHR ''f'' then fmt_fixed (case fs_prec f of Some p \<Rightarrow> p | None \<Rightarrow> 6) x else ''%!'' @ [v])"
| "verb_str f v (FDur d) = dur_string d"
| "verb_str f v _ = ''%!'' @ [v]"

fun sprintf_go :: "fspec option \<Rightarrow> string \<Rightarrow> farg list \<Rightarrow> string" where
  "sprintf_go None [] args = []"
| "sprintf_go None (c # cs) args =
     (if c = CHR ''%'' then sprintf_go (Some no_spec) cs args else c # sprintf_go None cs args)"
| "sprintf_go (Some f) [] args = ''%!(NOVERB)''"
| "sprintf_go (Some f) (c # cs) args =
     (if c = CHR ''-'' then sprintf_go (Some (f\<lparr>fs_minus := True\<rparr>)) cs args
      else if c = CHR ''.'' then sprintf_go (Some (f\<lparr>fs_prec := Some 0\<rparr>)) cs args
      else if 48 \<le> byte_val c \<and> byte_val c \<le> 57
        then sprintf_go (Some (spec_digit (byte_val c - 48) f)) cs args
      else if c = CHR ''%'' then CHR ''%'' # sprintf_go None cs args
      else (case args of
              [] \<Rightarrow> ''%!'' @ [c] @ ''(MISSING)'' @ sprintf_go None cs []
            | a # as \<Rightarrow> pad_spec f (verb_str f c a) @ sprintf_go None cs as))"

text \<open>The text of an error, and an argument with its error replaced by the text.\<close>

primrec err_text :: "goerror \<Rightarrow> string" and plain_arg :: "farg \<Rightarrow> farg" where
  "err_text (ErrNew s) = s"
| "err_text (ErrSys s) = s"
| "err_text (Errorf f args) = sprintf_go None f (map plain_arg args)"
| "plain_arg (FStr s) = FStr s"
| "plain_arg (FInt i) = FInt i"
| "plain_arg (FF64 x) = FF64 x"
| "plain_arg (FDur d) = FDur d"
| "plain_arg (FErr e) = FStr (err_text e)"
| "plain_arg (FWrap e) = FStr (err_text e)"

definition sprintf :: "string \<Rightarrow> farg list \<Rightarrow> string" where
  "sprintf f args = sprintf_go None f (map plain_arg args)"

section \<open>errors.Is\<close>

text \<open>The chain of an error: itself and everything it wraps with \<^verbatim>\<open>%w\<close>.\<close>

primrec err_chain :: "goerror \<Rightarrow> goerror list" and arg_chain :: "farg \<Rightarrow> goerror list" where
  "err_chain (ErrNew s) = [ErrNew s]"
| "err_chain (ErrSys s) = [ErrSys s]"
| "err_chain (Errorf f args) = Errorf f args # concat (map arg_chain args)"
| "arg_chain (FStr s) = []"
| "arg_chain (FInt i) = []"
| "arg_chain (FF64 x) = []"
| "arg_chain (FDur d) = []"
| "arg_chain (FErr e) = []"
| "arg_chain (FWrap e) = err_chain e"

definition errors_Is :: "goerror option \<Rightarrow> goerror \<Rightarrow> bool" where
  "errors_Is e t = (case e of None \<Rightarrow> False | Some e \<Rightarrow> t \<in> set (err_chain e))"

lemma errors_Is_self [simp]: "errors_Is (Some (ErrNew s)) (ErrNew s)"
  by (simp add: errors_Is_def)

lemma errors_Is_New [simp]: "errors_Is (Some (ErrNew s)) (ErrNew t) \<longleftrightarrow> s = t"
  by (auto simp: errors_Is_def)

lemma errors_Is_Sys [simp]: "\<not> errors_Is (Some (ErrSys s)) (ErrNew t)"
  by (simp add: errors_Is_def)

lemma errors_Is_Errorf [simp]:
  "errors_Is (Some (Errorf f args)) (ErrNew t) \<longleftrightarrow>
     (\<exists>e. FWrap e \<in> set args \<and> errors_Is (Some e) (ErrNew t))"
proof -
  have "ErrNew t \<in> set (arg_chain a) \<longleftrightarrow> (\<exists>e. a = FWrap e \<and> ErrNew t \<in> set (err_chain e))" for a
    by (cases a) auto
  then show ?thesis by (auto simp: errors_Is_def)
qed

lemma errors_Is_None [simp]: "\<not> errors_Is None t"
  by (simp add: errors_Is_def)

end
