(* ===== verification/Config.thy ===== *)
theory Config
  imports GoFmt
begin

text \<open>
  \<^verbatim>\<open>internal/config/config.go\<close>: the configuration tree, one record per struct, the defaults and
  \<^verbatim>\<open>Validate\<close>, which rejects a configuration it cannot repair and clamps the rest. A clamped
  configuration is \<open>cfg_ok\<close>, the invariant every live configuration of the program has.
\<close>

section \<open>The configuration tree\<close>

record Rule =
  ru_Name :: gostring
  ru_Enabled :: bool
  ru_Match :: gostring
  ru_Metric :: gostring
  ru_Op :: gostring
  ru_Threshold :: f64
  ru_For :: duration
  ru_Action :: gostring
  ru_Cooldown :: duration

record ServerConfig =
  sv_Host :: gostring
  sv_Port :: int
  sv_OpenBrowser :: bool

record MonitoringConfig =
  mo_Interval :: duration
  mo_ProcessTreeInterval :: duration
  mo_PortScanInterval :: duration
  mo_GPUInterval :: duration
  mo_HistoryDuration :: duration
  mo_MaxProcesses :: int

record ControllerConfig =
  co_ProtectedProcesses :: "gostring list"
  co_ConfirmKillSystem :: bool

record SpawnStormConfig =
  st_Enabled :: bool
  st_MaxChildrenPerMinute :: int
  st_MaxTotalChildren :: int
  st_Action :: gostring

record MemoryLeakConfig =
  ml_Enabled :: bool
  ml_Window :: duration
  ml_MinGrowthRate :: gostring
  ml_MinRSquared :: f64
  ml_MemoryThreshold :: gostring
  ml_Action :: gostring

record HungProcessConfig =
  hp_Enabled :: bool
  hp_ZeroActivityThreshold :: duration
  hp_CriticalHungThreshold :: duration
  hp_IdleWhitelist :: "gostring list"
  hp_Action :: gostring

record OrphanConfig =
  or_Enabled :: bool
  or_ResourceThresholdCPU :: int
  or_ResourceThresholdMemory :: gostring
  or_Action :: gostring

record RunawayCPUConfig =
  rc_Enabled :: bool
  rc_CPUThreshold :: int
  rc_DurationThreshold :: duration
  rc_CriticalDuration :: duration
  rc_HighCPUWhitelist :: "gostring list"
  rc_Action :: gostring

record PortConflictConfig =
  pc_Enabled :: bool
  pc_TimeWaitThreshold :: duration
  pc_CloseWaitThreshold :: duration
  pc_Action :: gostring

record NetworkAnomalyConfig =
  na_Enabled :: bool
  na_ConnectionSigma :: int
  na_MaxSystemConnections :: int
  na_Action :: gostring

record NewProcessConfig =
  np_Enabled :: bool
  np_SuspiciousPaths :: "gostring list"
  np_Action :: gostring

record AnomalyConfig =
  an_AnalysisInterval :: duration
  an_IgnoreProcesses :: "gostring list"
  an_MaxActiveAlerts :: int
  an_SpawnStorm :: SpawnStormConfig
  an_MemoryLeak :: MemoryLeakConfig
  an_HungProcess :: HungProcessConfig
  an_Orphan :: OrphanConfig
  an_RunawayCPU :: RunawayCPUConfig
  an_PortConflict :: PortConflictConfig
  an_NetworkAnomaly :: NetworkAnomalyConfig
  an_NewProcess :: NewProcessConfig

record NotificationsConfig =
  no_TrayBalloon :: bool
  no_BalloonRateLimit :: duration
  no_BalloonMinSeverity :: gostring

record AISchedulerConfig =
  as_Enabled :: bool
  as_MinInterval :: duration
  as_MaxCyclesPerHour :: int
  as_MaxReservedTokensPerDay :: int
  as_CooldownAfterError :: duration
  as_HistoryLimit :: int

record AIAutoActionConfig =
  aa_Enabled :: bool
  aa_DryRun :: bool
  aa_AllowedActions :: "gostring list"
  aa_RequireRepeatCycles :: int
  aa_CooldownPerPID :: duration

record AIConfig =
  ai_Enabled :: bool
  ai_Provider :: gostring
  ai_APIKey :: gostring
  ai_Model :: gostring
  ai_Endpoint :: gostring
  ai_ExtraHeaders :: "(gostring, gostring) gomap"
  ai_AutoAnalyzeOnCritical :: bool
  ai_MaxTokens :: int
  ai_MaxRequestsPerMinute :: int
  ai_Language :: gostring
  ai_IncludeProcessTree :: bool
  ai_IncludePortMap :: bool
  ai_HistoryContextDuration :: duration
  ai_Scheduler :: AISchedulerConfig
  ai_AutoAction :: AIAutoActionConfig

record UIConfig =
  ui_Theme :: gostring
  ui_DefaultSort :: gostring
  ui_DefaultSortOrder :: gostring
  ui_SparklinePoints :: int
  ui_ProcessTablePageSize :: int
  ui_RefreshRate :: duration

record TelegramConfig =
  tg_Enabled :: bool
  tg_BotToken :: gostring
  tg_AllowedChatIDs :: "int list"
  tg_APIBaseURL :: gostring
  tg_PollTimeout :: duration
  tg_NotifyOnCritical :: bool
  tg_NotificationMode :: gostring
  tg_NotificationTypes :: "gostring list"
  tg_RequireConfirm :: bool
  tg_ConfirmTTL :: duration

record Config =
  c_SchemaVersion :: int
  c_Server :: ServerConfig
  c_Monitoring :: MonitoringConfig
  c_Controller :: ControllerConfig
  c_Anomaly :: AnomalyConfig
  c_Notifications :: NotificationsConfig
  c_WellKnownPorts :: "(u16, gostring) gomap"
  c_AI :: AIConfig
  c_Telegram :: TelegramConfig
  c_UI :: UIConfig
  c_Rules :: "Rule list"

section \<open>Defaults\<close>

definition CurrentSchemaVersion :: int where "CurrentSchemaVersion = 2"

definition DefaultTelegramNotificationTypes :: "gostring list" where
  "DefaultTelegramNotificationTypes =
     [''runaway_cpu'', ''memory_leak'', ''port_conflict'', ''new_process'', ''network_anomaly'',
      ''network_anomaly_system'', ''rule:*'']"

definition default_server :: ServerConfig where
  "default_server = \<lparr>sv_Host = ''127.0.0.1'', sv_Port = 19876, sv_OpenBrowser = True\<rparr>"

definition default_monitoring :: MonitoringConfig where
  "default_monitoring =
     \<lparr>mo_Interval = 1000 * millisecond, mo_ProcessTreeInterval = 2000 * millisecond,
      mo_PortScanInterval = 3000 * millisecond, mo_GPUInterval = 2000 * millisecond,
      mo_HistoryDuration = 10 * minute, mo_MaxProcesses = 2000\<rparr>"

definition default_controller :: ControllerConfig where
  "default_controller =
     \<lparr>co_ProtectedProcesses =
        [''csrss.exe'', ''wininit.exe'', ''lsass.exe'', ''smss.exe'', ''services.exe'',
         ''svchost.exe'', ''winlogon.exe''],
      co_ConfirmKillSystem = True\<rparr>"

definition default_anomaly :: AnomalyConfig where
  "default_anomaly =
     \<lparr>an_AnalysisInterval = 2 * second,
      an_IgnoreProcesses =
        [''System'', ''Registry'', ''Idle'', ''Memory Compression'', ''smss.exe'',
         ''csrss.exe'', ''wininit.exe'', ''winlogon.exe'', ''services.exe'', ''lsass.exe'',
         ''svchost.exe'', ''fontdrvhost.exe'', ''dwm.exe'', ''sihost.exe'', ''taskhostw.exe'',
         ''RuntimeBroker.exe'', ''SearchHost.exe'', ''SearchIndexer.exe'',
         ''StartMenuExperienceHost.exe'', ''ShellExperienceHost.exe'', ''ctfmon.exe'',
         ''explorer.exe'', ''spoolsv.exe'', ''MsMpEng.exe'', ''SecurityHealthService.exe'',
         ''audiodg.exe'', ''conhost.exe'', ''dllhost.exe'', ''WmiPrvSE.exe''],
      an_MaxActiveAlerts = 100,
      an_SpawnStorm = \<lparr>st_Enabled = True, st_MaxChildrenPerMinute = 50, st_MaxTotalChildren = 100,
        st_Action = ''alert''\<rparr>,
      an_MemoryLeak = \<lparr>ml_Enabled = True, ml_Window = 5 * minute, ml_MinGrowthRate = ''10MB/min'',
        ml_MinRSquared = rnd (8 / 10), ml_MemoryThreshold = ''2GB'', ml_Action = ''alert''\<rparr>,
      an_HungProcess = \<lparr>hp_Enabled = False, hp_ZeroActivityThreshold = 120 * second,
        hp_CriticalHungThreshold = 300 * second,
        hp_IdleWhitelist = [''SearchIndexer.exe'', ''spoolsv.exe''], hp_Action = ''alert''\<rparr>,
      an_Orphan = \<lparr>or_Enabled = False, or_ResourceThresholdCPU = 10,
        or_ResourceThresholdMemory = ''1GB'', or_Action = ''alert''\<rparr>,
      an_RunawayCPU = \<lparr>rc_Enabled = True, rc_CPUThreshold = 90, rc_DurationThreshold = 60 * second,
        rc_CriticalDuration = 180 * second, rc_HighCPUWhitelist = [], rc_Action = ''alert''\<rparr>,
      an_PortConflict = \<lparr>pc_Enabled = False, pc_TimeWaitThreshold = 120 * second,
        pc_CloseWaitThreshold = 60 * second, pc_Action = ''alert''\<rparr>,
      an_NetworkAnomaly = \<lparr>na_Enabled = False, na_ConnectionSigma = 3,
        na_MaxSystemConnections = 10000, na_Action = ''alert''\<rparr>,
      an_NewProcess = \<lparr>np_Enabled = False, np_SuspiciousPaths = [], np_Action = ''info''\<rparr>\<rparr>"

definition default_ports :: "(u16, gostring) gomap" where
  "default_ports =
   [(22, ''SSH''),
    (80, ''HTTP Server''),
    (443, ''HTTPS Server''),
    (3000, ''Dev Server (React/Next.js)''),
    (3001, ''Dev Server Alt''),
    (4200, ''Angular Dev Server''),
    (5173, ''Vite Dev Server''),
    (5432, ''PostgreSQL''),
    (6379, ''Redis''),
    (8080, ''HTTP Alt / Spring Boot''),
    (8443, ''HTTPS Alt''),
    (9090, ''Prometheus''),
    (27017, ''MongoDB'')]"

definition default_ai :: AIConfig where
  "default_ai =
     \<lparr>ai_Enabled = False, ai_Provider = ''anthropic'', ai_APIKey = [],
      ai_Model = ''claude-sonnet-4-20250514'', ai_Endpoint = [], ai_ExtraHeaders = [],
      ai_AutoAnalyzeOnCritical = True, ai_MaxTokens = 1024, ai_MaxRequestsPerMinute = 5,
      ai_Language = ''en'', ai_IncludeProcessTree = True, ai_IncludePortMap = True,
      ai_HistoryContextDuration = 5 * minute,
      ai_Scheduler = \<lparr>as_Enabled = False, as_MinInterval = 2 * minute, as_MaxCyclesPerHour = 12,
        as_MaxReservedTokensPerDay = 12000, as_CooldownAfterError = 10 * minute, as_HistoryLimit = 8\<rparr>,
      ai_AutoAction = \<lparr>aa_Enabled = False, aa_DryRun = True,
        aa_AllowedActions = [''ignore'', ''protect'', ''add_rule''], aa_RequireRepeatCycles = 2,
        aa_CooldownPerPID = 30 * minute\<rparr>\<rparr>"

definition default_telegram :: TelegramConfig where
  "default_telegram =
     \<lparr>tg_Enabled = False, tg_BotToken = [], tg_AllowedChatIDs = [],
      tg_APIBaseURL = ''https://api.telegram.org'', tg_PollTimeout = 25 * second,
      tg_NotifyOnCritical = True, tg_NotificationMode = ''high_value'',
      tg_NotificationTypes = DefaultTelegramNotificationTypes, tg_RequireConfirm = True,
      tg_ConfirmTTL = 90 * second\<rparr>"

definition DefaultConfig :: Config where
  "DefaultConfig =
     \<lparr>c_SchemaVersion = CurrentSchemaVersion,
      c_Server = default_server,
      c_Monitoring = default_monitoring,
      c_Controller = default_controller,
      c_Anomaly = default_anomaly,
      c_Notifications = \<lparr>no_TrayBalloon = True, no_BalloonRateLimit = 30 * second,
        no_BalloonMinSeverity = ''critical''\<rparr>,
      c_WellKnownPorts = default_ports,
      c_AI = default_ai,
      c_Telegram = default_telegram,
      c_UI = \<lparr>ui_Theme = ''system'', ui_DefaultSort = ''cpu'', ui_DefaultSortOrder = ''desc'',
        ui_SparklinePoints = 60, ui_ProcessTablePageSize = 100, ui_RefreshRate = 1000 * millisecond\<rparr>,
      c_Rules = []\<rparr>"

section \<open>Validate\<close>

text \<open>
  The method works through a pointer: it returns the configuration as it left it and the error.
  The clamps run in the order of the source; a configuration it rejects is left untouched.
\<close>

definition clamp_min :: "int \<Rightarrow> int \<Rightarrow> int" where
  "clamp_min lo v = (if v < lo then lo else v)"

definition validate_ai :: "AIConfig \<Rightarrow> AIConfig" where
  "validate_ai a =
     (let a = a\<lparr>ai_MaxTokens := clamp_min 64 (ai_MaxTokens a)\<rparr>;
          a = a\<lparr>ai_MaxRequestsPerMinute := clamp_min 1 (ai_MaxRequestsPerMinute a)\<rparr>;
          s = ai_Scheduler a;
          s = s\<lparr>as_MinInterval := clamp_min (15 * second) (as_MinInterval s)\<rparr>;
          s = s\<lparr>as_MaxCyclesPerHour := clamp_min 1 (as_MaxCyclesPerHour s)\<rparr>;
          s = s\<lparr>as_MaxReservedTokensPerDay := clamp_min (ai_MaxTokens a) (as_MaxReservedTokensPerDay s)\<rparr>;
          s = s\<lparr>as_CooldownAfterError := clamp_min (30 * second) (as_CooldownAfterError s)\<rparr>;
          s = s\<lparr>as_HistoryLimit := clamp_min 1 (as_HistoryLimit s)\<rparr>;
          x = ai_AutoAction a;
          x = (if aa_AllowedActions x = []
               then x\<lparr>aa_AllowedActions := [''ignore'', ''protect'', ''add_rule'']\<rparr> else x);
          x = x\<lparr>aa_RequireRepeatCycles := clamp_min 1 (aa_RequireRepeatCycles x)\<rparr>;
          x = x\<lparr>aa_CooldownPerPID := clamp_min 0 (aa_CooldownPerPID x)\<rparr>
      in a\<lparr>ai_Scheduler := s, ai_AutoAction := x\<rparr>)"

definition validate_telegram :: "TelegramConfig \<Rightarrow> TelegramConfig" where
  "validate_telegram t =
     (let t = (if tg_APIBaseURL t = [] then t\<lparr>tg_APIBaseURL := ''https://api.telegram.org''\<rparr> else t);
          t = t\<lparr>tg_PollTimeout := clamp_min (5 * second) (tg_PollTimeout t)\<rparr>;
          t = (if tg_NotificationMode t \<in> {[], ''high_value'', ''all_critical''}
               then (if tg_NotificationMode t = [] then t\<lparr>tg_NotificationMode := ''high_value''\<rparr> else t)
               else t\<lparr>tg_NotificationMode := ''high_value''\<rparr>);
          t = (if tg_NotificationTypes t = []
               then t\<lparr>tg_NotificationTypes := DefaultTelegramNotificationTypes\<rparr> else t)
      in t\<lparr>tg_ConfirmTTL := clamp_min (15 * second) (tg_ConfirmTTL t)\<rparr>)"

definition Validate :: "Config \<Rightarrow> Config \<times> goerror option" where
  "Validate c =
     (if sv_Port (c_Server c) < 1 \<or> 65535 < sv_Port (c_Server c)
      then (c, Some (Errorf ''server.port out of range: %d'' [FInt (sv_Port (c_Server c))]))
      else if mo_Interval (c_Monitoring c) < 100 * millisecond
      then (c, Some (Errorf ''monitoring.interval too small: %v'' [FDur (mo_Interval (c_Monitoring c))]))
      else
        (let m = c_Monitoring c; u = c_UI c
         in (c\<lparr>c_Monitoring := m\<lparr>mo_MaxProcesses := clamp_min 100 (mo_MaxProcesses m)\<rparr>,
               c_UI := u\<lparr>ui_SparklinePoints := clamp_min 10 (ui_SparklinePoints u)\<rparr>,
               c_AI := validate_ai (c_AI c),
               c_Telegram := validate_telegram (c_Telegram c)\<rparr>, None)))"

text \<open>What a validated configuration satisfies.\<close>

definition ai_ok :: "AIConfig \<Rightarrow> bool" where
  "ai_ok a \<longleftrightarrow>
     64 \<le> ai_MaxTokens a \<and> 1 \<le> ai_MaxRequestsPerMinute a \<and>
     15 * second \<le> as_MinInterval (ai_Scheduler a) \<and> 1 \<le> as_MaxCyclesPerHour (ai_Scheduler a) \<and>
     ai_MaxTokens a \<le> as_MaxReservedTokensPerDay (ai_Scheduler a) \<and>
     30 * second \<le> as_CooldownAfterError (ai_Scheduler a) \<and> 1 \<le> as_HistoryLimit (ai_Scheduler a) \<and>
     aa_AllowedActions (ai_AutoAction a) \<noteq> [] \<and> 1 \<le> aa_RequireRepeatCycles (ai_AutoAction a) \<and>
     0 \<le> aa_CooldownPerPID (ai_AutoAction a)"

definition telegram_ok :: "TelegramConfig \<Rightarrow> bool" where
  "telegram_ok t \<longleftrightarrow>
     tg_APIBaseURL t \<noteq> [] \<and> 5 * second \<le> tg_PollTimeout t \<and>
     tg_NotificationMode t \<in> {''high_value'', ''all_critical''} \<and> tg_NotificationTypes t \<noteq> [] \<and>
     15 * second \<le> tg_ConfirmTTL t"

definition cfg_ok :: "Config \<Rightarrow> bool" where
  "cfg_ok c \<longleftrightarrow>
     1 \<le> sv_Port (c_Server c) \<and> sv_Port (c_Server c) \<le> 65535 \<and>
     100 * millisecond \<le> mo_Interval (c_Monitoring c) \<and> 100 \<le> mo_MaxProcesses (c_Monitoring c) \<and>
     10 \<le> ui_SparklinePoints (c_UI c) \<and> ai_ok (c_AI c) \<and> telegram_ok (c_Telegram c)"

lemma clamp_min_ge [simp]: "lo \<le> clamp_min lo v"
  by (simp add: clamp_min_def)

lemma clamp_min_id [simp]: "lo \<le> v \<Longrightarrow> clamp_min lo v = v"
  by (simp add: clamp_min_def)

lemma validate_ai_ok [simp]: "ai_ok (validate_ai a)"
  by (simp add: ai_ok_def validate_ai_def Let_def)

lemma validate_telegram_ok [simp]: "telegram_ok (validate_telegram t)"
  by (simp add: telegram_ok_def validate_telegram_def Let_def DefaultTelegramNotificationTypes_def)

lemma validate_ai_id: "ai_ok a \<Longrightarrow> validate_ai a = a"
  by (simp add: ai_ok_def validate_ai_def Let_def)

lemma validate_telegram_id: "telegram_ok t \<Longrightarrow> validate_telegram t = t"
  by (auto simp: telegram_ok_def validate_telegram_def Let_def)

lemma Validate_ok: "Validate c = (c', None) \<Longrightarrow> cfg_ok c'"
  by (auto simp: Validate_def cfg_ok_def Let_def split: if_splits)

lemma Validate_id: "cfg_ok c \<Longrightarrow> Validate c = (c, None)"
  by (simp add: Validate_def cfg_ok_def Let_def validate_ai_id validate_telegram_id)

lemma Validate_err: "Validate c = (c', Some e) \<Longrightarrow> c' = c"
  by (auto simp: Validate_def Let_def split: if_splits)

lemma Validate_keeps:
  "Validate c = (c', e) \<Longrightarrow> c_Anomaly c' = c_Anomaly c \<and> c_Controller c' = c_Controller c \<and>
     c_Rules c' = c_Rules c \<and> c_SchemaVersion c' = c_SchemaVersion c \<and> c_Server c' = c_Server c \<and>
     c_WellKnownPorts c' = c_WellKnownPorts c"
  by (auto simp: Validate_def Let_def split: if_splits)

end
