(* ===== verification/GoParse.thy ===== *)
theory GoParse
  imports GoFloat
begin

text \<open>
  \<^verbatim>\<open>strconv.ParseFloat\<close>: signs, decimal and hexadecimal mantissas, exponents, digit separators,
  infinities and NaN. The value is the exact rational rounded once. The exponent saturates as in
  the library, so a hostile exponent costs nothing.
\<close>

record scan_state =
  sc_mant :: nat
  sc_frac :: nat
  sc_digits :: bool
  sc_dot :: bool

definition hex_val :: "char \<Rightarrow> nat option" where
  "hex_val c =
     (let n = byte_val (lower_byte c) in
      if 48 \<le> n \<and> n \<le> 57 then Some (n - 48)
      else if 97 \<le> n \<and> n \<le> 102 then Some (n - 87) else None)"

fun scan_mantissa :: "bool \<Rightarrow> scan_state \<Rightarrow> gostring \<Rightarrow> scan_state \<times> gostring" where
  "scan_mantissa hex st [] = (st, [])"
| "scan_mantissa hex st (c # s) =
     (if c = CHR ''_'' then scan_mantissa hex st s
      else if c = CHR ''.'' then
        (if sc_dot st then (st, c # s) else scan_mantissa hex (st\<lparr>sc_dot := True\<rparr>) s)
      else
        (case (if hex then hex_val c else digit_val c) of
           Some d \<Rightarrow> scan_mantissa hex
             (st\<lparr>sc_mant := (if hex then 16 else 10) * sc_mant st + d,
                 sc_frac := (if sc_dot st then Suc (sc_frac st) else sc_frac st),
                 sc_digits := True\<rparr>) s
         | None \<Rightarrow> (st, c # s)))"

fun scan_exponent :: "int \<Rightarrow> gostring \<Rightarrow> int \<times> gostring" where
  "scan_exponent e [] = (e, [])"
| "scan_exponent e (c # s) =
     (if c = CHR ''_'' then scan_exponent e s
      else (case digit_val c of
              Some d \<Rightarrow> scan_exponent (if e < 10000 then 10 * e + int d else e) s
            | None \<Rightarrow> (e, c # s)))"

text \<open>The exponent part after the mantissa: its value and the rest, or a syntax error.\<close>

definition scan_exp_part :: "bool \<Rightarrow> gostring \<Rightarrow> (int \<times> gostring) option" where
  "scan_exp_part hex s =
     (case s of
        c # r \<Rightarrow>
          if lower_byte c = (if hex then CHR ''p'' else CHR ''e'') then
            (let (neg, r') = (case r of
                 d # r' \<Rightarrow> if d = CHR ''+'' then (False, r') else if d = CHR ''-'' then (True, r') else (False, r)
               | [] \<Rightarrow> (False, r));
                 digit = (case r' of d # _ \<Rightarrow> digit_val d \<noteq> None | [] \<Rightarrow> False)
             in if digit then (let (e, t) = scan_exponent 0 r' in Some (if neg then - e else e, t)) else None)
          else if hex then None else Some (0, s)
      | [] \<Rightarrow> if hex then None else Some (0, s))"

text \<open>
  Digit separators stand between digits, or between a base prefix and a digit; the last byte seen
  is kept as \<^verbatim>\<open>0\<close> for a digit or base prefix, \<^verbatim>\<open>_\<close> for a separator and \<^verbatim>\<open>!\<close> for anything else.
\<close>

fun underscores_ok_loop :: "bool \<Rightarrow> char \<Rightarrow> gostring \<Rightarrow> bool" where
  "underscores_ok_loop hex i [] = (i \<noteq> CHR ''_'')"
| "underscores_ok_loop hex i (c # s) =
     (if digit_val c \<noteq> None \<or> hex \<and> hex_val c \<noteq> None then underscores_ok_loop hex CHR ''0'' s
      else if c = CHR ''_'' then i = CHR ''0'' \<and> underscores_ok_loop hex CHR ''_'' s
      else i \<noteq> CHR ''_'' \<and> underscores_ok_loop hex CHR ''!'' s)"

definition strip_sign :: "gostring \<Rightarrow> bool \<times> gostring" where
  "strip_sign s = (case s of
       c # r \<Rightarrow> if c = CHR ''+'' then (False, r) else if c = CHR ''-'' then (True, r) else (False, s)
     | [] \<Rightarrow> (False, s))"

definition hex_prefix :: "gostring \<Rightarrow> bool" where
  "hex_prefix s = (case s of a # b # c # _ \<Rightarrow> a = CHR ''0'' \<and> lower_byte b = CHR ''x'' | _ \<Rightarrow> False)"

definition special_float :: "gostring \<Rightarrow> f64 option" where
  "special_float s =
     (let (neg, r) = strip_sign s; w = map lower_byte r in
      if w = ''inf'' \<or> w = ''infinity'' then Some (if neg then NInf else PInf)
      else if map lower_byte s = ''nan'' then Some NaN else None)"

definition float_value :: "bool \<Rightarrow> bool \<Rightarrow> scan_state \<Rightarrow> int \<Rightarrow> rat" where
  "float_value neg hex st e =
     (let m = of_nat (sc_mant st) / (if hex then 16 else 10) ^ sc_frac st;
          b = (if hex then 2 else 10 :: rat);
          v = (if sc_mant st = 0 then 0 else if 0 \<le> e then m * b ^ nat e else m / b ^ nat (- e))
      in if neg then - v else v)"

definition parse_float :: "gostring \<Rightarrow> f64 \<times> num_error option" where
  "parse_float s =
     (case special_float s of
        Some x \<Rightarrow> (x, None)
      | None \<Rightarrow>
        (let (neg, r) = strip_sign s;
             hex = hex_prefix r;
             body = (if hex then drop 2 r else r);
             (st, r1) = scan_mantissa hex \<lparr>sc_mant = 0, sc_frac = 0, sc_digits = False, sc_dot = False\<rparr> body
         in if \<not> sc_digits st then (Fin 0, Some NumSyntax)
            else case scan_exp_part hex r1 of
                None \<Rightarrow> (Fin 0, Some NumSyntax)
              | Some (e, rest) \<Rightarrow>
                  if rest \<noteq> [] \<or>
                     CHR ''_'' \<in> set s \<and> \<not> underscores_ok_loop hex (if hex then CHR ''0'' else CHR ''!'') body
                  then (Fin 0, Some NumSyntax)
                  else (case rnd (float_value neg hex st e) of
                          Fin v \<Rightarrow> (Fin v, None)
                        | x \<Rightarrow> (x, Some NumRange))))"

lemma scan_mantissa_nat_str:
  "scan_mantissa False st (nat_str n @ t) =
     scan_mantissa False (st\<lparr>sc_mant := sc_mant st * 10 ^ length (nat_str n) + n,
       sc_frac := (if sc_dot st then sc_frac st + length (nat_str n) else sc_frac st), sc_digits := True\<rparr>) t"
proof (induction n arbitrary: t st rule: nat_str.induct)
  case (1 n)
  have c: "digit_char d \<noteq> CHR ''_'' \<and> digit_char d \<noteq> CHR ''.''" if "d < 10" for d
  proof -
    have "digit_val (digit_char d) = Some d" using that by simp
    then show ?thesis by (auto simp: digit_val_def split: if_splits)
  qed
  show ?case
  proof (cases "n < 10")
    case True
    then show ?thesis using c [of n] by (simp add: nat_str.simps [of n] mult.commute)
  next
    case False
    have "nat_str n = nat_str (n div 10) @ [digit_char (n mod 10)]"
      using False by (simp add: nat_str.simps [of n])
    moreover have "10 * (n div 10) + n mod 10 = n" by simp
    ultimately show ?thesis
      using False "1.IH" [OF False] c [of "n mod 10"]
      by (simp add: algebra_simps)
  qed
qed

lemma digits_no_special: "c \<in> set (nat_str n) \<Longrightarrow> digit_val c \<noteq> None"
proof (induction n rule: nat_str.induct)
  case (1 n)
  then show ?case by (auto simp: nat_str.simps [of n] split: if_splits)
qed

text \<open>A decimal number below 2 to the 53 parses to itself.\<close>

lemma parse_float_nat_str:
  assumes "n \<le> 9007199254740992"
  shows "parse_float (nat_str n) = (Fin (of_nat n), None)"
proof -
  obtain c s where cs: "nat_str n = c # s" by (cases "nat_str n") auto
  then have dc: "digit_val c \<noteq> None" using digits_no_special [of c n] by simp
  then have c: "c \<noteq> CHR ''+''" "c \<noteq> CHR ''-''" "lower_byte c = c" "c \<notin> set ''in''"
    by (auto simp: digit_val_def lower_byte_def split: if_splits)
  have sign: "strip_sign (nat_str n) = (False, nat_str n)" using c by (simp add: strip_sign_def cs)
  have special: "special_float (nat_str n) = None" using c sign by (auto simp: special_float_def cs Let_def)
  have "\<not> hex_prefix (nat_str n)"
  proof
    assume "hex_prefix (nat_str n)"
    then obtain b where "b \<in> set (nat_str n)" "lower_byte b = CHR ''x''"
      by (auto simp: hex_prefix_def split: list.splits)
    then show False using digits_no_special [of b n]
      by (auto simp: digit_val_def lower_byte_def split: if_splits)
  qed
  moreover have "CHR ''_'' \<notin> set (nat_str n)" using digits_no_special [of "CHR ''_''" n]
    by (auto simp: digit_val_def)
  moreover note scan_mantissa_nat_str [of _ n "[]"]
  ultimately show ?thesis
    using rnd_of_nat [OF assms] by (simp add: parse_float_def special sign scan_exp_part_def float_value_def Let_def)
qed

end
