(* ===== verification/Loader.thy ===== *)
theory Loader
  imports Config GoParse
begin

text \<open>
  \<^verbatim>\<open>internal/config/loader.go\<close> and \<^verbatim>\<open>watcher.go\<close>: reading the configuration file, migrating an old
  schema, writing it back atomically, parsing sizes, and the reload step of the watcher. The file
  system is a map from paths to contents and modification times; an environment says, per call,
  which file operation fails and with which error. The YAML library is a pair of functions.
\<close>

section \<open>Sizes\<close>

definition size_units :: "(gostring \<times> rat) list" where
  "size_units = [(''TB'', 1099511627776), (''GB'', 1073741824), (''MB'', 1048576), (''KB'', 1024), (''B'', 1)]"

fun parse_unit :: "(gostring \<times> rat) list \<Rightarrow> gostring \<Rightarrow> u64 option" where
  "parse_unit [] s = None"
| "parse_unit ((suffix, mult) # us) s =
     (if has_suffix s suffix then
        (case parse_float (trim_space (trim_suffix s suffix)) of
           (val, None) \<Rightarrow> Some (u64_of_f64 (fmul val (rnd mult)))
         | (val, Some e) \<Rightarrow> Some 0)
      else parse_unit us s)"

definition ParseSize :: "gostring \<Rightarrow> u64" where
  "ParseSize s =
     (let s = trim_space (to_upper s) in
      if s = [] then 0
      else
        (let s = trim_suffix s ''/MIN'' in
         case parse_unit size_units s of
           Some v \<Rightarrow> v
         | None \<Rightarrow> of_nat (fst (parse_uint 64 s))))"

definition pow2_units :: "(gostring \<times> nat) list" where
  "pow2_units = [(''KB'', 10), (''MB'', 20), (''GB'', 30), (''TB'', 40), (''kb'', 10), (''mb'', 20),
     (''gb'', 30), (''MB/min'', 20), (''GB/min'', 30)]"

lemma parse_unit_digits:
  assumes "n * 2 ^ k \<le> 9007199254740992"
  shows "(case parse_float (trim_space (nat_str n)) of
            (val, None) \<Rightarrow> Some (u64_of_f64 (fmul val (Fin (2 ^ k)))) | (val, Some e) \<Rightarrow> Some 0)
       = Some (of_nat (n * 2 ^ k))"
proof -
  have "n \<le> n * 2 ^ k" by simp
  then have n: "n \<le> 9007199254740992" using assms by linarith
  have "of_nat n * 2 ^ k = (of_nat (n * 2 ^ k) :: rat)" by simp
  then have "fmul (Fin (of_nat n)) (Fin (2 ^ k)) = Fin (of_nat (n * 2 ^ k))"
    using rnd_of_nat [OF assms] by (simp only: fmul.simps)
  moreover have "u64_of_f64 (Fin (of_nat (n * 2 ^ k))) = of_nat (n * 2 ^ k)"
    using u64_of_f64_int [of "int (n * 2 ^ k)"] assms by (simp only: of_int_of_nat_eq)
  ultimately show ?thesis using parse_float_nat_str [OF n] by simp
qed

lemma trim_space_num_unit:
  "u \<in> {''KB'', ''MB'', ''GB'', ''TB'', ''MB/MIN'', ''GB/MIN''} \<Longrightarrow> trim_space (nat_str n @ u) = nat_str n @ u"
  using nat_str_digits [of "hd (nat_str n)" n] by (intro trim_space_printable) auto

definition base_units :: "(gostring \<times> nat) list" where
  "base_units = [(''KB'', 10), (''MB'', 20), (''GB'', 30), (''TB'', 40)]"

lemma pow2_units_upper:
  "list_all (\<lambda>(u, k). all_ascii u \<and>
     list_ex (\<lambda>(v, k'). k' = k \<and> (map upper_byte u = v \<or> map upper_byte u = v @ ''/MIN'')) base_units) pow2_units"
  by code_simp

lemma parse_unit_base:
  assumes "(u, k) \<in> set base_units"
    and "n * 2 ^ k \<le> 9007199254740992"
  shows "parse_unit size_units (nat_str n @ u) = Some (of_nat (n * 2 ^ k))"
proof -
  have tail: "has_suffix (nat_str n @ u) w \<longleftrightarrow> has_suffix u w" if "length w \<le> 2" for w
    using that assms(1) by (intro has_suffix_tail) (auto simp: base_units_def)
  have r: "rnd 1099511627776 = Fin (2 ^ 40)" "rnd 1073741824 = Fin (2 ^ 30)"
    "rnd 1048576 = Fin (2 ^ 20)" "rnd 1024 = Fin (2 ^ 10)"
    by (simp_all add: rnd_numeral)
  note digits = parse_unit_digits [OF assms(2)]
  from assms(1) consider "u = ''KB'' \<and> k = 10" | "u = ''MB'' \<and> k = 20" | "u = ''GB'' \<and> k = 30" | "u = ''TB'' \<and> k = 40"
    by (auto simp: base_units_def)
  then show ?thesis
  proof cases
    case 1
    then show ?thesis using digits by (simp only: size_units_def parse_unit.simps tail r trim_suffix_append) (simp add: has_suffix_def)
  next
    case 2
    then show ?thesis using digits by (simp only: size_units_def parse_unit.simps tail r trim_suffix_append) (simp add: has_suffix_def)
  next
    case 3
    then show ?thesis using digits by (simp only: size_units_def parse_unit.simps tail r trim_suffix_append) (simp add: has_suffix_def)
  next
    case 4
    then show ?thesis using digits by (simp only: size_units_def parse_unit.simps tail r trim_suffix_append) (simp add: has_suffix_def)
  qed
qed

lemma strip_min:
  assumes "v \<in> {''KB'', ''MB'', ''GB'', ''TB''}"
  shows "trim_suffix (nat_str n @ v) ''/MIN'' = nat_str n @ v"
    and "trim_suffix (nat_str n @ v @ ''/MIN'') ''/MIN'' = nat_str n @ v"
proof -
  have "\<not> has_suffix (nat_str n @ v) ''/MIN''" using assms by (intro has_suffix_last) auto
  then show "trim_suffix (nat_str n @ v) ''/MIN'' = nat_str n @ v" by (rule trim_suffix_none)
  show "trim_suffix (nat_str n @ v @ ''/MIN'') ''/MIN'' = nat_str n @ v"
    using trim_suffix_append [of "nat_str n @ v" "''/MIN''"] by simp
qed

lemma ParseSize_upper:
  assumes "(v, k) \<in> set base_units"
    and "n * 2 ^ k \<le> 9007199254740992"
    and "all_ascii u" and "map upper_byte u = v \<or> map upper_byte u = v @ ''/MIN''"
  shows "ParseSize (nat_str n @ u) = of_nat (n * 2 ^ k)"
proof -
  have v: "v \<in> {''KB'', ''MB'', ''GB'', ''TB''}" using assms(1) by (auto simp: base_units_def)
  have up: "to_upper (nat_str n @ u) = nat_str n @ map upper_byte u"
    by (rule to_upper_nat_str [OF assms(3)])
  have "trim_space (nat_str n @ map upper_byte u) = nat_str n @ map upper_byte u"
    using nat_str_digits [of "hd (nat_str n)" n] v assms(4) by (intro trim_space_printable) auto
  moreover have "trim_suffix (nat_str n @ map upper_byte u) ''/MIN'' = nat_str n @ v"
    using strip_min [OF v, of n] assms(4) by auto
  ultimately show ?thesis
    using parse_unit_base [OF assms(1,2)] by (simp only: ParseSize_def up Let_def) simp
qed

text \<open>
  A whole number of kilo-, mega-, giga- or terabytes, in either case and with or without the
  per minute suffix, parses to exactly that many bytes, as long as the product is below 2 to the 53.
\<close>

theorem ParseSize_exact:
  assumes "(u, k) \<in> set pow2_units" and "n * 2 ^ k \<le> 9007199254740992"
  shows "ParseSize (nat_str n @ u) = of_nat (n * 2 ^ k)"
proof -
  have "all_ascii u \<and> (\<exists>v. (v, k) \<in> set base_units \<and>
      (map upper_byte u = v \<or> map upper_byte u = v @ ''/MIN''))"
    using pow2_units_upper assms(1) unfolding list_all_iff list_ex_iff by fastforce
  then show ?thesis using ParseSize_upper assms(2) by blast
qed

theorem ParseSize_exact_witness: "ParseSize (nat_str 10 @ ''MB/min'') = 10485760"
  using ParseSize_exact [of "''MB/min''" 20 10] by (simp add: pow2_units_def)

section \<open>Merging ignore lists\<close>

definition fold_key :: "gostring \<Rightarrow> gostring" where
  "fold_key x = to_lower (trim_space x)"

fun merge_pass :: "gostring list \<Rightarrow> gostring set \<Rightarrow> gostring list \<Rightarrow> gostring set \<times> gostring list" where
  "merge_pass [] seen out = (seen, out)"
| "merge_pass (x # xs) seen out =
     (let k = fold_key x in
      if k = [] then merge_pass xs seen out
      else if k \<in> seen then merge_pass xs seen out
      else merge_pass xs (insert k seen) (out @ [x]))"

definition mergeUniqueFold :: "gostring list \<Rightarrow> gostring list \<Rightarrow> gostring list" where
  "mergeUniqueFold base extra =
     (let (seen, out) = merge_pass base {} [] in snd (merge_pass extra seen out))"

definition keys_of :: "gostring list \<Rightarrow> gostring set" where
  "keys_of xs = fold_key ` set xs - {[]}"

lemma merge_pass_spec:
  assumes "merge_pass xs seen out = (seen', out')"
  obtains ys where "out' = out @ ys" and "seen' = seen \<union> keys_of xs" and "set ys \<subseteq> set xs"
    and "distinct (map fold_key ys)" and "fold_key ` set ys = keys_of xs - seen"
proof -
  have "\<exists>ys. out' = out @ ys \<and> seen' = seen \<union> keys_of xs \<and> set ys \<subseteq> set xs \<and>
    distinct (map fold_key ys) \<and> fold_key ` set ys = keys_of xs - seen"
    using assms
  proof (induction xs seen out rule: merge_pass.induct)
    case (2 x xs seen out)
    show ?case
    proof (cases "fold_key x = [] \<or> fold_key x \<in> seen")
      case True
      then obtain ys where "out' = out @ ys \<and> seen' = seen \<union> keys_of xs \<and> set ys \<subseteq> set xs \<and>
          distinct (map fold_key ys) \<and> fold_key ` set ys = keys_of xs - seen"
        using 2 by (auto simp: Let_def split: if_splits)
      with True show ?thesis by (intro exI [of _ ys]) (auto simp: keys_of_def)
    next
      case False
      then obtain ys where "out' = (out @ [x]) @ ys \<and> seen' = insert (fold_key x) seen \<union> keys_of xs \<and>
          set ys \<subseteq> set xs \<and> distinct (map fold_key ys) \<and>
          fold_key ` set ys = keys_of xs - insert (fold_key x) seen"
        using 2 by (auto simp: Let_def)
      with False show ?thesis by (intro exI [of _ "x # ys"]) (auto simp: keys_of_def)
    qed
  qed (simp add: keys_of_def)
  then show ?thesis using that by blast
qed

lemma merge_pass_distinct:
  "distinct (map fold_key xs) \<Longrightarrow> [] \<notin> fold_key ` set xs \<Longrightarrow> seen \<inter> fold_key ` set xs = {} \<Longrightarrow>
     merge_pass xs seen out = (seen \<union> fold_key ` set xs, out @ xs)"
  by (induction xs arbitrary: seen out) (auto simp: Let_def)

lemma mergeUniqueFold_spec:
  shows "fold_key ` set (mergeUniqueFold base extra) = keys_of (base @ extra)"
    and "distinct (map fold_key (mergeUniqueFold base extra))"
    and "set (mergeUniqueFold base extra) \<subseteq> set (base @ extra)"
proof -
  obtain s1 o1 where 1: "merge_pass base {} [] = (s1, o1)" by fastforce
  obtain s2 o2 where 2: "merge_pass extra s1 o1 = (s2, o2)" by fastforce
  from 1 obtain ys where ys: "o1 = ys" "s1 = keys_of base" "set ys \<subseteq> set base"
      "distinct (map fold_key ys)" "fold_key ` set ys = keys_of base"
    by (rule merge_pass_spec) simp
  from 2 obtain zs where zs: "o2 = o1 @ zs" "set zs \<subseteq> set extra"
      "distinct (map fold_key zs)" "fold_key ` set zs = keys_of extra - s1"
    by (rule merge_pass_spec)
  have m: "mergeUniqueFold base extra = ys @ zs"
    using 1 2 ys(1) zs(1) by (simp add: mergeUniqueFold_def)
  show "fold_key ` set (mergeUniqueFold base extra) = keys_of (base @ extra)"
    unfolding m using ys zs by (auto simp: keys_of_def image_Un)
  have "fold_key ` set ys \<inter> fold_key ` set zs = {}" using ys zs by auto
  then show "distinct (map fold_key (mergeUniqueFold base extra))"
    unfolding m using ys zs by auto
  show "set (mergeUniqueFold base extra) \<subseteq> set (base @ extra)"
    unfolding m using ys zs by auto
qed

lemma mergeUniqueFold_prefix:
  assumes "distinct (map fold_key base)" and "[] \<notin> fold_key ` set base"
  shows "take (length base) (mergeUniqueFold base extra) = base"
proof -
  have b: "merge_pass base {} [] = (fold_key ` set base, base)"
    using merge_pass_distinct [OF assms, of "{}" "[]"] by simp
  obtain s2 o2 where e: "merge_pass extra (fold_key ` set base) base = (s2, o2)" by fastforce
  then obtain zs where "o2 = base @ zs" by (rule merge_pass_spec)
  then show ?thesis using b e by (simp add: mergeUniqueFold_def)
qed

section \<open>The file system and the environment\<close>

record 'd fileobj =
  f_content :: 'd
  f_mtime :: gotime

type_synonym 'd fs = "gostring \<rightharpoonup> 'd fileobj"

text \<open>
  What the operating system and the YAML library do during one call: the error of each operation,
  if any, what a failed write left in the temporary file, and the clock stamped on new files.
\<close>

record 'd load_env =
  le_stat :: "goerror option"
  le_read :: "goerror option"
  le_mkdir :: "goerror option"
  le_write :: "goerror option"
  le_partial :: "'d option"
  le_rename :: "goerror option"
  le_remove :: "goerror option"
  le_now :: gotime
  le_marshal :: "Config \<Rightarrow> goerror + 'd"
  le_unmarshal :: "'d \<Rightarrow> Config \<Rightarrow> Config \<times> goerror option"

definition not_exist :: goerror where
  "not_exist = ErrSys ''file does not exist''"

text \<open>
  \<^verbatim>\<open>Save\<close>: the list of file systems it goes through, last first, and its error. Every entry is a
  state a crash could leave behind.
\<close>

definition Save :: "'d load_env \<Rightarrow> gostring \<Rightarrow> Config \<Rightarrow> 'd fs \<Rightarrow> 'd fs list \<times> goerror option" where
  "Save env path cfg fs =
     (case le_mkdir env of
        Some e \<Rightarrow> ([fs], Some (Errorf ''create config directory: %w'' [FWrap e]))
      | None \<Rightarrow>
        (case le_marshal env cfg of
           Inl e \<Rightarrow> ([fs], Some (Errorf ''marshal config: %w'' [FWrap e]))
         | Inr data \<Rightarrow>
           (let tmp = path @ ''.tmp'' in
            case le_write env of
              Some e \<Rightarrow>
                (let fs1 = (case le_partial env of
                              None \<Rightarrow> fs
                            | Some d \<Rightarrow> fs(tmp \<mapsto> \<lparr>f_content = d, f_mtime = le_now env\<rparr>))
                 in ([fs1, fs], Some (Errorf ''write temp config: %w'' [FWrap e])))
            | None \<Rightarrow>
                (let f = \<lparr>f_content = data, f_mtime = le_now env\<rparr>; fs1 = fs(tmp \<mapsto> f) in
                 case le_rename env of
                   Some e \<Rightarrow>
                     (let fs2 = (if le_remove env = None then fs1(tmp := None) else fs1)
                      in ([fs2, fs1, fs], Some (Errorf ''replace config: %w'' [FWrap e])))
                 | None \<Rightarrow> ([fs1(tmp := None, path \<mapsto> f), fs1, fs], None)))))"

text \<open>\<^verbatim>\<open>Load\<close>: the file system it leaves behind and the configuration or the error.\<close>

definition migrate :: "Config \<Rightarrow> Config" where
  "migrate cfg =
     (let preserved = an_IgnoreProcesses (c_Anomaly cfg);
          anomaly = c_Anomaly DefaultConfig;
          anomaly' = (if preserved \<noteq> []
                      then anomaly\<lparr>an_IgnoreProcesses := mergeUniqueFold (an_IgnoreProcesses anomaly) preserved\<rparr>
                      else anomaly)
      in cfg\<lparr>c_Anomaly := anomaly', c_SchemaVersion := CurrentSchemaVersion\<rparr>)"

definition load_validated :: "Config \<Rightarrow> goerror + Config" where
  "load_validated cfg =
     (case Validate cfg of
        (cfg', None) \<Rightarrow> Inr cfg'
      | (cfg', Some e) \<Rightarrow> Inl (Errorf ''validate config: %w'' [FWrap e]))"

definition stat_file :: "'d load_env \<Rightarrow> gostring \<Rightarrow> 'd fs \<Rightarrow> goerror + gotime" where
  "stat_file env path fs =
     (case le_stat env of
        Some e \<Rightarrow> Inl e
      | None \<Rightarrow> (case fs path of None \<Rightarrow> Inl not_exist | Some f \<Rightarrow> Inr (f_mtime f)))"

definition read_file :: "'d load_env \<Rightarrow> gostring \<Rightarrow> 'd fs \<Rightarrow> goerror + 'd" where
  "read_file env path fs =
     (case le_read env of
        Some e \<Rightarrow> Inl e
      | None \<Rightarrow> (case fs path of None \<Rightarrow> Inl not_exist | Some f \<Rightarrow> Inr (f_content f)))"

definition Load :: "'d load_env \<Rightarrow> gostring \<Rightarrow> 'd fs \<Rightarrow> 'd fs \<times> (goerror + Config)" where
  "Load env path fs =
     (if stat_file env path fs = Inl not_exist then
        (let cfg = DefaultConfig in
         case Save env path cfg fs of
           (states, None) \<Rightarrow> (hd states, Inr cfg)
         | (states, Some e) \<Rightarrow> (hd states, Inl (Errorf ''create default config: %w'' [FWrap e])))
      else
        (case read_file env path fs of
           Inl e \<Rightarrow> (fs, Inl (Errorf ''read config: %w'' [FWrap e]))
         | Inr data \<Rightarrow>
           (case le_unmarshal env data DefaultConfig of
              (cfg, Some e) \<Rightarrow> (fs, Inl (Errorf ''parse config: %w'' [FWrap e]))
            | (cfg, None) \<Rightarrow>
              (if c_SchemaVersion cfg < CurrentSchemaVersion then
                 (case Save env path (migrate cfg) fs of
                    (states, None) \<Rightarrow> (hd states, load_validated (migrate cfg))
                  | (states, Some e) \<Rightarrow> (hd states, Inl (Errorf ''persist migrated config: %w'' [FWrap e])))
               else (fs, load_validated cfg)))))"

lemma path_tmp [simp]: "path \<noteq> path @ ''.tmp''" "path @ ''.tmp'' \<noteq> path"
  by simp_all

lemma Save_nonempty: "Save env path cfg fs = (states, e) \<Longrightarrow> states \<noteq> []"
  by (auto simp: Save_def Let_def split: option.splits sum.splits)

lemma Save_ok:
  "Save env path cfg fs = (states, None) \<longleftrightarrow>
     (\<exists>d. le_mkdir env = None \<and> le_marshal env cfg = Inr d \<and> le_write env = None \<and> le_rename env = None \<and>
        states = [(fs(path @ ''.tmp'' \<mapsto> \<lparr>f_content = d, f_mtime = le_now env\<rparr>))
                    (path @ ''.tmp'' := None, path \<mapsto> \<lparr>f_content = d, f_mtime = le_now env\<rparr>),
                  fs(path @ ''.tmp'' \<mapsto> \<lparr>f_content = d, f_mtime = le_now env\<rparr>), fs])"
  by (auto simp: Save_def Let_def split: option.splits sum.splits)

lemma Save_ok_content:
  "Save env path cfg fs = (states, None) \<Longrightarrow> le_marshal env cfg = Inr d \<Longrightarrow>
     hd states path = Some \<lparr>f_content = d, f_mtime = le_now env\<rparr>"
  by (auto simp: Save_ok)

text \<open>
  C30. Saving is atomic. Whatever fails and wherever the program is stopped, the file at the path holds
  either what it held before or the complete new configuration; when an error is returned it is the
  old content in every state; on success it is the new one and no temporary file is left; and no
  file but the path and its temporary file is ever touched.
\<close>

theorem Save_atomic:
  "case Save env path cfg fs of
     (states, None) \<Rightarrow>
       (\<exists>d. le_marshal env cfg = Inr d \<and>
          list_all (\<lambda>s. s path = fs path \<or> s path = Some \<lparr>f_content = d, f_mtime = le_now env\<rparr>) states \<and>
          hd states = fs(path \<mapsto> \<lparr>f_content = d, f_mtime = le_now env\<rparr>, path @ ''.tmp'' := None))
   | (states, Some e) \<Rightarrow>
       list_all (\<lambda>s. s path = fs path \<and> s(path @ ''.tmp'' := None) = fs(path @ ''.tmp'' := None)) states"
  by (auto simp: Save_def Let_def fun_eq_iff split: option.splits sum.splits)

lemma DefaultConfig_ok: "cfg_ok DefaultConfig"
  by (simp add: cfg_ok_def DefaultConfig_def default_server_def default_monitoring_def default_ai_def
      default_telegram_def ai_ok_def telegram_ok_def time_units DefaultTelegramNotificationTypes_def)

lemma load_validated_ok: "load_validated cfg = Inr cfg' \<Longrightarrow> cfg_ok cfg'"
  by (auto simp: load_validated_def Validate_ok split: prod.splits option.splits)

lemma load_validated_id: "cfg_ok cfg \<Longrightarrow> load_validated cfg = Inr cfg"
  by (simp add: load_validated_def Validate_id)

lemma DefaultConfig_schema [simp]: "c_SchemaVersion DefaultConfig = CurrentSchemaVersion"
  by (simp add: DefaultConfig_def)

lemma migrate_schema [simp]: "c_SchemaVersion (migrate cfg) = CurrentSchemaVersion"
  by (simp add: migrate_def Let_def)

lemma Load_ok:
  assumes "Load env path fs = (fs', Inr cfg)"
  shows "cfg_ok cfg" and "CurrentSchemaVersion \<le> c_SchemaVersion cfg"
proof -
  have "cfg_ok cfg \<and> CurrentSchemaVersion \<le> c_SchemaVersion cfg"
    using assms
    by (auto simp: Load_def Let_def DefaultConfig_ok load_validated_def dest: Validate_ok Validate_keeps
        split: if_splits prod.splits sum.splits option.splits)
  then show "cfg_ok cfg" "CurrentSchemaVersion \<le> c_SchemaVersion cfg" by simp_all
qed

text \<open>
  C32. What \<^verbatim>\<open>Load\<close> returns without an error is always a validated configuration of the current
  schema, whatever the file held; a second validation would not change it.
\<close>

theorem Load_valid:
  assumes "Load env path fs = (fs', Inr cfg)"
  shows "cfg_ok cfg \<and> CurrentSchemaVersion \<le> c_SchemaVersion cfg \<and> Validate cfg = (cfg, None)"
  using Load_ok [OF assms] Validate_id by blast

definition ident_env :: "Config load_env" where
  "ident_env = \<lparr>le_stat = None, le_read = None, le_mkdir = None, le_write = None, le_partial = None,
     le_rename = None, le_remove = None, le_now = 7, le_marshal = Inr,
     le_unmarshal = (\<lambda>d _. (d, None))\<rparr>"

theorem Load_valid_witness: "cfg_ok (projr (snd (Load ident_env ''c'' Map.empty)))"
  using Load_valid [of ident_env "''c''" Map.empty
      "hd (fst (Save ident_env ''c'' DefaultConfig Map.empty))" DefaultConfig]
  by (simp add: Load_def stat_file_def ident_env_def Save_def Let_def)



text \<open>
  Loading a file of an older schema replaces the anomaly section by the new defaults, keeps every
  process the user had chosen to ignore (up to case and surrounding space) next to all default ones
  and lists none twice, keeps the rest of the tree but for clamping, and leaves the migrated
  configuration in the file.
\<close>

theorem Load_migrates:
  assumes "le_stat env = None" and "le_read env = None" and "fs path = Some f"
    and "le_unmarshal env (f_content f) DefaultConfig = (cfg, None)"
    and "c_SchemaVersion cfg < CurrentSchemaVersion"
    and "Load env path fs = (fs', Inr cfg')"
  shows "c_SchemaVersion cfg' = CurrentSchemaVersion \<and>
     c_Anomaly cfg'\<lparr>an_IgnoreProcesses := an_IgnoreProcesses default_anomaly\<rparr> = default_anomaly \<and>
     keys_of (an_IgnoreProcesses (c_Anomaly cfg')) =
       keys_of (an_IgnoreProcesses default_anomaly @ an_IgnoreProcesses (c_Anomaly cfg)) \<and>
     (an_IgnoreProcesses (c_Anomaly cfg) \<noteq> [] \<longrightarrow>
        distinct (map fold_key (an_IgnoreProcesses (c_Anomaly cfg')))) \<and>
     c_Rules cfg' = c_Rules cfg \<and> c_Controller cfg' = c_Controller cfg \<and> c_Server cfg' = c_Server cfg \<and>
     (\<exists>d. le_marshal env (migrate cfg) = Inr d \<and>
        fs' path = Some \<lparr>f_content = d, f_mtime = le_now env\<rparr>)"
proof -
  obtain states e where S: "Save env path (migrate cfg) fs = (states, e)" by fastforce
  have L: "Load env path fs = (case e of
      None \<Rightarrow> (hd states, load_validated (migrate cfg))
    | Some e \<Rightarrow> (hd states, Inl (Errorf ''persist migrated config: %w'' [FWrap e])))"
    using assms(1-5) S by (simp add: Load_def stat_file_def read_file_def)
  with assms(6) have e: "e = None" and fs': "fs' = hd states"
    and v: "load_validated (migrate cfg) = Inr cfg'" by (auto split: option.splits)
  from v have V: "Validate (migrate cfg) = (cfg', None)"
    by (auto simp: load_validated_def split: prod.splits option.splits)
  obtain d where "le_marshal env (migrate cfg) = Inr d" using S e by (auto simp: Save_ok)
  then have "\<exists>d. le_marshal env (migrate cfg) = Inr d \<and> fs' path = Some \<lparr>f_content = d, f_mtime = le_now env\<rparr>"
    using Save_ok_content [of env path "migrate cfg" fs states] S e fs' by auto
  moreover have "c_Anomaly DefaultConfig = default_anomaly" by (simp add: DefaultConfig_def)
  moreover have "keys_of (mergeUniqueFold base extra) = keys_of (base @ extra)" for base extra
    using mergeUniqueFold_spec(1) [of base extra] by (simp add: keys_of_def)
  ultimately show ?thesis
    using Validate_keeps [OF V] mergeUniqueFold_spec(2)
    by (simp add: migrate_def Let_def)
qed

theorem Load_migrates_witness:
  "\<exists>fs' cfg'. Load ident_env ''c'' [''c'' \<mapsto> \<lparr>f_content = DefaultConfig\<lparr>c_SchemaVersion := 1\<rparr>, f_mtime = 0\<rparr>]
       = (fs', Inr cfg') \<and> c_SchemaVersion cfg' = CurrentSchemaVersion"
proof -
  let ?old = "DefaultConfig\<lparr>c_SchemaVersion := 1\<rparr>"
  let ?fs = "[''c'' \<mapsto> \<lparr>f_content = ?old, f_mtime = 0\<rparr>]"
  have ok: "cfg_ok (migrate ?old)"
    using DefaultConfig_ok by (simp add: cfg_ok_def migrate_def Let_def)
  obtain states where S: "Save ident_env ''c'' (migrate ?old) ?fs = (states, None)"
    by (simp add: Save_def Let_def ident_env_def)
  then have L: "Load ident_env ''c'' ?fs = (hd states, Inr (migrate ?old))"
    using load_validated_id [OF ok]
    by (simp add: Load_def stat_file_def read_file_def ident_env_def CurrentSchemaVersion_def)
  have "c_SchemaVersion (migrate ?old) = CurrentSchemaVersion"
    using Load_migrates [OF _ _ _ _ _ L, of "\<lparr>f_content = ?old, f_mtime = 0\<rparr>" ?old]
    by (simp add: ident_env_def CurrentSchemaVersion_def)
  with L show ?thesis by blast
qed

section \<open>The watcher\<close>

text \<open>
  \<^verbatim>\<open>reloadIfChanged\<close>: the new modification time to remember, and the configuration handed to the
  callback, if any. A file that does not parse is remembered as seen, so it is not read again
  until it changes.
\<close>

definition reloadIfChanged ::
  "'d load_env \<Rightarrow> 'd load_env \<Rightarrow> gostring \<Rightarrow> gotime \<Rightarrow> 'd fs \<Rightarrow> 'd fs \<times> gotime \<times> Config option" where
  "reloadIfChanged env1 env2 path lastMod fs =
     (case stat_file env1 path fs of
        Inl e \<Rightarrow> (fs, lastMod, None)
      | Inr mtime \<Rightarrow>
          if \<not> t_after mtime lastMod then (fs, lastMod, None)
          else (case Load env2 path fs of
                  (fs', Inr cfg) \<Rightarrow> (fs', mtime, Some cfg)
                | (fs', Inl e) \<Rightarrow> (fs', mtime, None)))"

definition currentModTime :: "'d load_env \<Rightarrow> gostring \<Rightarrow> 'd fs \<Rightarrow> gotime" where
  "currentModTime env path fs =
     (case stat_file env path fs of Inl e \<Rightarrow> zero_time | Inr mtime \<Rightarrow> mtime)"

end
