(* ===== verification/Alerts.thy ===== *)
theory Alerts
  imports Config
begin

text \<open>
  \<^verbatim>\<open>internal/anomaly/alert.go\<close> and \<^verbatim>\<open>ignore.go\<close>: the alert store all detectors and rules raise into,
  and the ignore list. Every operation runs under the store's lock, so it is one step. Where the
  code calls \<^verbatim>\<open>time.Now()\<close> the instant is an argument.

  The history is an instance of the bounded log of the prelude; the active set is at most as large
  as its cap, has one alert per key, and is disjoint from the snoozed keys.
\<close>

section \<open>Alerts\<close>

text \<open>A value of type \<^verbatim>\<open>any\<close> in an alert's details.\<close>

datatype anyval = AInt int | AF64 f64 | AStr gostring | ABool bool | AStrs "gostring list"

definition SeverityInfo :: gostring where "SeverityInfo = ''info''"
definition SeverityWarning :: gostring where "SeverityWarning = ''warning''"
definition SeverityCritical :: gostring where "SeverityCritical = ''critical''"

record Alert =
  al_ID :: gostring
  al_Type :: gostring
  al_Severity :: gostring
  al_Title :: gostring
  al_Description :: gostring
  al_PID :: u32
  al_ProcessName :: gostring
  al_Detected :: gotime
  al_Cleared :: "gotime option"
  al_Action :: gostring
  al_Details :: "(gostring, anyval) gomap"

definition zero_alert :: Alert where
  "zero_alert = \<lparr>al_ID = [], al_Type = [], al_Severity = [], al_Title = [], al_Description = [],
     al_PID = 0, al_ProcessName = [], al_Detected = zero_time, al_Cleared = None, al_Action = [], al_Details = []\<rparr>"

record AlertStore =
  as_active :: "(gostring, Alert) gomap"
  as_history :: "Alert list"
  as_snoozed :: "(gostring, gotime) gomap"
  as_maxHistory :: int
  as_maxActive :: int
  as_nextID :: u64

definition NewAlertStore :: "int \<Rightarrow> AlertStore" where
  "NewAlertStore maxHistory =
     \<lparr>as_active = [], as_history = [], as_snoozed = [],
      as_maxHistory = (if maxHistory < 32 then 32 else maxHistory), as_maxActive = 200, as_nextID = 0\<rparr>"

section \<open>Keys\<close>

text \<open>
  \<^verbatim>\<open>uint32ToA\<close> fills a buffer of ten bytes from the right; \<open>None\<close> is the panic of an index out of
  range.
\<close>

function u32_loop :: "u32 \<Rightarrow> nat \<Rightarrow> char list \<Rightarrow> (nat \<times> char list) option" where
  "u32_loop n i buf =
     (if n = 0 then Some (i, buf)
      else if i = 0 \<or> length buf < i then None
      else u32_loop (n div 10) (i - 1) (buf[i - 1 := char_of (48 + unat (n mod 10))]))"
  by pat_completeness auto
termination
proof (relation "measure (\<lambda>(n, _, _). unat n)")
  fix n :: u32
  assume "n \<noteq> 0"
  then show "((n div 10, i, b), (n, i', b')) \<in> measure (\<lambda>(n, _, _). unat n)" for i b i' b'
    by (simp add: unat_div unat_gt_0)
qed simp

declare u32_loop.simps [simp del]

definition uint32ToA :: "u32 \<Rightarrow> gostring option" where
  "uint32ToA n =
     (if n = 0 then Some ''0''
      else map_option (\<lambda>(i, buf). drop i buf) (u32_loop n 10 (replicate 10 (char_of (0 :: nat)))))"

lemma unat_u32_less: "unat (n :: u32) < 4294967296"
  using unsigned_less [of n, where ?'a = nat] by simp

lemma length_nat_str: "n < 10 ^ d \<Longrightarrow> 0 < d \<Longrightarrow> length (nat_str n) \<le> d"
proof (induction d arbitrary: n)
  case (Suc d)
  show ?case
  proof (cases "n < 10")
    case False
    then have "n div 10 < 10 ^ d" "0 < d" using Suc.prems by (auto intro!: Nat.gr0I)
    then show ?thesis using Suc.IH [of "n div 10"] False by (simp add: nat_str.simps [of n])
  qed (simp add: nat_str.simps)
qed simp

lemma div10_zero: "(n :: u32) div 10 = 0 \<longleftrightarrow> unat n < 10"
proof -
  have "n div 10 = 0 \<longleftrightarrow> unat (n div 10) = 0" by (simp add: word_unat_eq_iff)
  also have "unat (n div 10) = unat n div 10" by (simp add: unat_div)
  also have "unat n div 10 = 0 \<longleftrightarrow> unat n < 10" by (simp add: div_eq_0_iff)
  finally show ?thesis .
qed

lemma u32_loop_spec:
  assumes "n \<noteq> 0" and "length (nat_str (unat n)) \<le> i" and "i \<le> length buf"
  shows "\<exists>j buf'. u32_loop n i buf = Some (j, buf') \<and> drop j buf' = nat_str (unat n) @ drop i buf"
  using assms
proof (induction n i buf rule: u32_loop.induct)
  case (1 n i buf)
  let ?d = "char_of (48 + unat (n mod 10)) :: char"
  let ?buf = "buf[i - 1 := ?d]"
  have i: "0 < i" using "1.prems"(2) by (cases i) auto
  have step: "u32_loop n i buf = u32_loop (n div 10) (i - 1) ?buf"
    using "1.prems" i by (subst u32_loop.simps) simp
  have dig: "?d = digit_char (unat n mod 10)" by (simp add: digit_char_def unat_mod)
  have dr: "drop (i - 1) ?buf = ?d # drop i buf"
    using i "1.prems"(3) Cons_nth_drop_Suc [of "i - 1" ?buf] by simp
  show ?case
  proof (cases "n div 10 = 0")
    case True
    then have "unat n < 10" using div10_zero by blast
    then have "nat_str (unat n) = [?d]" using dig by (subst nat_str.simps) simp
    moreover have "u32_loop (n div 10) (i - 1) ?buf = Some (i - 1, ?buf)"
      using True by (subst u32_loop.simps) simp
    ultimately show ?thesis using step dr by simp
  next
    case False
    have big: "\<not> unat n < 10"
      using False div10_zero by blast
    have ns: "nat_str (unat n) = nat_str (unat (n div 10)) @ [?d]"
      using big dig by (simp add: nat_str.simps [of "unat n"] unat_div)
    have "\<exists>j buf'. u32_loop (n div 10) (i - 1) ?buf = Some (j, buf') \<and>
        drop j buf' = nat_str (unat (n div 10)) @ drop (i - 1) ?buf"
      using "1.IH" [OF "1.prems"(1) _ False] "1.prems" i ns by simp
    then show ?thesis using step dr ns by auto
  qed
qed

lemma digit_char_0: "digit_char 0 = CHR ''0''"
  by code_simp

lemma uint32ToA_eq: "uint32ToA n = Some (nat_str (unat n))"
proof (cases "n = 0")
  case False
  have "unat n < 10 ^ 10" using unat_u32_less [of n] by simp
  then have "length (nat_str (unat n)) \<le> 10" by (rule length_nat_str) simp
  then show ?thesis
    using u32_loop_spec [OF False, of 10 "replicate 10 (char_of (0 :: nat))"] False
    by (auto simp: uint32ToA_def)
qed (simp add: uint32ToA_def nat_str.simps digit_char_0)

text \<open>
  The hand-written decimal conversion of a process id never indexes outside its ten byte buffer
  and prints every 32-bit number exactly, so different numbers print differently.
\<close>

theorem uint32ToA_exact:
  "\<exists>s. uint32ToA n = Some s \<and> parse_uint 32 s = (unat n, None)"
  using unat_u32_less [of n] by (simp add: uint32ToA_eq parse_uint_nat_str)

definition alertKey :: "gostring \<Rightarrow> u32 \<Rightarrow> gostring" where
  "alertKey typeName pid =
     (if 0 < pid then typeName @ ''/'' @ the (uint32ToA pid) else typeName)"

lemma alertKey_pid: "pid \<noteq> 0 \<Longrightarrow> alertKey t pid = t @ CHR ''/'' # nat_str (unat pid)"
  by (simp add: alertKey_def uint32ToA_eq word_neq_0_conv)

lemma last_slash_unique:
  "CHR ''/'' \<notin> set u \<Longrightarrow> CHR ''/'' \<notin> set v \<Longrightarrow> s @ CHR ''/'' # u = t @ CHR ''/'' # v \<Longrightarrow> s = t \<and> u = v"
proof (induction u arbitrary: v rule: rev_induct)
  case Nil
  then show ?case by (cases v rule: rev_cases) auto
next
  case (snoc x u)
  then show ?case by (cases v rule: rev_cases) auto
qed

text \<open>
  Alert keys identify alerts: two alerts about processes, or two alerts whose types hold no slash,
  have the same key only if they have the same type and process.
\<close>

theorem alertKey_inj:
  assumes "(p \<noteq> 0 \<and> q \<noteq> 0) \<or> (CHR ''/'' \<notin> set s \<and> CHR ''/'' \<notin> set t)"
  shows "alertKey s p = alertKey t q \<longleftrightarrow> s = t \<and> p = q"
proof
  assume eq: "alertKey s p = alertKey t q"
  show "s = t \<and> p = q"
  proof (cases "p = 0 \<or> q = 0")
    case True
    have "CHR ''/'' \<in> set (alertKey r k) \<longleftrightarrow> CHR ''/'' \<in> set r \<or> k \<noteq> 0" for r k
      by (cases "k = 0") (simp add: alertKey_def, simp add: alertKey_pid)
    then have "p = 0 \<and> q = 0" using True assms eq by metis
    then show ?thesis using eq by (simp add: alertKey_def)
  next
    case False
    then have "s = t \<and> nat_str (unat p) = nat_str (unat q)"
      using eq by (intro last_slash_unique) (simp_all add: alertKey_pid nat_str_no_slash)
    then show ?thesis by (simp add: nat_str_inj word_unat_eq_iff)
  qed
qed simp

theorem alertKey_inj_witness: "alertKey ''hung_process'' 12 \<noteq> alertKey ''hung_process'' 1"
  using alertKey_inj [of 12 1 "''hung_process''" "''hung_process''"] by simp

section \<open>Operations\<close>

definition SetMaxActive :: "int \<Rightarrow> AlertStore \<Rightarrow> AlertStore" where
  "SetMaxActive n s = s\<lparr>as_maxActive := n\<rparr>"

definition appendHistory :: "Alert \<Rightarrow> AlertStore \<Rightarrow> AlertStore" where
  "appendHistory a s =
     (let h = (if as_maxHistory s \<le> int (length (as_history s)) then tl (as_history s) else as_history s)
      in s\<lparr>as_history := h @ [a]\<rparr>)"

text \<open>\<^verbatim>\<open>Raise\<close>, the clock read first for the snooze test and then for the detection time.\<close>

definition raise_unsnoozed :: "gotime \<Rightarrow> Alert \<Rightarrow> AlertStore \<Rightarrow> AlertStore \<times> Alert \<times> bool" where
  "raise_unsnoozed now2 a s =
     (let key = alertKey (al_Type a) (al_PID a) in
      case mget (as_active s) key of
        Some existing \<Rightarrow>
          (let e = existing\<lparr>al_Description := al_Description a, al_Severity := al_Severity a,
                            al_Details := al_Details a\<rparr>
           in (s\<lparr>as_active := mput key e (as_active s)\<rparr>, e, False))
      | None \<Rightarrow>
          (let s1 = s\<lparr>as_nextID := as_nextID s + 1\<rparr>;
               a1 = a\<lparr>al_ID := key, al_Detected := now2\<rparr>
           in if 0 < as_maxActive s \<and> as_maxActive s \<le> int (length (as_active s))
              then (appendHistory a1 s1, a1, False)
              else (appendHistory a1 (s1\<lparr>as_active := mput key a1 (as_active s1)\<rparr>), a1, True)))"

definition Raise :: "gotime \<Rightarrow> gotime \<Rightarrow> Alert \<Rightarrow> AlertStore \<Rightarrow> AlertStore \<times> Alert \<times> bool" where
  "Raise now1 now2 a s =
     (let key = alertKey (al_Type a) (al_PID a) in
      case mget (as_snoozed s) key of
        Some until \<Rightarrow>
          if t_before now1 until then (s, a, False)
          else raise_unsnoozed now2 a (s\<lparr>as_snoozed := mdel key (as_snoozed s)\<rparr>)
      | None \<Rightarrow> raise_unsnoozed now2 a s)"

text \<open>
  Clearing stamps the alert object with the time and then drops it from the map. The object is the
  map's own: the history holds copies.
\<close>

definition drop_stamped :: "gotime \<Rightarrow> gostring \<Rightarrow> Alert \<Rightarrow> AlertStore \<Rightarrow> AlertStore" where
  "drop_stamped now key a s =
     (let s = s\<lparr>as_active := mput key (a\<lparr>al_Cleared := Some now\<rparr>) (as_active s)\<rparr>
      in s\<lparr>as_active := mdel key (as_active s)\<rparr>)"

definition ClearByType :: "gotime \<Rightarrow> gostring \<Rightarrow> AlertStore \<Rightarrow> AlertStore \<times> nat" where
  "ClearByType now typeName s =
     fold (\<lambda>(key, a) (s, removed).
             if al_Type a = typeName then (drop_stamped now key a s, removed + 1) else (s, removed))
          (as_active s) (s, 0)"

definition ClearAll :: "gotime \<Rightarrow> AlertStore \<Rightarrow> AlertStore \<times> nat" where
  "ClearAll now s = (fold (\<lambda>(key, a). drop_stamped now key a) (as_active s) s, length (as_active s))"

definition ClearByKey :: "gotime \<Rightarrow> gostring \<Rightarrow> AlertStore \<Rightarrow> AlertStore" where
  "ClearByKey now key s =
     (case mget (as_active s) key of
        Some existing \<Rightarrow> drop_stamped now key existing s
      | None \<Rightarrow> s)"

definition Clear :: "gotime \<Rightarrow> gostring \<Rightarrow> u32 \<Rightarrow> AlertStore \<Rightarrow> AlertStore" where
  "Clear now typeName pid s = ClearByKey now (alertKey typeName pid) s"

definition Snooze :: "gostring \<Rightarrow> u32 \<Rightarrow> gotime \<Rightarrow> AlertStore \<Rightarrow> AlertStore" where
  "Snooze typeName pid until s =
     (let key = alertKey typeName pid; s = s\<lparr>as_snoozed := mput key until (as_snoozed s)\<rparr>
      in case mget (as_active s) key of
           Some existing \<Rightarrow> drop_stamped until key existing s
         | None \<Rightarrow> s)"

definition Active :: "AlertStore \<Rightarrow> Alert list" where
  "Active s = map snd (as_active s)"

definition History :: "AlertStore \<Rightarrow> Alert list" where
  "History s = as_history s"

section \<open>What clearing amounts to\<close>

lemma mdel_mput [simp]: "mdel k (mput k v m) = mdel k m"
  by (induction k v m rule: mput.induct) auto

lemma drop_stamped_eq: "drop_stamped now key a s = s\<lparr>as_active := mdel key (as_active s)\<rparr>"
  by (simp add: drop_stamped_def)

lemma ClearByKey_eq: "ClearByKey now key s = s\<lparr>as_active := mdel key (as_active s)\<rparr>"
  using mget_None_iff [of "as_active s" key] by (auto simp: ClearByKey_def drop_stamped_eq split: option.splits)

lemma Snooze_eq:
  "Snooze t p u s = s\<lparr>as_snoozed := mput (alertKey t p) u (as_snoozed s), as_active := mdel (alertKey t p) (as_active s)\<rparr>"
  using mget_None_iff [of "as_active s" "alertKey t p"]
  by (auto simp: Snooze_def drop_stamped_eq Let_def split: option.splits)

lemma mfilter_keys: "mdel k m = mfilter (\<lambda>a _. a \<noteq> k) m"
  by (induction k m rule: mdel.induct) (auto simp: mfilter_def)

lemma mfilter_mfilter: "mfilter P (mfilter Q m) = mfilter (\<lambda>a b. Q a b \<and> P a b) m"
  by (auto simp: mfilter_def intro: filter_cong)

lemma ClearByType_fold:
  "fold (\<lambda>(key, a) (s, removed).
             if al_Type a = t then (drop_stamped now key a s, removed + 1) else (s, removed)) es (s, n) =
   (s\<lparr>as_active := mfilter (\<lambda>k _. \<not> (\<exists>a. (k, a) \<in> set es \<and> al_Type a = t)) (as_active s)\<rparr>,
    n + length (filter (\<lambda>(_, a). al_Type a = t) es))"
proof (induction es arbitrary: s n)
  case Nil
  show ?case by (simp add: mfilter_def)
next
  case (Cons e es)
  obtain k a where e: "e = (k, a)" by (cases e)
  show ?case
  proof (cases "al_Type a = t")
    case True
    have "mfilter (\<lambda>k _. \<not> (\<exists>a. (k, a) \<in> set es \<and> al_Type a = t)) (mdel k m) =
        mfilter (\<lambda>k _. \<not> (\<exists>a. (k, a) \<in> set (e # es) \<and> al_Type a = t)) m" for m :: "(gostring, Alert) gomap"
      using True e unfolding mfilter_keys mfilter_mfilter
      by (auto intro!: arg_cong [of _ _ "\<lambda>P. mfilter P m"] simp: fun_eq_iff)
    then show ?thesis using True e by (simp add: Cons.IH drop_stamped_eq)
  next
    case False
    then have "(\<lambda>k (_ :: Alert). \<not> (\<exists>a. (k, a) \<in> set es \<and> al_Type a = t)) =
        (\<lambda>k _. \<not> (\<exists>a. (k, a) \<in> set (e # es) \<and> al_Type a = t))" using e by (auto simp: fun_eq_iff)
    then show ?thesis using False e by (simp add: Cons.IH)
  qed
qed

lemma ClearByType_eq:
  assumes "wf_map (as_active s)"
  shows "ClearByType now t s =
    (s\<lparr>as_active := mfilter (\<lambda>_ a. al_Type a \<noteq> t) (as_active s)\<rparr>,
     length (filter (\<lambda>(_, a). al_Type a = t) (as_active s)))"
proof -
  have "mfilter (\<lambda>k _. \<not> (\<exists>a. (k, a) \<in> set (as_active s) \<and> al_Type a = t)) (as_active s) =
      mfilter (\<lambda>_ a. al_Type a \<noteq> t) (as_active s)"
    unfolding mfilter_def using assms
    by (intro filter_cong) (auto simp: wf_map_def dest: eq_key_imp_eq_value)
  then show ?thesis by (simp add: ClearByType_def ClearByType_fold)
qed

lemma ClearAll_fold: "fold (\<lambda>(key, a). drop_stamped now key a) es s =
    s\<lparr>as_active := mfilter (\<lambda>k _. k \<notin> fst ` set es) (as_active s)\<rparr>"
proof (induction es arbitrary: s)
  case (Cons e es)
  obtain k a where e: "e = (k, a)" by (cases e)
  have "mfilter (\<lambda>k _. k \<notin> fst ` set es) (mdel k m) = mfilter (\<lambda>k' _. k' \<noteq> k \<and> k' \<notin> fst ` set es) m"
    for m :: "(gostring, Alert) gomap"
    unfolding mfilter_keys mfilter_mfilter by simp
  then have "(drop_stamped now k a s)
        \<lparr>as_active := mfilter (\<lambda>k _. k \<notin> fst ` set es) (as_active (drop_stamped now k a s))\<rparr> =
      s\<lparr>as_active := mfilter (\<lambda>k _. k \<notin> fst ` set (e # es)) (as_active s)\<rparr>"
    using e by (simp add: drop_stamped_eq)
  moreover have "fold (\<lambda>(key, a). drop_stamped now key a) (e # es) s =
      fold (\<lambda>(key, a). drop_stamped now key a) es (drop_stamped now k a s)" using e by simp
  ultimately show ?case using Cons.IH [of "drop_stamped now k a s"] by (simp only:)
qed (simp add: mfilter_def)

lemma ClearAll_eq: "ClearAll now s = (s\<lparr>as_active := []\<rparr>, length (as_active s))"
proof -
  have "mfilter (\<lambda>k _. k \<notin> fst ` set m) m = []" for m :: "(gostring, Alert) gomap"
    by (force simp: mfilter_def filter_empty_conv)
  then show ?thesis by (simp add: ClearAll_def ClearAll_fold)
qed

section \<open>The history is a bounded log\<close>

definition hist_ok :: "AlertStore \<Rightarrow> bool" where
  "hist_ok s \<longleftrightarrow> 0 < as_maxHistory s \<and> length (as_history s) \<le> nat (as_maxHistory s)"

lemma appendHistory_view:
  assumes "hist_ok s"
  shows "History (appendHistory a s) = take_last (nat (as_maxHistory s)) (History s @ [a])"
proof (cases "as_maxHistory s \<le> int (length (as_history s))")
  case True
  then have "length (as_history s) = nat (as_maxHistory s)" using assms by (simp add: hist_ok_def) linarith
  then show ?thesis
    using True assms take_last_full [of "as_history s" "nat (as_maxHistory s)" a]
    by (simp add: appendHistory_def History_def hist_ok_def)
next
  case False
  then show ?thesis by (simp add: appendHistory_def History_def)
qed

lemma appendHistory_frame [simp]:
  "as_maxHistory (appendHistory a s) = as_maxHistory s"
  "as_active (appendHistory a s) = as_active s"
  "as_snoozed (appendHistory a s) = as_snoozed s"
  "as_maxActive (appendHistory a s) = as_maxActive s"
  by (simp_all add: appendHistory_def Let_def)

lemma hist_ok_append: "hist_ok s \<Longrightarrow> hist_ok (appendHistory a s)"
  by (auto simp: hist_ok_def appendHistory_def Let_def)

interpretation alog: bounded_log hist_ok "\<lambda>s. nat (as_maxHistory s)" History appendHistory
  by unfold_locales (simp_all add: hist_ok_append appendHistory_view, simp add: hist_ok_def History_def)

section \<open>The invariant of the store\<close>

definition entry_ok :: "gostring \<times> Alert \<Rightarrow> bool" where
  "entry_ok e = (fst e = al_ID (snd e) \<and> fst e = alertKey (al_Type (snd e)) (al_PID (snd e)))"

definition alerts_inv :: "AlertStore \<Rightarrow> bool" where
  "alerts_inv s \<longleftrightarrow> hist_ok s \<and> wf_map (as_active s) \<and> wf_map (as_snoozed s) \<and>
     list_all entry_ok (as_active s) \<and>
     (\<forall>k. mhas (as_active s) k \<longrightarrow> \<not> mhas (as_snoozed s) k)"

lemma entry_ok_mput: "list_all entry_ok m \<Longrightarrow> entry_ok (k, v) \<Longrightarrow> list_all entry_ok (mput k v m)"
  by (induction k v m rule: mput.induct) auto

lemma entry_ok_mdel: "list_all entry_ok m \<Longrightarrow> list_all entry_ok (mdel k m)"
  by (induction k m rule: mdel.induct) auto

lemma entry_ok_mfilter: "list_all entry_ok m \<Longrightarrow> list_all entry_ok (mfilter P m)"
  by (auto simp: mfilter_def list_all_iff)

lemma entry_ok_mget: "list_all entry_ok m \<Longrightarrow> mget m k = Some a \<Longrightarrow> al_ID a = k \<and> alertKey (al_Type a) (al_PID a) = k"
  by (auto simp: list_all_iff entry_ok_def dest!: map_of_SomeD)

lemma alerts_inv_New [simp]: "alerts_inv (NewAlertStore n)"
  by (simp add: alerts_inv_def NewAlertStore_def hist_ok_def)

lemma alerts_inv_unsnooze: "alerts_inv s \<Longrightarrow> alerts_inv (s\<lparr>as_snoozed := mdel k (as_snoozed s)\<rparr>)"
  by (simp add: alerts_inv_def hist_ok_def)

lemma alerts_inv_raise_unsnoozed:
  assumes "alerts_inv s" and "\<not> mhas (as_snoozed s) (alertKey (al_Type a) (al_PID a))"
  shows "alerts_inv (fst (raise_unsnoozed now a s))"
proof (cases "mget (as_active s) (alertKey (al_Type a) (al_PID a))")
  case None
  have "alerts_inv (appendHistory a1 s1)" if "alerts_inv s1" for a1 s1
    using that by (simp add: alerts_inv_def hist_ok_append)
  moreover have "alerts_inv (s\<lparr>as_nextID := n\<rparr>)" for n
    using assms(1) by (simp add: alerts_inv_def hist_ok_def)
  moreover have "alerts_inv (s\<lparr>as_nextID := n, as_active := mput k a1 (as_active s)\<rparr>)"
    if "k = alertKey (al_Type a) (al_PID a)" "a1 = a\<lparr>al_ID := k, al_Detected := now\<rparr>" for n k a1
    using that assms by (auto simp: alerts_inv_def hist_ok_def entry_ok_def intro!: entry_ok_mput)
  ultimately show ?thesis using None by (simp add: raise_unsnoozed_def Let_def)
next
  case (Some e)
  then have "al_ID e = alertKey (al_Type a) (al_PID a)" "alertKey (al_Type e) (al_PID e) = alertKey (al_Type a) (al_PID a)"
    using assms(1) entry_ok_mget by (auto simp: alerts_inv_def)
  with Some assms show ?thesis
    by (auto simp: raise_unsnoozed_def Let_def alerts_inv_def hist_ok_def entry_ok_def
        dest: mget_Some_mhas intro!: entry_ok_mput)
qed

lemma alerts_inv_Raise:
  assumes "alerts_inv s"
  shows "alerts_inv (fst (Raise now1 now2 a s))"
proof (cases "mget (as_snoozed s) (alertKey (al_Type a) (al_PID a))")
  case None
  then have "\<not> mhas (as_snoozed s) (alertKey (al_Type a) (al_PID a))" by (simp add: mget_None_iff)
  with None assms show ?thesis by (simp add: Raise_def Let_def alerts_inv_raise_unsnoozed)
next
  case (Some until)
  let ?s = "s\<lparr>as_snoozed := mdel (alertKey (al_Type a) (al_PID a)) (as_snoozed s)\<rparr>"
  have "alerts_inv (fst (raise_unsnoozed now2 a ?s))"
    using assms by (intro alerts_inv_raise_unsnoozed alerts_inv_unsnooze) simp_all
  with Some assms show ?thesis by (simp add: Raise_def Let_def)
qed

lemma alerts_inv_ClearByKey: "alerts_inv s \<Longrightarrow> alerts_inv (ClearByKey now k s)"
  by (auto simp: alerts_inv_def ClearByKey_eq hist_ok_def intro: entry_ok_mdel)

lemma alerts_inv_Clear: "alerts_inv s \<Longrightarrow> alerts_inv (Clear now t p s)"
  by (simp add: Clear_def alerts_inv_ClearByKey)

lemma mhas_mfilter: "mhas (mfilter P m) k \<Longrightarrow> mhas m k"
  by (auto simp: mfilter_def)

lemma alerts_inv_ClearByType: "alerts_inv s \<Longrightarrow> alerts_inv (fst (ClearByType now t s))"
  using mhas_mfilter [where P = "\<lambda>_ a. al_Type a \<noteq> t" and m = "as_active s"]
  by (auto simp: alerts_inv_def ClearByType_eq hist_ok_def intro: entry_ok_mfilter)

lemma alerts_inv_ClearAll: "alerts_inv s \<Longrightarrow> alerts_inv (fst (ClearAll now s))"
  by (simp add: alerts_inv_def ClearAll_eq hist_ok_def)

lemma alerts_inv_SetMaxActive: "alerts_inv s \<Longrightarrow> alerts_inv (SetMaxActive n s)"
  by (simp add: alerts_inv_def SetMaxActive_def hist_ok_def)

lemma alerts_inv_Snooze: "alerts_inv s \<Longrightarrow> alerts_inv (Snooze t p u s)"
  by (simp add: alerts_inv_def hist_ok_def Snooze_eq entry_ok_mdel)

text \<open>Every way the program changes the store, and sequences of them.\<close>

datatype alert_op =
    OpRaise gotime gotime Alert
  | OpClear gotime gostring u32
  | OpClearByKey gotime gostring
  | OpClearByType gotime gostring
  | OpClearAll gotime
  | OpSnooze gostring u32 gotime
  | OpSetMaxActive int

fun alert_exec :: "alert_op \<Rightarrow> AlertStore \<Rightarrow> AlertStore" where
  "alert_exec (OpRaise n1 n2 a) s = fst (Raise n1 n2 a s)"
| "alert_exec (OpClear n t p) s = Clear n t p s"
| "alert_exec (OpClearByKey n k) s = ClearByKey n k s"
| "alert_exec (OpClearByType n t) s = fst (ClearByType n t s)"
| "alert_exec (OpClearAll n) s = fst (ClearAll n s)"
| "alert_exec (OpSnooze t p u) s = Snooze t p u s"
| "alert_exec (OpSetMaxActive n) s = SetMaxActive n s"

lemma alerts_inv_exec: "alerts_inv s \<Longrightarrow> alerts_inv (alert_exec op s)"
  by (cases op) (simp_all add: alerts_inv_Raise alerts_inv_Clear alerts_inv_ClearByKey
      alerts_inv_ClearByType alerts_inv_ClearAll alerts_inv_Snooze alerts_inv_SetMaxActive)

lemma alerts_inv_run: "alerts_inv s \<Longrightarrow> alerts_inv (fold alert_exec ops s)"
  by (induction ops arbitrary: s) (simp_all add: alerts_inv_exec)

lemma raise_unsnoozed_active:
  "length (as_active (fst (raise_unsnoozed now a s))) \<le>
     (if 0 < as_maxActive s then max (length (as_active s)) (nat (as_maxActive s)) else Suc (length (as_active s)))"
  by (auto simp: raise_unsnoozed_def Let_def length_mput mget_None_iff dest: mget_Some_mhas split: option.splits)

lemma Raise_active:
  "length (as_active (fst (Raise now1 now2 a s))) \<le>
     (if 0 < as_maxActive s then max (length (as_active s)) (nat (as_maxActive s)) else Suc (length (as_active s)))"
  using raise_unsnoozed_active [of now2 a s]
    raise_unsnoozed_active [of now2 a "s\<lparr>as_snoozed := mdel (alertKey (al_Type a) (al_PID a)) (as_snoozed s)\<rparr>"]
  by (auto simp: Raise_def Let_def split: option.splits)

text \<open>With a cap in force, no operation but a change of the cap takes the active set over it.\<close>

definition capped :: "AlertStore \<Rightarrow> bool" where
  "capped s \<longleftrightarrow> 0 < as_maxActive s \<and> int (length (as_active s)) \<le> as_maxActive s"

definition sets_cap :: "alert_op \<Rightarrow> bool" where
  "sets_cap op = (case op of OpSetMaxActive n \<Rightarrow> True | _ \<Rightarrow> False)"

lemma Raise_maxActive [simp]: "as_maxActive (fst (Raise n1 n2 a s)) = as_maxActive s"
  by (simp add: Raise_def raise_unsnoozed_def Let_def split: option.splits)

lemma ClearByType_frame:
  "as_maxActive (fst (ClearByType now t s)) = as_maxActive s \<and>
   as_maxHistory (fst (ClearByType now t s)) = as_maxHistory s \<and>
   as_history (fst (ClearByType now t s)) = as_history s \<and>
   length (as_active (fst (ClearByType now t s))) \<le> length (as_active s)"
  by (simp add: ClearByType_def ClearByType_fold length_mfilter_le)

lemmas clear_eqs = Clear_def ClearByKey_eq ClearAll_eq Snooze_eq SetMaxActive_def ClearByType_frame

lemma capped_exec: "\<not> sets_cap op \<Longrightarrow> capped s \<Longrightarrow> capped (alert_exec op s)"
proof (cases op)
  case (OpRaise n1 n2 a)
  assume "capped s"
  then show ?thesis using OpRaise Raise_active [of n1 n2 a s] by (simp add: capped_def max_def split: if_splits)
next
  case (OpClear now t p)
  assume "capped s"
  then show ?thesis
    using OpClear length_mdel_le [of "alertKey t p" "as_active s"] by (simp add: capped_def clear_eqs)
next
  case (OpClearByKey now k)
  assume "capped s"
  then show ?thesis using OpClearByKey length_mdel_le [of k "as_active s"] by (simp add: capped_def clear_eqs)
next
  case (OpClearByType now t)
  assume "capped s"
  then show ?thesis using OpClearByType ClearByType_frame [of now t s] by (simp add: capped_def)
next
  case (OpSnooze t p u)
  assume "capped s"
  then show ?thesis
    using OpSnooze length_mdel_le [of "alertKey t p" "as_active s"] by (simp add: capped_def clear_eqs)
qed (simp_all add: sets_cap_def capped_def clear_eqs)



definition alert_full :: "AlertStore \<Rightarrow> bool" where
  "alert_full s \<longleftrightarrow> 0 < as_maxActive s \<and> as_maxActive s \<le> int (length (as_active s))"

definition alert_snoozed :: "gotime \<Rightarrow> gostring \<Rightarrow> AlertStore \<Rightarrow> bool" where
  "alert_snoozed now key s \<longleftrightarrow> (case mget (as_snoozed s) key of Some u \<Rightarrow> t_before now u | None \<Rightarrow> False)"

text \<open>
  C30. \<^verbatim>\<open>Raise\<close> reports an alert as new exactly when its key is neither snoozed nor active and there is
  room; then the alert is filed under its key with its detection time and is the newest entry of the
  history. A snoozed key changes nothing at all; an active one is refreshed in place without a history
  entry; with no room the alert only goes to the history. No other key is affected.
\<close>

theorem Raise_spec:
  assumes "hist_ok s" and "key = alertKey (al_Type a) (al_PID a)" and "Raise now1 now2 a s = (s', r, new)"
  shows "(new \<longleftrightarrow> \<not> alert_snoozed now1 key s \<and> mget (as_active s) key = None \<and> \<not> alert_full s) \<and>
    (new \<longrightarrow> r = a\<lparr>al_ID := key, al_Detected := now2\<rparr> \<and> mget (as_active s') key = Some r) \<and>
    (alert_snoozed now1 key s \<longrightarrow> s' = s) \<and>
    (\<forall>e. \<not> alert_snoozed now1 key s \<longrightarrow> mget (as_active s) key = Some e \<longrightarrow> History s' = History s \<and>
       mget (as_active s') key = Some (e\<lparr>al_Description := al_Description a, al_Severity := al_Severity a,
         al_Details := al_Details a\<rparr>)) \<and>
    (\<not> alert_snoozed now1 key s \<longrightarrow> mget (as_active s) key = None \<longrightarrow>
       History s' = take_last (nat (as_maxHistory s)) (History s @ [r]) \<and>
       (alert_full s \<longrightarrow> as_active s' = as_active s)) \<and>
    (\<forall>k. k \<noteq> key \<longrightarrow> mget (as_active s') k = mget (as_active s) k)"
proof -
  have hist: "as_history (appendHistory x t) = take_last (nat (as_maxHistory s)) (as_history s @ [x])"
    if "as_maxHistory t = as_maxHistory s" "as_history t = as_history s" for x t
    using appendHistory_view [of t x] that assms(1) by (simp add: History_def hist_ok_def)
  show ?thesis
    using assms(2,3)
    by (auto simp: Raise_def raise_unsnoozed_def Let_def alert_snoozed_def alert_full_def History_def hist
        split: option.splits if_splits)
qed

theorem Raise_spec_witness:
  "let (s, r, new) = Raise 0 9 (zero_alert\<lparr>al_Type := ''orphan'', al_PID := 4\<rparr>) (NewAlertStore 32)
   in new \<and> al_Detected r = 9"
proof -
  let ?a = "zero_alert\<lparr>al_Type := ''orphan'', al_PID := 4\<rparr>"
  obtain s r new where R: "Raise 0 9 ?a (NewAlertStore 32) = (s, r, new)" by (metis prod_cases3)
  have "hist_ok (NewAlertStore 32)" using alerts_inv_New by (simp add: alerts_inv_def)
  from Raise_spec [OF this refl R] show ?thesis
    unfolding R by (simp add: alert_snoozed_def alert_full_def NewAlertStore_def)
qed

text \<open>
  Clearing, snoozing and expiry leave no trace in the history: if no alert is raised with a
  clearing time already set, then no entry of the history ever gets one, whatever is cleared later.
\<close>

theorem history_never_cleared:
  assumes "list_all (\<lambda>op. case op of OpRaise n1 n2 a \<Rightarrow> al_Cleared a = None | _ \<Rightarrow> True) ops"
  shows "list_all (\<lambda>a. al_Cleared a = None) (History (fold alert_exec ops (NewAlertStore n)))"
proof -
  have tl: "set (tl xs) \<subseteq> set xs" for xs :: "Alert list" by (cases xs) auto
  have step: "list_all (\<lambda>a. al_Cleared a = None) (as_history (alert_exec op s))"
    if "case op of OpRaise n1 n2 a \<Rightarrow> al_Cleared a = None | _ \<Rightarrow> True"
      "list_all (\<lambda>a. al_Cleared a = None) (as_history s)" for op s
    using that tl [of "as_history s"]
    by (cases op) (auto simp: Raise_def raise_unsnoozed_def appendHistory_def Let_def list_all_iff clear_eqs
        split: option.splits)
  have "list_all (\<lambda>a. al_Cleared a = None) (as_history (fold alert_exec ops s))"
    if "list_all (\<lambda>a. al_Cleared a = None) (as_history s)" for s
    using assms that by (induction ops arbitrary: s) (simp_all add: step)
  then show ?thesis by (simp add: History_def NewAlertStore_def)
qed

theorem history_never_cleared_witness:
  "list_all (\<lambda>a. al_Cleared a = None)
     (History (fold alert_exec [OpRaise 0 0 zero_alert, OpClearAll 5] (NewAlertStore 0)))"
  using history_never_cleared [of "[OpRaise 0 0 zero_alert, OpClearAll 5]" 0] by (simp add: zero_alert_def)

section \<open>The ignore list\<close>

definition isIgnoredProcess :: "Config \<Rightarrow> gostring \<Rightarrow> bool" where
  "isIgnoredProcess cfg name =
     (if an_IgnoreProcesses (c_Anomaly cfg) = [] \<or> name = [] then False
      else list_ex (\<lambda>pat. let pat = trim_space pat
                          in pat \<noteq> [] \<and> str_contains (to_lower name) (to_lower pat))
             (an_IgnoreProcesses (c_Anomaly cfg)))"

end
