(* ===== verification/Metrics.thy ===== *)
theory Metrics
  imports GoFloat
begin

text \<open>
  \<^verbatim>\<open>internal/metrics/types.go\<close>: the measurements the collector publishes and every consumer reads,
  one record per Go struct with the fields in the order of the source, and the lookup of a process
  name in a snapshot. A nil slice and an empty slice are both the empty list.
\<close>

record CPUMetrics =
  cpu_TotalPercent :: f64
  cpu_PerCore :: "f64 list"
  cpu_NumLogical :: int
  cpu_Name :: gostring
  cpu_FreqMHz :: u32

record MemoryMetrics =
  mem_TotalPhys :: u64
  mem_AvailPhys :: u64
  mem_UsedPhys :: u64
  mem_UsedPercent :: f64
  mem_TotalPageFile :: u64
  mem_AvailPageFile :: u64
  mem_CommitCharge :: u64

record DriveInfo =
  drv_Letter :: gostring
  drv_Label :: gostring
  drv_FSType :: gostring
  drv_TotalBytes :: u64
  drv_FreeBytes :: u64
  drv_UsedBytes :: u64
  drv_UsedPct :: f64
  drv_ReadBPS :: u64
  drv_WriteBPS :: u64
  drv_ReadIOPS :: u64
  drv_WriteIOPS :: u64

record DiskMetrics =
  dsk_Drives :: "DriveInfo list"

record InterfaceInfo =
  if_Name :: gostring
  if_Type :: gostring
  if_Status :: gostring
  if_SpeedMbps :: u64
  if_InBPS :: u64
  if_OutBPS :: u64
  if_InPPS :: u64
  if_OutPPS :: u64
  if_InErrors :: u64
  if_OutErrors :: u64

record NetworkMetrics =
  net_Interfaces :: "InterfaceInfo list"
  net_TotalUpBPS :: u64
  net_TotalDownBPS :: u64

record GPUMetrics =
  gpu_Name :: gostring
  gpu_Utilization :: f64
  gpu_VRAMUsed :: u64
  gpu_VRAMTotal :: u64
  gpu_Temperature :: int
  gpu_Available :: bool

record ProcessInfo =
  p_PID :: u32
  p_ParentPID :: u32
  p_Name :: gostring
  p_ExePath :: gostring
  p_CPUPercent :: f64
  p_WorkingSet :: u64
  p_PrivateBytes :: u64
  p_PageFaults :: u32
  p_IOReadBytes :: u64
  p_IOWriteBytes :: u64
  p_IOReadOps :: u64
  p_IOWriteOps :: u64
  p_ThreadCount :: u32
  p_CreateTime :: int
  p_IsCritical :: bool
  p_Status :: gostring
  p_Connections :: int
  p_PriorityClass :: u32

text \<open>A node of the process tree: the process, its children, its depth and the orphan mark.\<close>

datatype ProcessNode =
  ProcessNode (pn_Process: ProcessInfo) (pn_Children: "ProcessNode list") (pn_Depth: int) (pn_IsOrphan: bool)

record PortBinding =
  pb_Protocol :: gostring
  pb_LocalAddr :: gostring
  pb_LocalPort :: u16
  pb_RemoteAddr :: gostring
  pb_RemotePort :: u16
  pb_State :: gostring
  pb_StateCode :: u32
  pb_PID :: u32
  pb_Process :: gostring
  pb_Label :: gostring
  pb_Since :: int

record SystemSnapshot =
  ss_Timestamp :: gotime
  ss_CPU :: CPUMetrics
  ss_Memory :: MemoryMetrics
  ss_GPU :: GPUMetrics
  ss_Disk :: DiskMetrics
  ss_Network :: NetworkMetrics
  ss_Processes :: "ProcessInfo list"
  ss_ProcessTree :: "ProcessNode list"
  ss_PortBindings :: "PortBinding list"

record TimestampedSystem =
  ts_Time :: gotime
  ts_CPU :: CPUMetrics
  ts_Memory :: MemoryMetrics
  ts_GPU :: GPUMetrics
  ts_Network :: NetworkMetrics
  ts_Disk :: DiskMetrics

fun first_with_pid :: "pid \<Rightarrow> ProcessInfo list \<Rightarrow> ProcessInfo option" where
  "first_with_pid p [] = None"
| "first_with_pid p (q # qs) = (if p_PID q = p then Some q else first_with_pid p qs)"

definition ProcessName :: "SystemSnapshot \<Rightarrow> pid \<Rightarrow> gostring" where
  "ProcessName s p = (case first_with_pid p (ss_Processes s) of Some q \<Rightarrow> p_Name q | None \<Rightarrow> [])"

lemma first_with_pid_Some:
  "first_with_pid p qs = Some q \<Longrightarrow> q \<in> set qs \<and> p_PID q = p"
  by (induction qs) (auto split: if_splits)

lemma first_with_pid_None: "first_with_pid p qs = None \<longleftrightarrow> (\<forall>q\<in>set qs. p_PID q \<noteq> p)"
  by (induction qs) auto

lemma find_with_pid [simp]: "find (\<lambda>q. p_PID q = k) ps = first_with_pid k ps"
  by (induction ps) auto

text \<open>
  The zero values of the structs: what a missing entry of a Go map or a fresh variable holds.
\<close>

definition zero_proc :: ProcessInfo where
  "zero_proc = \<lparr>p_PID = 0, p_ParentPID = 0, p_Name = [], p_ExePath = [], p_CPUPercent = Fin 0,
     p_WorkingSet = 0, p_PrivateBytes = 0, p_PageFaults = 0, p_IOReadBytes = 0, p_IOWriteBytes = 0,
     p_IOReadOps = 0, p_IOWriteOps = 0, p_ThreadCount = 0, p_CreateTime = 0, p_IsCritical = False,
     p_Status = [], p_Connections = 0, p_PriorityClass = 0\<rparr>"

definition zero_snapshot :: SystemSnapshot where
  "zero_snapshot =
     \<lparr>ss_Timestamp = zero_time,
      ss_CPU = \<lparr>cpu_TotalPercent = Fin 0, cpu_PerCore = [], cpu_NumLogical = 0, cpu_Name = [], cpu_FreqMHz = 0\<rparr>,
      ss_Memory = \<lparr>mem_TotalPhys = 0, mem_AvailPhys = 0, mem_UsedPhys = 0, mem_UsedPercent = Fin 0,
        mem_TotalPageFile = 0, mem_AvailPageFile = 0, mem_CommitCharge = 0\<rparr>,
      ss_GPU = \<lparr>gpu_Name = [], gpu_Utilization = Fin 0, gpu_VRAMUsed = 0, gpu_VRAMTotal = 0,
        gpu_Temperature = 0, gpu_Available = False\<rparr>,
      ss_Disk = \<lparr>dsk_Drives = []\<rparr>,
      ss_Network = \<lparr>net_Interfaces = [], net_TotalUpBPS = 0, net_TotalDownBPS = 0\<rparr>,
      ss_Processes = [], ss_ProcessTree = [], ss_PortBindings = []\<rparr>"

end
