(* ===== verification/Stats.thy ===== *)
theory Stats
  imports GoFloat
begin

text \<open>
  \<^verbatim>\<open>internal/stats\<close>: the ring buffer behind every metric history, Welford's running mean and
  variance, and least squares regression. The ring buffer is shown to be a bounded log: what
  \<^verbatim>\<open>Slice\<close> returns is always the last \<^verbatim>\<open>capacity\<close> items added, oldest first.
\<close>

section \<open>Ring buffer (ringbuf.go)\<close>

record 'a RingBuffer =
  rb_data :: "'a list"
  rb_capacity :: nat
  rb_head :: nat
  rb_count :: nat

definition NewRingBuffer :: "'a \<Rightarrow> int \<Rightarrow> 'a RingBuffer" where
  "NewRingBuffer zero capacity =
     (let c = (if capacity < 1 then 1 else capacity)
      in \<lparr>rb_data = replicate (nat c) zero, rb_capacity = nat c, rb_head = 0, rb_count = 0\<rparr>)"

definition rb_Add :: "'a \<Rightarrow> 'a RingBuffer \<Rightarrow> 'a RingBuffer" where
  "rb_Add item rb =
     rb\<lparr>rb_data := (rb_data rb)[rb_head rb := item],
        rb_head := (rb_head rb + 1) mod rb_capacity rb,
        rb_count := (if rb_count rb < rb_capacity rb then rb_count rb + 1 else rb_count rb)\<rparr>"

definition rb_Slice :: "'a RingBuffer \<Rightarrow> 'a list" where
  "rb_Slice rb =
     (let start = nat (go_rem (int (rb_head rb) - int (rb_count rb) + int (rb_capacity rb))
                              (int (rb_capacity rb)))
      in map (\<lambda>i. rb_data rb ! ((start + i) mod rb_capacity rb)) [0..<rb_count rb])"

definition rb_Len :: "'a RingBuffer \<Rightarrow> nat" where
  "rb_Len rb = rb_count rb"

definition rb_inv :: "'a RingBuffer \<Rightarrow> bool" where
  "rb_inv rb \<longleftrightarrow> 0 < rb_capacity rb \<and> length (rb_data rb) = rb_capacity rb \<and>
     rb_head rb < rb_capacity rb \<and> rb_count rb \<le> rb_capacity rb"

text \<open>The slot of the item added \<open>k\<close> steps ago.\<close>

definition rb_slot :: "'a RingBuffer \<Rightarrow> nat \<Rightarrow> nat" where
  "rb_slot rb k = (rb_head rb + rb_capacity rb - k) mod rb_capacity rb"

lemma rb_Slice_nth:
  assumes "rb_inv rb" and "i < rb_count rb"
  shows "rb_Slice rb ! i = rb_data rb ! rb_slot rb (rb_count rb - i)"
proof -
  define h where "h = rb_head rb"
  define c where "c = rb_capacity rb"
  define n where "n = rb_count rb"
  have le: "n \<le> c" "i < n" "0 < c" using assms by (auto simp: rb_inv_def c_def n_def)
  have "int h - int n + int c = int (h + c - n)" using le by simp
  then have "nat (go_rem (int h - int n + int c) (int c)) = (h + c - n) mod c"
    using le by (simp only: go_rem_nonneg of_nat_0_le_iff of_nat_0_less_iff zmod_int [symmetric] nat_int)
  moreover have "((h + c - n) mod c + i) mod c = (h + c - (n - i)) mod c"
    using le by (simp add: mod_add_left_eq)
  ultimately show ?thesis
    using assms(2) by (simp add: rb_Slice_def rb_slot_def h_def c_def n_def Let_def)
qed

lemma length_rb_Slice [simp]: "length (rb_Slice rb) = rb_count rb"
  by (simp add: rb_Slice_def Let_def)

lemma rb_slot_0: "rb_inv rb \<Longrightarrow> rb_slot rb 0 = rb_head rb"
  by (simp add: rb_slot_def rb_inv_def)

lemma rb_slot_neq_head:
  assumes "rb_inv rb" and "0 < k" and "k < rb_capacity rb"
  shows "rb_slot rb k \<noteq> rb_head rb"
proof (cases "k \<le> rb_head rb")
  case True
  then have "rb_head rb + rb_capacity rb - k = (rb_head rb - k) + rb_capacity rb" by simp
  then have "rb_slot rb k = (rb_head rb - k) mod rb_capacity rb"
    unfolding rb_slot_def by (simp only: mod_add_self2)
  moreover have "rb_head rb - k < rb_capacity rb" "rb_head rb - k \<noteq> rb_head rb"
    using assms True by (auto simp: rb_inv_def)
  ultimately show ?thesis by simp
next
  case False
  then have "rb_slot rb k = rb_head rb + rb_capacity rb - k"
    using assms by (simp add: rb_slot_def rb_inv_def)
  then show ?thesis using assms by simp
qed

lemma rb_slot_Add:
  assumes "rb_inv rb" and "0 < k" and "k \<le> rb_capacity rb"
  shows "rb_slot (rb_Add x rb) k = rb_slot rb (k - 1)"
proof -
  define h where "h = rb_head rb"
  define c where "c = rb_capacity rb"
  have "(h + 1) mod c + c - k = (h + 1) mod c + (c - k)" using assms by (simp add: c_def)
  then have "((h + 1) mod c + c - k) mod c = (h + 1 + (c - k)) mod c" by (simp add: mod_add_left_eq)
  also have "h + 1 + (c - k) = h + c - (k - 1)" using assms by (simp add: c_def)
  finally show ?thesis by (simp add: rb_slot_def rb_Add_def h_def c_def)
qed

lemma rb_inv_New [simp]: "rb_inv (NewRingBuffer z c)"
  by (simp add: rb_inv_def NewRingBuffer_def Let_def)

lemma rb_inv_Add [simp]: "rb_inv rb \<Longrightarrow> rb_inv (rb_Add x rb)"
  by (simp add: rb_inv_def rb_Add_def)

lemma rb_capacity_Add [simp]: "rb_capacity (rb_Add x rb) = rb_capacity rb"
  by (simp add: rb_Add_def)

lemma rb_data_Add_nth:
  assumes "rb_inv rb" and "0 < k" and "k \<le> rb_capacity rb"
  shows "rb_data (rb_Add x rb) ! rb_slot rb (k - 1) =
    (if k = 1 then x else rb_data rb ! rb_slot rb (k - 1))"
proof (cases "k = 1")
  case True
  then show ?thesis using assms(1) by (simp add: rb_Add_def rb_slot_0) (simp add: rb_inv_def)
next
  case False
  then have "rb_slot rb (k - 1) \<noteq> rb_head rb"
    using rb_slot_neq_head [OF assms(1), of "k - 1"] assms by simp
  then show ?thesis using False by (simp add: rb_Add_def)
qed

lemma rb_Slice_Add:
  assumes "rb_inv rb"
  shows "rb_Slice (rb_Add x rb) = take_last (rb_capacity rb) (rb_Slice rb @ [x])"
proof (rule nth_equalityI)
  show "length (rb_Slice (rb_Add x rb)) = length (take_last (rb_capacity rb) (rb_Slice rb @ [x]))"
    using assms by (simp add: rb_Add_def rb_inv_def)
next
  fix i assume "i < length (rb_Slice (rb_Add x rb))"
  then have i: "i < rb_count (rb_Add x rb)" by simp
  define k where "k = rb_count (rb_Add x rb) - i"
  have k: "0 < k" "k \<le> rb_capacity rb"
    using assms i by (auto simp: k_def rb_inv_def rb_Add_def split: if_splits)
  have L: "rb_Slice (rb_Add x rb) ! i = (if k = 1 then x else rb_data rb ! rb_slot rb (k - 1))"
    using rb_Slice_nth [OF rb_inv_Add [OF assms] i] rb_slot_Add [OF assms k] rb_data_Add_nth [OF assms k]
    by (simp only: k_def [symmetric])
  define j where "j = i + (rb_count rb + 1 - rb_capacity rb)"
  have R: "take_last (rb_capacity rb) (rb_Slice rb @ [x]) ! i = (rb_Slice rb @ [x]) ! j"
    unfolding take_last_def
    by (subst nth_drop) (use assms i in \<open>auto simp: j_def rb_inv_def rb_Add_def add.commute split: if_splits\<close>)
  have jk: "j + k = rb_count rb + 1"
    using assms i by (auto simp: j_def k_def rb_Add_def rb_inv_def split: if_splits)
  show "rb_Slice (rb_Add x rb) ! i = take_last (rb_capacity rb) (rb_Slice rb @ [x]) ! i"
  proof (cases "k = 1")
    case True
    then show ?thesis using L R jk by (simp add: nth_append)
  next
    case False
    then have "j < rb_count rb" "rb_count rb - j = k - 1" using jk k by auto
    then show ?thesis using L R False assms by (simp add: nth_append rb_Slice_nth)
  qed
qed

interpretation ring: bounded_log rb_inv rb_capacity rb_Slice rb_Add
  by unfold_locales (simp_all add: rb_Slice_Add, simp add: rb_inv_def)

lemma rb_Slice_New [simp]: "rb_Slice (NewRingBuffer z c) = []"
  by (simp add: rb_Slice_def NewRingBuffer_def Let_def)

lemma rb_capacity_New [simp]: "rb_capacity (NewRingBuffer z c) = nat (max 1 c)"
  by (simp add: NewRingBuffer_def Let_def max_def)

text \<open>
  C19. A ring buffer made for \<open>c\<close> items (at least one) and filled with any sequence of items returns
  exactly the last \<open>max 1 c\<close> of them, in the order they were added.
\<close>

theorem ring_buffer_keeps_last:
  "rb_Slice (fold rb_Add xs (NewRingBuffer z c)) = take_last (nat (max 1 c)) xs"
  by (simp add: ring.run_view)

section \<open>Welford's statistics (welford.go)\<close>

record Welford =
  w_count :: u64
  w_mean :: f64
  w_m2 :: f64

definition NewWelford :: Welford where
  "NewWelford = \<lparr>w_count = 0, w_mean = Fin 0, w_m2 = Fin 0\<rparr>"

definition w_Add :: "f64 \<Rightarrow> Welford \<Rightarrow> Welford" where
  "w_Add x w =
     (let count = w_count w + 1;
          delta = fsub x (w_mean w);
          mean = fadd (w_mean w) (fdiv delta (f64_of_u64 count));
          delta2 = fsub x mean
      in \<lparr>w_count = count, w_mean = mean, w_m2 = fadd (w_m2 w) (fmul delta delta2)\<rparr>)"

definition w_Mean :: "Welford \<Rightarrow> f64" where "w_Mean w = w_mean w"

definition w_Variance :: "Welford \<Rightarrow> f64" where
  "w_Variance w = (if w_count w < 2 then Fin 0 else fdiv (w_m2 w) (f64_of_u64 (w_count w - 1)))"

definition w_StdDev :: "Welford \<Rightarrow> f64" where
  "w_StdDev w = fsqrt (w_Variance w)"

definition w_Count :: "Welford \<Rightarrow> u64" where "w_Count w = w_count w"

definition w_IsAnomaly :: "f64 \<Rightarrow> f64 \<Rightarrow> Welford \<Rightarrow> bool" where
  "w_IsAnomaly x nSigma w =
     (if w_count w < 10 then False
      else flt (fmul nSigma (w_StdDev w)) (fabs (fsub x (w_mean w))))"

text \<open>
  A stream of one repeated value that is exactly representable leaves the mean at that value and
  the sum of squares at zero, with no rounding error at all.
\<close>

definition w_constant :: "rat \<Rightarrow> Welford \<Rightarrow> bool" where
  "w_constant v w \<longleftrightarrow> w_mean w = Fin v \<and> w_m2 w = Fin 0"

lemma f64_of_u64_small: "uint w \<le> 9007199254740992 \<Longrightarrow> f64_of_u64 w = Fin (of_int (uint w))"
  unfolding f64_of_u64_def using rnd_of_int [of "uint w"] by (simp del: of_int_uint)

lemma w_Add_first: "rnd v = Fin v \<Longrightarrow> w_constant v (w_Add (Fin v) NewWelford)"
  by (simp add: w_constant_def w_Add_def NewWelford_def fsub_def Let_def f64_of_u64_def)

lemma fdiv_0_f64_of_u64: "f64_of_u64 n = Fin 0 \<or> fdiv (Fin 0) (f64_of_u64 n) = Fin 0"
  using fnonneg_f64_of_u64 [of n] by (cases "f64_of_u64 n") auto

lemma w_Add_constant:
  "rnd v = Fin v \<Longrightarrow> w_constant v w \<Longrightarrow> f64_of_u64 (w_count w + 1) \<noteq> Fin 0 \<Longrightarrow>
     w_constant v (w_Add (Fin v) w)"
  using fdiv_0_f64_of_u64 [of "w_count w + 1"]
  by (auto simp: w_constant_def w_Add_def fsub_def Let_def)

lemma uint_of_nat_u64: "n \<le> 9007199254740992 \<Longrightarrow> uint (of_nat n :: u64) = int n"
  by (simp add: unsigned_of_nat take_bit_nat_eq_self)

lemma w_run:
  assumes "rnd v = Fin v" and "0 < n" and "n \<le> 9007199254740992"
  shows "w_constant v ((w_Add (Fin v) ^^ n) NewWelford) \<and> w_count ((w_Add (Fin v) ^^ n) NewWelford) = of_nat n"
  using assms(2,3)
proof (induction n)
  case (Suc n)
  show ?case
  proof (cases "n = 0")
    case True
    then show ?thesis using w_Add_first [OF assms(1)] by (simp add: w_Add_def NewWelford_def Let_def)
  next
    case False
    let ?w = "(w_Add (Fin v) ^^ n) NewWelford"
    have IH: "w_constant v ?w" "w_count ?w = of_nat n" using Suc False by simp_all
    have "w_count ?w + 1 = of_nat (Suc n)" using IH(2) by simp
    then have "f64_of_u64 (w_count ?w + 1) \<noteq> Fin 0"
      using f64_of_u64_small [of "of_nat (Suc n)"] uint_of_nat_u64 [OF Suc.prems(2)] Suc.prems(2)
      by (simp del: of_nat_Suc)
    then have "w_constant v (w_Add (Fin v) ?w)" by (rule w_Add_constant [OF assms(1) IH(1)])
    moreover have "w_count (w_Add (Fin v) ?w) = of_nat (Suc n)"
      using IH(2) by (simp add: w_Add_def Let_def)
    ultimately show ?thesis by simp
  qed
qed simp

lemma w_constant_Variance:
  "w_constant v w \<Longrightarrow> 2 \<le> w_count w \<Longrightarrow> w_count w - 1 \<noteq> 0 \<Longrightarrow> f64_of_u64 (w_count w - 1) \<noteq> Fin 0 \<Longrightarrow>
     w_Variance w = Fin 0"
  using fdiv_0_f64_of_u64 [of "w_count w - 1"] by (auto simp: w_Variance_def w_constant_def)

text \<open>
  C18. On a stream that repeats one representable number \<open>v\<close>, between 10 and 2 to the 53 times,
  Welford's update accumulates no rounding error: mean \<open>v\<close>, deviation zero, and a value is an
  anomaly at every finite number of deviations exactly when it differs from \<open>v\<close>.
\<close>

theorem welford_constant_stream:
  assumes "rnd v = Fin v" and "10 \<le> n" and "n \<le> 9007199254740992"
  shows "let w = (w_Add (Fin v) ^^ n) NewWelford in
     w_Mean w = Fin v \<and> w_StdDev w = Fin 0 \<and> w_Count w = of_nat n \<and>
     w_IsAnomaly x (Fin k) w = flt (Fin 0) (fabs (fsub x (Fin v)))"
proof -
  let ?w = "(w_Add (Fin v) ^^ n) NewWelford"
  have w: "w_constant v ?w" "w_count ?w = of_nat n" using w_run [OF assms(1)] assms by simp_all
  have n1: "(of_nat n :: u64) - 1 = of_nat (n - 1)" using assms by simp
  have u: "uint (of_nat n :: u64) = int n" "uint (of_nat (n - 1) :: u64) = int (n - 1)"
    using assms by (intro uint_of_nat_u64; simp)+
  have ge: "(2 :: u64) \<le> of_nat n" "\<not> (of_nat n :: u64) < 10"
    using u(1) assms(2) by (simp_all add: word_le_def word_less_def del: unsigned_of_nat)
  have "f64_of_u64 (of_nat (n - 1)) = Fin (of_int (int (n - 1)))"
    using f64_of_u64_small [of "of_nat (n - 1)"] assms(3) unfolding u(2) by linarith
  then have "f64_of_u64 (w_count ?w - 1) \<noteq> Fin 0" using assms(2) unfolding w(2) n1 by simp
  moreover have "w_count ?w - 1 \<noteq> 0"
  proof
    assume "w_count ?w - 1 = 0"
    then have "uint (of_nat (n - 1) :: u64) = 0" unfolding w(2) n1 by simp
    then show False using assms(2) unfolding u(2) by simp
  qed
  ultimately have "w_Variance ?w = Fin 0" using w_constant_Variance [OF w(1)] ge w(2) by simp
  then have "w_StdDev ?w = Fin 0" by (simp add: w_StdDev_def)
  then show ?thesis
    using w ge by (simp add: Let_def w_constant_def w_Mean_def w_Count_def w_IsAnomaly_def)
qed

theorem welford_constant_stream_witness:
  "w_IsAnomaly (Fin 8) (Fin 3) ((w_Add (Fin 7) ^^ 12) NewWelford)"
  using welford_constant_stream [of 7 12 "Fin 8" 3]
  by (simp add: rnd_numeral Let_def fsub_def)

section \<open>Least squares regression (regression.go)\<close>

record RegSums =
  sumX :: f64
  sumY :: f64
  sumXY :: f64
  sumX2 :: f64

definition reg_sums :: "(f64 \<times> f64) list \<Rightarrow> RegSums" where
  "reg_sums pts =
     fold (\<lambda>(x, y) s. \<lparr>sumX = fadd (sumX s) x, sumY = fadd (sumY s) y,
                        sumXY = fadd (sumXY s) (fmul x y), sumX2 = fadd (sumX2 s) (fmul x x)\<rparr>)
          pts \<lparr>sumX = Fin 0, sumY = Fin 0, sumXY = Fin 0, sumX2 = Fin 0\<rparr>"

definition reg_residuals :: "f64 \<Rightarrow> f64 \<Rightarrow> f64 \<Rightarrow> (f64 \<times> f64) list \<Rightarrow> f64 \<times> f64" where
  "reg_residuals slope intercept meanY pts =
     fold (\<lambda>(x, y) (ssRes, ssTot).
             let predicted = fadd (fmul slope x) intercept
             in (fadd ssRes (fmul (fsub y predicted) (fsub y predicted)),
                 fadd ssTot (fmul (fsub y meanY) (fsub y meanY))))
          pts (Fin 0, Fin 0)"

definition LinearRegression :: "f64 list \<Rightarrow> f64 list \<Rightarrow> f64 \<times> f64 \<times> f64" where
  "LinearRegression xs ys =
     (let n = f64_of_int (int (length xs)) in
      if flt n (Fin 2) \<or> length xs \<noteq> length ys then (Fin 0, Fin 0, Fin 0)
      else
        (let s = reg_sums (zip xs ys);
             denom = fsub (fmul n (sumX2 s)) (fmul (sumX s) (sumX s)) in
         if feq denom (Fin 0) then (Fin 0, fdiv (sumY s) n, Fin 0)
         else
           (let slope = fdiv (fsub (fmul n (sumXY s)) (fmul (sumX s) (sumY s))) denom;
                intercept = fdiv (fsub (sumY s) (fmul slope (sumX s))) n;
                meanY = fdiv (sumY s) n;
                (ssRes, ssTot) = reg_residuals slope intercept meanY (zip xs ys);
                rSquared = (if feq ssTot (Fin 0) then Fin 1 else fsub (Fin 1) (fdiv ssRes ssTot))
            in (slope, intercept, rSquared))))"

text \<open>
  On integer samples that are small enough every sum the code forms is exact, so the slope is the
  least squares slope rounded once.
\<close>

abbreviation fint :: "int \<Rightarrow> f64" where
  "fint i \<equiv> Fin (of_int i)"

abbreviation exact_max :: int where
  "exact_max \<equiv> 9007199254740992"

lemma fint_add: "\<bar>a + b\<bar> \<le> exact_max \<Longrightarrow> fadd (fint a) (fint b) = fint (a + b)"
  using rnd_of_int [of "a + b"] by simp

lemma fint_mul: "\<bar>a * b\<bar> \<le> exact_max \<Longrightarrow> fmul (fint a) (fint b) = fint (a * b)"
  using rnd_of_int [of "a * b"] by simp

lemma fint_sub: "\<bar>a - b\<bar> \<le> exact_max \<Longrightarrow> fsub (fint a) (fint b) = fint (a - b)"
  using rnd_of_int [of "a - b"] by (simp add: fsub_def)

definition fpts :: "(int \<times> int) list \<Rightarrow> (f64 \<times> f64) list" where
  "fpts pts = map (\<lambda>(x, y). (fint x, fint y)) pts"

definition in_box :: "int \<Rightarrow> int \<Rightarrow> (int \<times> int) list \<Rightarrow> bool" where
  "in_box A B pts = list_all (\<lambda>(x, y). \<bar>x\<bar> \<le> A \<and> \<bar>y\<bar> \<le> B) pts"

lemma sum_list_bound:
  fixes f :: "'a \<Rightarrow> int"
  assumes "\<And>p. p \<in> set ps \<Longrightarrow> \<bar>f p\<bar> \<le> C"
  shows "\<bar>sum_list (map f ps)\<bar> \<le> int (length ps) * C"
  using assms
proof (induction ps)
  case (Cons p ps)
  then have "\<bar>sum_list (map f ps)\<bar> \<le> int (length ps) * C" "\<bar>f p\<bar> \<le> C" by simp_all
  then show ?case by (simp add: distrib_right)
qed simp

lemma box_product: "\<bar>a\<bar> \<le> A \<Longrightarrow> \<bar>b\<bar> \<le> B \<Longrightarrow> \<bar>a * b\<bar> \<le> A * (B :: int)"
  by (simp add: abs_mult mult_mono')

lemma box_sums:
  assumes "in_box A B pts"
  shows "\<bar>\<Sum>(x, y)\<leftarrow>pts. x\<bar> \<le> int (length pts) * A"
    and "\<bar>\<Sum>(x, y)\<leftarrow>pts. y\<bar> \<le> int (length pts) * B"
    and "\<bar>\<Sum>(x, y)\<leftarrow>pts. x * y\<bar> \<le> int (length pts) * (A * B)"
    and "\<bar>\<Sum>(x, y)\<leftarrow>pts. x * x\<bar> \<le> int (length pts) * (A * A)"
  by (rule sum_list_bound, use assms in \<open>auto simp: in_box_def list_all_iff intro!: box_product\<close>)+

lemma reg_sums_exact:
  assumes "in_box A B pts" and "1 \<le> A" and "1 \<le> B"
    and "int (length pts) * (A * B) \<le> exact_max" and "int (length pts) * (A * A) \<le> exact_max"
  shows "reg_sums (fpts pts) =
    \<lparr>sumX = fint (\<Sum>(x, y)\<leftarrow>pts. x), sumY = fint (\<Sum>(x, y)\<leftarrow>pts. y),
     sumXY = fint (\<Sum>(x, y)\<leftarrow>pts. x * y), sumX2 = fint (\<Sum>(x, y)\<leftarrow>pts. x * x)\<rparr>"
  using assms
proof (induction pts rule: rev_induct)
  case Nil
  then show ?case by (simp add: reg_sums_def fpts_def)
next
  case (snoc p pts)
  obtain x y where p: "p = (x, y)" by (cases p)
  let ?m = "int (length (pts @ [p]))"
  have AB: "A \<le> A * B" "B \<le> A * B" "0 \<le> A * B" "0 \<le> A * A"
    using snoc.prems(2,3) by (simp_all add: mult_le_cancel_left1 mult_le_cancel_right1)
  have le: "?m * A \<le> exact_max" "?m * B \<le> exact_max"
    using snoc.prems(4) AB(1,2) by (smt (verit) mult_left_mono of_nat_0_le_iff)+
  have len: "int (length pts) * (A * B) + A * B \<le> exact_max" "int (length pts) * (A * A) + A * A \<le> exact_max"
    using snoc.prems(4,5) by (simp_all add: distrib_right add.commute)
  have IH: "reg_sums (fpts pts) =
    \<lparr>sumX = fint (\<Sum>(x, y)\<leftarrow>pts. x), sumY = fint (\<Sum>(x, y)\<leftarrow>pts. y),
     sumXY = fint (\<Sum>(x, y)\<leftarrow>pts. x * y), sumX2 = fint (\<Sum>(x, y)\<leftarrow>pts. x * x)\<rparr>"
  proof (rule snoc.IH)
    show "int (length pts) * (A * B) \<le> exact_max" "int (length pts) * (A * A) \<le> exact_max"
      using len AB(3,4) by linarith+
  qed (use snoc.prems in \<open>simp_all add: in_box_def\<close>)
  have xy: "\<bar>x * y\<bar> \<le> exact_max" "\<bar>x * x\<bar> \<le> exact_max"
  proof -
    have "\<bar>x\<bar> \<le> A" "\<bar>y\<bar> \<le> B" using snoc.prems(1) p by (simp_all add: in_box_def)
    then have "\<bar>x * y\<bar> \<le> A * B" "\<bar>x * x\<bar> \<le> A * A" by (blast intro: box_product)+
    moreover have "0 \<le> int (length pts) * (A * B)" "0 \<le> int (length pts) * (A * A)"
      using AB by simp_all
    ultimately show "\<bar>x * y\<bar> \<le> exact_max" "\<bar>x * x\<bar> \<le> exact_max"
      using len by linarith+
  qed
  note bs = box_sums [OF snoc.prems(1)]
  have add: "fadd (fint (\<Sum>(x, y)\<leftarrow>pts. x)) (fint x) = fint ((\<Sum>(x, y)\<leftarrow>pts. x) + x)"
    "fadd (fint (\<Sum>(x, y)\<leftarrow>pts. y)) (fint y) = fint ((\<Sum>(x, y)\<leftarrow>pts. y) + y)"
    "fadd (fint (\<Sum>(x, y)\<leftarrow>pts. x * y)) (fint (x * y)) = fint ((\<Sum>(x, y)\<leftarrow>pts. x * y) + x * y)"
    "fadd (fint (\<Sum>(x, y)\<leftarrow>pts. x * x)) (fint (x * x)) = fint ((\<Sum>(x, y)\<leftarrow>pts. x * x) + x * x)"
    by (rule fint_add, use bs le snoc.prems(4,5) p in simp)+
  have step: "reg_sums (fpts (pts @ [p])) =
    (let s = reg_sums (fpts pts) in
      \<lparr>sumX = fadd (sumX s) (fint x), sumY = fadd (sumY s) (fint y),
       sumXY = fadd (sumXY s) (fmul (fint x) (fint y)),
       sumX2 = fadd (sumX2 s) (fmul (fint x) (fint x))\<rparr>)"
    by (simp only: reg_sums_def fpts_def p map_append list.map fold_append fold.simps o_apply
        id_apply prod.case Let_def)
  show ?case
    unfolding step IH Let_def RegSums.simps fint_mul [OF xy(1)] fint_mul [OF xy(2)] add
    by (simp add: p)
qed

lemma reg_step_exact:
  fixes n a b c d :: int
  assumes "0 \<le> n" and "\<bar>a\<bar> \<le> C" and "\<bar>b * c\<bar> \<le> n * C" and "2 * n * C \<le> exact_max"
  shows "fsub (fmul (fint n) (fint a)) (fmul (fint b) (fint c)) = fint (n * a - b * c)"
proof -
  have "\<bar>n * a\<bar> \<le> n * C" using assms(1,2) by (simp add: abs_mult mult_left_mono)
  then have "\<bar>n * a\<bar> \<le> exact_max" "\<bar>b * c\<bar> \<le> exact_max" "\<bar>n * a - b * c\<bar> \<le> exact_max"
    using assms(3,4) by linarith+
  then show ?thesis by (simp only: fint_mul fint_sub)
qed

text \<open>
  C19. For at least two integer samples whose sums stay below 2 to the 53, and whose x values are
  not all equal, the slope that \<^verbatim>\<open>LinearRegression\<close> returns is the exact least squares
  slope \<open>(n \<Sigma>xy - \<Sigma>x \<Sigma>y) / (n \<Sigma>x\<^sup>2 - (\<Sigma>x)\<^sup>2)\<close>, rounded once.
\<close>

theorem regression_slope_exact:
  fixes pts :: "(int \<times> int) list"
  assumes "2 \<le> length pts" and "in_box A B pts" and "1 \<le> A" and "1 \<le> B"
    and "2 * int (length pts) * (int (length pts) * (A * B)) \<le> exact_max"
    and "2 * int (length pts) * (int (length pts) * (A * A)) \<le> exact_max"
    and "int (length pts) * (\<Sum>(x, y)\<leftarrow>pts. x * x) \<noteq> (\<Sum>(x, y)\<leftarrow>pts. x) * (\<Sum>(x, y)\<leftarrow>pts. x)"
  shows "fst (LinearRegression (map fst (fpts pts)) (map snd (fpts pts))) =
    rnd (of_int (int (length pts) * (\<Sum>(x, y)\<leftarrow>pts. x * y) -
                 (\<Sum>(x, y)\<leftarrow>pts. x) * (\<Sum>(x, y)\<leftarrow>pts. y)) /
         of_int (int (length pts) * (\<Sum>(x, y)\<leftarrow>pts. x * x) -
                 (\<Sum>(x, y)\<leftarrow>pts. x) * (\<Sum>(x, y)\<leftarrow>pts. x)))"
proof -
  let ?n = "int (length pts)" and ?C = "int (length pts) * (A * B)" and ?D = "int (length pts) * (A * A)"
  have n: "2 \<le> ?n" "0 \<le> ?n" using assms(1) by linarith+
  have AB: "1 \<le> A * B" "1 \<le> A * A"
    using mult_mono [of 1 A 1 B] mult_mono [of 1 A 1 A] assms(3,4) by simp_all
  have CD: "?n \<le> ?C" "?n \<le> ?D" using mult_left_mono [OF AB(1) n(2)] mult_left_mono [OF AB(2) n(2)] by simp_all
  have "?C \<le> exact_max" "?D \<le> exact_max"
    using mult_right_mono [of 1 "2 * ?n" ?C] mult_right_mono [of 1 "2 * ?n" ?D] n CD assms(5,6) by linarith+
  note sums = reg_sums_exact [OF assms(2-4) this]
  have nf: "f64_of_int ?n = fint ?n"
    using rnd_of_int [of ?n] CD \<open>?C \<le> exact_max\<close> by (simp add: f64_of_int_def)
  note bs = box_sums [OF assms(2)]
  let ?X = "\<Sum>(x, y)\<leftarrow>pts. x" and ?Y = "\<Sum>(x, y)\<leftarrow>pts. y"
  have prods: "\<bar>?X * ?Y\<bar> \<le> ?n * ?C" "\<bar>?X * ?X\<bar> \<le> ?n * ?D"
    using box_product [OF bs(1,2)] box_product [OF bs(1,1)] by (simp_all add: mult_ac)
  have num: "fsub (fmul (fint ?n) (fint (\<Sum>(x, y)\<leftarrow>pts. x * y))) (fmul (fint ?X) (fint ?Y)) =
      fint (?n * (\<Sum>(x, y)\<leftarrow>pts. x * y) - ?X * ?Y)"
    by (rule reg_step_exact [OF n(2) bs(3) prods(1) assms(5)])
  have den: "fsub (fmul (fint ?n) (fint (\<Sum>(x, y)\<leftarrow>pts. x * x))) (fmul (fint ?X) (fint ?X)) =
      fint (?n * (\<Sum>(x, y)\<leftarrow>pts. x * x) - ?X * ?X)"
    by (rule reg_step_exact [OF n(2) bs(4) prods(2) assms(6)])
  have lens: "length (map fst (fpts pts)) = length pts" "length (map snd (fpts pts)) = length pts"
    "zip (map fst (fpts pts)) (map snd (fpts pts)) = fpts pts"
    by (simp_all add: zip_map_fst_snd) (simp_all add: fpts_def)
  have nz: "(of_int (?n * (\<Sum>(x, y)\<leftarrow>pts. x * x) - ?X * ?X) :: rat) \<noteq> 0"
    using assms(7) by (simp only: of_int_eq_0_iff)
  have "\<not> flt (fint ?n) (Fin 2)" "\<not> feq (fint (?n * (\<Sum>(x, y)\<leftarrow>pts. x * x) - ?X * ?X)) (Fin 0)"
    using n nz by (simp_all add: feq_def del: of_int_mult of_int_diff)
  then show ?thesis
    unfolding LinearRegression_def lens sums nf Let_def RegSums.simps num den
    using nz by (simp add: split_beta del: of_int_mult of_int_diff)
qed

theorem regression_slope_exact_witness:
  "fst (LinearRegression (map fst (fpts [(0, 1), (1, 3), (2, 5)])) (map snd (fpts [(0, 1), (1, 3), (2, 5)])))
   = Fin 2"
  using regression_slope_exact [of "[(0, 1), (1, 3), (2, 5)]" 2 5]
  by (simp add: in_box_def rnd_numeral)

end
