(* ===== verification/Storage.thy ===== *)
theory Storage
  imports Metrics Stats
begin

text \<open>
  \<^verbatim>\<open>internal/storage/store.go\<close>: the latest snapshot, the ring of system rows and one ring of samples
  per process. Every operation runs under the store's lock, so it is one step on the record.

  The abstract view of a store is the list of all snapshots ever set. The refinement lemmas say
  what each query returns in terms of that list, so a client never has to look at a ring.
\<close>

record ProcessSample =
  sa_Time :: gotime
  sa_CPUPercent :: f64
  sa_WorkingSet :: u64
  sa_PrivateBytes :: u64
  sa_IOReadBytes :: u64
  sa_IOWriteBytes :: u64
  sa_ThreadCount :: u32

record Store =
  s_latest :: "SystemSnapshot option"
  s_systemHistory :: "TimestampedSystem RingBuffer"
  s_procHistory :: "(pid, ProcessSample RingBuffer) gomap"
  s_procCap :: int
  s_procSeen :: "(pid, gotime) gomap"

definition zero_sample :: ProcessSample where
  "zero_sample = \<lparr>sa_Time = zero_time, sa_CPUPercent = Fin 0, sa_WorkingSet = 0, sa_PrivateBytes = 0,
     sa_IOReadBytes = 0, sa_IOWriteBytes = 0, sa_ThreadCount = 0\<rparr>"

definition system_row :: "SystemSnapshot \<Rightarrow> TimestampedSystem" where
  "system_row snap = \<lparr>ts_Time = ss_Timestamp snap, ts_CPU = ss_CPU snap, ts_Memory = ss_Memory snap,
     ts_GPU = ss_GPU snap, ts_Network = ss_Network snap, ts_Disk = ss_Disk snap\<rparr>"

definition process_sample :: "gotime \<Rightarrow> ProcessInfo \<Rightarrow> ProcessSample" where
  "process_sample now p = \<lparr>sa_Time = now, sa_CPUPercent = p_CPUPercent p, sa_WorkingSet = p_WorkingSet p,
     sa_PrivateBytes = p_PrivateBytes p, sa_IOReadBytes = p_IOReadBytes p,
     sa_IOWriteBytes = p_IOWriteBytes p, sa_ThreadCount = p_ThreadCount p\<rparr>"

definition NewStore :: "int \<Rightarrow> int \<Rightarrow> Store" where
  "NewStore historyCap procHistoryCap =
     (let h = (if historyCap < 60 then 60 else historyCap);
          p = (if procHistoryCap < 10 then 10 else procHistoryCap)
      in \<lparr>s_latest = None, s_systemHistory = NewRingBuffer (system_row zero_snapshot) h,
          s_procHistory = [], s_procCap = p, s_procSeen = []\<rparr>)"

text \<open>A deep copy; on values it is the identity (\<open>cloneSnapshot_id\<close>).\<close>

fun cloneProcessTree :: "ProcessNode list \<Rightarrow> ProcessNode list" and cloneNode :: "ProcessNode \<Rightarrow> ProcessNode" where
  "cloneProcessTree [] = []"
| "cloneProcessTree (n # ns) = cloneNode n # cloneProcessTree ns"
| "cloneNode (ProcessNode p cs d orph) = ProcessNode p (cloneProcessTree cs) d orph"

definition cloneSnapshot :: "SystemSnapshot option \<Rightarrow> SystemSnapshot option" where
  "cloneSnapshot src = map_option (\<lambda>s. s\<lparr>ss_ProcessTree := cloneProcessTree (ss_ProcessTree s)\<rparr>) src"

lemma clone_tree_id: "cloneProcessTree ns = ns" "cloneNode n = n"
  by (induction ns and n rule: cloneProcessTree_cloneNode.induct) simp_all

lemma cloneSnapshot_id [simp]: "cloneSnapshot s = s"
  by (cases s) (simp_all add: cloneSnapshot_def clone_tree_id)

definition record_process :: "gotime \<Rightarrow> ProcessInfo \<Rightarrow> Store \<Rightarrow> Store" where
  "record_process now p s =
     (let buf = (case mget (s_procHistory s) (p_PID p) of
                   Some b \<Rightarrow> b
                 | None \<Rightarrow> NewRingBuffer zero_sample (s_procCap s))
      in s\<lparr>s_procHistory := mput (p_PID p) (rb_Add (process_sample now p) buf) (s_procHistory s),
           s_procSeen := mput (p_PID p) now (s_procSeen s)\<rparr>)"

definition recordSnapshotLocked :: "SystemSnapshot \<Rightarrow> Store \<Rightarrow> Store" where
  "recordSnapshotLocked snap s =
     (let s = s\<lparr>s_systemHistory := rb_Add (system_row snap) (s_systemHistory s)\<rparr>
      in fold (record_process (ss_Timestamp snap)) (ss_Processes snap) s)"

definition SetLatest :: "SystemSnapshot \<Rightarrow> Store \<Rightarrow> Store" where
  "SetLatest snap s = recordSnapshotLocked snap (s\<lparr>s_latest := cloneSnapshot (Some snap)\<rparr>)"

definition UpdateLatest :: "(SystemSnapshot \<Rightarrow> SystemSnapshot) \<Rightarrow> Store \<Rightarrow> Store \<times> bool" where
  "UpdateLatest update s =
     (case s_latest s of
        None \<Rightarrow> (s, False)
      | Some snap \<Rightarrow> (s\<lparr>s_latest := Some (update snap)\<rparr>, True))"

definition Latest :: "Store \<Rightarrow> SystemSnapshot option" where
  "Latest s = cloneSnapshot (s_latest s)"

definition SystemHistory :: "Store \<Rightarrow> TimestampedSystem list" where
  "SystemHistory s = rb_Slice (s_systemHistory s)"

definition SystemHistorySince :: "gotime \<Rightarrow> Store \<Rightarrow> TimestampedSystem list" where
  "SystemHistorySince since s = filter (\<lambda>r. t_after (ts_Time r) since) (SystemHistory s)"

definition ProcessHistory :: "pid \<Rightarrow> Store \<Rightarrow> ProcessSample list" where
  "ProcessHistory p s = (case mget (s_procHistory s) p of None \<Rightarrow> [] | Some b \<Rightarrow> rb_Slice b)"

definition PruneStaleProcesses :: "gotime \<Rightarrow> Store \<Rightarrow> Store \<times> nat" where
  "PruneStaleProcesses cutoff s =
     fold (\<lambda>(p, last) (s, removed).
             if t_before last cutoff
             then (s\<lparr>s_procHistory := mdel p (s_procHistory s), s_procSeen := mdel p (s_procSeen s)\<rparr>, removed + 1)
             else (s, removed))
          (s_procSeen s) (s, 0)"

definition TrackedProcessCount :: "Store \<Rightarrow> nat" where
  "TrackedProcessCount s = length (s_procHistory s)"

section \<open>The invariant\<close>

text \<open>
  Both maps have the same processes, and every ring is well formed and has the store's capacity.
\<close>

definition store_inv :: "Store \<Rightarrow> bool" where
  "store_inv s \<longleftrightarrow>
     rb_inv (s_systemHistory s) \<and> 10 \<le> s_procCap s \<and>
     wf_map (s_procHistory s) \<and> wf_map (s_procSeen s) \<and>
     fst ` set (s_procHistory s) = fst ` set (s_procSeen s) \<and>
     (\<forall>p b. mget (s_procHistory s) p = Some b \<longrightarrow> rb_inv b \<and> rb_capacity b = nat (s_procCap s))"

lemma store_inv_New [simp]: "store_inv (NewStore h c)"
  by (simp add: store_inv_def NewStore_def Let_def)

lemma store_inv_record_process:
  assumes "store_inv s"
  shows "store_inv (record_process now p s)"
    and "s_procCap (record_process now p s) = s_procCap s"
    and "ProcessHistory q (record_process now p s) =
      (if q = p_PID p then take_last (nat (s_procCap s)) (ProcessHistory q s @ [process_sample now p])
       else ProcessHistory q s)"
  using assms
  by (auto simp: store_inv_def record_process_def ProcessHistory_def Let_def rb_Slice_Add
      split: option.splits if_splits)

lemma ProcessHistory_bound:
  assumes "store_inv s"
  shows "length (ProcessHistory q s) \<le> nat (s_procCap s)"
proof (cases "mget (s_procHistory s) q")
  case (Some b)
  then have "rb_inv b" "rb_capacity b = nat (s_procCap s)" using assms by (simp_all add: store_inv_def)
  with Some show ?thesis by (simp add: ProcessHistory_def rb_inv_def)
qed (simp add: ProcessHistory_def)

lemma fold_record_process:
  assumes "store_inv s"
  shows "store_inv (fold (record_process now) ps s) \<and>
    s_procCap (fold (record_process now) ps s) = s_procCap s \<and>
    ProcessHistory q (fold (record_process now) ps s) =
      take_last (nat (s_procCap s))
        (ProcessHistory q s @ map (process_sample now) (filter (\<lambda>p. p_PID p = q) ps))"
  using assms
proof (induction ps arbitrary: s)
  case Nil
  with ProcessHistory_bound [OF Nil, of q] show ?case by simp
next
  case (Cons p ps)
  note r = store_inv_record_process [OF Cons.prems, where now = now and p = p]
  show ?case
    using Cons.IH [OF r(1)] r(2) r(3) [where q = q] by (auto simp: take_last_push)
qed

lemma record_process_frame [simp]:
  "s_systemHistory (record_process now p s) = s_systemHistory s"
  "s_latest (record_process now p s) = s_latest s"
  by (simp_all add: record_process_def Let_def)

lemma fold_record_process_frame [simp]:
  "s_systemHistory (fold (record_process now) ps s) = s_systemHistory s"
  "s_latest (fold (record_process now) ps s) = s_latest s"
  by (induction ps arbitrary: s) simp_all

definition samples_of :: "pid \<Rightarrow> SystemSnapshot \<Rightarrow> ProcessSample list" where
  "samples_of q snap = map (process_sample (ss_Timestamp snap)) (filter (\<lambda>p. p_PID p = q) (ss_Processes snap))"

lemma SetLatest_refines:
  assumes "store_inv s"
  shows "store_inv (SetLatest snap s)"
    and "s_procCap (SetLatest snap s) = s_procCap s"
    and "rb_capacity (s_systemHistory (SetLatest snap s)) = rb_capacity (s_systemHistory s)"
    and "Latest (SetLatest snap s) = Some snap"
    and "SystemHistory (SetLatest snap s) =
      take_last (rb_capacity (s_systemHistory s)) (SystemHistory s @ [system_row snap])"
    and "ProcessHistory q (SetLatest snap s) =
      take_last (nat (s_procCap s)) (ProcessHistory q s @ samples_of q snap)"
proof -
  let ?s = "s\<lparr>s_latest := Some snap, s_systemHistory := rb_Add (system_row snap) (s_systemHistory s)\<rparr>"
  have inv: "store_inv ?s" using assms by (auto simp: store_inv_def)
  have eq: "SetLatest snap s = fold (record_process (ss_Timestamp snap)) (ss_Processes snap) ?s"
    by (simp add: SetLatest_def recordSnapshotLocked_def)
  note f = fold_record_process [OF inv, of "ss_Timestamp snap" "ss_Processes snap"]
  have rb: "rb_inv (s_systemHistory s)" using assms by (simp add: store_inv_def)
  show "store_inv (SetLatest snap s)" "s_procCap (SetLatest snap s) = s_procCap s"
    unfolding eq using f by simp_all
  show "rb_capacity (s_systemHistory (SetLatest snap s)) = rb_capacity (s_systemHistory s)"
    "Latest (SetLatest snap s) = Some snap"
    "SystemHistory (SetLatest snap s) =
      take_last (rb_capacity (s_systemHistory s)) (SystemHistory s @ [system_row snap])"
    unfolding eq by (simp_all add: Latest_def SystemHistory_def rb_Slice_Add [OF rb])
  show "ProcessHistory q (SetLatest snap s) =
      take_last (nat (s_procCap s)) (ProcessHistory q s @ samples_of q snap)"
    unfolding eq using f [of q] by (simp add: ProcessHistory_def samples_of_def)
qed

lemma run_SetLatest:
  assumes "store_inv s"
  shows "store_inv (fold SetLatest snaps s) \<and> s_procCap (fold SetLatest snaps s) = s_procCap s \<and>
    SystemHistory (fold SetLatest snaps s) =
      take_last (rb_capacity (s_systemHistory s)) (SystemHistory s @ map system_row snaps) \<and>
    ProcessHistory q (fold SetLatest snaps s) =
      take_last (nat (s_procCap s)) (ProcessHistory q s @ concat (map (samples_of q) snaps))"
  using assms
proof (induction snaps arbitrary: s)
  case Nil
  then show ?case
    using ProcessHistory_bound [OF Nil, of q] Nil
    by (simp add: SystemHistory_def) (simp add: store_inv_def rb_inv_def)
next
  case (Cons snap snaps)
  note S = SetLatest_refines [OF Cons.prems, where snap = snap]
  show ?case
    using Cons.IH [OF S(1)] S(2,3,5) S(6) [where q = q] by (simp add: take_last_push)
qed

text \<open>
  C26. After any sequence of snapshots, the store returns the last one as \<^verbatim>\<open>Latest\<close>, the rows of the
  last \<open>max 60 h\<close> of them as the system history, and for every process the last \<open>max 10 c\<close> samples
  it had in any of them, each oldest first.
\<close>

theorem store_history:
  "SystemHistory (fold SetLatest snaps (NewStore h c)) = take_last (nat (max 60 h)) (map system_row snaps) \<and>
   ProcessHistory q (fold SetLatest snaps (NewStore h c)) =
     take_last (nat (max 10 c)) (concat (map (samples_of q) snaps)) \<and>
   Latest (fold SetLatest snaps (NewStore h c)) = (if snaps = [] then None else Some (last snaps))"
proof -
  have "Latest (fold SetLatest snaps (NewStore h c)) = (if snaps = [] then None else Some (last snaps))"
  proof (cases snaps rule: rev_cases)
    case (snoc ys y)
    have "store_inv (fold SetLatest ys (NewStore h c))" using run_SetLatest [OF store_inv_New] by blast
    then show ?thesis using snoc SetLatest_refines(4) by simp
  qed (simp add: Latest_def NewStore_def Let_def)
  moreover have "SystemHistory (NewStore h c) = []" "ProcessHistory q (NewStore h c) = []"
    "rb_capacity (s_systemHistory (NewStore h c)) = nat (max 60 h)"
    "nat (s_procCap (NewStore h c)) = nat (max 10 c)"
    by (simp_all add: SystemHistory_def ProcessHistory_def NewStore_def Let_def)
  ultimately show ?thesis using run_SetLatest [OF store_inv_New, of snaps h c q] by simp
qed

section \<open>Pruning\<close>

lemma prune_fold:
  assumes "distinct (map fst es)"
  shows "fold (\<lambda>(p, last) (s, removed).
             if t_before last cutoff
             then (s\<lparr>s_procHistory := mdel p (s_procHistory s), s_procSeen := mdel p (s_procSeen s)\<rparr>, removed + 1)
             else (s, removed)) es (s, n) =
    (let gone = {p. \<exists>t. (p, t) \<in> set es \<and> t_before t cutoff} in
     (s\<lparr>s_procHistory := mfilter (\<lambda>p _. p \<notin> gone) (s_procHistory s),
        s_procSeen := mfilter (\<lambda>p _. p \<notin> gone) (s_procSeen s)\<rparr>,
      n + length (filter (\<lambda>(p, t). t_before t cutoff) es)))"
  using assms
proof (induction es arbitrary: s n)
  case Nil
  show ?case by (simp add: mfilter_def)
next
  case (Cons e es)
  obtain p t where e: "e = (p, t)" by (cases e)
  have md: "mdel p m = mfilter (\<lambda>a _. a \<noteq> p) m" for m :: "(pid, 'z) gomap"
    by (induction p m rule: mdel.induct) (auto simp: mfilter_def)
  have ff: "mfilter P (mfilter Q m) = mfilter (\<lambda>a b. P a b \<and> Q a b) m" for P Q and m :: "(pid, 'z) gomap"
    by (auto simp: mfilter_def intro: filter_cong)
  show ?case
  proof (cases "t_before t cutoff")
    case True
    let ?G = "{p. \<exists>t. (p, t) \<in> set es \<and> t_before t cutoff}"
    have "{q. \<exists>u. (q, u) \<in> set (e # es) \<and> t_before u cutoff} = insert p ?G" using e True by auto
    then show ?thesis
      using Cons True e by (simp add: Let_def md ff conj_commute)
  next
    case False
    then have "{q. \<exists>u. (q, u) \<in> set (e # es) \<and> t_before u cutoff} =
       {p. \<exists>t. (p, t) \<in> set es \<and> t_before t cutoff}" using e by auto
    then show ?thesis using Cons False e by (simp add: Let_def)
  qed
qed

lemma mget_mfilter_keys:
  "mget (mfilter (\<lambda>p _. p \<notin> X) m) q = (if q \<in> X then None else mget m q)"
  unfolding mfilter_def by (induction m) auto

lemma Prune_eq:
  assumes "store_inv s"
  shows "PruneStaleProcesses cutoff s =
    (s\<lparr>s_procHistory := mfilter (\<lambda>p _. \<not> (\<exists>t. mget (s_procSeen s) p = Some t \<and> t_before t cutoff)) (s_procHistory s),
       s_procSeen := mfilter (\<lambda>p _. \<not> (\<exists>t. mget (s_procSeen s) p = Some t \<and> t_before t cutoff)) (s_procSeen s)\<rparr>,
     length (filter (\<lambda>(p, t). t_before t cutoff) (s_procSeen s)))"
proof -
  have wf: "wf_map (s_procSeen s)" using assms by (simp add: store_inv_def)
  then have "(p, t) \<in> set (s_procSeen s) \<longleftrightarrow> mget (s_procSeen s) p = Some t" for p t
    by (simp add: wf_map_def)
  with wf show ?thesis
    using prune_fold [of "s_procSeen s" cutoff s 0]
    by (simp add: PruneStaleProcesses_def Let_def wf_map_def)
qed

lemma length_filter_keys: "length (filter (\<lambda>(p, t). Q p) m) = length (filter Q (map fst m))"
  by (induction m) auto

lemma length_filter_same_set:
  "distinct xs \<Longrightarrow> distinct ys \<Longrightarrow> set xs = set ys \<Longrightarrow> length (filter Q xs) = length (filter Q ys)"
  by (simp add: distinct_length_filter)

lemma length_mfilter_compl:
  "length (mfilter (\<lambda>p _. \<not> Q p) h) + length (filter (\<lambda>(p, t). Q p) h) = length h"
  unfolding mfilter_def by (induction h) auto

lemma length_pruned:
  assumes "wf_map m" and "wf_map h" and "fst ` set h = fst ` set m"
  shows "length (mfilter (\<lambda>p _. \<not> (\<exists>t. mget m p = Some t \<and> P t)) h) + length (filter (\<lambda>(p, t). P t) m) = length h"
proof -
  let ?gone = "\<lambda>p. \<exists>t. mget m p = Some t \<and> P t"
  have d: "distinct (map fst h)" "distinct (map fst m)" using assms by (simp_all add: wf_map_def)
  have "filter (\<lambda>(p, t). P t) m = filter (\<lambda>(p, t). ?gone p) m"
    using d(2) by (intro filter_cong) (auto dest: eq_key_imp_eq_value)
  then have "length (filter (\<lambda>(p, t). P t) m) = length (filter ?gone (map fst m))"
    by (simp only: length_filter_keys)
  also have "\<dots> = length (filter ?gone (map fst h))"
    using d assms(3) by (intro length_filter_same_set) simp_all
  also have "\<dots> = length (filter (\<lambda>(p, t). ?gone p) h)" by (simp only: length_filter_keys)
  finally have "length (filter (\<lambda>(p, t). P t) m) = length (filter (\<lambda>(p, t). ?gone p) h)" .
  then show ?thesis using length_mfilter_compl [of ?gone h] by (simp only:)
qed

text \<open>
  Pruning drops exactly the processes last seen before the cutoff: their history reads as empty,
  every other history, the latest snapshot and the system history are untouched, the number returned
  is the number of histories dropped, and the store's invariant is kept.
\<close>

theorem prune_exact:
  assumes "store_inv s" and "PruneStaleProcesses cutoff s = (s', n)"
  shows "store_inv s' \<and> TrackedProcessCount s' + n = TrackedProcessCount s \<and>
     Latest s' = Latest s \<and> SystemHistory s' = SystemHistory s \<and>
     ProcessHistory q s' =
       (case mget (s_procSeen s) q of
          None \<Rightarrow> []
        | Some t \<Rightarrow> if t_before t cutoff then [] else ProcessHistory q s)"
proof -
  define gone where "gone = {p. \<exists>t. mget (s_procSeen s) p = Some t \<and> t_before t cutoff}"
  note eq = Prune_eq [OF assms(1), of cutoff, unfolded assms(2)]
  have s': "s_procHistory s' = mfilter (\<lambda>p _. p \<notin> gone) (s_procHistory s)"
    "s_procSeen s' = mfilter (\<lambda>p _. p \<notin> gone) (s_procSeen s)"
    "s_procCap s' = s_procCap s" "s_latest s' = s_latest s" "s_systemHistory s' = s_systemHistory s"
    using eq by (simp_all add: gone_def)
  have keys: "fst ` set (mfilter (\<lambda>p _. p \<notin> X) m) = fst ` set m - X" for X and m :: "(pid, 'z) gomap"
    by (force simp: mfilter_def)
  have inv: "store_inv s'"
    using assms(1) unfolding store_inv_def s' keys by (simp add: mget_mfilter_keys)
  have "TrackedProcessCount s' + n = TrackedProcessCount s"
    using eq length_pruned [of "s_procSeen s" "s_procHistory s" "\<lambda>t. t_before t cutoff"] assms(1)
    by (simp add: TrackedProcessCount_def store_inv_def)
  moreover have "mget (s_procSeen s) q = None \<Longrightarrow> ProcessHistory q s = []"
    using assms(1) mget_None_iff [of "s_procHistory s" q] mget_None_iff [of "s_procSeen s" q]
    by (simp add: store_inv_def ProcessHistory_def)
  moreover have "ProcessHistory q s' = (if q \<in> gone then [] else ProcessHistory q s)"
    unfolding ProcessHistory_def s' mget_mfilter_keys by simp
  ultimately show ?thesis
    using inv s'(4,5) by (auto simp: Latest_def SystemHistory_def gone_def split: option.splits)
qed

definition demo_snapshot :: SystemSnapshot where
  "demo_snapshot = zero_snapshot\<lparr>ss_Timestamp := 5, ss_Processes := [zero_proc\<lparr>p_PID := 4\<rparr>]\<rparr>"

theorem prune_exact_witness:
  "TrackedProcessCount (fst (PruneStaleProcesses 9 (SetLatest demo_snapshot (NewStore 60 10)))) = 0"
proof -
  let ?s = "SetLatest demo_snapshot (NewStore 60 10)"
  obtain s' n where p: "PruneStaleProcesses 9 ?s = (s', n)" by fastforce
  have inv: "store_inv ?s" by (rule SetLatest_refines(1)) simp
  have seen: "s_procSeen ?s = [(4, 5)]" and "TrackedProcessCount ?s = 1"
    by (simp_all add: SetLatest_def recordSnapshotLocked_def demo_snapshot_def record_process_def
        NewStore_def Let_def TrackedProcessCount_def zero_proc_def)
  moreover have "n = 1"
    using p unfolding Prune_eq [OF inv] seen by (auto simp: t_before_def)
  ultimately show ?thesis using prune_exact [OF inv p, of 4] p by simp
qed

end
