(* ===== verification/Sink.thy ===== *)
theory Sink
  imports Alerts Storage
begin

text \<open>
  What a detector sees and does (\<^verbatim>\<open>AnalysisContext\<close> in \<^verbatim>\<open>internal/anomaly/engine.go\<close>): the instant of
  the tick, the snapshot, the metric store and the configuration are read; alerts are raised and
  cleared through two helpers that also publish an event. The sink is the part that is written: the
  alert store, the events published, and the clock the store reads.

  Two interfaces are stated here. \<open>sink_invariant\<close> is what the engine relies on: a property the two
  helpers keep is kept by every detector. \<open>keyed_frame\<close> and \<open>keyed_pass\<close> are the shape of the detectors that go over the
  entries of a list with a state per entry.
\<close>

datatype alert_event = EvRaised Alert | EvCleared gostring u32

record Sink =
  sk_alerts :: AlertStore
  sk_emitter :: bool
  sk_events :: "alert_event list"
  sk_clock :: "nat \<Rightarrow> gotime"
  sk_tick :: nat

record AnalysisContext =
  ac_Now :: gotime
  ac_Snapshot :: SystemSnapshot
  ac_Store :: Store
  ac_Cfg :: Config

definition emit_event :: "alert_event \<Rightarrow> Sink \<Rightarrow> Sink" where
  "emit_event ev s = (if sk_emitter s then s\<lparr>sk_events := sk_events s @ [ev]\<rparr> else s)"

definition RaiseAlert :: "Alert \<Rightarrow> Sink \<Rightarrow> Sink" where
  "RaiseAlert alert s =
     (let (store, stored, isNew) = Raise (sk_clock s (sk_tick s)) (sk_clock s (sk_tick s + 1)) alert (sk_alerts s);
          s = s\<lparr>sk_alerts := store, sk_tick := sk_tick s + 2\<rparr>
      in if isNew then emit_event (EvRaised stored) s else s)"

definition ClearAlert :: "gostring \<Rightarrow> u32 \<Rightarrow> Sink \<Rightarrow> Sink" where
  "ClearAlert alertType pid s =
     emit_event (EvCleared alertType pid)
       (s\<lparr>sk_alerts := Clear (sk_clock s (sk_tick s)) alertType pid (sk_alerts s), sk_tick := sk_tick s + 1\<rparr>)"

lemma emit_event_frame [simp]:
  "sk_alerts (emit_event ev s) = sk_alerts s" "sk_emitter (emit_event ev s) = sk_emitter s"
  "sk_clock (emit_event ev s) = sk_clock s" "sk_tick (emit_event ev s) = sk_tick s"
  by (simp_all add: emit_event_def)

lemma RaiseAlert_store:
  "sk_alerts (RaiseAlert a s) =
     fst (Raise (sk_clock s (sk_tick s)) (sk_clock s (sk_tick s + 1)) a (sk_alerts s))"
  by (simp add: RaiseAlert_def split_beta Let_def)

lemma ClearAlert_store:
  "sk_alerts (ClearAlert t p s) = Clear (sk_clock s (sk_tick s)) t p (sk_alerts s)"
  by (simp add: ClearAlert_def)

text \<open>An event about a raised alert carries the type and the process of the alert that was raised.\<close>

lemma Raise_returns:
  "Raise n1 n2 a s = (s', r, True) \<Longrightarrow> r = a\<lparr>al_ID := alertKey (al_Type a) (al_PID a), al_Detected := n2\<rparr>"
  by (auto simp: Raise_def raise_unsnoozed_def Let_def split: option.splits if_splits)

lemma RaiseAlert_events:
  "sk_events (RaiseAlert a s) = sk_events s \<or>
   (\<exists>r. sk_events (RaiseAlert a s) = sk_events s @ [EvRaised r] \<and> al_Type r = al_Type a \<and> al_PID r = al_PID a \<and>
      al_Severity r = al_Severity a)"
proof -
  obtain store r isNew
    where R: "Raise (sk_clock s (sk_tick s)) (sk_clock s (sk_tick s + 1)) a (sk_alerts s) = (store, r, isNew)"
    by (metis prod_cases3)
  show ?thesis
  proof (cases isNew)
    case True
    then have "r = a\<lparr>al_ID := alertKey (al_Type a) (al_PID a), al_Detected := sk_clock s (sk_tick s + 1)\<rparr>"
      using R by (intro Raise_returns) simp
    then show ?thesis using R True by (simp add: RaiseAlert_def emit_event_def Let_def)
  next
    case False
    then show ?thesis using R by (simp add: RaiseAlert_def Let_def)
  qed
qed

lemma ClearAlert_events:
  "sk_events (ClearAlert t p s) = sk_events s @ (if sk_emitter s then [EvCleared t p] else [])"
  by (simp add: ClearAlert_def emit_event_def)

section \<open>Properties every detector keeps\<close>

locale sink_invariant =
  fixes I :: "Sink \<Rightarrow> bool"
  assumes raise_keeps: "I s \<Longrightarrow> I (RaiseAlert a s)"
    and clear_keeps: "I s \<Longrightarrow> I (ClearAlert t p s)"
begin

lemma fold_keeps:
  assumes "\<And>x m s. I s \<Longrightarrow> I (snd (f x (m, s)))" and "I s"
  shows "I (snd (fold f xs (m, s)))"
  using assms(2)
proof (induction xs arbitrary: m s)
  case (Cons x xs)
  obtain m' s' where x: "f x (m, s) = (m', s')" by fastforce
  then have "I s'" using assms(1) [OF Cons.prems, of x m] by simp
  then show ?case using Cons.IH x by simp
qed simp

lemma if_raise_keeps: "I s \<Longrightarrow> I (if b then RaiseAlert a s else s)"
  by (simp add: raise_keeps)

end

interpretation sink_alerts: sink_invariant "\<lambda>s. alerts_inv (sk_alerts s)"
  by unfold_locales (simp_all add: RaiseAlert_store ClearAlert_store alerts_inv_Raise alerts_inv_Clear)

lemma capped_Raise: "capped s \<Longrightarrow> capped (fst (Raise n1 n2 a s))"
  using capped_exec [of "OpRaise n1 n2 a" s] by (simp add: sets_cap_def)

lemma capped_Clear: "capped s \<Longrightarrow> capped (Clear now t p s)"
  using capped_exec [of "OpClear now t p" s] by (simp add: sets_cap_def)

interpretation sink_capped: sink_invariant "\<lambda>s. capped (sk_alerts s)"
  by unfold_locales (simp_all add: RaiseAlert_store ClearAlert_store capped_Raise capped_Clear)

section \<open>One pass over keyed entries\<close>

text \<open>
  A step for an entry touches the state under the entry's key only (\<open>keyed_frame\<close>); then over entries
  with distinct keys what the steps do to the rest depends on the states before the pass. When what a
  step makes of its state depends on nothing else (\<open>keyed_pass\<close>), the pass is a pointwise update.
\<close>

locale keyed_frame =
  fixes key :: "'e \<Rightarrow> 'k"
    and step :: "'e \<Rightarrow> ('k, 'v) gomap \<times> 's \<Rightarrow> ('k, 'v) gomap \<times> 's"
  assumes step_frame: "k \<noteq> key p \<Longrightarrow> mget (fst (step p (m, s))) k = mget m k"
begin

lemma fold_frame: "k \<notin> key ` set ps \<Longrightarrow> mget (fst (fold step ps (m, s))) k = mget m k"
proof (induction ps arbitrary: m s)
  case (Cons p ps)
  then show ?case using step_frame [of k p m s] by (cases "step p (m, s)") simp
qed simp

lemma fold_sink:
  assumes "distinct (map key ps)" and "Q s0"
    and "\<And>p m s. p \<in> set ps \<Longrightarrow> mget m (key p) = mget m0 (key p) \<Longrightarrow> Q s \<Longrightarrow> Q (snd (step p (m, s)))"
  shows "Q (snd (fold step ps (m0, s0)))"
proof -
  have "Q (snd (fold step ps (m, s)))"
    if "distinct (map key ps)" "Q s" "\<And>p. p \<in> set ps \<Longrightarrow> mget m (key p) = mget m0 (key p)"
      "\<And>p m s. p \<in> set ps \<Longrightarrow> mget m (key p) = mget m0 (key p) \<Longrightarrow> Q s \<Longrightarrow> Q (snd (step p (m, s)))"
    for ps m s
    using that
  proof (induction ps arbitrary: m s)
    case (Cons p ps)
    obtain m' s' where st: "step p (m, s) = (m', s')" by fastforce
    have "Q s'" using Cons.prems(4) [of p m s] Cons.prems(2,3) st by simp
    moreover have "mget m' (key q) = mget m0 (key q)" if "q \<in> set ps" for q
    proof -
      have "key p \<notin> key ` set ps" using Cons.prems(1) by simp
      then have "key q \<noteq> key p" using that by (metis imageI)
      then show ?thesis using step_frame [of "key q" p m s] st that Cons.prems(3) by simp
    qed
    ultimately have "Q (snd (fold step ps (m', s')))"
      using Cons.prems(1,4) by (intro Cons.IH) auto
    then show ?case using st by simp
  qed simp
  then show ?thesis using assms by blast
qed

end

locale keyed_pass =
  fixes key :: "'e \<Rightarrow> 'k"
    and step :: "'e \<Rightarrow> ('k, 'v) gomap \<times> 's \<Rightarrow> ('k, 'v) gomap \<times> 's"
    and nxt :: "'e \<Rightarrow> 'v option \<Rightarrow> 'v option"
  assumes step_next: "mget (fst (step p (m, s))) k = (if k = key p then nxt p (mget m k) else mget m k)"

sublocale keyed_pass \<subseteq> keyed_frame key step
  by unfold_locales (simp add: step_next)

context keyed_pass begin

lemma fold_next:
  "distinct (map key ps) \<Longrightarrow>
     mget (fst (fold step ps (m, s))) k =
       (case find (\<lambda>p. key p = k) ps of None \<Rightarrow> mget m k | Some p \<Rightarrow> nxt p (mget m k))"
proof (induction ps arbitrary: m s)
  case (Cons p ps)
  obtain m' s' where st: "step p (m, s) = (m', s')" by fastforce
  have new: "key p \<notin> key ` set ps" using Cons.prems by simp
  have m': "mget m' k = (if k = key p then nxt p (mget m k) else mget m k)"
    using step_next [of p m s k] st by simp
  have IH: "mget (fst (fold step ps (m', s'))) k =
      (case find (\<lambda>p. key p = k) ps of None \<Rightarrow> mget m' k | Some p \<Rightarrow> nxt p (mget m' k))"
    using Cons by simp
  have "key p = k \<Longrightarrow> find (\<lambda>p. key p = k) ps = None"
    using new unfolding find_None_iff by (metis imageI)
  then show ?case using st m' IH by (auto split: option.splits)
qed simp

end

text \<open>The collection of states at the end of a tick: only processes of the snapshot keep one.\<close>

definition live_pids :: "SystemSnapshot \<Rightarrow> pid set" where
  "live_pids snap = p_PID ` set (ss_Processes snap)"

definition gc_states :: "SystemSnapshot \<Rightarrow> (pid, 'v) gomap \<Rightarrow> (pid, 'v) gomap" where
  "gc_states snap m = mfilter (\<lambda>k _. k \<in> live_pids snap) m"

lemma mget_mfilter_key: "mget (mfilter (\<lambda>k _. P k) m) k = (if P k then mget m k else None)"
  unfolding mfilter_def by (induction m) auto

lemma mget_gc [simp]: "mget (gc_states snap m) k = (if k \<in> live_pids snap then mget m k else None)"
  by (simp add: gc_states_def mget_mfilter_key)

lemma gc_keys: "fst ` set (gc_states snap m) = fst ` set m \<inter> live_pids snap"
  unfolding gc_states_def mfilter_def by (induction m) auto

lemma live_first: "k \<in> live_pids snap \<longleftrightarrow> first_with_pid k (ss_Processes snap) \<noteq> None"
  by (auto simp: live_pids_def first_with_pid_None)

lemma first_with_pid_distinct:
  "distinct (map p_PID ps) \<Longrightarrow> p \<in> set ps \<Longrightarrow> first_with_pid (p_PID p) ps = Some p"
  by (induction ps) (auto simp: image_iff)

text \<open>A name list compared without regard to case.\<close>

definition in_fold_list :: "gostring list \<Rightarrow> gostring \<Rightarrow> bool" where
  "in_fold_list ws name \<longleftrightarrow> to_lower name \<in> to_lower ` set ws"

definition demo_cfg :: Config where
  "demo_cfg = DefaultConfig\<lparr>c_Anomaly := default_anomaly\<lparr>an_IgnoreProcesses := []\<rparr>\<rparr>"

definition empty_sink :: Sink where
  "empty_sink = \<lparr>sk_alerts = NewAlertStore 32, sk_emitter = True, sk_events = [],
     sk_clock = (\<lambda>i. 0), sk_tick = 0\<rparr>"

end
