(* ===== verification/Detectors.thy ===== *)
theory Detectors
  imports Sink Loader
begin

text \<open>
  The detectors of \<^verbatim>\<open>internal/anomaly\<close> that watch load: \<^verbatim>\<open>runaway_cpu.go\<close>, \<^verbatim>\<open>hung_process.go\<close>,
  \<^verbatim>\<open>orphan.go\<close>, \<^verbatim>\<open>port_conflict.go\<close> and \<^verbatim>\<open>memory_leak.go\<close>. Each \<^verbatim>\<open>Analyze\<close> is a function from its state
  and the sink to the new state and sink; the body of its loop is a step of its own, so the
  \<^verbatim>\<open>continue\<close> statements are branches that return early. A snapshot the engine passes on comes from
  \<^verbatim>\<open>Store.Latest\<close>, whose copy turns an empty slice into nil, so "no port bindings" is the empty list.
\<close>

definition new_alert ::
  "gostring \<Rightarrow> gostring \<Rightarrow> gostring \<Rightarrow> gostring \<Rightarrow> pid \<Rightarrow> gostring \<Rightarrow> gostring \<Rightarrow>
   (gostring, anyval) gomap \<Rightarrow> Alert" where
  "new_alert type sev title desc pid name action details =
     zero_alert\<lparr>al_Type := type, al_Severity := sev, al_Title := title, al_Description := desc,
       al_PID := pid, al_ProcessName := name, al_Action := action, al_Details := details\<rparr>"

lemma new_alert_fields [simp]:
  "al_Type (new_alert t sv ti de p n ac ds) = t" "al_PID (new_alert t sv ti de p n ac ds) = p"
  "al_Severity (new_alert t sv ti de p n ac ds) = sv" "al_Cleared (new_alert t sv ti de p n ac ds) = None"
  by (simp_all add: new_alert_def zero_alert_def)

section \<open>Runaway CPU\<close>

definition runaway_skips :: "AnalysisContext \<Rightarrow> ProcessInfo \<Rightarrow> bool" where
  "runaway_skips ctx p \<longleftrightarrow>
     in_fold_list (rc_HighCPUWhitelist (an_RunawayCPU (c_Anomaly (ac_Cfg ctx)))) (p_Name p) \<or>
     isIgnoredProcess (ac_Cfg ctx) (p_Name p)"

definition runaway_alert :: "AnalysisContext \<Rightarrow> ProcessInfo \<Rightarrow> duration \<Rightarrow> Alert" where
  "runaway_alert ctx p dur =
     (let cfg = an_RunawayCPU (c_Anomaly (ac_Cfg ctx));
          sev = (if rc_CriticalDuration cfg \<le> dur then SeverityCritical else SeverityWarning)
      in new_alert ''runaway_cpu'' sev ''Runaway CPU usage''
           (sprintf ''%s (PID %d) at %.0f%% CPU for %s''
              [FStr (p_Name p), FInt (uint (p_PID p)), FF64 (p_CPUPercent p), FDur (dur_truncate dur second)])
           (p_PID p) (p_Name p) (rc_Action cfg)
           [(''cpu_percent'', AF64 (p_CPUPercent p)), (''duration_seconds'', AF64 (dur_seconds dur))])"

definition runaway_step ::
  "AnalysisContext \<Rightarrow> ProcessInfo \<Rightarrow> (pid, gotime) gomap \<times> Sink \<Rightarrow> (pid, gotime) gomap \<times> Sink" where
  "runaway_step ctx p = (\<lambda>(states, sk).
     let cfg = an_RunawayCPU (c_Anomaly (ac_Cfg ctx)) in
     if runaway_skips ctx p then (states, sk)
     else if flt (p_CPUPercent p) (f64_of_int (rc_CPUThreshold cfg))
     then (mdel (p_PID p) states, ClearAlert ''runaway_cpu'' (p_PID p) sk)
     else
       (case mget states (p_PID p) of
          None \<Rightarrow> (mput (p_PID p) (ac_Now ctx) states, sk)
        | Some since \<Rightarrow>
            (let dur = t_sub (ac_Now ctx) since in
             if dur < rc_DurationThreshold cfg then (states, sk)
             else (states, RaiseAlert (runaway_alert ctx p dur) sk))))"

definition runaway_Analyze ::
  "AnalysisContext \<Rightarrow> (pid, gotime) gomap \<times> Sink \<Rightarrow> (pid, gotime) gomap \<times> Sink" where
  "runaway_Analyze ctx = (\<lambda>(states, sk).
     if \<not> rc_Enabled (an_RunawayCPU (c_Anomaly (ac_Cfg ctx))) then (states, sk)
     else
       (let (states, sk) = fold (runaway_step ctx) (ss_Processes (ac_Snapshot ctx)) (states, sk)
        in (gc_states (ac_Snapshot ctx) states, sk)))"

section \<open>Hung processes\<close>

record hungState =
  hs_since :: gotime
  hs_lastIO :: u64
  hs_lastCPUSlice :: f64
  hs_peakCPU :: f64
  hs_baselineIO :: u64
  hs_wasBusy :: bool

definition hungMinPeakCPU :: f64 where "hungMinPeakCPU = Fin 5"
definition hungMinPeakIOByte :: u64 where "hungMinPeakIOByte = 10 * 1024 * 1024"

definition hung_skips :: "AnalysisContext \<Rightarrow> ProcessInfo \<Rightarrow> bool" where
  "hung_skips ctx p \<longleftrightarrow>
     in_fold_list (hp_IdleWhitelist (an_HungProcess (c_Anomaly (ac_Cfg ctx)))) (p_Name p) \<or>
     isIgnoredProcess (ac_Cfg ctx) (p_Name p)"

definition hung_alert :: "AnalysisContext \<Rightarrow> ProcessInfo \<Rightarrow> duration \<Rightarrow> Alert" where
  "hung_alert ctx p idleFor =
     (let cfg = an_HungProcess (c_Anomaly (ac_Cfg ctx));
          sev = (if hp_CriticalHungThreshold cfg \<le> idleFor then SeverityCritical else SeverityWarning)
      in new_alert ''hung_process'' sev ''Hung process detected''
           (sprintf ''%s (PID %d) has been idle for %s''
              [FStr (p_Name p), FInt (uint (p_PID p)), FDur (dur_truncate idleFor second)])
           (p_PID p) (p_Name p) (hp_Action cfg) [(''idle_for_seconds'', AF64 (dur_seconds idleFor))])"

definition hung_step ::
  "AnalysisContext \<Rightarrow> ProcessInfo \<Rightarrow> (pid, hungState) gomap \<times> Sink \<Rightarrow> (pid, hungState) gomap \<times> Sink" where
  "hung_step ctx p = (\<lambda>(states, sk).
     let cfg = an_HungProcess (c_Anomaly (ac_Cfg ctx)) in
     if hung_skips ctx p then (states, sk)
     else
       (let ioSum = p_IOReadBytes p + p_IOWriteBytes p in
        case mget states (p_PID p) of
          None \<Rightarrow>
            (mput (p_PID p) \<lparr>hs_since = ac_Now ctx, hs_lastIO = ioSum, hs_lastCPUSlice = p_CPUPercent p,
               hs_peakCPU = p_CPUPercent p, hs_baselineIO = ioSum, hs_wasBusy = False\<rparr> states, sk)
        | Some st \<Rightarrow>
            (let st = (if flt (hs_peakCPU st) (p_CPUPercent p) then st\<lparr>hs_peakCPU := p_CPUPercent p\<rparr> else st);
                 busy = (flt (Fin (1 / 2)) (p_CPUPercent p) \<or> ioSum \<noteq> hs_lastIO st)
             in if busy then
                  (mput (p_PID p) (st\<lparr>hs_since := ac_Now ctx, hs_lastIO := ioSum,
                     hs_lastCPUSlice := p_CPUPercent p, hs_wasBusy := True\<rparr>) states,
                   ClearAlert ''hung_process'' (p_PID p) sk)
                else
                  (let states = mput (p_PID p) st states; idleFor = t_sub (ac_Now ctx) (hs_since st) in
                   if idleFor < hp_ZeroActivityThreshold cfg then (states, sk)
                   else if \<not> hs_wasBusy st \<and> flt (hs_peakCPU st) hungMinPeakCPU \<and>
                           ioSum - hs_baselineIO st < hungMinPeakIOByte then (states, sk)
                   else (states, RaiseAlert (hung_alert ctx p idleFor) sk)))))"

definition hung_Analyze ::
  "AnalysisContext \<Rightarrow> (pid, hungState) gomap \<times> Sink \<Rightarrow> (pid, hungState) gomap \<times> Sink" where
  "hung_Analyze ctx = (\<lambda>(states, sk).
     if \<not> hp_Enabled (an_HungProcess (c_Anomaly (ac_Cfg ctx))) then (states, sk)
     else
       (let (states, sk) = fold (hung_step ctx) (ss_Processes (ac_Snapshot ctx)) (states, sk)
        in (gc_states (ac_Snapshot ctx) states, sk)))"

section \<open>Orphans\<close>

definition orphanMinCPUPercent :: f64 where "orphanMinCPUPercent = Fin 10"
definition orphanMinMemBytes :: u64 where "orphanMinMemBytes = 1073741824"

definition orphan_hit :: "AnalysisContext \<Rightarrow> ProcessInfo \<Rightarrow> bool" where
  "orphan_hit ctx p =
     (let cfg = an_Orphan (c_Anomaly (ac_Cfg ctx));
          mem = ParseSize (or_ResourceThresholdMemory cfg);
          memThresh = (if mem < orphanMinMemBytes then orphanMinMemBytes else mem);
          cpu = f64_of_int (or_ResourceThresholdCPU cfg);
          cpuThresh = (if flt cpu orphanMinCPUPercent then orphanMinCPUPercent else cpu)
      in p_ParentPID p \<noteq> 0 \<and> p_ParentPID p \<notin> live_pids (ac_Snapshot ctx) \<and>
         \<not> isIgnoredProcess (ac_Cfg ctx) (p_Name p) \<and>
         \<not> (flt (p_CPUPercent p) cpuThresh \<and> p_WorkingSet p < memThresh))"

definition orphan_alert :: "AnalysisContext \<Rightarrow> ProcessInfo \<Rightarrow> Alert" where
  "orphan_alert ctx p =
     new_alert ''orphan'' SeverityInfo ''Orphan process''
       (sprintf ''%s (PID %d) parent %d is gone''
          [FStr (p_Name p), FInt (uint (p_PID p)), FInt (uint (p_ParentPID p))])
       (p_PID p) (p_Name p) (or_Action (an_Orphan (c_Anomaly (ac_Cfg ctx))))
       [(''parent_pid'', AInt (uint (p_ParentPID p))), (''cpu_percent'', AF64 (p_CPUPercent p)),
        (''working_set'', AInt (uint (p_WorkingSet p)))]"

definition orphan_Analyze :: "AnalysisContext \<Rightarrow> Sink \<Rightarrow> Sink" where
  "orphan_Analyze ctx sk =
     (if \<not> or_Enabled (an_Orphan (c_Anomaly (ac_Cfg ctx))) then sk
      else fold (\<lambda>p sk. if orphan_hit ctx p then RaiseAlert (orphan_alert ctx p) sk else sk)
             (ss_Processes (ac_Snapshot ctx)) sk)"

section \<open>Stuck TCP states\<close>

definition stuck_threshold :: "PortConflictConfig \<Rightarrow> gostring \<Rightarrow> duration option" where
  "stuck_threshold cfg state =
     (if state = ''time-wait'' then Some (pc_TimeWaitThreshold cfg)
      else if state = ''close-wait'' then Some (pc_CloseWaitThreshold cfg)
      else None)"

definition port_step :: "AnalysisContext \<Rightarrow> PortBinding \<Rightarrow> Sink \<Rightarrow> Sink" where
  "port_step ctx pb sk =
     (let cfg = an_PortConflict (c_Anomaly (ac_Cfg ctx)) in
      case stuck_threshold cfg (pb_State pb) of
        None \<Rightarrow> sk
      | Some threshold \<Rightarrow>
          (let age = dur_mul (wrap64 (t_unix (ac_Now ctx) - pb_Since pb)) second in
           if age < threshold then sk
           else RaiseAlert
             (new_alert ''port_conflict'' SeverityWarning ''Stuck TCP state''
                (sprintf ''%s on %s:%d held %s for %s''
                   [FStr (pb_Process pb), FStr (pb_LocalAddr pb), FInt (uint (pb_LocalPort pb)),
                    FStr (pb_State pb), FDur age])
                (pb_PID pb) (pb_Process pb) (pc_Action cfg)
                [(''protocol'', AStr (pb_Protocol pb)), (''local_port'', AInt (uint (pb_LocalPort pb))),
                 (''state'', AStr (pb_State pb)), (''age_seconds'', AF64 (dur_seconds age))]) sk))"

definition port_Analyze :: "AnalysisContext \<Rightarrow> Sink \<Rightarrow> Sink" where
  "port_Analyze ctx sk =
     (if \<not> pc_Enabled (an_PortConflict (c_Anomaly (ac_Cfg ctx))) then sk
      else fold (port_step ctx) (ss_PortBindings (ac_Snapshot ctx)) sk)"

section \<open>Memory leaks\<close>

definition leak_points :: "AnalysisContext \<Rightarrow> ProcessInfo \<Rightarrow> ProcessSample list" where
  "leak_points ctx p =
     filter (\<lambda>s. \<not> t_before (sa_Time s)
               (t_add (ac_Now ctx) (wrap64 (- ml_Window (an_MemoryLeak (c_Anomaly (ac_Cfg ctx)))))))
       (ProcessHistory (p_PID p) (ac_Store ctx))"

definition leak_fit :: "AnalysisContext \<Rightarrow> ProcessInfo \<Rightarrow> f64 \<times> f64 \<times> f64" where
  "leak_fit ctx p =
     LinearRegression (map (\<lambda>s. f64_of_int (t_unix (sa_Time s))) (leak_points ctx p))
       (map (\<lambda>s. f64_of_u64 (sa_WorkingSet s)) (leak_points ctx p))"

definition leak_step :: "AnalysisContext \<Rightarrow> u64 \<Rightarrow> u64 \<Rightarrow> ProcessInfo \<Rightarrow> Sink \<Rightarrow> Sink" where
  "leak_step ctx growthBps memThresh p sk =
     (let cfg = an_MemoryLeak (c_Anomaly (ac_Cfg ctx)) in
      if isIgnoredProcess (ac_Cfg ctx) (p_Name p) then sk
      else if length (ProcessHistory (p_PID p) (ac_Store ctx)) < 5 then sk
      else if length (leak_points ctx p) < 5 then sk
      else
        (let (slope, _, r2) = leak_fit ctx p in
         if flt r2 (ml_MinRSquared cfg) then sk
         else
           (let growthPerMin = fmul slope (Fin 60) in
            if flt growthPerMin (f64_of_u64 growthBps) then sk
            else if p_WorkingSet p < memThresh then sk
            else RaiseAlert
              (new_alert ''memory_leak'' SeverityWarning ''Memory leak suspected''
                 (sprintf (''%s (PID %d) growing %.1f MB/min (R'' @ [CHR 0xC2, CHR 0xB2] @ ''=%.2f)'')
                    [FStr (p_Name p), FInt (uint (p_PID p)), FF64 (fdiv growthPerMin (Fin 1048576)), FF64 r2])
                 (p_PID p) (p_Name p) (ml_Action cfg)
                 [(''growth_bytes_per_min'', AF64 growthPerMin), (''r_squared'', AF64 r2),
                  (''working_set'', AInt (uint (p_WorkingSet p)))]) sk)))"

definition leak_Analyze :: "AnalysisContext \<Rightarrow> Sink \<Rightarrow> Sink" where
  "leak_Analyze ctx sk =
     (let cfg = an_MemoryLeak (c_Anomaly (ac_Cfg ctx)) in
      if \<not> ml_Enabled cfg then sk
      else
        (let growthBps = ParseSize (ml_MinGrowthRate cfg); memThresh = ParseSize (ml_MemoryThreshold cfg) in
         if growthBps = 0 \<or> memThresh = 0 then sk
         else fold (leak_step ctx growthBps memThresh) (ss_Processes (ac_Snapshot ctx)) sk))"

section \<open>Every detector keeps what raising and clearing keep\<close>

context sink_invariant begin

lemma fold_sink_keeps: "(\<And>x s. I s \<Longrightarrow> I (f x s)) \<Longrightarrow> I s \<Longrightarrow> I (fold f xs s)"
  by (induction xs arbitrary: s) simp_all

lemma runaway_step_keeps: "I s \<Longrightarrow> I (snd (runaway_step ctx p (m, s)))"
  by (simp add: runaway_step_def Let_def raise_keeps clear_keeps split: option.splits)

lemma runaway_keeps: "I s \<Longrightarrow> I (snd (runaway_Analyze ctx (m, s)))"
  using fold_keeps [of "runaway_step ctx" s "ss_Processes (ac_Snapshot ctx)" m] runaway_step_keeps
  by (simp add: runaway_Analyze_def split_beta)

lemma hung_step_keeps: "I s \<Longrightarrow> I (snd (hung_step ctx p (m, s)))"
  by (simp add: hung_step_def Let_def raise_keeps clear_keeps split: option.splits)

lemma hung_keeps: "I s \<Longrightarrow> I (snd (hung_Analyze ctx (m, s)))"
  using fold_keeps [of "hung_step ctx" s "ss_Processes (ac_Snapshot ctx)" m] hung_step_keeps
  by (simp add: hung_Analyze_def split_beta)

lemma orphan_keeps: "I s \<Longrightarrow> I (orphan_Analyze ctx s)"
  by (simp add: orphan_Analyze_def fold_sink_keeps raise_keeps)

lemma port_step_keeps: "I s \<Longrightarrow> I (port_step ctx pb s)"
  by (simp add: port_step_def Let_def raise_keeps split: option.splits)

lemma port_keeps: "I s \<Longrightarrow> I (port_Analyze ctx s)"
  by (simp add: port_Analyze_def fold_sink_keeps port_step_keeps)

lemma leak_step_keeps: "I s \<Longrightarrow> I (leak_step ctx g t p s)"
  by (simp add: leak_step_def Let_def raise_keeps split_beta)

lemma leak_keeps: "I s \<Longrightarrow> I (leak_Analyze ctx s)"
  by (simp add: leak_Analyze_def Let_def fold_sink_keeps leak_step_keeps)

end

section \<open>A runaway alert means sustained load\<close>

definition runaway_below :: "AnalysisContext \<Rightarrow> ProcessInfo \<Rightarrow> bool" where
  "runaway_below ctx p \<longleftrightarrow>
     flt (p_CPUPercent p) (f64_of_int (rc_CPUThreshold (an_RunawayCPU (c_Anomaly (ac_Cfg ctx)))))"

definition runaway_next :: "AnalysisContext \<Rightarrow> ProcessInfo \<Rightarrow> gotime option \<Rightarrow> gotime option" where
  "runaway_next ctx p v =
     (if runaway_skips ctx p then v
      else if runaway_below ctx p then None
      else (case v of None \<Rightarrow> Some (ac_Now ctx) | Some t \<Rightarrow> Some t))"

interpretation runaway: keyed_pass p_PID "runaway_step ctx" "runaway_next ctx" for ctx
  by unfold_locales (auto simp: runaway_step_def runaway_next_def runaway_below_def Let_def split: option.splits)

text \<open>
  In a tick, process \<open>k\<close> gives no reason to forget it: the detector is off, or the process is there
  and is exempt or at the threshold.
\<close>

definition runaway_held :: "pid \<Rightarrow> AnalysisContext \<Rightarrow> bool" where
  "runaway_held k ctx \<longleftrightarrow>
     \<not> rc_Enabled (an_RunawayCPU (c_Anomaly (ac_Cfg ctx))) \<or>
     (case first_with_pid k (ss_Processes (ac_Snapshot ctx)) of
        None \<Rightarrow> False
      | Some p \<Rightarrow> runaway_skips ctx p \<or> \<not> runaway_below ctx p)"

definition unique_pids :: "AnalysisContext \<Rightarrow> bool" where
  "unique_pids ctx \<longleftrightarrow> distinct (map p_PID (ss_Processes (ac_Snapshot ctx)))"

lemma runaway_state:
  assumes "unique_pids ctx" and "mget (fst (runaway_Analyze ctx (m, sk))) k = Some t"
  shows "runaway_held k ctx \<and> (mget m k = Some t \<or> ac_Now ctx = t)"
proof (cases "rc_Enabled (an_RunawayCPU (c_Anomaly (ac_Cfg ctx)))")
  case True
  let ?ps = "ss_Processes (ac_Snapshot ctx)"
  have *: "mget (fst (fold (runaway_step ctx) ?ps (m, sk))) k =
      (case first_with_pid k ?ps of None \<Rightarrow> mget m k | Some p \<Rightarrow> runaway_next ctx p (mget m k))"
    using assms(1) runaway.fold_next [of ?ps x m sk k for x] by (simp add: unique_pids_def)
  from assms(2) True have "mget (gc_states (ac_Snapshot ctx) (fst (fold (runaway_step ctx) ?ps (m, sk)))) k = Some t"
    by (simp add: runaway_Analyze_def split_beta)
  then have l: "first_with_pid k ?ps \<noteq> None" and
    f: "mget (fst (fold (runaway_step ctx) ?ps (m, sk))) k = Some t"
    by (auto simp: live_first split: if_splits)
  then show ?thesis using * True
    by (auto simp: runaway_held_def runaway_next_def split: option.splits if_splits)
qed (use assms in \<open>simp add: runaway_Analyze_def runaway_held_def\<close>)

lemma runaway_history:
  assumes "list_all unique_pids ctxs"
    and "mget (fst (fold runaway_Analyze ctxs ([], sk0))) k = Some t"
  shows "\<exists>pre c post. ctxs = pre @ c # post \<and> ac_Now c = t \<and> list_all (runaway_held k) (c # post)"
  using assms
proof (induction ctxs rule: rev_induct)
  case (snoc x xs)
  obtain m sk where ms: "fold runaway_Analyze xs ([], sk0) = (m, sk)" by fastforce
  have x: "runaway_held k x \<and> (mget m k = Some t \<or> ac_Now x = t)"
    using snoc.prems ms by (intro runaway_state [of x m sk]) simp_all
  show ?case
  proof (cases "ac_Now x = t")
    case True
    then show ?thesis using x by (intro exI [of _ xs] exI [of _ x] exI [of _ "[]"]) simp
  next
    case False
    then have "mget (fst (fold runaway_Analyze xs ([], sk0))) k = Some t" using x ms by simp
    then obtain pre c post where "xs = pre @ c # post" "ac_Now c = t" "list_all (runaway_held k) (c # post)"
      using snoc by auto
    then show ?thesis using x by (intro exI [of _ pre] exI [of _ c] exI [of _ "post @ [x]"]) simp
  qed
qed simp

text \<open>What an event of this tick says, in terms of the state before it.\<close>

definition runaway_event_ok :: "AnalysisContext \<Rightarrow> (pid, gotime) gomap \<Rightarrow> alert_event \<Rightarrow> bool" where
  "runaway_event_ok ctx m ev =
     (case ev of
        EvCleared t p \<Rightarrow> True
      | EvRaised a \<Rightarrow>
          (case mget m (al_PID a) of
             None \<Rightarrow> False
           | Some t \<Rightarrow>
               (let cfg = an_RunawayCPU (c_Anomaly (ac_Cfg ctx)); dur = t_sub (ac_Now ctx) t in
                al_Type a = ''runaway_cpu'' \<and> rc_DurationThreshold cfg \<le> dur \<and>
                al_Severity a = (if rc_CriticalDuration cfg \<le> dur then SeverityCritical else SeverityWarning) \<and>
                runaway_held (al_PID a) ctx)))"

definition extends_with :: "(alert_event \<Rightarrow> bool) \<Rightarrow> Sink \<Rightarrow> Sink \<Rightarrow> bool" where
  "extends_with P sk sk' \<longleftrightarrow> (\<exists>new. sk_events sk' = sk_events sk @ new \<and> list_all P new)"

lemma extends_refl [simp]: "extends_with P sk sk"
  by (simp add: extends_with_def)

lemma extends_RaiseAlert:
  assumes "extends_with P sk s"
    and "\<And>r. al_Type r = al_Type a \<Longrightarrow> al_PID r = al_PID a \<Longrightarrow> al_Severity r = al_Severity a \<Longrightarrow> P (EvRaised r)"
  shows "extends_with P sk (RaiseAlert a s)"
proof -
  obtain new where n: "sk_events s = sk_events sk @ new" "list_all P new"
    using assms(1) by (auto simp: extends_with_def)
  from RaiseAlert_events [of a s] show ?thesis
  proof
    assume "\<exists>r. sk_events (RaiseAlert a s) = sk_events s @ [EvRaised r] \<and> al_Type r = al_Type a \<and>
      al_PID r = al_PID a \<and> al_Severity r = al_Severity a"
    then obtain r where "sk_events (RaiseAlert a s) = sk_events sk @ (new @ [EvRaised r])" "P (EvRaised r)"
      using n assms(2) by auto
    then show ?thesis using n by (auto simp: extends_with_def)
  qed (use assms(1) in \<open>simp add: extends_with_def\<close>)
qed

lemma extends_ClearAlert: "extends_with P sk s \<Longrightarrow> P (EvCleared t p) \<Longrightarrow> extends_with P sk (ClearAlert t p s)"
  unfolding extends_with_def ClearAlert_events
proof (elim exE conjE)
  fix new assume "P (EvCleared t p)" "sk_events s = sk_events sk @ new" "list_all P new"
  then show "\<exists>new. sk_events s @ (if sk_emitter s then [EvCleared t p] else []) = sk_events sk @ new \<and> list_all P new"
    by (intro exI [of _ "new @ (if sk_emitter s then [EvCleared t p] else [])"]) simp
qed

lemma runaway_tick:
  assumes "unique_pids ctx"
  shows "extends_with (runaway_event_ok ctx m) sk (snd (runaway_Analyze ctx (m, sk)))"
proof (cases "rc_Enabled (an_RunawayCPU (c_Anomaly (ac_Cfg ctx)))")
  case True
  let ?ps = "ss_Processes (ac_Snapshot ctx)"
  have d: "distinct (map p_PID ?ps)" using assms by (simp add: unique_pids_def)
  have "extends_with (runaway_event_ok ctx m) sk (snd (fold (runaway_step ctx) ?ps (m, sk)))"
  proof (rule runaway.fold_sink [OF d])
    fix p m' s
    assume p: "p \<in> set ?ps" and m': "mget m' (p_PID p) = mget m (p_PID p)"
      and s: "extends_with (runaway_event_ok ctx m) sk s"
    have "first_with_pid (p_PID p) ?ps = Some p" by (rule first_with_pid_distinct [OF d p])
    then have ok: "runaway_event_ok ctx m (EvRaised r)"
      if "\<not> runaway_skips ctx p" "\<not> runaway_below ctx p" "mget m (p_PID p) = Some t"
        "rc_DurationThreshold (an_RunawayCPU (c_Anomaly (ac_Cfg ctx))) \<le> t_sub (ac_Now ctx) t"
        "al_Type r = ''runaway_cpu''" "al_PID r = p_PID p"
        "al_Severity r = al_Severity (runaway_alert ctx p (t_sub (ac_Now ctx) t))" for r t
      using that by (simp add: runaway_event_ok_def runaway_held_def runaway_alert_def Let_def)
    show "extends_with (runaway_event_ok ctx m) sk (snd (runaway_step ctx p (m', s)))"
      using s m' ok
      by (auto simp: runaway_step_def Let_def runaway_below_def runaway_event_ok_def [of ctx m "EvCleared _ _"]
          runaway_alert_def [of ctx p] split: option.splits intro!: extends_ClearAlert extends_RaiseAlert)
  qed simp
  with True show ?thesis by (simp add: runaway_Analyze_def split_beta)
qed (simp add: runaway_Analyze_def)

text \<open>
  A runaway-CPU alert is never raised out of the blue. In any run of ticks over snapshots that list
  each process once, an alert raised in a tick is about a process that has been present and at the
  threshold (or exempt) in every tick with the detector on since an earlier tick, which lies at least
  the duration threshold back; it is critical exactly when that tick lies the critical duration back.
\<close>

theorem runaway_alert_sustained:
  assumes "list_all unique_pids (ctxs @ [ctx])" and "fold runaway_Analyze ctxs ([], sk0) = (m, sk)"
    and "EvRaised a \<in> set (drop (length (sk_events sk)) (sk_events (snd (runaway_Analyze ctx (m, sk)))))"
  shows "\<exists>pre c post. ctxs = pre @ c # post \<and> list_all (runaway_held (al_PID a)) (c # post @ [ctx]) \<and>
    (let cfg = an_RunawayCPU (c_Anomaly (ac_Cfg ctx)); dur = t_sub (ac_Now ctx) (ac_Now c) in
     al_Type a = ''runaway_cpu'' \<and> rc_DurationThreshold cfg \<le> dur \<and>
     al_Severity a = (if rc_CriticalDuration cfg \<le> dur then SeverityCritical else SeverityWarning))"
proof -
  have "unique_pids ctx" "list_all unique_pids ctxs" using assms(1) by simp_all
  from runaway_tick [OF this(1), of m sk] assms(3) have "runaway_event_ok ctx m (EvRaised a)"
    by (auto simp: extends_with_def list_all_iff)
  then obtain t where t: "mget m (al_PID a) = Some t" and
    e: "let cfg = an_RunawayCPU (c_Anomaly (ac_Cfg ctx)); dur = t_sub (ac_Now ctx) t in
        al_Type a = ''runaway_cpu'' \<and> rc_DurationThreshold cfg \<le> dur \<and>
        al_Severity a = (if rc_CriticalDuration cfg \<le> dur then SeverityCritical else SeverityWarning) \<and>
        runaway_held (al_PID a) ctx"
    by (auto simp: runaway_event_ok_def split: option.splits)
  obtain pre c post where "ctxs = pre @ c # post" "ac_Now c = t" "list_all (runaway_held (al_PID a)) (c # post)"
    using runaway_history [OF \<open>list_all unique_pids ctxs\<close>, of sk0 "al_PID a" t] t assms(2) by auto
  with e show ?thesis by (intro exI [of _ pre] exI [of _ c] exI [of _ post]) (simp add: Let_def)
qed

definition demo_ctx :: "gotime \<Rightarrow> ProcessInfo list \<Rightarrow> AnalysisContext" where
  "demo_ctx now ps = \<lparr>ac_Now = now, ac_Snapshot = zero_snapshot\<lparr>ss_Processes := ps\<rparr>, ac_Store = NewStore 60 10,
     ac_Cfg = demo_cfg\<rparr>"

definition busy_proc :: ProcessInfo where
  "busy_proc = zero_proc\<lparr>p_PID := 7, p_Name := ''spin.exe'', p_CPUPercent := Fin 95\<rparr>"

lemma demo_runaway_cfg:
  "an_RunawayCPU (c_Anomaly demo_cfg) = \<lparr>rc_Enabled = True, rc_CPUThreshold = 90,
     rc_DurationThreshold = 60 * second, rc_CriticalDuration = 180 * second, rc_HighCPUWhitelist = [],
     rc_Action = ''alert''\<rparr>"
  by (simp add: demo_cfg_def DefaultConfig_def default_anomaly_def)

lemma demo_not_ignored [simp]: "\<not> isIgnoredProcess demo_cfg n"
  by (simp add: isIgnoredProcess_def demo_cfg_def)

lemma RaiseAlert_empty:
  "sk_events (RaiseAlert a empty_sink) = [EvRaised (a\<lparr>al_ID := alertKey (al_Type a) (al_PID a), al_Detected := 0\<rparr>)]"
  by (simp add: RaiseAlert_def empty_sink_def Raise_def raise_unsnoozed_def NewAlertStore_def emit_event_def Let_def)

lemma demo_runaway_first: "runaway_Analyze (demo_ctx 0 [busy_proc]) ([], empty_sink) = ([(7, 0)], empty_sink)"
  by (simp add: runaway_Analyze_def demo_ctx_def demo_runaway_cfg runaway_step_def runaway_skips_def in_fold_list_def
      busy_proc_def zero_proc_def f64_of_int_def rnd_numeral gc_states_def mfilter_def live_pids_def Let_def)

lemma demo_runaway_second:
  "runaway_Analyze (demo_ctx (61 * second) [busy_proc]) ([(7, 0)], empty_sink) =
     ([(7, 0)], RaiseAlert (runaway_alert (demo_ctx (61 * second) [busy_proc]) busy_proc (61 * second)) empty_sink)"
  by (simp add: runaway_Analyze_def demo_ctx_def demo_runaway_cfg runaway_step_def runaway_skips_def in_fold_list_def
      busy_proc_def zero_proc_def f64_of_int_def rnd_numeral gc_states_def mfilter_def live_pids_def Let_def
      t_sub_def sat64_def i64_min_def i64_max_def second_def)

theorem runaway_alert_sustained_witness:
  "\<exists>a. EvRaised a \<in> set (sk_events (snd (fold runaway_Analyze
       [demo_ctx 0 [busy_proc], demo_ctx (61 * second) [busy_proc]] ([], empty_sink)))) \<and>
     al_Severity a = SeverityWarning"
proof -
  let ?c = "demo_ctx (61 * second) [busy_proc]"
  let ?r = "(runaway_alert ?c busy_proc (61 * second))\<lparr>al_ID := alertKey ''runaway_cpu'' 7, al_Detected := 0\<rparr>"
  have f: "fold runaway_Analyze [demo_ctx 0 [busy_proc]] ([], empty_sink) = ([(7, 0)], empty_sink)"
    by (simp add: demo_runaway_first)
  have u: "list_all unique_pids ([demo_ctx 0 [busy_proc]] @ [?c])"
    by (simp add: unique_pids_def demo_ctx_def)
  have ev: "sk_events (snd (runaway_Analyze ?c ([(7, 0)], empty_sink))) = [EvRaised ?r]"
    unfolding demo_runaway_second snd_conv RaiseAlert_empty
    by (simp add: runaway_alert_def Let_def) (simp add: busy_proc_def)
  then have "EvRaised ?r \<in> set (drop (length (sk_events empty_sink))
      (sk_events (snd (runaway_Analyze ?c ([(7, 0)], empty_sink)))))"
    by (simp add: empty_sink_def)
  from runaway_alert_sustained [OF u f this] have "al_Severity ?r = SeverityWarning"
    by (auto simp: Cons_eq_append_conv Let_def demo_ctx_def demo_runaway_cfg t_sub_def sat64_def i64_min_def
        i64_max_def second_def)
  with ev f show ?thesis by (intro exI [of _ ?r]) simp
qed

section \<open>The activity gate of the hung detector\<close>

text \<open>
  A state that has never been busy is the state of the first sighting: the same IO count, and a CPU
  peak that is the first sample or below the busy threshold. So the second half of the gate, the
  cumulative IO, can never be what lets an alert through.
\<close>

definition hung_state_ok :: "hungState \<Rightarrow> bool" where
  "hung_state_ok st \<longleftrightarrow> hs_wasBusy st \<or> hs_lastIO st = hs_baselineIO st"

definition hung_next :: "AnalysisContext \<Rightarrow> ProcessInfo \<Rightarrow> hungState option \<Rightarrow> hungState option" where
  "hung_next ctx p v =
     (if hung_skips ctx p then v
      else
        (let ioSum = p_IOReadBytes p + p_IOWriteBytes p in
         case v of
           None \<Rightarrow> Some \<lparr>hs_since = ac_Now ctx, hs_lastIO = ioSum, hs_lastCPUSlice = p_CPUPercent p,
               hs_peakCPU = p_CPUPercent p, hs_baselineIO = ioSum, hs_wasBusy = False\<rparr>
         | Some st \<Rightarrow>
            (let st = (if flt (hs_peakCPU st) (p_CPUPercent p) then st\<lparr>hs_peakCPU := p_CPUPercent p\<rparr> else st) in
             if flt (Fin (1 / 2)) (p_CPUPercent p) \<or> ioSum \<noteq> hs_lastIO st
             then Some (st\<lparr>hs_since := ac_Now ctx, hs_lastIO := ioSum, hs_lastCPUSlice := p_CPUPercent p,
                    hs_wasBusy := True\<rparr>)
             else Some st)))"

interpretation hung: keyed_pass p_PID "hung_step ctx" "hung_next ctx" for ctx
  by unfold_locales (auto simp: hung_step_def hung_next_def Let_def split: option.splits)

lemma hung_next_ok:
  "(\<And>st. v = Some st \<Longrightarrow> hung_state_ok st) \<Longrightarrow> hung_next ctx p v = Some st' \<Longrightarrow> hung_state_ok st'"
  by (auto simp: hung_next_def hung_state_ok_def Let_def split: option.splits if_splits)

definition hung_states_ok :: "(pid, hungState) gomap \<Rightarrow> bool" where
  "hung_states_ok m \<longleftrightarrow> (\<forall>k st. mget m k = Some st \<longrightarrow> hung_state_ok st)"

lemma hung_fold_ok: "hung_states_ok m \<Longrightarrow> hung_states_ok (fst (fold (hung_step ctx) ps (m, sk)))"
proof (induction ps arbitrary: m sk)
  case (Cons p ps)
  obtain m' sk' where st: "hung_step ctx p (m, sk) = (m', sk')" by fastforce
  have "hung_states_ok m'"
    unfolding hung_states_ok_def
  proof (intro allI impI)
    fix k st' assume "mget m' k = Some st'"
    then show "hung_state_ok st'"
      using hung.step_next [of ctx p m sk k] st Cons.prems hung_next_ok [of "mget m k" ctx p st']
      by (auto simp: hung_states_ok_def split: if_splits)
  qed
  then show ?case using Cons.IH st by simp
qed simp

lemma hung_Analyze_ok: "hung_states_ok m \<Longrightarrow> hung_states_ok (fst (hung_Analyze ctx (m, sk)))"
  using hung_fold_ok [of m ctx "ss_Processes (ac_Snapshot ctx)" sk]
  by (auto simp: hung_Analyze_def hung_states_ok_def split_beta)

lemma hung_run_ok: "hung_states_ok (fst (fold hung_Analyze ctxs ([], sk)))"
proof -
  have "hung_states_ok m \<Longrightarrow> hung_states_ok (fst (fold hung_Analyze ctxs (m, sk)))" for m sk
  proof (induction ctxs arbitrary: m sk)
    case (Cons c cs)
    then show ?case using hung_Analyze_ok [OF Cons.prems, of c sk]
      by (cases "hung_Analyze c (m, sk)") simp
  qed simp
  from this [of "[]" sk] show ?thesis by (simp add: hung_states_ok_def)
qed

text \<open>
  The gate against daemons reduces to one bit. In every state a run can reach, a process idle past
  the threshold raises an alert exactly when it was busy once (any CPU sample over half a percent or
  any change of its IO count) or its CPU peak is at least 5 percent: the 10 MB of IO the gate also asks
  for plays no part, and one busy sample, however small, lets the alert through.
\<close>

theorem hung_gate_is_busy_bit:
  assumes "fold hung_Analyze ctxs ([], sk0) = (m, sk)" and "mget m (p_PID p) = Some st"
    and "\<not> hung_skips ctx p" and "\<not> flt (Fin (1 / 2)) (p_CPUPercent p)"
    and "p_IOReadBytes p + p_IOWriteBytes p = hs_lastIO st"
    and "\<not> flt (hs_peakCPU st) (p_CPUPercent p)"
    and "hp_ZeroActivityThreshold (an_HungProcess (c_Anomaly (ac_Cfg ctx))) \<le> t_sub (ac_Now ctx) (hs_since st)"
  shows "snd (hung_step ctx p (m, sk)) =
    (if hs_wasBusy st \<or> \<not> flt (hs_peakCPU st) hungMinPeakCPU
     then RaiseAlert (hung_alert ctx p (t_sub (ac_Now ctx) (hs_since st))) sk else sk)"
proof -
  have "hung_state_ok st" using hung_run_ok [of ctxs sk0] assms(1,2) by (auto simp: hung_states_ok_def)
  then have "\<not> hs_wasBusy st \<Longrightarrow> hs_lastIO st - hs_baselineIO st < hungMinPeakIOByte"
    by (simp add: hung_state_ok_def hungMinPeakIOByte_def)
  then show ?thesis using assms by (auto simp: hung_step_def Let_def)
qed

definition hung_cfg :: Config where
  "hung_cfg = demo_cfg\<lparr>c_Anomaly := (c_Anomaly demo_cfg)\<lparr>an_HungProcess := \<lparr>hp_Enabled = True,
     hp_ZeroActivityThreshold = 120 * second, hp_CriticalHungThreshold = 300 * second,
     hp_IdleWhitelist = [], hp_Action = ''alert''\<rparr>\<rparr>\<rparr>"

definition daemon_proc :: "u64 \<Rightarrow> ProcessInfo" where
  "daemon_proc io = zero_proc\<lparr>p_PID := 9, p_Name := ''daemon.exe'', p_IOReadBytes := io\<rparr>"

definition hung_ctx :: "gotime \<Rightarrow> u64 \<Rightarrow> AnalysisContext" where
  "hung_ctx now io = (demo_ctx now [daemon_proc io])\<lparr>ac_Cfg := hung_cfg\<rparr>"

lemma hung_cfg_fields: "an_HungProcess (c_Anomaly hung_cfg) = \<lparr>hp_Enabled = True,
     hp_ZeroActivityThreshold = 120 * second, hp_CriticalHungThreshold = 300 * second,
     hp_IdleWhitelist = [], hp_Action = ''alert''\<rparr>" "\<not> isIgnoredProcess hung_cfg n"
  by (simp_all add: hung_cfg_def isIgnoredProcess_def demo_cfg_def)

definition daemon_state :: hungState where
  "daemon_state = \<lparr>hs_since = second, hs_lastIO = 1, hs_lastCPUSlice = Fin 0, hs_peakCPU = Fin 0,
     hs_baselineIO = 0, hs_wasBusy = True\<rparr>"

lemma daemon_run:
  "mget (fst (fold hung_Analyze [hung_ctx 0 0, hung_ctx second 1] ([], empty_sink))) 9 = Some daemon_state"
  by (simp add: hung_Analyze_def hung_ctx_def demo_ctx_def hung_cfg_fields hung_step_def hung_skips_def
      in_fold_list_def daemon_proc_def zero_proc_def gc_states_def mfilter_def live_pids_def Let_def split_beta
      daemon_state_def)

text \<open>A daemon that read one byte in its life is reported as hung two minutes later.\<close>

theorem hung_gate_is_busy_bit_witness:
  "\<exists>m sk. fold hung_Analyze [hung_ctx 0 0, hung_ctx second 1] ([], empty_sink) = (m, sk) \<and>
     snd (hung_step (hung_ctx (200 * second) 1) (daemon_proc 1) (m, sk)) =
       RaiseAlert (hung_alert (hung_ctx (200 * second) 1) (daemon_proc 1) (199 * second)) sk"
proof -
  obtain m sk where f: "fold hung_Analyze [hung_ctx 0 0, hung_ctx second 1] ([], empty_sink) = (m, sk)"
    by fastforce
  have m: "mget m (p_PID (daemon_proc 1)) = Some daemon_state"
    using daemon_run f by (simp add: daemon_proc_def)
  have t: "t_sub (ac_Now (hung_ctx (200 * second) 1)) (hs_since daemon_state) = 199 * second"
    by (simp add: hung_ctx_def demo_ctx_def daemon_state_def t_sub_def sat64_def i64_min_def i64_max_def second_def)
  show ?thesis
    using hung_gate_is_busy_bit [OF f m, of "hung_ctx (200 * second) 1"] f unfolding t
    by (simp add: hung_skips_def in_fold_list_def hung_ctx_def demo_ctx_def hung_cfg_fields daemon_proc_def
        zero_proc_def daemon_state_def second_def)
qed

end
