(* ===== verification/Activity.thy ===== *)
theory Activity
  imports Detectors
begin

text \<open>
  The detectors of \<^verbatim>\<open>internal/anomaly\<close> that watch what appears: \<^verbatim>\<open>new_process.go\<close>,
  \<^verbatim>\<open>spawn_storm.go\<close> and \<^verbatim>\<open>network.go\<close>. Where the code ranges over a map it has itself filled, the
  visiting order is an argument \<open>ord\<close>, any rearrangement of the entries. The environment variables of
  the process are a function.
\<close>

section \<open>Suspicious paths\<close>

definition shell_special :: "char \<Rightarrow> bool" where
  "shell_special c \<longleftrightarrow> c \<in> set ''*#$@!?-'' \<or> digit_val c \<noteq> None"

definition alpha_num :: "char \<Rightarrow> bool" where
  "alpha_num c \<longleftrightarrow> c = CHR ''_'' \<or> digit_val c \<noteq> None \<or>
     (let n = byte_val (lower_byte c) in 97 \<le> n \<and> n \<le> 122)"

text \<open>\<^verbatim>\<open>getShellName\<close> of package os: the variable named after a dollar sign and the bytes it takes.\<close>

definition shell_name :: "gostring \<Rightarrow> gostring \<times> nat" where
  "shell_name s =
     (case s of
        [] \<Rightarrow> ([], 0)
      | c # r \<Rightarrow>
          if c = CHR ''{'' then
            (if 2 < length s \<and> shell_special (s ! 1) \<and> s ! 2 = CHR ''}'' then ([s ! 1], 3)
             else (case index_byte r CHR ''}'' of
                     None \<Rightarrow> ([], 1)
                   | Some 0 \<Rightarrow> ([], 2)
                   | Some i \<Rightarrow> (take i r, i + 2)))
          else if shell_special c then ([c], 1)
          else (takeWhile alpha_num s, length (takeWhile alpha_num s)))"

function expand_env :: "(gostring \<Rightarrow> gostring) \<Rightarrow> gostring \<Rightarrow> gostring" where
  "expand_env env [] = []"
| "expand_env env (c # s) =
     (if c = CHR ''$'' \<and> s \<noteq> [] then
        (let (name, w) = shell_name s in
         (if name = [] then (if 0 < w then [] else [c]) else env name) @ expand_env env (drop w s))
      else c # expand_env env s)"
  by pat_completeness auto
termination
  by (relation "measure (\<lambda>(_, s). length s)") auto

function replaceWinVars :: "gostring \<Rightarrow> gostring" where
  "replaceWinVars [] = []"
| "replaceWinVars (c # s) =
     (if c = CHR ''%'' then
        (case index_byte s CHR ''%'' of
           Some e \<Rightarrow>
             if 0 < e then ''${'' @ take e s @ ''}'' @ replaceWinVars (drop (e + 1) s)
             else c # replaceWinVars s
         | None \<Rightarrow> c # replaceWinVars s)
      else c # replaceWinVars s)"
  by pat_completeness auto
termination
  by (relation "measure length") auto

definition expandPaths :: "(gostring \<Rightarrow> gostring) \<Rightarrow> gostring list \<Rightarrow> gostring list" where
  "expandPaths env patterns = map (\<lambda>p. to_lower (expand_env env (replaceWinVars p))) patterns"

fun first_match :: "gostring \<Rightarrow> gostring list \<Rightarrow> gostring" where
  "first_match lower [] = []"
| "first_match lower (pat # pats) =
     (if pat \<noteq> [] \<and> has_prefix lower pat then pat else first_match lower pats)"

definition newproc_step ::
  "AnalysisContext \<Rightarrow> gostring list \<Rightarrow> ProcessInfo \<Rightarrow> (pid, unit) gomap \<times> Sink \<Rightarrow> (pid, unit) gomap \<times> Sink" where
  "newproc_step ctx patterns p = (\<lambda>(known, sk).
     if mhas known (p_PID p) then (known, sk)
     else
       (let known = mput (p_PID p) () known in
        if isIgnoredProcess (ac_Cfg ctx) (p_Name p) then (known, sk)
        else if p_ExePath p = [] then (known, sk)
        else
          (let matched = first_match (to_lower (p_ExePath p)) patterns in
           if matched = [] then (known, sk)
           else (known, RaiseAlert
             (new_alert ''new_process'' SeverityInfo ''New process from suspicious path''
                (sprintf ''%s spawned from %s'' [FStr (p_Name p), FStr (p_ExePath p)])
                (p_PID p) (p_Name p) (np_Action (an_NewProcess (c_Anomaly (ac_Cfg ctx))))
                [(''exe_path'', AStr (p_ExePath p)), (''matched_path'', AStr matched)]) sk))))"

definition newproc_Analyze ::
  "(gostring \<Rightarrow> gostring) \<Rightarrow> AnalysisContext \<Rightarrow> (pid, unit) gomap \<times> Sink \<Rightarrow> (pid, unit) gomap \<times> Sink" where
  "newproc_Analyze env ctx = (\<lambda>(known, sk).
     let cfg = an_NewProcess (c_Anomaly (ac_Cfg ctx)) in
     if \<not> np_Enabled cfg then (known, sk)
     else
       (let (known, sk) = fold (newproc_step ctx (expandPaths env (np_SuspiciousPaths cfg)))
              (ss_Processes (ac_Snapshot ctx)) (known, sk)
        in (gc_states (ac_Snapshot ctx) known, sk)))"

section \<open>Spawn storms\<close>

definition spawnStormWhitelist :: "gostring list" where
  "spawnStormWhitelist =
     [''cmd.exe'', ''powershell.exe'', ''pwsh.exe'', ''bash.exe'', ''wsl.exe'', ''wslhost.exe'',
      ''windowsterminal.exe'', ''openconsole.exe'', ''conhost.exe'', ''chrome.exe'', ''msedge.exe'',
      ''brave.exe'', ''firefox.exe'', ''zen.exe'', ''opera.exe'', ''vivaldi.exe'', ''librewolf.exe'',
      ''arc.exe'', ''node.exe'', ''bun.exe'', ''deno.exe'', ''python.exe'', ''python3.exe'', ''go.exe'',
      ''cargo.exe'', ''docker.exe'', ''code.exe'', ''windsurf.exe'']"

definition isSpawnStormWhitelisted :: "gostring \<Rightarrow> bool" where
  "isSpawnStormWhitelisted name \<longleftrightarrow> to_lower name \<in> set spawnStormWhitelist"

record SpawnState =
  sw_parentEvents :: "(pid, gotime list) gomap"
  sw_knownPIDs :: "(pid, unit) gomap"

definition spawn_events :: "pid \<Rightarrow> (pid, gotime list) gomap \<Rightarrow> gotime list" where
  "spawn_events k m = (case mget m k of None \<Rightarrow> [] | Some ts \<Rightarrow> ts)"

definition spawn_discover :: "gotime \<Rightarrow> ProcessInfo \<Rightarrow> SpawnState \<Rightarrow> SpawnState" where
  "spawn_discover now p st =
     (if mhas (sw_knownPIDs st) (p_PID p) then st
      else
        (let st = st\<lparr>sw_knownPIDs := mput (p_PID p) () (sw_knownPIDs st)\<rparr> in
         if p_ParentPID p = 0 then st
         else st\<lparr>sw_parentEvents :=
           mput (p_ParentPID p) (spawn_events (p_ParentPID p) (sw_parentEvents st) @ [now]) (sw_parentEvents st)\<rparr>))"

definition spawn_check ::
  "AnalysisContext \<Rightarrow> pid \<times> gotime list \<Rightarrow> (pid, gotime list) gomap \<times> Sink \<Rightarrow> (pid, gotime list) gomap \<times> Sink" where
  "spawn_check ctx = (\<lambda>(parentPID, ts) (events, sk).
     let cfg = an_SpawnStorm (c_Anomaly (ac_Cfg ctx));
         cutoff = t_add (ac_Now ctx) (- minute);
         fresh = filter (\<lambda>t. t_after t cutoff) ts in
     if fresh = [] then (mdel parentPID events, sk)
     else
       (let events = mput parentPID fresh events in
        if int (length fresh) < st_MaxChildrenPerMinute cfg then (events, sk)
        else (case first_with_pid parentPID (ss_Processes (ac_Snapshot ctx)) of
                None \<Rightarrow> (events, sk)
              | Some parent \<Rightarrow>
                  if isIgnoredProcess (ac_Cfg ctx) (p_Name parent) then (events, sk)
                  else if isSpawnStormWhitelisted (p_Name parent) then (events, sk)
                  else (events, RaiseAlert
                    (new_alert ''spawn_storm'' SeverityCritical ''Process spawn storm''
                       (sprintf ''%s (PID %d) spawned %d children in 60s''
                          [FStr (p_Name parent), FInt (uint (p_PID parent)), FInt (int (length fresh))])
                       (p_PID parent) (p_Name parent) (st_Action cfg)
                       [(''children_per_minute'', AInt (int (length fresh))),
                        (''threshold'', AInt (st_MaxChildrenPerMinute cfg))]) sk))))"

type_synonym 'v range_order = "(pid \<times> 'v) list \<Rightarrow> (pid \<times> 'v) list"

definition spawn_Analyze ::
  "gotime list range_order \<Rightarrow> AnalysisContext \<Rightarrow> SpawnState \<times> Sink \<Rightarrow> SpawnState \<times> Sink" where
  "spawn_Analyze ord ctx = (\<lambda>(st, sk).
     if \<not> st_Enabled (an_SpawnStorm (c_Anomaly (ac_Cfg ctx))) then (st, sk)
     else
       (let st = fold (spawn_discover (ac_Now ctx)) (ss_Processes (ac_Snapshot ctx)) st;
            st = st\<lparr>sw_knownPIDs := gc_states (ac_Snapshot ctx) (sw_knownPIDs st)\<rparr>;
            (events, sk) = fold (spawn_check ctx) (ord (sw_parentEvents st)) (sw_parentEvents st, sk)
        in (st\<lparr>sw_parentEvents := events\<rparr>, sk)))"

section \<open>Connection bursts\<close>

definition count_conn :: "PortBinding \<Rightarrow> (pid, int) gomap \<times> int \<Rightarrow> (pid, int) gomap \<times> int" where
  "count_conn pb = (\<lambda>(perPID, total).
     if pb_PID pb = 0 then (perPID, total)
     else (mput (pb_PID pb) ((case mget perPID (pb_PID pb) of None \<Rightarrow> 0 | Some n \<Rightarrow> n) + 1) perPID, total + 1))"

definition network_step ::
  "AnalysisContext \<Rightarrow> pid \<times> int \<Rightarrow> (pid, Welford) gomap \<times> Sink \<Rightarrow> (pid, Welford) gomap \<times> Sink" where
  "network_step ctx = (\<lambda>(p, count) (stats, sk).
     let cfg = an_NetworkAnomaly (c_Anomaly (ac_Cfg ctx));
         w = (case mget stats p of Some w \<Rightarrow> w | None \<Rightarrow> NewWelford);
         fcount = f64_of_int count;
         burst = (10 \<le> w_Count w \<and> fle (Fin 30) fcount \<and>
                  w_IsAnomaly fcount (f64_of_int (na_ConnectionSigma cfg)) w \<and>
                  flt (fadd (w_Mean w) (Fin 1)) fcount);
         procName = ProcessName (ac_Snapshot ctx) p;
         stats = mput p (w_Add fcount w) stats
     in if \<not> burst then (stats, sk)
        else if isIgnoredProcess (ac_Cfg ctx) procName then (stats, sk)
        else (stats, RaiseAlert
          (new_alert ''network_anomaly'' SeverityWarning ''Connection burst''
             (sprintf ''%s (PID %d) has %d connections (mean %.1f)''
                [FStr procName, FInt (uint p), FInt count, FF64 (w_Mean w)])
             p procName (na_Action cfg)
             [(''connections'', AInt count), (''mean'', AF64 (w_Mean w)), (''std_dev'', AF64 (w_StdDev w))]) sk))"

definition network_Analyze ::
  "int range_order \<Rightarrow> AnalysisContext \<Rightarrow> (pid, Welford) gomap \<times> Sink \<Rightarrow> (pid, Welford) gomap \<times> Sink" where
  "network_Analyze ord ctx = (\<lambda>(stats, sk).
     let cfg = an_NetworkAnomaly (c_Anomaly (ac_Cfg ctx)); pbs = ss_PortBindings (ac_Snapshot ctx) in
     if \<not> na_Enabled cfg \<or> pbs = [] then (stats, sk)
     else
       (let (perPID, totalConns) = fold count_conn pbs ([], 0);
            sk = (if na_MaxSystemConnections cfg \<le> totalConns
                  then RaiseAlert
                    (new_alert ''network_anomaly_system'' SeverityCritical ''System connection cap exceeded''
                       (sprintf ''%d active connections (limit %d)''
                          [FInt totalConns, FInt (na_MaxSystemConnections cfg)])
                       0 [] (na_Action cfg)
                       [(''total_connections'', AInt totalConns), (''limit'', AInt (na_MaxSystemConnections cfg))]) sk
                  else ClearAlert ''network_anomaly_system'' 0 sk);
            (stats, sk) = fold (network_step ctx) (ord perPID) (stats, sk)
        in (mfilter (\<lambda>p _. mhas perPID p) stats, sk)))"

section \<open>What raising and clearing keep, these detectors keep\<close>

context sink_invariant begin

lemma newproc_step_keeps: "I s \<Longrightarrow> I (snd (newproc_step ctx pats p (m, s)))"
  by (simp add: newproc_step_def Let_def raise_keeps)

lemma newproc_keeps: "I s \<Longrightarrow> I (snd (newproc_Analyze env ctx (m, s)))"
  using fold_keeps [of "newproc_step ctx (expandPaths env (np_SuspiciousPaths (an_NewProcess (c_Anomaly (ac_Cfg ctx)))))"
      s "ss_Processes (ac_Snapshot ctx)" m] newproc_step_keeps
  by (simp add: newproc_Analyze_def split_beta Let_def)

lemma spawn_check_keeps: "I s \<Longrightarrow> I (snd (spawn_check ctx x (m, s)))"
  by (cases x) (simp add: spawn_check_def Let_def raise_keeps split: option.splits)

lemma spawn_keeps: "I s \<Longrightarrow> I (snd (spawn_Analyze ord ctx (st, s)))"
  using fold_keeps [of "spawn_check ctx" s] spawn_check_keeps
  by (simp add: spawn_Analyze_def split_beta Let_def)

lemma network_step_keeps: "I s \<Longrightarrow> I (snd (network_step ctx x (m, s)))"
  by (cases x) (simp add: network_step_def Let_def raise_keeps)

lemma network_keeps: "I s \<Longrightarrow> I (snd (network_Analyze ord ctx (m, s)))"
  using fold_keeps [of "network_step ctx"] network_step_keeps
  by (simp add: network_Analyze_def split_beta Let_def raise_keeps clear_keeps)

end

section \<open>Windows variables in paths\<close>

lemma index_byte_append: "b \<notin> set s \<Longrightarrow> index_byte (s @ b # t) b = Some (length s)"
  by (induction s) auto

lemma replaceWinVars_plain: "CHR ''%'' \<notin> set s \<Longrightarrow> replaceWinVars s = s"
  by (induction s rule: replaceWinVars.induct) auto

lemma expand_env_plain: "CHR ''$'' \<notin> set s \<Longrightarrow> expand_env env s = s"
  by (induction env s rule: expand_env.induct) auto

lemma shell_name_braces:
  assumes "name \<noteq> []" and "CHR ''}'' \<notin> set name"
  shows "shell_name (CHR ''{'' # name @ CHR ''}'' # rest) = (name, length name + 2)"
proof (cases "length name = 1 \<and> shell_special (hd name)")
  case True
  then obtain c where "name = [c]" by (cases name) auto
  with True show ?thesis by (simp add: shell_name_def)
next
  case False
  have n: "\<not> (shell_special ((CHR ''{'' # name @ CHR ''}'' # rest) ! 1) \<and> (CHR ''{'' # name @ CHR ''}'' # rest) ! 2 = CHR ''}'')"
  proof (cases name rule: remdups_adj.cases)
    case (3 a b ns)
    then show ?thesis using assms(2) by auto
  qed (use assms(1) False in auto)
  obtain k where "length name = Suc k" using assms(1) by (cases name) auto
  then show ?thesis
    using n index_byte_append [OF assms(2), of rest] by (auto simp: shell_name_def)
qed

text \<open>
  C29. A suspicious path written with a Windows variable, \<^verbatim>\<open>%NAME%\<close> followed by plain text, means the
  value of the variable followed by that text, in lower case.
\<close>

theorem expandPaths_variable:
  assumes "name \<noteq> []" and "CHR ''%'' \<notin> set (name @ rest)" and "CHR ''}'' \<notin> set name" and "CHR ''$'' \<notin> set rest"
  shows "expandPaths env [''%'' @ name @ ''%'' @ rest] = [to_lower (env name @ rest)]"
proof -
  have "replaceWinVars (''%'' @ name @ ''%'' @ rest) = ''${'' @ name @ ''}'' @ rest"
    using assms(1,2) index_byte_append [of "CHR ''%''" name rest] replaceWinVars_plain [of rest] by simp
  moreover have "expand_env env (''${'' @ name @ ''}'' @ rest) = env name @ rest"
    using shell_name_braces [OF assms(1,3), of rest] assms(1) expand_env_plain [OF assms(4)] by simp
  ultimately show ?thesis by (simp add: expandPaths_def)
qed

theorem expandPaths_variable_witness:
  "expandPaths (\<lambda>v. if v = ''TEMP'' then ''C:/Tmp'' else []) [''%TEMP%/dl''] = [''c:/tmp/dl'']"
proof -
  have "to_lower ''C:/Tmp/dl'' = ''c:/tmp/dl''" by code_simp
  then show ?thesis
    using expandPaths_variable [of "''TEMP''" "''/dl''" "\<lambda>v. if v = ''TEMP'' then ''C:/Tmp'' else []"] by simp
qed

section \<open>A new process is reported once\<close>

definition raised_pids :: "alert_event list \<Rightarrow> pid list" where
  "raised_pids evs = concat (map (\<lambda>ev. case ev of EvRaised a \<Rightarrow> [al_PID a] | _ \<Rightarrow> []) evs)"

definition suspicious :: "gostring list \<Rightarrow> AnalysisContext \<Rightarrow> pid \<Rightarrow> bool" where
  "suspicious pats ctx k \<longleftrightarrow>
     list_ex (\<lambda>p. p_PID p = k \<and> \<not> isIgnoredProcess (ac_Cfg ctx) (p_Name p) \<and>
        list_ex (\<lambda>pat. pat \<noteq> [] \<and> has_prefix (to_lower (p_ExePath p)) pat) pats)
      (ss_Processes (ac_Snapshot ctx))"

lemma first_match_in: "first_match s pats \<noteq> [] \<Longrightarrow> list_ex (\<lambda>pat. pat \<noteq> [] \<and> has_prefix s pat) pats"
  by (induction s pats rule: first_match.induct) (auto split: if_splits)

lemma newproc_step_cases:
  assumes "newproc_step ctx pats p (known, sk) = (known', sk')"
  shows "fst ` set known' = insert (p_PID p) (fst ` set known) \<and>
    (sk_events sk' = sk_events sk \<or>
     (\<exists>a. sk_events sk' = sk_events sk @ [EvRaised a] \<and> al_PID a = p_PID p \<and> \<not> mhas known (p_PID p) \<and>
        \<not> isIgnoredProcess (ac_Cfg ctx) (p_Name p) \<and>
        list_ex (\<lambda>pat. pat \<noteq> [] \<and> has_prefix (to_lower (p_ExePath p)) pat) pats))"
proof
  have "known' = (if mhas known (p_PID p) then known else mput (p_PID p) () known)"
    using assms by (auto simp: newproc_step_def Let_def split: if_splits)
  then show "fst ` set known' = insert (p_PID p) (fst ` set known)" by (simp add: insert_absorb)
  let ?m = "first_match (to_lower (p_ExePath p)) pats"
  show "sk_events sk' = sk_events sk \<or>
     (\<exists>a. sk_events sk' = sk_events sk @ [EvRaised a] \<and> al_PID a = p_PID p \<and> \<not> mhas known (p_PID p) \<and>
        \<not> isIgnoredProcess (ac_Cfg ctx) (p_Name p) \<and>
        list_ex (\<lambda>pat. pat \<noteq> [] \<and> has_prefix (to_lower (p_ExePath p)) pat) pats)"
  proof (cases "mhas known (p_PID p) \<or> isIgnoredProcess (ac_Cfg ctx) (p_Name p) \<or> p_ExePath p = [] \<or> ?m = []")
    case True
    then have "sk' = sk" using assms by (auto simp: newproc_step_def Let_def split: if_splits)
    then show ?thesis by simp
  next
    case False
    then obtain a where "sk' = RaiseAlert a sk" "al_PID a = p_PID p"
      using assms by (auto simp: newproc_step_def Let_def)
    then show ?thesis
      using False first_match_in [of "to_lower (p_ExePath p)" pats] RaiseAlert_events [of a sk] by auto
  qed
qed

lemma newproc_fold:
  assumes "fold (newproc_step ctx pats) ps (known, sk) = (known', sk')" and "set ps \<subseteq> set (ss_Processes (ac_Snapshot ctx))"
  shows "fst ` set known' = fst ` set known \<union> p_PID ` set ps \<and>
    (\<exists>new. sk_events sk' = sk_events sk @ new \<and> distinct (raised_pids new) \<and>
       list_all (\<lambda>k. \<not> mhas known k \<and> suspicious pats ctx k) (raised_pids new))"
  using assms
proof (induction ps arbitrary: known sk)
  case Nil
  then show ?case by (simp add: raised_pids_def)
next
  case (Cons p ps)
  obtain k1 s1 where st: "newproc_step ctx pats p (known, sk) = (k1, s1)" by fastforce
  note c = newproc_step_cases [OF st]
  have f: "fold (newproc_step ctx pats) ps (k1, s1) = (known', sk')" using Cons.prems(1) st by simp
  have sub: "set ps \<subseteq> set (ss_Processes (ac_Snapshot ctx))" using Cons.prems(2) by simp
  obtain new where new: "fst ` set known' = fst ` set k1 \<union> p_PID ` set ps" "sk_events sk' = sk_events s1 @ new"
      "distinct (raised_pids new)" "list_all (\<lambda>k. \<not> mhas k1 k \<and> suspicious pats ctx k) (raised_pids new)"
    using Cons.IH [OF f sub] by blast
  have keys: "fst ` set known' = fst ` set known \<union> p_PID ` set (p # ps)"
    unfolding new(1) conjunct1 [OF c] by simp
  have new': "list_all (\<lambda>k. \<not> mhas known k \<and> suspicious pats ctx k) (raised_pids new)" "p_PID p \<notin> set (raised_pids new)"
    using new(4) unfolding conjunct1 [OF c] list_all_iff by blast+
  show ?case
  proof (cases "sk_events s1 = sk_events sk")
    case True
    then show ?thesis using keys new(2,3) new'(1) by (intro conjI exI [of _ new]) simp_all
  next
    case False
    then obtain a where a: "sk_events s1 = sk_events sk @ [EvRaised a]" "al_PID a = p_PID p"
        "\<not> mhas known (p_PID p)" "suspicious pats ctx (p_PID p)"
      using conjunct2 [OF c] Cons.prems(2) unfolding suspicious_def list_ex_iff by (metis list.set_intros(1) subsetD)
    have "sk_events sk' = sk_events sk @ (EvRaised a # new)" using a new(2) by simp
    moreover have "raised_pids (EvRaised a # new) = p_PID p # raised_pids new" using a by (simp add: raised_pids_def)
    ultimately show ?thesis using keys a(3,4) new(3) new'
      by (intro conjI exI [of _ "EvRaised a # new"]) simp_all
  qed
qed

text \<open>
  While a process lives it is reported as new at most once: in a tick each process raises at most
  one alert, only a process the detector did not know and whose path starts with a suspicious path
  does, and after the tick the detector knows exactly the processes of the snapshot.
\<close>

theorem newproc_once:
  assumes "np_Enabled (an_NewProcess (c_Anomaly (ac_Cfg ctx)))"
    and "newproc_Analyze env ctx (known, sk) = (known', sk')"
  shows "fst ` set known' = live_pids (ac_Snapshot ctx) \<and>
    (\<exists>new. sk_events sk' = sk_events sk @ new \<and> distinct (raised_pids new) \<and>
       list_all (\<lambda>k. \<not> mhas known k \<and>
           suspicious (expandPaths env (np_SuspiciousPaths (an_NewProcess (c_Anomaly (ac_Cfg ctx))))) ctx k)
         (raised_pids new))"
proof -
  let ?pats = "expandPaths env (np_SuspiciousPaths (an_NewProcess (c_Anomaly (ac_Cfg ctx))))"
  obtain k1 s1 where f: "fold (newproc_step ctx ?pats) (ss_Processes (ac_Snapshot ctx)) (known, sk) = (k1, s1)"
    by fastforce
  then have k: "known' = gc_states (ac_Snapshot ctx) k1" "s1 = sk'"
    using assms by (simp_all add: newproc_Analyze_def Let_def)
  note n = newproc_fold [OF f [unfolded k(2)] subset_refl]
  have "fst ` set known' = live_pids (ac_Snapshot ctx)"
    unfolding k(1) gc_keys conjunct1 [OF n] by (auto simp: live_pids_def)
  then show ?thesis using n by blast
qed

definition dropper :: ProcessInfo where
  "dropper = zero_proc\<lparr>p_PID := 5, p_Name := ''a.exe'', p_ExePath := ''C:/Tmp/a.exe''\<rparr>"

definition newproc_cfg :: Config where
  "newproc_cfg = demo_cfg\<lparr>c_Anomaly := (c_Anomaly demo_cfg)\<lparr>an_NewProcess :=
     \<lparr>np_Enabled = True, np_SuspiciousPaths = [''c:/tmp''], np_Action = ''info''\<rparr>\<rparr>\<rparr>"

theorem newproc_once_witness:
  "fst ` set (fst (newproc_Analyze (\<lambda>v. []) ((demo_ctx 0 [dropper])\<lparr>ac_Cfg := newproc_cfg\<rparr>) ([], empty_sink))) = {5}"
proof -
  let ?ctx = "(demo_ctx 0 [dropper])\<lparr>ac_Cfg := newproc_cfg\<rparr>"
  obtain known sk where a: "newproc_Analyze (\<lambda>v. []) ?ctx ([], empty_sink) = (known, sk)" by fastforce
  have "np_Enabled (an_NewProcess (c_Anomaly (ac_Cfg ?ctx)))" by (simp add: newproc_cfg_def)
  from newproc_once [OF this a] a show ?thesis
    by (simp add: live_pids_def demo_ctx_def dropper_def zero_proc_def)
qed

section \<open>What a spawn storm counts\<close>

lemma spawn_discover_known:
  "fst ` set (sw_knownPIDs (fold (spawn_discover now) ps st)) = fst ` set (sw_knownPIDs st) \<union> p_PID ` set ps"
proof (induction ps arbitrary: st)
  case (Cons p ps)
  have "fst ` set (sw_knownPIDs (spawn_discover now p st)) = insert (p_PID p) (fst ` set (sw_knownPIDs st))"
    by (auto simp: spawn_discover_def Let_def)
  then show ?case by (simp add: Cons.IH)
qed simp

lemma spawn_discover_events:
  assumes "distinct (map p_PID ps)" and "k \<noteq> 0"
  shows "spawn_events k (sw_parentEvents (fold (spawn_discover now) ps st)) =
    spawn_events k (sw_parentEvents st) @
    replicate (length (filter (\<lambda>p. p_ParentPID p = k \<and> \<not> mhas (sw_knownPIDs st) (p_PID p)) ps)) now"
  using assms(1)
proof (induction ps arbitrary: st)
  case (Cons p ps)
  let ?st = "spawn_discover now p st"
  have k: "fst ` set (sw_knownPIDs ?st) = insert (p_PID p) (fst ` set (sw_knownPIDs st))"
    by (auto simp: spawn_discover_def Let_def)
  have "p_PID p \<notin> p_PID ` set ps" using Cons.prems by simp
  then have f: "filter (\<lambda>q. p_ParentPID q = k \<and> \<not> mhas (sw_knownPIDs ?st) (p_PID q)) ps =
      filter (\<lambda>q. p_ParentPID q = k \<and> \<not> mhas (sw_knownPIDs st) (p_PID q)) ps"
    unfolding k by (intro filter_cong refl) (metis imageI insert_iff)
  have e: "spawn_events k (sw_parentEvents ?st) = spawn_events k (sw_parentEvents st) @
      (if p_ParentPID p = k \<and> \<not> mhas (sw_knownPIDs st) (p_PID p) then [now] else [])"
    using assms(2) by (auto simp: spawn_discover_def Let_def spawn_events_def)
  show ?case using Cons.IH [of ?st] Cons.prems e f by (simp add: replicate_append_same)
qed simp

definition spawn_fresh :: "AnalysisContext \<Rightarrow> gotime list \<Rightarrow> gotime list" where
  "spawn_fresh ctx ts = filter (\<lambda>t. t_after t (t_add (ac_Now ctx) (- minute))) ts"

interpretation spawn: keyed_pass fst "spawn_check ctx"
    "\<lambda>(_, ts) v. if spawn_fresh ctx ts = [] then None else Some (spawn_fresh ctx ts)" for ctx
  by unfold_locales (auto simp: spawn_check_def spawn_fresh_def Let_def split: option.splits)

definition is_order :: "'v range_order \<Rightarrow> bool" where
  "is_order ord \<longleftrightarrow> (\<forall>xs. set (ord xs) = set xs \<and> length (ord xs) = length xs \<and>
     (distinct (map fst xs) \<longrightarrow> distinct (map fst (ord xs))))"

lemma find_fst: "distinct (map fst m) \<Longrightarrow> find (\<lambda>e. fst e = k) m = map_option (Pair k) (mget m k)"
  by (induction m) (auto split: if_splits)

lemma spawn_discover_wf: "wf_map (sw_parentEvents st) \<Longrightarrow> wf_map (sw_parentEvents (fold (spawn_discover now) ps st))"
proof (induction ps arbitrary: st)
  case (Cons p ps)
  then have "wf_map (sw_parentEvents (spawn_discover now p st))" by (auto simp: spawn_discover_def Let_def)
  then show ?case using Cons.IH by simp
qed simp

text \<open>
  In whatever order the map is visited, after a tick the detector holds, for every parent, exactly
  its spawn times of the last minute: the old ones still fresh, and this tick once for every process of
  the snapshot with that parent that was not known before. On the first tick nothing is known, so every
  running child counts as just spawned, however old it is.
\<close>

theorem spawn_counts:
  assumes "st_Enabled (an_SpawnStorm (c_Anomaly (ac_Cfg ctx)))" and "unique_pids ctx" and "is_order ord"
    and "wf_map (sw_parentEvents st)" and "k \<noteq> 0"
  shows "spawn_events k (sw_parentEvents (fst (spawn_Analyze ord ctx (st, sk)))) =
      spawn_fresh ctx (spawn_events k (sw_parentEvents st) @
        replicate (length (filter (\<lambda>p. p_ParentPID p = k \<and> \<not> mhas (sw_knownPIDs st) (p_PID p))
          (ss_Processes (ac_Snapshot ctx)))) (ac_Now ctx)) \<and>
    fst ` set (sw_knownPIDs (fst (spawn_Analyze ord ctx (st, sk)))) = live_pids (ac_Snapshot ctx)"
proof -
  let ?ps = "ss_Processes (ac_Snapshot ctx)"
  let ?d = "fold (spawn_discover (ac_Now ctx)) ?ps st"
  let ?m = "sw_parentEvents ?d"
  have wf: "distinct (map fst ?m)" using spawn_discover_wf [OF assms(4)] by (simp add: wf_map_def)
  then have od: "distinct (map fst (ord ?m))" and os: "set (ord ?m) = set ?m"
    using assms(3) by (simp_all add: is_order_def)
  have "mget (ord ?m) = mget ?m" using map_of_inject_set [OF od wf] os by simp
  then have "mget (fst (fold (spawn_check ctx) (ord ?m) (?m, sk))) k =
      (case mget ?m k of None \<Rightarrow> None
       | Some ts \<Rightarrow> if spawn_fresh ctx ts = [] then None else Some (spawn_fresh ctx ts))"
    using spawn.fold_next [OF od, of ctx ?m sk k] find_fst [OF od, of k] by (auto split: option.splits)
  then have "spawn_events k (fst (fold (spawn_check ctx) (ord ?m) (?m, sk))) = spawn_fresh ctx (spawn_events k ?m)"
    by (auto simp: spawn_events_def spawn_fresh_def split: option.splits)
  moreover have "fst ` set (gc_states (ac_Snapshot ctx) (sw_knownPIDs ?d)) = live_pids (ac_Snapshot ctx)"
    unfolding gc_keys spawn_discover_known [of "ac_Now ctx" ?ps st] by (auto simp: live_pids_def)
  ultimately show ?thesis
    using assms(1) spawn_discover_events [OF _ assms(5), of ?ps "ac_Now ctx" st] assms(2)
    by (simp add: spawn_Analyze_def Let_def split_beta unique_pids_def)
qed

definition child_of :: "pid \<Rightarrow> pid \<Rightarrow> ProcessInfo" where
  "child_of parent k = zero_proc\<lparr>p_PID := k, p_ParentPID := parent, p_CreateTime := 1\<rparr>"

text \<open>Two children that have been running for hours count as two fresh ones on the first tick.\<close>

theorem spawn_counts_witness:
  "length (spawn_events 4 (sw_parentEvents (fst (spawn_Analyze id (demo_ctx (8 * hour) [child_of 4 10, child_of 4 11])
     (\<lparr>sw_parentEvents = [], sw_knownPIDs = []\<rparr>, empty_sink))))) = 2"
proof -
  let ?ctx = "demo_ctx (8 * hour) [child_of 4 10, child_of 4 11]"
  let ?st = "\<lparr>sw_parentEvents = [], sw_knownPIDs = []\<rparr>"
  have e: "st_Enabled (an_SpawnStorm (c_Anomaly (ac_Cfg ?ctx)))"
    by (simp add: demo_ctx_def demo_cfg_def DefaultConfig_def default_anomaly_def)
  have u: "unique_pids ?ctx" and o: "is_order id"
    by (simp_all add: unique_pids_def demo_ctx_def child_of_def is_order_def)
  have n: "length (filter (\<lambda>p. p_ParentPID p = 4 \<and> \<not> mhas (sw_knownPIDs ?st) (p_PID p))
      (ss_Processes (ac_Snapshot ?ctx))) = Suc (Suc 0)"
    by (simp add: demo_ctx_def child_of_def)
  have "spawn_events 4 (sw_parentEvents (fst (spawn_Analyze id ?ctx (?st, empty_sink)))) =
      spawn_fresh ?ctx (spawn_events 4 [] @ replicate (Suc (Suc 0)) (ac_Now ?ctx))"
    using spawn_counts [OF e u o, of ?st 4 empty_sink] unfolding n by simp
  also have "length \<dots> = 2"
    by (simp add: spawn_fresh_def spawn_events_def demo_ctx_def t_after_def t_add_def minute_def)
  finally show ?thesis .
qed

end
