(* ===== verification/Rules.thy ===== *)
theory Rules
  imports Activity
begin

text \<open>
  \<^verbatim>\<open>internal/anomaly/rules.go\<close>: the user's automation rules. A rule fires for a process when it has
  matched for the rule's duration; it raises an alert and, through the actuator interface of the
  engine, may kill or suspend the process. The actuator is a record of two functions on a world, or
  absent; the controller provides it. A key of the state map is the rule's name, a slash and the
  process id.
\<close>

record 'w Actuator =
  act_Kill :: "pid \<Rightarrow> bool \<Rightarrow> 'w \<Rightarrow> 'w \<times> goerror option"
  act_Suspend :: "pid \<Rightarrow> bool \<Rightarrow> 'w \<Rightarrow> 'w \<times> goerror option"

record ruleState =
  rs_matchingSince :: gotime
  rs_lastActionAt :: gotime

definition ruleMetricValue :: "gostring \<Rightarrow> ProcessInfo \<Rightarrow> f64 \<times> bool" where
  "ruleMetricValue metric p =
     (let m = to_lower (trim_space metric) in
      if m \<in> {''cpu_percent'', ''cpu''} then (p_CPUPercent p, True)
      else if m \<in> {''memory_bytes'', ''memory'', ''working_set''} then (f64_of_u64 (p_WorkingSet p), True)
      else if m = ''private_bytes'' then (f64_of_u64 (p_PrivateBytes p), True)
      else if m \<in> {''thread_count'', ''threads''} then (f64_of_u32 (p_ThreadCount p), True)
      else (Fin 0, False))"

definition ruleOpOrDefault :: "gostring \<Rightarrow> gostring" where
  "ruleOpOrDefault op = (let op = trim_space op in if op = [] then ''>='' else op)"

definition compareRule :: "f64 \<Rightarrow> gostring \<Rightarrow> f64 \<Rightarrow> bool" where
  "compareRule v op threshold =
     (let op = ruleOpOrDefault op in
      if op = ''>'' then flt threshold v
      else if op = ''>='' then fle threshold v
      else if op = ''<'' then flt v threshold
      else if op = ''<='' then fle v threshold
      else False)"

definition rule_key :: "Rule \<Rightarrow> pid \<Rightarrow> gostring" where
  "rule_key r k = ru_Name r @ ''/'' @ the (uint32ToA k)"

definition rule_alert :: "Rule \<Rightarrow> ProcessInfo \<Rightarrow> f64 \<Rightarrow> Alert" where
  "rule_alert r p v =
     (let action = to_lower (ru_Action r);
          sev = (if action = ''kill'' \<or> action = ''suspend'' then SeverityCritical else SeverityWarning)
      in new_alert (''rule:'' @ ru_Name r) sev (''Rule triggered: '' @ ru_Name r)
           (sprintf (''%s (PID %d) %s=%.0f %s %.0f '' @ [CHR 0xE2, CHR 0x86, CHR 0x92] @ '' %s'')
              [FStr (p_Name p), FInt (uint (p_PID p)), FStr (ru_Metric r), FF64 v,
               FStr (ruleOpOrDefault (ru_Op r)), FF64 (ru_Threshold r), FStr action])
           (p_PID p) (p_Name p) action
           [(''metric'', AStr (ru_Metric r)), (''value'', AF64 v), (''threshold'', AF64 (ru_Threshold r)),
            (''for'', AStr (dur_string (ru_For r))), (''rule'', AStr (ru_Name r))])"

definition raiseRuleAlert :: "Rule \<Rightarrow> ProcessInfo \<Rightarrow> f64 \<Rightarrow> Sink \<Rightarrow> Sink" where
  "raiseRuleAlert r p v sk = RaiseAlert (rule_alert r p v) sk"

text \<open>The guards before a rule looks at a process: the loop's \<^verbatim>\<open>continue\<close>s.\<close>

definition rule_on :: "Rule \<Rightarrow> bool" where
  "rule_on r \<longleftrightarrow> ru_Enabled r \<and> trim_space (ru_Match r) \<noteq> []"

definition rule_applies :: "Config \<Rightarrow> Rule \<Rightarrow> ProcessInfo \<Rightarrow> bool" where
  "rule_applies cfg r p \<longleftrightarrow> rule_on r \<and>
     str_contains (to_lower (p_Name p)) (to_lower (trim_space (ru_Match r))) \<and>
     \<not> isIgnoredProcess cfg (p_Name p) \<and> snd (ruleMetricValue (ru_Metric r) p)"

definition rule_hit :: "Rule \<Rightarrow> ProcessInfo \<Rightarrow> bool" where
  "rule_hit r p \<longleftrightarrow> compareRule (fst (ruleMetricValue (ru_Metric r) p)) (ru_Op r) (ru_Threshold r)"

definition rule_action :: "Rule \<Rightarrow> gostring" where
  "rule_action r = (let a = to_lower (trim_space (ru_Action r)) in if a = [] then ''alert'' else a)"

definition rule_cooldown :: "Rule \<Rightarrow> duration" where
  "rule_cooldown r = (if ru_Cooldown r \<le> 0 then minute else ru_Cooldown r)"

text \<open>The action of a rule: only \<^verbatim>\<open>kill\<close> and \<^verbatim>\<open>suspend\<close> reach the actuator, never confirmed.\<close>

definition rule_act :: "'w Actuator \<Rightarrow> gostring \<Rightarrow> pid \<Rightarrow> 'w \<Rightarrow> 'w \<times> bool" where
  "rule_act act action k w =
     (if action = ''kill'' then (case act_Kill act k False w of (w, e) \<Rightarrow> (w, e = None))
      else if action = ''suspend'' then (case act_Suspend act k False w of (w, e) \<Rightarrow> (w, e = None))
      else (w, False))"

definition rule_step ::
  "AnalysisContext \<Rightarrow> 'w Actuator option \<Rightarrow> Rule \<times> ProcessInfo \<Rightarrow>
   (gostring, ruleState) gomap \<times> gostring list \<times> Sink \<times> 'w \<Rightarrow>
   (gostring, ruleState) gomap \<times> gostring list \<times> Sink \<times> 'w" where
  "rule_step ctx act = (\<lambda>(r, p) (states, live, sk, w).
     if \<not> rule_applies (ac_Cfg ctx) r p then (states, live, sk, w)
     else
       (let key = rule_key r (p_PID p); live = live @ [key] in
        if \<not> rule_hit r p
        then (mdel key states, live, ClearAlert (''rule:'' @ ru_Name r) (p_PID p) sk, w)
        else
          (let st = (case mget states key of
                       Some st \<Rightarrow> st
                     | None \<Rightarrow> \<lparr>rs_matchingSince = ac_Now ctx, rs_lastActionAt = zero_time\<rparr>);
               states = mput key st states
           in if t_sub (ac_Now ctx) (rs_matchingSince st) < ru_For r then (states, live, sk, w)
              else
                (let sk = raiseRuleAlert r p (fst (ruleMetricValue (ru_Metric r) p)) sk;
                     action = rule_action r
                 in if action = ''alert'' then (states, live, sk, w)
                    else if \<not> t_is_zero (rs_lastActionAt st) \<and>
                            t_sub (ac_Now ctx) (rs_lastActionAt st) < rule_cooldown r
                    then (states, live, sk, w)
                    else (case act of
                            None \<Rightarrow> (states, live, sk, w)
                          | Some a \<Rightarrow>
                              (case rule_act a action (p_PID p) w of
                                 (w, True) \<Rightarrow>
                                   (mput key (st\<lparr>rs_lastActionAt := ac_Now ctx\<rparr>) states, live, sk, w)
                               | (w, False) \<Rightarrow> (states, live, sk, w)))))))"

definition rule_pairs :: "AnalysisContext \<Rightarrow> (Rule \<times> ProcessInfo) list" where
  "rule_pairs ctx =
     concat (map (\<lambda>r. map (Pair r) (ss_Processes (ac_Snapshot ctx))) (c_Rules (ac_Cfg ctx)))"

definition rules_Analyze ::
  "'w Actuator option \<Rightarrow> AnalysisContext \<Rightarrow> (gostring, ruleState) gomap \<times> Sink \<times> 'w \<Rightarrow>
   (gostring, ruleState) gomap \<times> Sink \<times> 'w" where
  "rules_Analyze act ctx = (\<lambda>(states, sk, w).
     if c_Rules (ac_Cfg ctx) = [] then (states, sk, w)
     else
       (let (states, live, sk, w) = fold (rule_step ctx act) (rule_pairs ctx) (states, [], sk, w)
        in (mfilter (\<lambda>k _. k \<in> set live) states, sk, w)))"

context sink_invariant begin

lemma rule_step_keeps:
  assumes "I s"
  shows "I (fst (snd (snd (rule_step ctx act rp (m, l, s, w)))))"
proof -
  obtain r p where rp: "rp = (r, p)" by (cases rp)
  show ?thesis
    using assms
    by (auto simp: rp rule_step_def Let_def raiseRuleAlert_def raise_keeps clear_keeps
        split: option.splits prod.splits bool.splits)
qed

lemma rules_fold_keeps: "I s \<Longrightarrow> I (fst (snd (snd (fold (rule_step ctx act) rps (m, l, s, w)))))"
proof (induction rps arbitrary: m l s w)
  case (Cons rp rps)
  obtain m' l' s' w' where st: "rule_step ctx act rp (m, l, s, w) = (m', l', s', w')" by (metis prod_cases4)
  then have "I s'" using rule_step_keeps [OF Cons.prems, of ctx act rp m l w] by simp
  then show ?case using Cons.IH st by simp
qed simp

lemma rules_keeps: "I s \<Longrightarrow> I (fst (snd (rules_Analyze act ctx (m, s, w))))"
  using rules_fold_keeps [of s ctx act "rule_pairs ctx" m "[]" w]
  by (simp add: rules_Analyze_def split_beta)

end

section \<open>The actuator as an interface\<close>

text \<open>
  What the rules rely on when they act: a relation between worlds that every unconfirmed kill and
  suspension keeps, and that can be chained, holds between the worlds before and after any tick.
\<close>

locale actuator_contract =
  fixes act :: "'w Actuator"
    and R :: "'w \<Rightarrow> 'w \<Rightarrow> bool"
  assumes R_refl: "R w w"
    and R_trans: "R w1 w2 \<Longrightarrow> R w2 w3 \<Longrightarrow> R w1 w3"
    and kill_R: "R w (fst (act_Kill act k False w))"
    and suspend_R: "R w (fst (act_Suspend act k False w))"
begin

lemma rule_act_R: "R w (fst (rule_act act action k w))"
  using kill_R [of w k] suspend_R [of w k] by (auto simp: rule_act_def R_refl split: prod.splits)

lemma rule_step_R: "R w (snd (snd (snd (rule_step ctx (Some act) rp (m, l, s, w)))))"
proof -
  obtain r p where rp: "rp = (r, p)" by (cases rp)
  show ?thesis
    using rule_act_R [of w "rule_action r" "p_PID p"]
    by (auto simp: rp rule_step_def Let_def R_refl split: option.splits prod.splits bool.splits)
qed

lemma rules_fold_R: "R w (snd (snd (snd (fold (rule_step ctx (Some act)) rps (m, l, s, w)))))"
proof (induction rps arbitrary: m l s w)
  case (Cons rp rps)
  obtain m' l' s' w' where st: "rule_step ctx (Some act) rp (m, l, s, w) = (m', l', s', w')" by (metis prod_cases4)
  then have "R w w'" using rule_step_R [of w ctx rp m l s] by simp
  then show ?case using Cons.IH R_trans st by simp
qed (simp add: R_refl)

lemma rules_R: "R w (snd (snd (rules_Analyze (Some act) ctx (m, s, w))))"
  using rules_fold_R [of w ctx "rule_pairs ctx" m "[]" s]
  by (simp add: rules_Analyze_def split_beta R_refl)

end

section \<open>When a rule acts\<close>

lemma rule_key_inj: "rule_key r k = rule_key r' k' \<Longrightarrow> ru_Name r = ru_Name r' \<and> k = k'"
  using last_slash_unique [of "nat_str (unat k)" "nat_str (unat k')" "ru_Name r" "ru_Name r'"]
  by (simp add: rule_key_def uint32ToA_eq nat_str_no_slash nat_str_inj word_unat_eq_iff)

definition pair_key :: "Rule \<times> ProcessInfo \<Rightarrow> gostring" where
  "pair_key rp = rule_key (fst rp) (p_PID (snd rp))"

interpretation rules: keyed_frame pair_key "rule_step ctx act" for ctx act
proof
  fix k p m s assume "k \<noteq> pair_key p"
  then show "mget (fst (rule_step ctx act p (m, s))) k = mget m k"
    by (cases p, cases s)
      (auto simp: pair_key_def rule_step_def Let_def split: option.splits prod.splits bool.splits)
qed

definition distinct_rules :: "AnalysisContext \<Rightarrow> bool" where
  "distinct_rules ctx \<longleftrightarrow> distinct (map ru_Name (c_Rules (ac_Cfg ctx)))"

lemma distinct_pair_keys:
  assumes "distinct_rules ctx" and "unique_pids ctx"
  shows "distinct (map pair_key (rule_pairs ctx))"
proof -
  have "distinct (map pair_key (concat (map (\<lambda>r. map (Pair r) ps) rs)))"
    if "distinct (map ru_Name rs)" "distinct (map p_PID ps)" for rs and ps :: "ProcessInfo list"
    using that
  proof (induction rs)
    case (Cons r rs)
    have "inj_on (\<lambda>p. rule_key r (p_PID p)) (set ps)"
      using Cons.prems(2) rule_key_inj by (force simp: inj_on_def distinct_map)
    then have "distinct (map pair_key (map (Pair r) ps))"
      using Cons.prems(2) by (simp add: distinct_map pair_key_def o_def)
    moreover have ne: "pair_key (r, p) \<noteq> pair_key (r', p')" if "r' \<in> set rs" for p r' p'
      using that Cons.prems(1) rule_key_inj [of r _ r'] by (auto simp: pair_key_def)
    have "set (map pair_key (map (Pair r) ps)) \<inter> set (map pair_key (concat (map (\<lambda>r. map (Pair r) ps) rs))) = {}"
      by (auto dest: ne)
    moreover have "distinct (map pair_key (concat (map (\<lambda>r. map (Pair r) ps) rs)))"
      using Cons by simp
    ultimately show ?case by (simp only: list.map concat.simps map_append distinct_append)
  qed simp
  then show ?thesis using assms by (simp add: rule_pairs_def distinct_rules_def unique_pids_def)
qed

text \<open>An actuator that records its calls and answers what \<open>res\<close> says.\<close>

datatype act_call = CallKill pid bool | CallSuspend pid bool

definition recorder :: "(act_call \<Rightarrow> goerror option) \<Rightarrow> act_call list Actuator" where
  "recorder res = \<lparr>act_Kill = (\<lambda>k c w. (w @ [CallKill k c], res (CallKill k c))),
                   act_Suspend = (\<lambda>k c w. (w @ [CallSuspend k c], res (CallSuspend k c)))\<rparr>"

text \<open>What a call of the actuator says, in terms of the states before the tick.\<close>

definition call_ok :: "AnalysisContext \<Rightarrow> (gostring, ruleState) gomap \<Rightarrow> act_call \<Rightarrow> bool" where
  "call_ok ctx m call \<longleftrightarrow>
     (\<exists>(r, p)\<in>set (rule_pairs ctx).
        rule_applies (ac_Cfg ctx) r p \<and> rule_hit r p \<and>
        call = (if rule_action r = ''kill'' then CallKill (p_PID p) False else CallSuspend (p_PID p) False) \<and>
        rule_action r \<in> {''kill'', ''suspend''} \<and>
        (case mget m (rule_key r (p_PID p)) of
           None \<Rightarrow> ru_For r \<le> 0
         | Some st \<Rightarrow> ru_For r \<le> t_sub (ac_Now ctx) (rs_matchingSince st) \<and>
             (rs_lastActionAt st = zero_time \<or> rule_cooldown r \<le> t_sub (ac_Now ctx) (rs_lastActionAt st))))"

lemma rule_step_calls:
  assumes "rp \<in> set (rule_pairs ctx)" and "mget m (pair_key rp) = mget m0 (pair_key rp)"
    and "rule_step ctx (Some (recorder res)) rp (m, l, sk, w) = (m', l', sk', w')"
  shows "w' = w \<or> (\<exists>call. w' = w @ [call] \<and> call_ok ctx m0 call)"
proof -
  obtain r p where rp: "rp = (r, p)" by (cases rp)
  show ?thesis
  proof (cases "w' = w")
    case False
    let ?st = "case mget m (rule_key r (p_PID p)) of
                 Some st \<Rightarrow> st | None \<Rightarrow> \<lparr>rs_matchingSince = ac_Now ctx, rs_lastActionAt = zero_time\<rparr>"
    have g: "rule_applies (ac_Cfg ctx) r p" "rule_hit r p" "\<not> t_sub (ac_Now ctx) (rs_matchingSince ?st) < ru_For r"
      "t_is_zero (rs_lastActionAt ?st) \<or> \<not> t_sub (ac_Now ctx) (rs_lastActionAt ?st) < rule_cooldown r"
      "rule_action r \<in> {''kill'', ''suspend''}"
      "w' = fst (rule_act (recorder res) (rule_action r) (p_PID p) w)"
      using assms(3) False
      by (auto simp: rp rule_step_def Let_def rule_act_def [of "recorder res"] split: if_splits prod.splits bool.splits)
    have "w' = w @ [if rule_action r = ''kill'' then CallKill (p_PID p) False else CallSuspend (p_PID p) False]"
      using g(5,6) by (auto simp: rule_act_def recorder_def)
    moreover have "call_ok ctx m0 (if rule_action r = ''kill'' then CallKill (p_PID p) False else CallSuspend (p_PID p) False)"
      unfolding call_ok_def
      using assms(1,2) g by (intro bexI [of _ "(r, p)"]) (auto simp: rp pair_key_def t_is_zero_def split: option.splits)
    ultimately show ?thesis by blast
  qed simp
qed


text \<open>A rule, a process it matches, and the same process below the threshold.\<close>

definition kill_rule :: Rule where
  "kill_rule = \<lparr>ru_Name = ''spin'', ru_Enabled = True, ru_Match = ''spin'', ru_Metric = ''cpu'', ru_Op = ''>='',
     ru_Threshold = Fin 90, ru_For = 0, ru_Action = ''kill'', ru_Cooldown = hour\<rparr>"

definition rules_ctx :: "gotime \<Rightarrow> ProcessInfo \<Rightarrow> AnalysisContext" where
  "rules_ctx now p = (demo_ctx now [p])\<lparr>ac_Cfg := demo_cfg\<lparr>c_Rules := [kill_rule]\<rparr>\<rparr>"

lemma kill_rule_facts:
  "rule_action kill_rule = ''kill''" "rule_applies (demo_cfg\<lparr>c_Rules := rs\<rparr>) kill_rule busy_proc"
  "rule_hit kill_rule busy_proc" "\<not> rule_hit kill_rule (busy_proc\<lparr>p_CPUPercent := Fin 1\<rparr>)"
  "rule_applies (demo_cfg\<lparr>c_Rules := rs\<rparr>) kill_rule (busy_proc\<lparr>p_CPUPercent := Fin 1\<rparr>)"
proof -
  have *: "trim_space ''spin'' = ''spin''" "trim_space ''cpu'' = ''cpu''" "trim_space ''>='' = ''>=''"
    "trim_space ''kill'' = ''kill''"
    by (rule trim_space_printable; simp)+
  have low: "to_lower ''spin'' = ''spin''" "to_lower ''cpu'' = ''cpu''" "to_lower ''kill'' = ''kill''"
    "to_lower ''spin.exe'' = ''spin.exe''"
    by code_simp+
  have sub: "str_contains ''spin.exe'' ''spin''" by code_simp
  show "rule_action kill_rule = ''kill''" by (simp add: rule_action_def kill_rule_def * low)
  have "\<not> isIgnoredProcess (demo_cfg\<lparr>c_Rules := rs\<rparr>) n" for n rs
    by (simp add: isIgnoredProcess_def demo_cfg_def)
  then show "rule_applies (demo_cfg\<lparr>c_Rules := rs\<rparr>) kill_rule busy_proc"
    "rule_applies (demo_cfg\<lparr>c_Rules := rs\<rparr>) kill_rule (busy_proc\<lparr>p_CPUPercent := Fin 1\<rparr>)"
    by (simp_all add: rule_applies_def rule_on_def kill_rule_def * low sub busy_proc_def zero_proc_def ruleMetricValue_def)
  show "rule_hit kill_rule busy_proc" "\<not> rule_hit kill_rule (busy_proc\<lparr>p_CPUPercent := Fin 1\<rparr>)"
    by (simp_all add: rule_hit_def kill_rule_def * low busy_proc_def zero_proc_def ruleMetricValue_def compareRule_def
        ruleOpOrDefault_def fle_def feq_def)
qed


text \<open>
  The cooldown does not survive a miss. A process that meets a rule's condition, misses it in one
  tick and meets it again is acted on twice, however long the cooldown and however short the time
  between: the tick that misses deletes the state that holds the time of the last action.
\<close>

theorem rule_cooldown_lost_on_flap:
  assumes "rule_action r = ''kill''" and "ru_For r \<le> 0" and "p_PID q = p_PID p"
    and "list_all (\<lambda>ctx. c_Rules (ac_Cfg ctx) = [r]) [c1, c2, c3]"
    and "ss_Processes (ac_Snapshot c1) = [p]" and "ss_Processes (ac_Snapshot c2) = [q]"
    and "ss_Processes (ac_Snapshot c3) = [p]"
    and "rule_applies (ac_Cfg c1) r p" and "rule_applies (ac_Cfg c2) r q" and "rule_applies (ac_Cfg c3) r p"
    and "rule_hit r p" and "\<not> rule_hit r q"
  shows "snd (snd (fold (rules_Analyze (Some (recorder (\<lambda>c. None)))) [c1, c2, c3] ([], sk, []))) =
    [CallKill (p_PID p) False, CallKill (p_PID p) False]"
proof -
  let ?act = "Some (recorder (\<lambda>c. None))" and ?k = "rule_key r (p_PID p)"
  let ?new = "\<lambda>c. \<lparr>rs_matchingSince = ac_Now c, rs_lastActionAt = ac_Now c\<rparr>"
  have hit: "\<exists>sk'. rules_Analyze ?act c ([], sk, w) = ([(?k, ?new c)], sk', w @ [CallKill (p_PID p) False])"
    if "c_Rules (ac_Cfg c) = [r]" "ss_Processes (ac_Snapshot c) = [p]" "rule_applies (ac_Cfg c) r p" for c sk w
    using that assms(1,2,11)
    by (simp add: rules_Analyze_def rule_pairs_def rule_step_def rule_act_def recorder_def t_is_zero_def Let_def
        mfilter_def)
  have miss: "\<exists>sk'. rules_Analyze ?act c2 ([(?k, v)], sk, w) = ([], sk', w)" for v sk w
    using assms(3,4,6,9,12)
    by (simp add: rules_Analyze_def rule_pairs_def rule_step_def Let_def mfilter_def)
  obtain s1 where 1: "rules_Analyze ?act c1 ([], sk, []) = ([(?k, ?new c1)], s1, [CallKill (p_PID p) False])"
    using hit [of c1 sk "[]"] assms(4,5,8) by auto
  obtain s2 where 2: "rules_Analyze ?act c2 ([(?k, ?new c1)], s1, [CallKill (p_PID p) False]) =
      ([], s2, [CallKill (p_PID p) False])"
    using miss by blast
  obtain s3 where 3: "rules_Analyze ?act c3 ([], s2, [CallKill (p_PID p) False]) =
      ([(?k, ?new c3)], s3, [CallKill (p_PID p) False, CallKill (p_PID p) False])"
    using hit [of c3 s2 "[CallKill (p_PID p) False]"] assms(4,7,10) by auto
  show ?thesis by (simp add: 1 2 3)
qed

text \<open>Two kills of one process four seconds apart, under a rule with a cooldown of an hour.\<close>

theorem rule_cooldown_lost_on_flap_witness:
  "ru_Cooldown kill_rule = hour \<and>
   snd (snd (fold (rules_Analyze (Some (recorder (\<lambda>c. None))))
      [rules_ctx second busy_proc, rules_ctx (3 * second) (busy_proc\<lparr>p_CPUPercent := Fin 1\<rparr>),
       rules_ctx (5 * second) busy_proc] ([], empty_sink, []))) =
   [CallKill 7 False, CallKill 7 False]"
  using rule_cooldown_lost_on_flap [of kill_rule "busy_proc\<lparr>p_CPUPercent := Fin 1\<rparr>" busy_proc
      "rules_ctx second busy_proc" "rules_ctx (3 * second) (busy_proc\<lparr>p_CPUPercent := Fin 1\<rparr>)"
      "rules_ctx (5 * second) busy_proc" empty_sink] kill_rule_facts
  by (simp add: rules_ctx_def demo_ctx_def) (simp add: kill_rule_def busy_proc_def)

text \<open>
  The severity of a rule's alert is decided on the action as written, the action itself on the trimmed
  text: with a space around it the process is killed under a mere warning.
\<close>

lemma untrimmed_action_is_warning:
  "rule_action (kill_rule\<lparr>ru_Action := '' kill''\<rparr>) = ''kill'' \<and>
   al_Severity (rule_alert (kill_rule\<lparr>ru_Action := '' kill''\<rparr>) p v) = SeverityWarning"
proof -
  have "to_lower (trim_space '' kill'') = ''kill''" "to_lower '' kill'' = '' kill''" by code_simp+
  then show ?thesis by (simp add: rule_action_def rule_alert_def Let_def)
qed

end
