(* ===== verification/Engine.thy ===== *)
theory Engine
  imports Rules
begin

text \<open>
  \<^verbatim>\<open>internal/anomaly/engine.go\<close>: one tick of the analysis loop runs the nine detectors, in the order of
  \<^verbatim>\<open>registerDefaults\<close>, on one snapshot and one configuration. A detector that panicked would be
  recovered and skipped; the modelled bodies are total. What the sink interface promises for each
  detector holds for the whole tick and for any sequence of ticks.
\<close>

record 'w Engine =
  en_cfg :: Config
  en_actuator :: "'w Actuator option"
  en_spawn :: SpawnState
  en_hung :: "(pid, hungState) gomap"
  en_runaway :: "(pid, gotime) gomap"
  en_network :: "(pid, Welford) gomap"
  en_newproc :: "(pid, unit) gomap"
  en_rules :: "(gostring, ruleState) gomap"

definition NewEngine :: "Config \<Rightarrow> 'w Engine" where
  "NewEngine cfg = \<lparr>en_cfg = cfg, en_actuator = None,
     en_spawn = \<lparr>sw_parentEvents = [], sw_knownPIDs = []\<rparr>, en_hung = [], en_runaway = [],
     en_network = [], en_newproc = [], en_rules = []\<rparr>"

definition SetActuator :: "'w Actuator option \<Rightarrow> 'w Engine \<Rightarrow> 'w Engine" where
  "SetActuator a e = e\<lparr>en_actuator := a\<rparr>"

definition SetConfig :: "Config \<Rightarrow> 'w Engine \<Rightarrow> 'w Engine" where
  "SetConfig cfg e = e\<lparr>en_cfg := cfg\<rparr>"

definition analysisInterval :: "Config option \<Rightarrow> duration" where
  "analysisInterval cfg =
     (let interval = (case cfg of None \<Rightarrow> 2 * second | Some c \<Rightarrow> an_AnalysisInterval (c_Anomaly c))
      in if interval < 500 * millisecond then 2 * second else interval)"

text \<open>What a tick reads from outside: the clock, the environment variables, the map orders.\<close>

record tick_env =
  te_now :: gotime
  te_getenv :: "gostring \<Rightarrow> gostring"
  te_spawn_order :: "gotime list range_order"
  te_conn_order :: "int range_order"

definition analysis_ctx :: "tick_env \<Rightarrow> Config \<Rightarrow> SystemSnapshot \<Rightarrow> Store \<Rightarrow> AnalysisContext" where
  "analysis_ctx env cfg snap store = \<lparr>ac_Now = te_now env, ac_Snapshot = snap, ac_Store = store, ac_Cfg = cfg\<rparr>"

definition run_detectors ::
  "tick_env \<Rightarrow> AnalysisContext \<Rightarrow> 'w Engine \<times> Sink \<times> 'w \<Rightarrow> 'w Engine \<times> Sink \<times> 'w" where
  "run_detectors env ctx = (\<lambda>(e, sk, w).
     let (spawn, sk) = spawn_Analyze (te_spawn_order env) ctx (en_spawn e, sk);
         sk = leak_Analyze ctx sk;
         (hung, sk) = hung_Analyze ctx (en_hung e, sk);
         sk = orphan_Analyze ctx sk;
         (runaway, sk) = runaway_Analyze ctx (en_runaway e, sk);
         sk = port_Analyze ctx sk;
         (network, sk) = network_Analyze (te_conn_order env) ctx (en_network e, sk);
         (newproc, sk) = newproc_Analyze (te_getenv env) ctx (en_newproc e, sk);
         (rules, sk, w) = rules_Analyze (en_actuator e) ctx (en_rules e, sk, w)
     in (e\<lparr>en_spawn := spawn, en_hung := hung, en_runaway := runaway, en_network := network,
            en_newproc := newproc, en_rules := rules\<rparr>, sk, w))"

definition analyzeOnce ::
  "tick_env \<Rightarrow> Store \<Rightarrow> 'w Engine \<times> Sink \<times> 'w \<Rightarrow> 'w Engine \<times> Sink \<times> 'w" where
  "analyzeOnce env store = (\<lambda>(e, sk, w).
     case Latest store of
       None \<Rightarrow> (e, sk, w)
     | Some snap \<Rightarrow> run_detectors env (analysis_ctx env (en_cfg e) snap store) (e, sk, w))"

section \<open>Invariants of a tick\<close>

context sink_invariant begin

lemmas detectors_keep = spawn_keeps leak_keeps hung_keeps orphan_keeps runaway_keeps port_keeps
  network_keeps newproc_keeps rules_keeps

lemma run_detectors_keeps:
  assumes "I s"
  shows "I (fst (snd (run_detectors env ctx (e, s, w))))"
proof -
  obtain m1 s1 where 1: "spawn_Analyze (te_spawn_order env) ctx (en_spawn e, s) = (m1, s1)" by fastforce
  obtain m2 s2 where 2: "hung_Analyze ctx (en_hung e, leak_Analyze ctx s1) = (m2, s2)" by fastforce
  obtain m3 s3 where 3: "runaway_Analyze ctx (en_runaway e, orphan_Analyze ctx s2) = (m3, s3)" by fastforce
  obtain m4 s4 where 4: "network_Analyze (te_conn_order env) ctx (en_network e, port_Analyze ctx s3) = (m4, s4)"
    by fastforce
  obtain m5 s5 where 5: "newproc_Analyze (te_getenv env) ctx (en_newproc e, s4) = (m5, s5)" by fastforce
  obtain m6 s6 w6 where 6: "rules_Analyze (en_actuator e) ctx (en_rules e, s5, w) = (m6, s6, w6)"
    by (metis prod_cases3)
  have "I (snd (spawn_Analyze (te_spawn_order env) ctx (en_spawn e, s)))" by (intro spawn_keeps assms)
  then have i1: "I s1" by (simp add: 1)
  have "I (snd (hung_Analyze ctx (en_hung e, leak_Analyze ctx s1)))" by (intro hung_keeps leak_keeps i1)
  then have i2: "I s2" by (simp add: 2)
  have "I (snd (runaway_Analyze ctx (en_runaway e, orphan_Analyze ctx s2)))" by (intro runaway_keeps orphan_keeps i2)
  then have i3: "I s3" by (simp add: 3)
  have "I (snd (network_Analyze (te_conn_order env) ctx (en_network e, port_Analyze ctx s3)))"
    by (intro network_keeps port_keeps i3)
  then have i4: "I s4" by (simp add: 4)
  have "I (snd (newproc_Analyze (te_getenv env) ctx (en_newproc e, s4)))" by (intro newproc_keeps i4)
  then have i5: "I s5" by (simp add: 5)
  have "I (fst (snd (rules_Analyze (en_actuator e) ctx (en_rules e, s5, w))))" by (intro rules_keeps i5)
  then have "I s6" by (simp add: 6)
  then show ?thesis using 1 2 3 4 5 6 by (simp add: run_detectors_def Let_def)
qed

lemma analyzeOnce_keeps: "I s \<Longrightarrow> I (fst (snd (analyzeOnce env store (e, s, w))))"
  by (simp add: analyzeOnce_def run_detectors_keeps split: option.splits)

lemma ticks_keep: "I s \<Longrightarrow> I (fst (snd (fold (\<lambda>(env, store). analyzeOnce env store) ticks (e, s, w))))"
proof (induction ticks arbitrary: e s w)
  case (Cons t ticks)
  obtain env store where t: "t = (env, store)" by (cases t)
  obtain e1 s1 w1 where 1: "analyzeOnce env store (e, s, w) = (e1, s1, w1)" by (metis prod_cases3)
  have "I s1" using analyzeOnce_keeps [OF Cons.prems, of env store e w] 1 by simp
  then show ?case using Cons.IH t 1 by simp
qed simp

end

context actuator_contract begin

lemma run_detectors_R:
  "en_actuator e = Some act \<Longrightarrow> R w (snd (snd (run_detectors env ctx (e, s, w)))) \<and>
     en_actuator (fst (run_detectors env ctx (e, s, w))) = Some act"
  by (auto simp: run_detectors_def Let_def split: prod.splits) (metis rules_R snd_conv)

lemma analyzeOnce_R:
  "en_actuator e = Some act \<Longrightarrow> R w (snd (snd (analyzeOnce env store (e, s, w)))) \<and>
     en_actuator (fst (analyzeOnce env store (e, s, w))) = Some act"
  by (auto simp: analyzeOnce_def run_detectors_R R_refl split: option.splits)

lemma ticks_R:
  "en_actuator e = Some act \<Longrightarrow> R w (snd (snd (fold (\<lambda>(env, store). analyzeOnce env store) ticks (e, s, w))))"
proof (induction ticks arbitrary: e s w)
  case (Cons t ticks)
  obtain env store where t: "t = (env, store)" by (cases t)
  obtain e1 s1 w1 where 1: "analyzeOnce env store (e, s, w) = (e1, s1, w1)" by (metis prod_cases3)
  have "R w w1" "en_actuator e1 = Some act" using analyzeOnce_R [OF Cons.prems, of w env store s] 1 by simp_all
  then show ?case using Cons.IH [of e1 w1 s1] R_trans t 1 by simp
qed (simp add: R_refl)

end

text \<open>
  However many ticks the engine runs, on whatever snapshots, configurations, map orders and
  actuator, an alert store that was well formed stays well formed: every active alert is filed once,
  under its own key, none is snoozed, and the history keeps its bound; and a positive cap on the number
  of active alerts that was kept is never exceeded.
\<close>

theorem engine_keeps_alert_store:
  assumes "alerts_inv (sk_alerts sk)"
    and "fold (\<lambda>(env, store). analyzeOnce env store) ticks (e, sk, w) = (e', sk', w')"
  shows "alerts_inv (sk_alerts sk') \<and> (capped (sk_alerts sk) \<longrightarrow> capped (sk_alerts sk'))"
  using sink_alerts.ticks_keep [OF assms(1), of ticks e w] sink_capped.ticks_keep [of sk ticks e w] assms(2)
  by simp

theorem engine_keeps_alert_store_witness:
  "capped (sk_alerts (fst (snd (analyzeOnce
     \<lparr>te_now = 0, te_getenv = (\<lambda>v. []), te_spawn_order = id, te_conn_order = id\<rparr>
     (SetLatest demo_snapshot (NewStore 60 10)) (NewEngine DefaultConfig, empty_sink, ())))))"
proof -
  let ?env = "\<lparr>te_now = 0, te_getenv = (\<lambda>v. []), te_spawn_order = id, te_conn_order = id\<rparr>"
  let ?st = "SetLatest demo_snapshot (NewStore 60 10)"
  obtain e s w where a: "analyzeOnce ?env ?st (NewEngine DefaultConfig, empty_sink, ()) = (e, s, w)"
    by (metis prod_cases3)
  then have "fold (\<lambda>(env, store). analyzeOnce env store) [(?env, ?st)] (NewEngine DefaultConfig, empty_sink, ()) = (e, s, w)"
    by simp
  moreover have "alerts_inv (sk_alerts empty_sink)" "capped (sk_alerts empty_sink)"
    by (simp add: empty_sink_def, simp add: empty_sink_def capped_def NewAlertStore_def)
  ultimately show ?thesis
    using engine_keeps_alert_store [of empty_sink "[(?env, ?st)]" "NewEngine DefaultConfig" "()" e s w] a by simp
qed

end
