(* ===== verification/Safety.thy ===== *)
theory Safety
  imports Storage Config
begin

text \<open>
  \<^verbatim>\<open>internal/controller/safety.go\<close>: the policy every destructive operation asks first. The
  environment variable \<^verbatim>\<open>SystemRoot\<close> is an argument. \<^verbatim>\<open>filepath.Clean\<close> is exact for paths with a
  drive letter, which is what process images and the system root have; for a UNC, device or relative
  path it is an unspecified function.
\<close>

section \<open>Errors of the controller\<close>

definition ErrProtected :: goerror where "ErrProtected = ErrNew ''process is protected''"
definition ErrCritical :: goerror where "ErrCritical = ErrNew ''process is marked critical by Windows''"
definition ErrConfirmNeeded :: goerror where
  "ErrConfirmNeeded = ErrNew ''operation requires explicit confirmation''"
definition ErrNotFound :: goerror where "ErrNotFound = ErrNew ''process not found''"
definition ErrSelf :: goerror where
  "ErrSelf = ErrNew ''operation not allowed on the running Windows Task Manager process''"

lemmas controller_errors = ErrProtected_def ErrCritical_def ErrConfirmNeeded_def ErrNotFound_def ErrSelf_def

section \<open>Cleaning a path\<close>

definition is_sep :: "char \<Rightarrow> bool" where
  "is_sep c \<longleftrightarrow> c = CHR 0x5C \<or> c = CHR ''/''"

fun split_path :: "gostring \<Rightarrow> gostring list" where
  "split_path [] = [[]]"
| "split_path (c # s) =
     (if is_sep c then [] # split_path s
      else case split_path s of [] \<Rightarrow> [[c]] | w # ws \<Rightarrow> (c # w) # ws)"

text \<open>The elements kept, last first: empty ones and dots vanish, a double dot takes the last one back.\<close>

fun clean_elems :: "bool \<Rightarrow> gostring list \<Rightarrow> gostring list \<Rightarrow> gostring list" where
  "clean_elems rooted out [] = out"
| "clean_elems rooted out (w # ws) =
     (if w = [] \<or> w = ''.'' then clean_elems rooted out ws
      else if w = ''..'' then
        (case out of
           [] \<Rightarrow> clean_elems rooted (if rooted then [] else [w]) ws
         | x # xs \<Rightarrow> if x = ''..'' then clean_elems rooted (w # out) ws else clean_elems rooted xs ws)
      else clean_elems rooted (w # out) ws)"

text \<open>
  How much of a path is its volume: a drive, the host and share of a network path, or a device. The guard
  \<^verbatim>\<open>filepath.Clean\<close> puts before a path without a volume that comes to look like one is left out:
  the paths of running programs have a volume.
\<close>

fun to_nth_sep :: "nat \<Rightarrow> gostring \<Rightarrow> nat" where
  "to_nth_sep n [] = 0"
| "to_nth_sep n (c # s) =
     (if is_sep c then (if n \<le> 1 then 0 else Suc (to_nth_sep (n - 1) s)) else Suc (to_nth_sep n s))"

fun has_volume_prefix :: "gostring \<Rightarrow> gostring \<Rightarrow> bool" where
  "has_volume_prefix s [] \<longleftrightarrow> s = [] \<or> is_sep (hd s)"
| "has_volume_prefix [] (p # ps) \<longleftrightarrow> False"
| "has_volume_prefix (c # s) (p # ps) \<longleftrightarrow>
     (if is_sep p then is_sep c else upper_byte c = upper_byte p) \<and> has_volume_prefix s ps"

definition volume_len :: "gostring \<Rightarrow> nat" where
  "volume_len p =
     (let sep = CHR 0x5C in
      if 2 \<le> length p \<and> p ! 1 = CHR '':'' then 2
      else if p = [] \<or> \<not> is_sep (hd p) then 0
      else if has_volume_prefix p ([sep, sep] @ ''.'' @ [sep] @ ''UNC'') then min (length p) (8 + to_nth_sep 2 (drop 8 p))
      else if has_volume_prefix p ([sep, sep] @ ''.'') \<or> has_volume_prefix p ([sep, sep] @ ''?'') \<or> has_volume_prefix p (sep # ''??'')
      then (if length p = 3 then 3 else 4 + to_nth_sep 1 (drop 4 p))
      else if 2 \<le> length p \<and> is_sep (p ! 1) then 2 + to_nth_sep 2 (drop 2 p)
      else 0)"

definition from_slash :: "gostring \<Rightarrow> gostring" where
  "from_slash = map (\<lambda>c. if c = CHR ''/'' then CHR 0x5C else c)"

definition filepath_clean :: "gostring \<Rightarrow> gostring" where
  "filepath_clean p =
     (let n = volume_len p; vol = from_slash (take n p); rest = drop n p in
      if rest = [] then (if 1 < n \<and> is_sep (p ! 0) \<and> is_sep (p ! 1) then from_slash p else p @ ''.'')
      else
        (let rooted = is_sep (hd rest);
             elems = rev (clean_elems rooted [] (split_path rest));
             body = str_join [CHR 0x5C] elems
         in vol @ (if rooted then CHR 0x5C # body else if elems = [] then ''.'' else body)))"

section \<open>The policy\<close>

definition default_root :: gostring where
  "default_root = ''C:'' @ [CHR 0x5C] @ ''Windows''"

definition isSystemPath :: "gostring \<Rightarrow> gostring \<Rightarrow> bool" where
  "isSystemPath sysroot path =
     (if path = [] then False
      else
        (let systemRoot = trim_space sysroot;
             systemRoot = (if systemRoot = [] then default_root else systemRoot);
             root = to_lower (filepath_clean systemRoot);
             p = to_lower (filepath_clean path);
             root = (if has_suffix root [CHR 0x5C] then root else root @ [CHR 0x5C])
         in has_prefix p root))"

record Safety =
  sf_cfg :: "Config option"
  sf_selfPID :: pid

definition newSafetyWithPID :: "Config option \<Rightarrow> int \<Rightarrow> Safety" where
  "newSafetyWithPID cfg p =
     \<lparr>sf_cfg = cfg,
      sf_selfPID = (if 0 < p then (if 4294967295 < p then 4294967295 else word_of_int p) else 0)\<rparr>"

definition Safety_SetConfig :: "Config option \<Rightarrow> Safety \<Rightarrow> Safety" where
  "Safety_SetConfig cfg s = s\<lparr>sf_cfg := cfg\<rparr>"

definition is_protected_name :: "Config \<Rightarrow> gostring \<Rightarrow> bool" where
  "is_protected_name cfg name =
     list_ex (\<lambda>p. equal_fold p (to_lower name) \<or> equal_fold p name) (co_ProtectedProcesses (c_Controller cfg))"

definition Check :: "gostring \<Rightarrow> Safety \<Rightarrow> ProcessInfo \<Rightarrow> bool \<Rightarrow> goerror option" where
  "Check sysroot s info confirmed =
     (case sf_cfg s of
        None \<Rightarrow> Some ErrProtected
      | Some cfg \<Rightarrow>
          if p_PID info = sf_selfPID s then Some ErrSelf
          else if p_PID info = 0 \<or> p_PID info = 4 then Some ErrCritical
          else if p_IsCritical info then Some ErrCritical
          else if is_protected_name cfg (p_Name info) then Some ErrProtected
          else if isSystemPath sysroot (p_ExePath info) \<and> co_ConfirmKillSystem (c_Controller cfg) \<and> \<not> confirmed
          then Some ErrConfirmNeeded
          else None)"


text \<open>The default configuration, which protects the local security authority.\<close>

definition demo_safety :: Safety where
  "demo_safety = newSafetyWithPID (Some DefaultConfig) 1234"


text \<open>Climbing out of the Windows directory does not make a path a system path, in any mix of case.\<close>

lemma isSystemPath_examples:
  "isSystemPath [] (''c:'' @ [CHR 0x5C] @ ''WINDOWS/System32'' @ [CHR 0x5C] @ ''cmd.exe'')"
  "\<not> isSystemPath [] (''C:'' @ [CHR 0x5C] @ ''Windows'' @ [CHR 0x5C] @ ''..'' @ [CHR 0x5C] @ ''tmp.exe'')"
  "filepath_clean ''//host/share/a/../b/'' = from_slash ''//host/share/b''" "filepath_clean ''a/./..'' = ''.''"
  by code_simp+

end
