(* ===== verification/Controller.thy ===== *)
theory Controller
  imports Safety Engine "HOL-Library.Multiset"
begin

text \<open>
  \<^verbatim>\<open>internal/controller/controller.go\<close> and its seams to Windows. The operating system is an oracle
  that answers each call from the calls made so far; the world records the calls, the handles open and
  the events published. The store can change between any two calls (the collector runs meanwhile), so
  reading it is a call too. Thread and process ids, handles and limits keep their width.
\<close>

unbundle bit_operations_syntax

section \<open>The operating system\<close>

type_synonym handle = u64

datatype syscall =
    SysLatest
  | SysOpenProcess u32 pid
  | SysTerminate handle u32
  | SysClose handle
  | SysSnapshot u32
  | SysThreadFirst handle
  | SysThreadNext handle
  | SysOpenThread u32 u32
  | SysSuspendThread handle
  | SysResumeThread handle
  | SysSetPriority handle u32
  | SysSetAffinity handle u64
  | SysCreateJob
  | SysAssignJob handle handle
  | SysSetMemLimit handle u32 u64
  | SysSetCpuRate handle u32 u32

record os =
  os_store :: "syscall list \<Rightarrow> Store"
  os_handle :: "syscall list \<Rightarrow> syscall \<Rightarrow> goerror + handle"
  os_unit :: "syscall list \<Rightarrow> syscall \<Rightarrow> goerror option"
  os_threads :: "syscall list \<Rightarrow> (pid \<times> u32) list \<times> goerror"
  os_sysroot :: gostring

datatype ctl_event = CtlEvent gostring pid "(gostring \<times> anyval2) list" and anyval2 = PInt int | PStr gostring

record World =
  w_trace :: "syscall list"
  w_open :: "handle list"
  w_events :: "ctl_event list"

definition log_call :: "syscall \<Rightarrow> World \<Rightarrow> World" where
  "log_call c w = w\<lparr>w_trace := w_trace w @ [c]\<rparr>"

definition sys_open :: "os \<Rightarrow> syscall \<Rightarrow> World \<Rightarrow> World \<times> (goerror + handle)" where
  "sys_open os c w =
     (case os_handle os (w_trace w) c of
        Inl e \<Rightarrow> (log_call c w, Inl e)
      | Inr h \<Rightarrow> ((log_call c w)\<lparr>w_open := h # w_open w\<rparr>, Inr h))"

definition sys_do :: "os \<Rightarrow> syscall \<Rightarrow> World \<Rightarrow> World \<times> goerror option" where
  "sys_do os c w = (log_call c w, os_unit os (w_trace w) c)"

text \<open>\<^verbatim>\<open>CloseHandleSafe\<close>: nothing for the null handle, and no error to report.\<close>

definition sys_close :: "handle \<Rightarrow> World \<Rightarrow> World" where
  "sys_close h w = (if h = 0 then w else (log_call (SysClose h) w)\<lparr>w_open := remove1 h (w_open w)\<rparr>)"

definition read_latest :: "os \<Rightarrow> World \<Rightarrow> World \<times> SystemSnapshot option" where
  "read_latest os w = (log_call SysLatest w, Latest (os_store os (w_trace w)))"

section \<open>Controller\<close>

record jobEntry =
  je_job :: handle
  je_pid :: pid
  je_cpuPct :: int
  je_memBytes :: u64

record Controller =
  ct_safety :: Safety
  ct_emitter :: bool
  ct_jobs :: "(pid, jobEntry) gomap"

definition NewController :: "Config option \<Rightarrow> int \<Rightarrow> bool \<Rightarrow> Controller" where
  "NewController cfg selfpid emitter =
     \<lparr>ct_safety = newSafetyWithPID cfg selfpid, ct_emitter = emitter, ct_jobs = []\<rparr>"

definition Ctl_SetConfig :: "Config option \<Rightarrow> Controller \<Rightarrow> Controller" where
  "Ctl_SetConfig cfg c = c\<lparr>ct_safety := Safety_SetConfig cfg (ct_safety c)\<rparr>"

definition ctl_findProcess :: "os \<Rightarrow> pid \<Rightarrow> World \<Rightarrow> World \<times> (goerror + ProcessInfo)" where
  "ctl_findProcess os p w =
     (case read_latest os w of
        (w, None) \<Rightarrow> (w, Inl ErrNotFound)
      | (w, Some snap) \<Rightarrow>
          (case first_with_pid p (ss_Processes snap) of
             None \<Rightarrow> (w, Inl ErrNotFound)
           | Some info \<Rightarrow> (w, Inr info)))"

definition ctl_emit :: "Controller \<Rightarrow> gostring \<Rightarrow> pid \<Rightarrow> (gostring \<times> anyval2) list \<Rightarrow> World \<Rightarrow> World" where
  "ctl_emit c name p extra w =
     (if ct_emitter c then w\<lparr>w_events := w_events w @ [CtlEvent name p extra]\<rparr> else w)"

text \<open>Finding the process and asking the policy, which all guarded operations do first.\<close>

definition guard :: "os \<Rightarrow> Controller \<Rightarrow> pid \<Rightarrow> bool \<Rightarrow> World \<Rightarrow> World \<times> (goerror + ProcessInfo)" where
  "guard os c p confirm w =
     (case ctl_findProcess os p w of
        (w, Inl e) \<Rightarrow> (w, Inl e)
      | (w, Inr info) \<Rightarrow>
          (case Check (os_sysroot os) (ct_safety c) info confirm of
             Some e \<Rightarrow> (w, Inl e)
           | None \<Rightarrow> (w, Inr info)))"

definition PROCESS_TERMINATE :: u32 where "PROCESS_TERMINATE = 1"
definition PROCESS_SET_INFORMATION :: u32 where "PROCESS_SET_INFORMATION = 512"
definition PROCESS_SET_QUOTA :: u32 where "PROCESS_SET_QUOTA = 256"
definition THREAD_SUSPEND_RESUME :: u32 where "THREAD_SUSPEND_RESUME = 2"

definition Kill :: "os \<Rightarrow> Controller \<Rightarrow> pid \<Rightarrow> bool \<Rightarrow> World \<Rightarrow> World \<times> goerror option" where
  "Kill os c p confirm w =
     (case guard os c p confirm w of
        (w, Inl e) \<Rightarrow> (w, Some e)
      | (w, Inr info) \<Rightarrow>
          (case sys_open os (SysOpenProcess PROCESS_TERMINATE p) w of
             (w, Inl e) \<Rightarrow> (w, Some (Errorf ''open process: %w'' [FWrap e]))
           | (w, Inr h) \<Rightarrow>
               (case sys_do os (SysTerminate h 1) w of
                  (w, Some e) \<Rightarrow> (sys_close h w, Some (Errorf ''terminate: %w'' [FWrap e]))
                | (w, None) \<Rightarrow>
                    (sys_close h (ctl_emit c ''controller.killed'' p [(''name'', PStr (p_Name info))] w), None))))"

section \<open>Descendants\<close>

definition child_map :: "ProcessInfo list \<Rightarrow> (pid, pid list) gomap" where
  "child_map procs =
     fold (\<lambda>p m. mput (p_ParentPID p) ((case mget m (p_ParentPID p) of None \<Rightarrow> [] | Some cs \<Rightarrow> cs) @ [p_PID p]) m)
       procs []"

definition children_of :: "(pid, pid list) gomap \<Rightarrow> pid \<Rightarrow> pid list" where
  "children_of m p = (case mget m p of None \<Rightarrow> [] | Some cs \<Rightarrow> cs)"

text \<open>
  The stack grows at its end. There is no record of what was visited, so the loop need not end:
  \<open>None\<close> is the call that does not return.
\<close>

partial_function (option) descend ::
  "(pid, pid list) gomap \<Rightarrow> pid list \<Rightarrow> pid list \<Rightarrow> pid list option" where
  "descend m stack out =
     (if stack = [] then Some out
      else descend m (butlast stack @ children_of m (last stack)) (out @ [last stack]))"

definition collectDescendants :: "ProcessInfo list \<Rightarrow> pid \<Rightarrow> pid list option" where
  "collectDescendants procs rt =
     (let m = child_map procs in descend m (children_of m rt) [])"

fun kill_all :: "os \<Rightarrow> Controller \<Rightarrow> bool \<Rightarrow> pid list \<Rightarrow> World \<Rightarrow> nat \<Rightarrow> goerror option \<Rightarrow>
    World \<times> nat \<times> goerror option" where
  "kill_all os c confirm [] w killed firstErr = (w, killed, firstErr)"
| "kill_all os c confirm (p # ps) w killed firstErr =
     (case Kill os c p confirm w of
        (w, Some e) \<Rightarrow> kill_all os c confirm ps w killed (if firstErr = None then Some e else firstErr)
      | (w, None) \<Rightarrow> kill_all os c confirm ps w (killed + 1) firstErr)"

definition KillTree :: "os \<Rightarrow> Controller \<Rightarrow> pid \<Rightarrow> bool \<Rightarrow> World \<Rightarrow> (World \<times> nat \<times> goerror option) option" where
  "KillTree os c rt confirm w =
     (case read_latest os w of
        (w, None) \<Rightarrow> Some (w, 0, Some ErrNotFound)
      | (w, Some snap) \<Rightarrow>
          (case collectDescendants (ss_Processes snap) rt of
             None \<Rightarrow> None
           | Some ds \<Rightarrow> Some (kill_all os c confirm (ds @ [rt]) w 0 None)))"

section \<open>Suspending and resuming\<close>

definition ERROR_NO_MORE_FILES :: goerror where "ERROR_NO_MORE_FILES = ErrSys ''There are no more files.''"

text \<open>
  The walk over the threads of the system: the entries of the thread snapshot and the error that ends
  it. The counters are the threads seen and the first error.
\<close>

fun thread_walk :: "os \<Rightarrow> pid \<Rightarrow> bool \<Rightarrow> handle \<Rightarrow> (pid \<times> u32) list \<Rightarrow> World \<Rightarrow> nat \<Rightarrow> goerror option \<Rightarrow>
    World \<times> nat \<times> goerror option" where
  "thread_walk os p suspend snap [] w touched firstErr = (w, touched, firstErr)"
| "thread_walk os p suspend snap ((owner, tid) # ts) w touched firstErr =
     (let (w, touched, firstErr) =
        (if owner \<noteq> p then (w, touched, firstErr)
         else
           (case sys_open os (SysOpenThread THREAD_SUSPEND_RESUME tid) w of
              (w, Inl e) \<Rightarrow>
                (w, touched + 1,
                 if firstErr = None
                 then Some (Errorf ''open thread %d: %w'' [FInt (uint tid), FWrap e]) else firstErr)
            | (w, Inr h) \<Rightarrow>
                (case sys_do os (if suspend then SysSuspendThread h else SysResumeThread h) w of
                   (w, err) \<Rightarrow>
                     (sys_close h w, touched + 1,
                      case err of
                        None \<Rightarrow> firstErr
                      | Some e \<Rightarrow>
                          if firstErr = None
                          then Some (Errorf ''%s thread %d: %w''
                                 [FStr (if suspend then ''suspend'' else ''resume''), FInt (uint tid), FWrap e])
                          else firstErr))))
      in thread_walk os p suspend snap ts (log_call (SysThreadNext snap) w) touched firstErr)"

definition suspendOrResumeThreads :: "os \<Rightarrow> pid \<Rightarrow> bool \<Rightarrow> World \<Rightarrow> World \<times> goerror option" where
  "suspendOrResumeThreads os p suspend w =
     (case sys_open os (SysSnapshot 4) w of
        (w, Inl e) \<Rightarrow> (w, Some e)
      | (w, Inr snap) \<Rightarrow>
          (let (threads, final) = os_threads os (w_trace w); w = log_call (SysThreadFirst snap) w in
           if threads = [] then (sys_close snap w, Some final)
           else
             (let (w, touched, firstErr) = thread_walk os p suspend snap threads w 0 None in
              if \<not> errors_Is (Some final) ERROR_NO_MORE_FILES
              then (sys_close snap w, Some (Errorf ''enumerate threads: %w'' [FWrap final]))
              else if touched = 0
              then (sys_close snap w, Some (Errorf ''no threads found for pid %d'' [FInt (uint p)]))
              else (sys_close snap w, firstErr))))"

definition Suspend :: "os \<Rightarrow> Controller \<Rightarrow> pid \<Rightarrow> bool \<Rightarrow> World \<Rightarrow> World \<times> goerror option" where
  "Suspend os c p confirm w =
     (case guard os c p confirm w of
        (w, Inl e) \<Rightarrow> (w, Some e)
      | (w, Inr info) \<Rightarrow>
          (case suspendOrResumeThreads os p True w of
             (w, Some e) \<Rightarrow> (w, Some e)
           | (w, None) \<Rightarrow> (ctl_emit c ''controller.suspended'' p [(''name'', PStr (p_Name info))] w, None)))"

definition Resume :: "os \<Rightarrow> Controller \<Rightarrow> pid \<Rightarrow> World \<Rightarrow> World \<times> goerror option" where
  "Resume os c p w =
     (case suspendOrResumeThreads os p False w of
        (w, Some e) \<Rightarrow> (w, Some e)
      | (w, None) \<Rightarrow> (ctl_emit c ''controller.resumed'' p [] w, None))"

section \<open>Priority and affinity\<close>

definition priorityClassFromString :: "gostring \<Rightarrow> u32 option" where
  "priorityClassFromString s =
     (let s = to_lower s in
      if s = ''idle'' then Some 0x40
      else if s = ''below_normal'' \<or> s = ''below-normal'' then Some 0x4000
      else if s = ''normal'' then Some 0x20
      else if s = ''above_normal'' \<or> s = ''above-normal'' then Some 0x8000
      else if s = ''high'' then Some 0x80
      else if s = ''realtime'' then Some 0x100
      else None)"

text \<open>Open the process with the right to set information, make one call, close.\<close>

definition with_process :: "os \<Rightarrow> pid \<Rightarrow> (handle \<Rightarrow> syscall) \<Rightarrow> (World \<Rightarrow> World) \<Rightarrow> World \<Rightarrow> World \<times> goerror option" where
  "with_process os p call after w =
     (case sys_open os (SysOpenProcess PROCESS_SET_INFORMATION p) w of
        (w, Inl e) \<Rightarrow> (w, Some e)
      | (w, Inr h) \<Rightarrow>
          (case sys_do os (call h) w of
             (w, Some e) \<Rightarrow> (sys_close h w, Some e)
           | (w, None) \<Rightarrow> (sys_close h (after w), None)))"

definition SetPriority :: "os \<Rightarrow> Controller \<Rightarrow> pid \<Rightarrow> gostring \<Rightarrow> bool \<Rightarrow> World \<Rightarrow> World \<times> goerror option" where
  "SetPriority os c p priority confirm w =
     (case guard os c p confirm w of
        (w, Inl e) \<Rightarrow> (w, Some e)
      | (w, Inr info) \<Rightarrow>
          (case priorityClassFromString priority of
             None \<Rightarrow> (w, Some (Errorf ''unknown priority class %q'' [FStr priority]))
           | Some k \<Rightarrow>
               with_process os p (\<lambda>h. SysSetPriority h k)
                 (ctl_emit c ''controller.priority'' p [(''class'', PStr priority)]) w))"

definition SetAffinity :: "os \<Rightarrow> Controller \<Rightarrow> pid \<Rightarrow> u64 \<Rightarrow> bool \<Rightarrow> World \<Rightarrow> World \<times> goerror option" where
  "SetAffinity os c p amask confirm w =
     (case guard os c p confirm w of
        (w, Inl e) \<Rightarrow> (w, Some e)
      | (w, Inr info) \<Rightarrow>
          if amask = 0 then (w, Some (Errorf ''affinity mask must include at least one CPU'' []))
          else with_process os p (\<lambda>h. SysSetAffinity h amask)
                 (ctl_emit c ''controller.affinity'' p [(''mask'', PInt (uint amask))]) w)"

section \<open>Limits\<close>

definition drop_job :: "pid \<Rightarrow> Controller \<times> World \<Rightarrow> Controller \<times> World" where
  "drop_job p = (\<lambda>(c, w).
     case mget (ct_jobs c) p of
       None \<Rightarrow> (c, w)
     | Some j \<Rightarrow> (c\<lparr>ct_jobs := mdel p (ct_jobs c)\<rparr>, sys_close (je_job j) w))"

definition set_mem_limit :: "os \<Rightarrow> handle \<Rightarrow> u64 \<Rightarrow> World \<Rightarrow> World \<times> goerror option" where
  "set_mem_limit os job maxBytes w =
     (if 0 < maxBytes then sys_do os (SysSetMemLimit job 0x100 maxBytes) w else (w, None))"

definition cpu_rate :: "int \<Rightarrow> u32" where
  "cpu_rate cpuPct = word_of_int cpuPct * 100"

definition set_cpu_limit :: "os \<Rightarrow> handle \<Rightarrow> int \<Rightarrow> World \<Rightarrow> World \<times> goerror option" where
  "set_cpu_limit os job cpuPct w =
     (if 0 < cpuPct then sys_do os (SysSetCpuRate job 5 (cpu_rate cpuPct)) w else (w, None))"

text \<open>The part of \<^verbatim>\<open>Limit\<close> after the old job is dropped: a fresh job around the process.\<close>

definition new_job ::
  "os \<Rightarrow> Controller \<Rightarrow> pid \<Rightarrow> int \<Rightarrow> u64 \<Rightarrow> World \<Rightarrow> Controller \<times> World \<times> goerror option" where
  "new_job os c p cpuPct maxBytes w =
     (case sys_open os SysCreateJob w of
        (w, Inl e) \<Rightarrow> (c, w, Some (Errorf ''create job: %w'' [FWrap e]))
      | (w, Inr job) \<Rightarrow>
        (case sys_open os (SysOpenProcess (PROCESS_SET_QUOTA OR PROCESS_TERMINATE) p) w of
           (w, Inl e) \<Rightarrow> (c, sys_close job w, Some (Errorf ''open process: %w'' [FWrap e]))
         | (w, Inr procH) \<Rightarrow>
           (case sys_do os (SysAssignJob job procH) w of
              (w, Some e) \<Rightarrow>
                (c, sys_close procH (sys_close job w), Some (Errorf ''assign job: %w'' [FWrap e]))
            | (w, None) \<Rightarrow>
              (case set_mem_limit os job maxBytes w of
                 (w, Some e) \<Rightarrow>
                   (c, sys_close procH (sys_close job w), Some (Errorf ''set memory limit: %w'' [FWrap e]))
               | (w, None) \<Rightarrow>
                 (case set_cpu_limit os job cpuPct w of
                    (w, Some e) \<Rightarrow>
                      (c, sys_close procH (sys_close job w), Some (Errorf ''set cpu limit: %w'' [FWrap e]))
                  | (w, None) \<Rightarrow>
                      (c\<lparr>ct_jobs := mput p \<lparr>je_job = job, je_pid = p, je_cpuPct = cpuPct,
                           je_memBytes = maxBytes\<rparr> (ct_jobs c)\<rparr>,
                       sys_close procH
                         (ctl_emit c ''controller.limited'' p
                            [(''cpu_pct'', PInt cpuPct), (''mem_bytes'', PInt (uint maxBytes))] w),
                       None))))))"

definition Limit ::
  "os \<Rightarrow> Controller \<Rightarrow> pid \<Rightarrow> int \<Rightarrow> u64 \<Rightarrow> bool \<Rightarrow> World \<Rightarrow> Controller \<times> World \<times> goerror option" where
  "Limit os c p cpuPct maxBytes confirm w =
     (case guard os c p confirm w of
        (w, Inl e) \<Rightarrow> (c, w, Some e)
      | (w, Inr info) \<Rightarrow>
          if cpuPct < 0 \<or> 100 < cpuPct
          then (c, w, Some (Errorf ''cpu percent out of range: %d'' [FInt cpuPct]))
          else (let (c, w) = drop_job p (c, w) in new_job os c p cpuPct maxBytes w))"

definition ClearLimit :: "Controller \<Rightarrow> pid \<Rightarrow> World \<Rightarrow> Controller \<times> World \<times> goerror option" where
  "ClearLimit c p w =
     (case mget (ct_jobs c) p of
        None \<Rightarrow> (c, w, Some (Errorf ''no active limit for pid %d'' [FInt (uint p)]))
      | Some j \<Rightarrow>
          (let (c', w) = drop_job p (c, w)
           in (c', ctl_emit c ''controller.limit_cleared'' p [] w, None)))"

record LimitInfo =
  li_PID :: pid
  li_CPUPct :: int
  li_MemBytes :: u64

definition ActiveLimits :: "Controller \<Rightarrow> LimitInfo list" where
  "ActiveLimits c =
     map (\<lambda>(_, j). \<lparr>li_PID = je_pid j, li_CPUPct = je_cpuPct j, li_MemBytes = je_memBytes j\<rparr>) (ct_jobs c)"


section \<open>The operations as a client calls them\<close>

datatype ctl_op =
    OpKill pid bool
  | OpKillTree pid bool
  | OpSuspend pid bool
  | OpResume pid
  | OpPriority pid gostring bool
  | OpAffinity pid u64 bool
  | OpLimit pid int u64 bool
  | OpClearLimit pid

fun ctl_run :: "os \<Rightarrow> ctl_op \<Rightarrow> Controller \<times> World \<Rightarrow> (Controller \<times> World \<times> goerror option) option" where
  "ctl_run os (OpKill p b) (c, w) = Some (case Kill os c p b w of (w, e) \<Rightarrow> (c, w, e))"
| "ctl_run os (OpKillTree p b) (c, w) =
     map_option (\<lambda>(w, n, e). (c, w, e)) (KillTree os c p b w)"
| "ctl_run os (OpSuspend p b) (c, w) = Some (case Suspend os c p b w of (w, e) \<Rightarrow> (c, w, e))"
| "ctl_run os (OpResume p) (c, w) = Some (case Resume os c p w of (w, e) \<Rightarrow> (c, w, e))"
| "ctl_run os (OpPriority p s b) (c, w) = Some (case SetPriority os c p s b w of (w, e) \<Rightarrow> (c, w, e))"
| "ctl_run os (OpAffinity p k b) (c, w) = Some (case SetAffinity os c p k b w of (w, e) \<Rightarrow> (c, w, e))"
| "ctl_run os (OpLimit p cpu k b) (c, w) = Some (Limit os c p cpu k b w)"
| "ctl_run os (OpClearLimit p) (c, w) = Some (ClearLimit c p w)"

fun op_confirm :: "ctl_op \<Rightarrow> bool" where
  "op_confirm (OpKill p b) = b"
| "op_confirm (OpKillTree p b) = b"
| "op_confirm (OpSuspend p b) = b"
| "op_confirm (OpPriority p s b) = b"
| "op_confirm (OpAffinity p k b) = b"
| "op_confirm (OpLimit p cpu k b) = b"
| "op_confirm _ = False"

section \<open>A monitor of the calls\<close>

text \<open>
  What it means that an operation is guarded. The monitor reads the calls one by one and keeps the
  processes the last look at the store cleared, the threads of the last thread snapshot and the handles
  opened on cleared processes. It stops at a process or thread that was not cleared, and at an act
  through any other handle.
\<close>

definition cleared :: "os \<Rightarrow> Controller \<Rightarrow> bool \<Rightarrow> syscall list \<Rightarrow> pid \<Rightarrow> bool" where
  "cleared os c confirm tr p =
     (case Latest (os_store os tr) of
        None \<Rightarrow> False
      | Some snap \<Rightarrow>
          (case first_with_pid p (ss_Processes snap) of
             None \<Rightarrow> False
           | Some info \<Rightarrow> Check (os_sysroot os) (ct_safety c) info confirm = None))"

record Monitor =
  mo_cleared :: "pid \<Rightarrow> bool"
  mo_threads :: "(pid \<times> u32) list"
  mo_held :: "handle list"

definition mon0 :: Monitor where
  "mon0 = \<lparr>mo_cleared = (\<lambda>_. False), mo_threads = [], mo_held = []\<rparr>"

definition hold :: "goerror + handle \<Rightarrow> Monitor \<Rightarrow> Monitor" where
  "hold r m = (case r of Inl e \<Rightarrow> m | Inr h \<Rightarrow> m\<lparr>mo_held := h # mo_held m\<rparr>)"

definition acts_on :: "syscall \<Rightarrow> handle option" where
  "acts_on call =
     (case call of
        SysTerminate h k \<Rightarrow> Some h | SysSetPriority h k \<Rightarrow> Some h | SysSetAffinity h k \<Rightarrow> Some h
      | SysAssignJob j h \<Rightarrow> Some h | SysSuspendThread h \<Rightarrow> Some h | _ \<Rightarrow> None)"

definition mon_step :: "os \<Rightarrow> Controller \<Rightarrow> bool \<Rightarrow> syscall list \<Rightarrow> syscall \<Rightarrow> Monitor \<Rightarrow> Monitor option" where
  "mon_step os c confirm tr call m =
     (case call of
        SysLatest \<Rightarrow> Some (m\<lparr>mo_cleared := cleared os c confirm tr\<rparr>)
      | SysOpenProcess a p \<Rightarrow> if mo_cleared m p then Some (hold (os_handle os tr call) m) else None
      | SysThreadFirst h \<Rightarrow> Some (m\<lparr>mo_threads := fst (os_threads os tr)\<rparr>)
      | SysOpenThread a t \<Rightarrow>
          if list_ex (\<lambda>(p, t'). t' = t \<and> mo_cleared m p) (mo_threads m)
          then Some (hold (os_handle os tr call) m) else None
      | SysClose h \<Rightarrow> Some (m\<lparr>mo_held := remove1 h (mo_held m)\<rparr>)
      | _ \<Rightarrow> (case acts_on call of
                None \<Rightarrow> Some m
              | Some h \<Rightarrow> if h \<in> set (mo_held m) then Some m else None))"

fun mon_run :: "os \<Rightarrow> Controller \<Rightarrow> bool \<Rightarrow> syscall list \<Rightarrow> syscall list \<Rightarrow> Monitor \<Rightarrow> Monitor option" where
  "mon_run os c confirm tr [] m = Some m"
| "mon_run os c confirm tr (call # calls) m =
     (case mon_step os c confirm tr call m of
        None \<Rightarrow> None
      | Some m \<Rightarrow> mon_run os c confirm (tr @ [call]) calls m)"

lemma mon_run_append:
  "mon_run os c b tr (xs @ ys) m =
     (case mon_run os c b tr xs m of None \<Rightarrow> None | Some m \<Rightarrow> mon_run os c b (tr @ xs) ys m)"
  by (induction xs arbitrary: tr m) (auto split: option.splits)

text \<open>The calls between two worlds pass the monitor, in whatever state it is.\<close>

definition monitored :: "os \<Rightarrow> Controller \<Rightarrow> bool \<Rightarrow> World \<Rightarrow> World \<Rightarrow> bool" where
  "monitored os c confirm w w' \<longleftrightarrow>
     (\<exists>calls. w_trace w' = w_trace w @ calls \<and>
        (\<forall>m. mon_run os c confirm (w_trace w) calls m \<noteq> None))"

lemma monitored_refl: "monitored os c b w w"
  by (auto simp: monitored_def intro: exI [of _ "[]"])

lemma monitored_trans:
  assumes "monitored os c b w1 w2" and "monitored os c b w2 w3"
  shows "monitored os c b w1 w3"
proof -
  obtain xs ys where x: "w_trace w2 = w_trace w1 @ xs" "\<And>m. mon_run os c b (w_trace w1) xs m \<noteq> None"
    and y: "w_trace w3 = w_trace w2 @ ys" "\<And>m. mon_run os c b (w_trace w2) ys m \<noteq> None"
    using assms unfolding monitored_def by blast
  have "mon_run os c b (w_trace w1) (xs @ ys) m \<noteq> None" for m
    using x y by (auto simp: mon_run_append split: option.splits)
  then show ?thesis using x y unfolding monitored_def by (intro exI [of _ "xs @ ys"]) simp
qed

lemmas monitor_simps = guard_def ctl_findProcess_def read_latest_def sys_open_def sys_do_def sys_close_def
  log_call_def ctl_emit_def mon_step_def acts_on_def hold_def cleared_def

text \<open>Walking through an operation: where the monitor stands after the calls made so far.\<close>

definition reaches :: "os \<Rightarrow> Controller \<Rightarrow> bool \<Rightarrow> World \<Rightarrow> Monitor \<Rightarrow> World \<Rightarrow> (Monitor \<Rightarrow> bool) \<Rightarrow> bool" where
  "reaches os c b w m w' Q \<longleftrightarrow>
     (\<exists>calls m'. w_trace w' = w_trace w @ calls \<and> mon_run os c b (w_trace w) calls m = Some m' \<and> Q m')"

lemma reaches_refl: "w_trace w' = w_trace w \<Longrightarrow> Q m \<Longrightarrow> reaches os c b w m w' Q"
  by (auto simp: reaches_def intro: exI [of _ "[]"])

lemma reaches_call:
  "mon_step os c b (w_trace w) call m = Some m' \<Longrightarrow> w_trace w' = w_trace w @ [call] \<Longrightarrow> Q m' \<Longrightarrow>
     reaches os c b w m w' Q"
  by (auto simp: reaches_def intro!: exI [of _ "[call]"])

lemma reaches_trans:
  assumes "reaches os c b w m w1 P" and "\<And>m1. P m1 \<Longrightarrow> reaches os c b w1 m1 w2 Q"
  shows "reaches os c b w m w2 Q"
proof -
  obtain xs m1 where x: "w_trace w1 = w_trace w @ xs" "mon_run os c b (w_trace w) xs m = Some m1" "P m1"
    using assms(1) unfolding reaches_def by blast
  obtain ys m2 where y: "w_trace w2 = w_trace w1 @ ys" "mon_run os c b (w_trace w1) ys m1 = Some m2" "Q m2"
    using assms(2) [OF x(3)] unfolding reaches_def by blast
  have "mon_run os c b (w_trace w) (xs @ ys) m = Some m2" using x y by (simp add: mon_run_append)
  then show ?thesis using x y unfolding reaches_def by (intro exI [of _ "xs @ ys"] exI [of _ m2]) simp
qed

lemma reaches_weaken: "reaches os c b w m w' P \<Longrightarrow> (\<And>m. P m \<Longrightarrow> Q m) \<Longrightarrow> reaches os c b w m w' Q"
  unfolding reaches_def by blast

lemma reaches_world: "w_trace w' = w_trace w'' \<Longrightarrow> reaches os c b w m w' Q \<longleftrightarrow> reaches os c b w m w'' Q"
  unfolding reaches_def by simp

lemma monitoredI: "(\<And>m. reaches os c b w m w' Q) \<Longrightarrow> monitored os c b w w'"
  unfolding reaches_def monitored_def by (metis option.discI same_append_eq)

lemma emit_trace [simp]: "w_trace (ctl_emit c name p extra w) = w_trace w"
  by (simp add: ctl_emit_def)

lemma log_trace [simp]: "w_trace (log_call call w) = w_trace w @ [call]"
  by (simp add: log_call_def)

text \<open>Closing a handle or publishing an event never stops the monitor, and what was cleared stays so.\<close>

lemma reaches_close:
  "Q m \<Longrightarrow> (\<And>m'. mo_cleared m' = mo_cleared m \<Longrightarrow> mo_threads m' = mo_threads m \<Longrightarrow> Q m') \<Longrightarrow>
     reaches os c b w m (sys_close h w) Q"
  using reaches_call [of os c b w "SysClose h" m "m\<lparr>mo_held := remove1 h (mo_held m)\<rparr>" "sys_close h w" Q]
  by (cases "h = 0") (simp_all add: sys_close_def mon_step_def reaches_refl)

lemma sys_open_trace: "sys_open os call w = (w', r) \<Longrightarrow> w_trace w' = w_trace w @ [call] \<and> r = os_handle os (w_trace w) call"
  by (auto simp: sys_open_def split: sum.splits)

lemma sys_do_trace: "sys_do os call w = (w', r) \<Longrightarrow> w_trace w' = w_trace w @ [call]"
  by (auto simp: sys_do_def)

lemma reaches_free_call:
  assumes "w_trace w' = w_trace w @ [call]"
    and "call \<in> {SysCreateJob, SysSnapshot k, SysThreadNext h, SysSetMemLimit h k u, SysSetCpuRate h k k', SysResumeThread h}"
    and "Q m"
  shows "reaches os c b w m w' Q"
  using assms by (intro reaches_call [of os c b w call]) (auto simp: mon_step_def acts_on_def)

lemma reaches_act:
  assumes "w_trace w' = w_trace w @ [call]" and "acts_on call = Some h" and "h \<in> set (mo_held m)" and "Q m"
  shows "reaches os c b w m w' Q"
  using assms by (intro reaches_call [of os c b w call]) (auto simp: mon_step_def acts_on_def split: syscall.splits)

lemma reaches_open_process:
  assumes "sys_open os (SysOpenProcess a p) w = (w', r)" and "mo_cleared m p"
  shows "reaches os c b w m w' (\<lambda>m'. \<forall>h. r = Inr h \<longrightarrow> h \<in> set (mo_held m'))"
  using sys_open_trace [OF assms(1)] assms(2)
  by (intro reaches_call [of os c b w "SysOpenProcess a p" m "hold r m"])
    (auto simp: mon_step_def hold_def split: sum.splits)

lemma reaches_open_thread:
  assumes "sys_open os (SysOpenThread a t) w = (w', r)" and "mo_cleared m p" and "(p, t) \<in> set (mo_threads m)"
  shows "reaches os c b w m w' (\<lambda>m'. mo_cleared m' p \<and> mo_threads m' = mo_threads m \<and>
           (\<forall>h. r = Inr h \<longrightarrow> h \<in> set (mo_held m')))"
  using sys_open_trace [OF assms(1)] assms(2,3)
  by (intro reaches_call [of os c b w "SysOpenThread a t" m "hold r m"])
    (auto simp: mon_step_def hold_def list_ex_iff split: sum.splits intro!: bexI [of _ "(p, t)"])

text \<open>What the guard leaves behind: one look at the store, at which the process was cleared.\<close>

lemma guard_world: "guard os c p b w = (w', r) \<Longrightarrow> w' = log_call SysLatest w"
  by (auto simp: monitor_simps split: option.splits)

lemma guard_cleared: "guard os c p b w = (w', Inr info) \<Longrightarrow> cleared os c b (w_trace w) p"
  by (auto simp: monitor_simps split: option.splits)

lemma reaches_guard:
  "guard os c p b w = (w', r) \<Longrightarrow> reaches os c b w m w' (\<lambda>m'. \<forall>info. r = Inr info \<longrightarrow> mo_cleared m' p)"
  using guard_world [of os c p b w w' r] guard_cleared [of os c p b w w']
  by (intro reaches_call [of os c b w SysLatest m "m\<lparr>mo_cleared := cleared os c b (w_trace w)\<rparr>"])
    (auto simp: mon_step_def)

text \<open>A guarded operation: either the guard refuses and nothing more happens, or the process is cleared.\<close>

lemma monitored_guarded:
  assumes "guard os c p b w = (w1, r)"
    and "\<And>e. r = Inl e \<Longrightarrow> w_trace w' = w_trace w1"
    and "\<And>info m. r = Inr info \<Longrightarrow> mo_cleared m p \<Longrightarrow> reaches os c b w1 m w' (\<lambda>_. True)"
  shows "monitored os c b w w'"
proof (rule monitoredI, rule reaches_trans [OF reaches_guard [OF assms(1)]])
  fix m :: Monitor assume "\<forall>info. r = Inr info \<longrightarrow> mo_cleared m p"
  then show "reaches os c b w1 m w' (\<lambda>_. True)"
    using assms(2,3) by (cases r) (simp_all add: reaches_refl)
qed

text \<open>Opening the process, one act through the handle, closing it.\<close>

lemma reaches_one_act:
  assumes "sys_open os (SysOpenProcess a p) w = (w1, r)" and "mo_cleared m p"
    and "\<And>e. r = Inl e \<Longrightarrow> w_trace w' = w_trace w1"
    and "\<And>h. r = Inr h \<Longrightarrow> acts_on (call h) = Some h \<and>
           (w' = sys_close h (log_call (call h) w1) \<or>
              (\<exists>name x. w' = sys_close h (ctl_emit c name p x (log_call (call h) w1))))"
  shows "reaches os c b w m w' (\<lambda>_. True)"
proof (rule reaches_trans [OF reaches_open_process [OF assms(1,2)]])
  fix m1 :: Monitor assume held: "\<forall>h. r = Inr h \<longrightarrow> h \<in> set (mo_held m1)"
  show "reaches os c b w1 m1 w' (\<lambda>_. True)"
  proof (cases r)
    case (Inr h)
    then obtain w2 where "w' = sys_close h w2" "acts_on (call h) = Some h" "w_trace w2 = w_trace w1 @ [call h]"
      using assms(4) by fastforce
    then show ?thesis using held Inr
      by (auto intro!: reaches_close reaches_trans [OF reaches_act [of w2 w1 "call h" h m1 "\<lambda>_. True"]])
  qed (simp add: assms(3) reaches_refl)
qed

lemma monitored_Kill: "monitored os c b w (fst (Kill os c p b w))"
proof (cases "guard os c p b w")
  case (Pair w1 r)
  obtain w2 r2 where o: "sys_open os (SysOpenProcess PROCESS_TERMINATE p) w1 = (w2, r2)" by fastforce
  show ?thesis
  proof (rule monitored_guarded [OF Pair])
    fix info and m :: Monitor assume "r = Inr info" "mo_cleared m p"
    then show "reaches os c b w1 m (fst (Kill os c p b w)) (\<lambda>_. True)"
      using Pair o
      by (intro reaches_one_act [OF o, where call = "\<lambda>h. SysTerminate h 1"])
        (auto simp: Kill_def sys_do_def acts_on_def split: option.splits)
  qed (simp add: Kill_def Pair)
qed

lemma reaches_with_process:
  assumes "mo_cleared m p" and "\<And>h. acts_on (call h) = Some h"
  shows "reaches os c b w m (fst (with_process os p call (ctl_emit c name p x) w)) (\<lambda>_. True)"
proof -
  obtain w2 r where o: "sys_open os (SysOpenProcess PROCESS_SET_INFORMATION p) w = (w2, r)" by fastforce
  then show ?thesis
    by (intro reaches_one_act [OF o assms(1), where call = call])
      (auto simp: with_process_def sys_do_def assms(2) split: option.splits)
qed

lemma monitored_SetPriority: "monitored os c b w (fst (SetPriority os c p k b w))"
  by (cases "guard os c p b w", rule monitored_guarded, assumption)
    (auto simp: SetPriority_def acts_on_def reaches_refl split: option.splits intro!: reaches_with_process)

lemma monitored_SetAffinity: "monitored os c b w (fst (SetAffinity os c p k b w))"
  by (cases "guard os c p b w", rule monitored_guarded, assumption)
    (auto simp: SetAffinity_def acts_on_def reaches_refl intro!: reaches_with_process)

lemma reaches_drop_job:
  "mo_cleared m p \<Longrightarrow> reaches os c b w m (snd (drop_job k (c', w))) (\<lambda>m. mo_cleared m p)"
  by (auto simp: drop_job_def reaches_refl split: option.splits intro!: reaches_close)

lemma reaches_then_close:
  "reaches os c b w m w1 (\<lambda>_. True) \<Longrightarrow> reaches os c b w m (sys_close h w1) (\<lambda>_. True)"
  by (erule reaches_trans) (simp add: reaches_close)

lemma reaches_limits:
  "reaches os c b w m (fst (set_mem_limit os job n w)) (\<lambda>_. True)"
  "reaches os c b w m (fst (set_cpu_limit os job k w)) (\<lambda>_. True)"
  by (auto simp: set_mem_limit_def set_cpu_limit_def sys_do_def reaches_refl
      intro!: reaches_free_call [OF log_trace])

lemma monitored_Limit: "monitored os c b w (fst (snd (Limit os c p cpu n b w)))"
proof (cases "guard os c p b w")
  case (Pair w1 r)
  obtain c2 w2 where 2: "drop_job p (c, w1) = (c2, w2)" by fastforce
  obtain w3 r3 where 3: "sys_open os SysCreateJob w2 = (w3, r3)" by fastforce
  obtain w4 r4 where 4: "sys_open os (SysOpenProcess (PROCESS_SET_QUOTA OR PROCESS_TERMINATE) p) w3 = (w4, r4)"
    by fastforce
  show ?thesis
  proof (rule monitored_guarded [OF Pair])
    fix info and m :: Monitor assume r: "r = Inr info" and m: "mo_cleared m p"
    note L = Limit_def new_job_def Pair r 2 3 4
    show "reaches os c b w1 m (fst (snd (Limit os c p cpu n b w))) (\<lambda>_. True)"
    proof (cases "cpu < 0 \<or> 100 < cpu")
      case False
      have "reaches os c b w1 m w2 (\<lambda>m. mo_cleared m p)" using reaches_drop_job [OF m, of os c b w1 p c] 2 by simp
      then have to3: "reaches os c b w1 m w3 (\<lambda>m. mo_cleared m p)"
        by (rule reaches_trans, intro reaches_free_call [of w3 w2 SysCreateJob]) (use sys_open_trace [OF 3] in auto)
      show ?thesis
      proof (cases r3)
        case (Inl e)
        then show ?thesis using to3 False by (auto simp: L intro: reaches_weaken)
      next
        case (Inr job)
        have to4: "reaches os c b w1 m w4 (\<lambda>m'. \<forall>h. r4 = Inr h \<longrightarrow> h \<in> set (mo_held m'))"
          by (rule reaches_trans [OF to3]) (rule reaches_open_process [OF 4])
        show ?thesis
        proof (cases r4)
          case (Inl e)
          then show ?thesis using to4 False Inr
            by (auto simp: L intro!: reaches_close elim: reaches_trans)
        next
          case (Inr h)
          obtain w5 r5 where 5: "sys_do os (SysAssignJob job h) w4 = (w5, r5)" by fastforce
          obtain w6 r6 where 6: "set_mem_limit os job n w5 = (w6, r6)" by fastforce
          obtain w7 r7 where 7: "set_cpu_limit os job cpu w6 = (w7, r7)" by fastforce
          have to5: "reaches os c b w1 m w5 (\<lambda>_. True)"
            by (rule reaches_trans [OF to4], rule reaches_act [OF sys_do_trace [OF 5]])
              (auto simp: acts_on_def Inr)
          have to6: "reaches os c b w1 m w6 (\<lambda>_. True)"
            using reaches_limits(1) [of os c b w5 _ job n] 6 by (auto intro: reaches_trans [OF to5])
          have to7: "reaches os c b w1 m w7 (\<lambda>_. True)"
            using reaches_limits(2) [of os c b w6 _ job cpu] 7 by (auto intro: reaches_trans [OF to6])
          have cl: "reaches os c b w1 m (sys_close a (sys_close d wx)) (\<lambda>_. True)"
            if "reaches os c b w1 m wx (\<lambda>_. True)" for a d wx
            using that by (intro reaches_then_close)
          have "reaches os c b w1 m (ctl_emit c nm p x w7) (\<lambda>_. True)" for nm x
            using to7 by (simp add: reaches_world [of "ctl_emit c nm p x w7" w7])
          then have em: "reaches os c b w1 m (sys_close a (ctl_emit c nm p x w7)) (\<lambda>_. True)" for a nm x
            by (intro reaches_then_close)
          have "ctl_emit c2 = ctl_emit c"
            using 2 by (auto simp: drop_job_def ctl_emit_def fun_eq_iff split: option.splits)
          then show ?thesis
            using False Inr \<open>r3 = Inr job\<close> by (auto simp: L 5 6 7 intro: cl to5 to6 to7 em split: option.splits)
        qed
      qed
    qed (auto simp: L reaches_refl)
  qed (simp add: Limit_def Pair)
qed

lemma reaches_thread_walk:
  assumes "mo_cleared m p" and "set ts \<subseteq> set (mo_threads m)"
  shows "reaches os c b w m (fst (thread_walk os p True snap ts w n e)) (\<lambda>_. True)"
  using assms
proof (induction ts arbitrary: w m n e)
  case (Cons t ts)
  obtain owner tid where t: "t = (owner, tid)" by (cases t)
  have next_thread: "reaches os c b w m (fst (thread_walk os p True snap ts (log_call (SysThreadNext snap) w1) n' e')) (\<lambda>_. True)"
    if "reaches os c b w m w1 (\<lambda>m'. mo_cleared m' p \<and> mo_threads m' = mo_threads m)" for w1 n' e'
  proof (rule reaches_trans [OF that])
    fix m1 :: Monitor assume m1: "mo_cleared m1 p \<and> mo_threads m1 = mo_threads m"
    have "mon_step os c b (w_trace w1) (SysThreadNext snap) m1 = Some m1" by (simp add: mon_step_def acts_on_def)
    then have "reaches os c b w1 m1 (log_call (SysThreadNext snap) w1) (\<lambda>m'. m' = m1)"
      by (rule reaches_call) simp_all
    then show "reaches os c b w1 m1 (fst (thread_walk os p True snap ts (log_call (SysThreadNext snap) w1) n' e')) (\<lambda>_. True)"
    proof (rule reaches_trans)
      fix m2 :: Monitor assume "m2 = m1"
      then show "reaches os c b (log_call (SysThreadNext snap) w1) m2
          (fst (thread_walk os p True snap ts (log_call (SysThreadNext snap) w1) n' e')) (\<lambda>_. True)"
        using Cons.IH [of m2] Cons.prems m1 by simp
    qed
  qed
  obtain w1 r where o: "sys_open os (SysOpenThread THREAD_SUSPEND_RESUME tid) w = (w1, r)" by fastforce
  show ?case
  proof (cases "owner = p")
    case True
    have to1: "reaches os c b w m w1 (\<lambda>m'. mo_cleared m' p \<and> mo_threads m' = mo_threads m \<and> (\<forall>h. r = Inr h \<longrightarrow> h \<in> set (mo_held m')))"
      using Cons.prems by (intro reaches_open_thread [OF o]) (auto simp: t True)
    show ?thesis
    proof (cases r)
      case (Inl err)
      then show ?thesis using to1 by (auto simp: t True o intro!: next_thread elim: reaches_weaken)
    next
      case (Inr h)
      have "reaches os c b w m (sys_close h (log_call (SysSuspendThread h) w1)) (\<lambda>m'. mo_cleared m' p \<and> mo_threads m' = mo_threads m)"
        by (rule reaches_trans [OF to1], rule reaches_trans [OF reaches_act [OF log_trace, where Q = "\<lambda>m'. mo_cleared m' p \<and> mo_threads m' = mo_threads m"]])
          (auto simp: acts_on_def Inr intro!: reaches_close)
      then show ?thesis by (auto simp: t True o Inr sys_do_def intro!: next_thread)
    qed
  qed (use Cons.prems in \<open>auto simp: t intro!: next_thread reaches_refl\<close>)
qed (simp add: reaches_refl)

lemma reaches_suspend:
  assumes "mo_cleared m p"
  shows "reaches os c b w m (fst (suspendOrResumeThreads os p True w)) (\<lambda>_. True)"
proof -
  obtain w1 r where o: "sys_open os (SysSnapshot 4) w = (w1, r)" by fastforce
  obtain ts final where ts: "os_threads os (w_trace w1) = (ts, final)" by fastforce
  have to1: "reaches os c b w m w1 (\<lambda>m'. mo_cleared m' p)"
    using sys_open_trace [OF o] assms by (intro reaches_free_call [of w1 w "SysSnapshot 4"]) auto
  show ?thesis
  proof (cases r)
    case (Inl e)
    then show ?thesis using to1 by (auto simp: suspendOrResumeThreads_def o elim: reaches_weaken)
  next
    case (Inr snap)
    let ?w2 = "log_call (SysThreadFirst snap) w1"
    obtain w3 n e where 3: "thread_walk os p True snap ts ?w2 0 None = (w3, n, e)" by (metis prod_cases3)
    have to2: "reaches os c b w m ?w2 (\<lambda>m'. mo_cleared m' p \<and> mo_threads m' = ts)"
      by (rule reaches_trans [OF to1], rule reaches_call [OF _ log_trace]) (auto simp: mon_step_def ts)
    have "reaches os c b w m w3 (\<lambda>_. True)"
      using reaches_thread_walk [of _ p ts os c b ?w2 snap 0 None] 3
      by (intro reaches_trans [OF to2]) auto
    then have "reaches os c b w m (sys_close snap ?w2) (\<lambda>_. True)" "reaches os c b w m (sys_close snap w3) (\<lambda>_. True)"
      using to2 by (auto intro!: reaches_then_close elim: reaches_weaken)
    then show ?thesis by (simp add: suspendOrResumeThreads_def o Inr ts 3 Let_def)
  qed
qed

lemma monitored_Suspend: "monitored os c b w (fst (Suspend os c p b w))"
proof (cases "guard os c p b w")
  case (Pair w1 r)
  show ?thesis
  proof (rule monitored_guarded [OF Pair])
    fix info and m :: Monitor assume "r = Inr info" "mo_cleared m p"
    then show "reaches os c b w1 m (fst (Suspend os c p b w)) (\<lambda>_. True)"
      using reaches_suspend [of m p os c b w1] Pair
      by (cases "suspendOrResumeThreads os p True w1")
        (auto simp: Suspend_def split: option.splits elim!: iffD2 [OF reaches_world, rotated])
  qed (simp add: Suspend_def Pair)
qed

lemma monitored_kill_all: "monitored os c b w (fst (kill_all os c b ps w n e))"
proof (induction ps arbitrary: w n e)
  case (Cons p ps)
  obtain w1 r where 1: "Kill os c p b w = (w1, r)" by fastforce
  then have "monitored os c b w w1" using monitored_Kill [of os c b w p] by simp
  then have "monitored os c b w (fst (kill_all os c b ps w1 n' e'))" for n' e'
    by (rule monitored_trans) (rule Cons.IH)
  then show ?case using 1 by (auto split: option.splits)
qed (simp add: monitored_refl)

lemma monitored_latest: "monitored os c b w (log_call SysLatest w)"
  by (rule monitoredI, rule reaches_call [OF _ log_trace]) (auto simp: mon_step_def)

lemma monitored_KillTree:
  assumes "KillTree os c p b w = Some (w', n, e)"
  shows "monitored os c b w w'"
proof -
  have "w' = log_call SysLatest w \<or> (\<exists>ps. w' = fst (kill_all os c b ps (log_call SysLatest w) 0 None))"
    using assms by (auto simp: KillTree_def read_latest_def split: option.splits) (metis fst_conv)
  then show ?thesis
    using monitored_latest [of os c b w] monitored_trans [OF monitored_latest monitored_kill_all] by blast
qed

lemma monitored_close: "monitored os c b w (sys_close h w)"
  by (rule monitoredI [where Q = "\<lambda>_. True"]) (simp add: reaches_close)

lemma monitored_world: "w_trace w' = w_trace w'' \<Longrightarrow> monitored os c b w w' \<longleftrightarrow> monitored os c b w w''"
  unfolding monitored_def by simp

lemma monitored_ClearLimit: "monitored os c b w (fst (snd (ClearLimit c p w)))"
  by (cases "mget (ct_jobs c) p")
    (simp_all add: ClearLimit_def drop_job_def monitored_refl monitored_close
      monitored_world [of "ctl_emit c' n k x w1" w1 for c' n k x w1])

text \<open>
  C5. No operation but resuming touches a process that was not cleared. Whatever Windows answers and
  however the store changes between the calls, every process or thread that a kill, a kill of a tree, a
  suspension, or a change of priority, affinity or limits opens was cleared by the safety policy at the
  last look at the store before, and every act goes through a handle opened on such a process. In a
  kill of a tree each descendant is cleared anew.
\<close>

theorem operations_guarded:
  assumes "ctl_run os op (c, w) = Some (c', w', e)" and "\<nexists>p. op = OpResume p"
  shows "monitored os c (op_confirm op) w w'"
proof (cases op)
  case (OpKill p b)
  then show ?thesis using assms(1) monitored_Kill [of os c b w p] by (auto split: prod.splits)
next
  case (OpKillTree p b)
  then show ?thesis using assms(1) by (auto dest: monitored_KillTree)
next
  case (OpSuspend p b)
  then show ?thesis using assms(1) monitored_Suspend [of os c b w p] by (auto split: prod.splits)
next
  case (OpPriority p k b)
  then show ?thesis using assms(1) monitored_SetPriority [of os c b w p k] by (auto split: prod.splits)
next
  case (OpAffinity p k b)
  then show ?thesis using assms(1) monitored_SetAffinity [of os c b w p k] by (auto split: prod.splits)
next
  case (OpLimit p cpu k b)
  then show ?thesis using assms(1) monitored_Limit [of os c b w p cpu k] by simp
next
  case (OpClearLimit p)
  then show ?thesis using assms(1) monitored_ClearLimit [of os c False w p] by simp
qed (use assms in simp)

text \<open>A machine with given processes and the threads of some, on which every call works.\<close>

definition demo_os :: "ProcessInfo list \<Rightarrow> (pid \<times> u32) list \<Rightarrow> os" where
  "demo_os procs threads =
     \<lparr>os_store = (\<lambda>tr. SetLatest (zero_snapshot\<lparr>ss_Processes := procs\<rparr>) (NewStore 60 10)),
      os_handle = (\<lambda>tr call. Inr (word_of_nat (100 + length tr))), os_unit = (\<lambda>tr call. None),
      os_threads = (\<lambda>tr. (threads, ERROR_NO_MORE_FILES)), os_sysroot = []\<rparr>"

lemma demo_os_simps [simp]:
  "Latest (os_store (demo_os procs threads) tr) = Some (zero_snapshot\<lparr>ss_Processes := procs\<rparr>)"
  "os_handle (demo_os procs threads) tr call = Inr (word_of_nat (100 + length tr))"
  "os_unit (demo_os procs threads) tr call = None"
  "os_threads (demo_os procs threads) tr = (threads, ERROR_NO_MORE_FILES)"
  "os_sysroot (demo_os procs threads) = []"
  using SetLatest_refines(4) [OF store_inv_New] by (simp_all add: demo_os_def)

definition app_proc :: ProcessInfo where
  "app_proc = zero_proc\<lparr>p_PID := 8000, p_Name := ''app.exe''\<rparr>"

definition world0 :: World where
  "world0 = \<lparr>w_trace = [], w_open = [], w_events = []\<rparr>"

definition demo_controller :: Controller where
  "demo_controller =
     NewController (Some (DefaultConfig\<lparr>c_Controller := default_controller\<lparr>co_ProtectedProcesses := []\<rparr>\<rparr>)) 1234 True"

lemma demo_controller_allows [simp]:
  "Check [] (ct_safety demo_controller) app_proc b = None"
  by (simp add: demo_controller_def NewController_def newSafetyWithPID_def Check_def is_protected_name_def
      isSystemPath_def app_proc_def zero_proc_def)

theorem operations_guarded_witness:
  "\<exists>w'. ctl_run (demo_os [app_proc] []) (OpKill 8000 False) (demo_controller, world0) = Some (demo_controller, w', None) \<and>
     SysTerminate 101 1 \<in> set (w_trace w') \<and> monitored (demo_os [app_proc] []) demo_controller False world0 w'"
proof -
  obtain w' e where r: "Kill (demo_os [app_proc] []) demo_controller 8000 False world0 = (w', e)" by fastforce
  have pid: "p_PID app_proc = 8000" by (simp add: app_proc_def)
  have "e = None \<and> SysTerminate 101 1 \<in> set (w_trace w')"
    using r by (auto simp: Kill_def monitor_simps world0_def pid)
  then show ?thesis
    using operations_guarded [of "demo_os [app_proc] []" "OpKill 8000 False" demo_controller world0 demo_controller w' e] r
    by simp
qed

section \<open>Descendants: what is collected, and when\<close>

definition child_rel :: "ProcessInfo list \<Rightarrow> (pid \<times> pid) set" where
  "child_rel procs = (\<lambda>p. (p_ParentPID p, p_PID p)) ` set procs"

lemma children_child_map: "children_of (child_map procs) q = map p_PID (filter (\<lambda>p. p_ParentPID p = q) procs)"
proof -
  have "children_of (fold (\<lambda>p m. mput (p_ParentPID p)
           ((case mget m (p_ParentPID p) of None \<Rightarrow> [] | Some cs \<Rightarrow> cs) @ [p_PID p]) m) procs m) q =
        children_of m q @ map p_PID (filter (\<lambda>p. p_ParentPID p = q) procs)" for m
    by (induction procs arbitrary: m) (auto simp: children_of_def)
  from this [of "[]"] show ?thesis by (simp add: child_map_def children_of_def)
qed

lemma set_children: "set (children_of (child_map procs) q) = {d. (q, d) \<in> child_rel procs}"
  by (auto simp: children_child_map child_rel_def image_iff)

lemma descend_Nil [simp]: "descend m [] out = Some out"
  by (simp add: descend.simps)

lemma descend_snoc: "descend m (st @ [x]) out = descend m (st @ children_of m x) (out @ [x])"
  by (subst descend.simps) simp

text \<open>A stack element below which no cycle is reached is worked off together with all below it.\<close>

lemma descend_terminates:
  assumes "\<And>q. set (children_of m q) = {d. (q, d) \<in> G}"
  shows "x \<in> Wellfounded.acc (G\<inverse>) \<Longrightarrow>
    \<exists>out'. descend m (st @ [x]) out = descend m st out' \<and> set out' = set out \<union> {y. (x, y) \<in> G\<^sup>*}"
proof (induction x arbitrary: st out rule: acc.induct)
  case (accI x)
  have "\<exists>out'. descend m (st @ cs) out = descend m st out' \<and> set out' = set out \<union> {y. \<exists>d\<in>set cs. (d, y) \<in> G\<^sup>*}"
    if "set cs \<subseteq> {d. (x, d) \<in> G}" for cs out
    using that
  proof (induction cs arbitrary: out rule: rev_induct)
    case (snoc d cs)
    have "(d, x) \<in> G\<inverse>" using snoc.prems by simp
    from accI.IH [OF this, of "st @ cs" out] obtain out1 where
      1: "descend m ((st @ cs) @ [d]) out = descend m (st @ cs) out1" "set out1 = set out \<union> {y. (d, y) \<in> G\<^sup>*}" by blast
    from snoc.IH [of out1] snoc.prems obtain out2 where
      2: "descend m (st @ cs) out1 = descend m st out2" "set out2 = set out1 \<union> {y. \<exists>d\<in>set cs. (d, y) \<in> G\<^sup>*}" by auto
    show ?case using 1 2 by (intro exI [of _ out2]) auto
  qed auto
  from this [of "children_of m x" "out @ [x]"] assms obtain out' where
    o: "descend m (st @ children_of m x) (out @ [x]) = descend m st out'"
      "set out' = set (out @ [x]) \<union> {y. \<exists>d\<in>set (children_of m x). (d, y) \<in> G\<^sup>*}" by blast
  have "{y. (x, y) \<in> G\<^sup>*} = {x} \<union> {y. \<exists>d\<in>set (children_of m x). (d, y) \<in> G\<^sup>*}"
    using assms by (auto intro: converse_rtrancl_into_rtrancl elim: converse_rtranclE)
  then show ?case using o by (intro exI [of _ out']) (auto simp: descend_snoc)
qed

text \<open>And a stack that is worked off has only such elements.\<close>

lemma descend_acc:
  assumes "\<And>q. set (children_of m q) = {d. (q, d) \<in> G}"
    and "descend m st out = Some res"
  shows "set st \<subseteq> Wellfounded.acc (G\<inverse>)"
proof -
  have "m' = m \<longrightarrow> set st' \<subseteq> Wellfounded.acc (G\<inverse>)" if "descend m' st' out' = Some res'" for m' st' out' res'
    using that
  proof (rule descend.raw_induct [where P = "\<lambda>m' st' out' res'. m' = m \<longrightarrow> set st' \<subseteq> Wellfounded.acc (G\<inverse>)", rotated])
    fix d m' st' out' y
    assume IH: "\<And>m' st' out' y. d m' st' out' = Some y \<Longrightarrow> m' = m \<longrightarrow> set st' \<subseteq> Wellfounded.acc (G\<inverse>)"
      and d: "(if st' = [] then Some out' else d m' (butlast st' @ children_of m' (last st')) (out' @ [last st'])) = Some y"
    show "m' = m \<longrightarrow> set st' \<subseteq> Wellfounded.acc (G\<inverse>)"
    proof (cases "st' = []")
      case False
      then obtain xs x where st': "st' = xs @ [x]" by (metis append_butlast_last_id)
      show ?thesis
      proof
        assume "m' = m"
        then have sub: "set (xs @ children_of m x) \<subseteq> Wellfounded.acc (G\<inverse>)"
          using IH [of m' "xs @ children_of m' x"] d st' by simp
        have "x \<in> Wellfounded.acc (G\<inverse>)"
          by (rule acc.accI) (use assms(1) [of x] sub in auto)
        then show "set st' \<subseteq> Wellfounded.acc (G\<inverse>)" using st' sub by simp
      qed
    qed simp
  qed
  then show ?thesis using assms(2) by blast
qed

lemma acc_no_cycle:
  assumes "x \<in> Wellfounded.acc (G\<inverse>)" and "(x, y) \<in> G\<^sup>*"
  shows "(y, y) \<notin> G\<^sup>+"
proof -
  have y: "y \<in> Wellfounded.acc (G\<inverse>)" using assms acc_downwards [of x "G\<inverse>" y] by (simp add: rtrancl_converse)
  then show ?thesis
  proof (induction y rule: acc.induct)
    case (accI y)
    show ?case
    proof
      assume "(y, y) \<in> G\<^sup>+"
      then obtain z where "(y, z) \<in> G" "(z, y) \<in> G\<^sup>*" by (metis tranclD)
      then have "(z, z) \<in> G\<^sup>+" by (metis rtrancl_into_trancl1)
      then show False using accI.IH [of z] \<open>(y, z) \<in> G\<close> by simp
    qed
  qed
qed

lemma no_cycle_acc:
  assumes "finite G" and "\<And>y. (x, y) \<in> G\<^sup>* \<Longrightarrow> (y, y) \<notin> G\<^sup>+"
  shows "x \<in> Wellfounded.acc (G\<inverse>)"
proof -
  let ?H = "{(a, b). (a, b) \<in> G \<and> (x, a) \<in> G\<^sup>*}"
  have sub: "?H\<^sup>+ \<subseteq> G\<^sup>+" using trancl_mono [of _ ?H G] by blast
  have "acyclic ?H"
  proof (rule acyclicI, intro allI notI)
    fix y assume y: "(y, y) \<in> ?H\<^sup>+"
    obtain z where "(y, z) \<in> ?H" using tranclD [OF y] by blast
    then have "(x, y) \<in> G\<^sup>*" by blast
    moreover have "(y, y) \<in> G\<^sup>+" using sub y by (rule subsetD)
    ultimately show False using assms(2) by simp
  qed
  moreover have "finite ?H" by (rule finite_subset [OF _ assms(1)]) auto
  ultimately have wf: "wf (?H\<inverse>)" by (rule finite_acyclic_wf_converse [rotated])
  have "(x, y) \<in> G\<^sup>* \<longrightarrow> y \<in> Wellfounded.acc (G\<inverse>)" for y
  proof (rule wf_induct_rule [OF wf, of _ y])
    fix y assume IH: "\<And>z. (z, y) \<in> ?H\<inverse> \<Longrightarrow> (x, z) \<in> G\<^sup>* \<longrightarrow> z \<in> Wellfounded.acc (G\<inverse>)"
    show "(x, y) \<in> G\<^sup>* \<longrightarrow> y \<in> Wellfounded.acc (G\<inverse>)"
    proof
      assume y: "(x, y) \<in> G\<^sup>*"
      show "y \<in> Wellfounded.acc (G\<inverse>)"
      proof (rule acc.accI)
        fix z assume "(z, y) \<in> G\<inverse>"
        then have "(z, y) \<in> ?H\<inverse>" "(x, z) \<in> G\<^sup>*" using y by (simp_all add: rtrancl_into_rtrancl)
        then show "z \<in> Wellfounded.acc (G\<inverse>)" using IH by blast
      qed
    qed
  qed
  then show ?thesis by simp
qed

lemma descend_all:
  assumes "\<And>d. (q, d) \<in> child_rel procs \<Longrightarrow> d \<in> Wellfounded.acc ((child_rel procs)\<inverse>)" and "set cs \<subseteq> {d. (q, d) \<in> child_rel procs}"
  shows "\<exists>out'. descend (child_map procs) cs out = Some out' \<and> set out' = set out \<union> {y. \<exists>d\<in>set cs. (d, y) \<in> (child_rel procs)\<^sup>*}"
  using assms(2)
proof (induction cs arbitrary: out rule: rev_induct)
  case (snoc d cs)
  have "d \<in> Wellfounded.acc ((child_rel procs)\<inverse>)" using snoc.prems assms(1) by simp
  from descend_terminates [OF set_children this, of cs out]
  obtain out1 where 1: "descend (child_map procs) (cs @ [d]) out = descend (child_map procs) cs out1"
    "set out1 = set out \<union> {y. (d, y) \<in> (child_rel procs)\<^sup>*}" by blast
  from snoc.IH [of out1] snoc.prems 1 show ?case by auto
qed simp

lemma collectDescendants_iff:
  "case collectDescendants procs q of
      None \<Rightarrow> \<exists>y. (q, y) \<in> (child_rel procs)\<^sup>+ \<and> (y, y) \<in> (child_rel procs)\<^sup>+
    | Some ds \<Rightarrow> (\<forall>y. (q, y) \<in> (child_rel procs)\<^sup>+ \<longrightarrow> (y, y) \<notin> (child_rel procs)\<^sup>+) \<and>
        set ds = {d. (q, d) \<in> (child_rel procs)\<^sup>+}"
proof -
  let ?G = "child_rel procs" and ?m = "child_map procs"
  have fin: "finite ?G" by (simp add: child_rel_def)
  have tr: "(q, y) \<in> ?G\<^sup>+ \<longleftrightarrow> (\<exists>d. (q, d) \<in> ?G \<and> (d, y) \<in> ?G\<^sup>*)" for q y
    by (meson rtrancl_into_trancl2 tranclD)
  show ?thesis
  proof (cases "\<forall>y. (q, y) \<in> ?G\<^sup>+ \<longrightarrow> (y, y) \<notin> ?G\<^sup>+")
    case True
    have acc: "d \<in> Wellfounded.acc (?G\<inverse>)" if "(q, d) \<in> ?G" for d
      by (rule no_cycle_acc [OF fin]) (use True that tr in blast)
    from descend_all [where q = q and procs = procs and cs = "children_of ?m q" and out = "[]", OF acc] obtain ds where
      "descend ?m (children_of ?m q) [] = Some ds" "set ds = {y. \<exists>d\<in>set (children_of ?m q). (d, y) \<in> ?G\<^sup>*}"
      by (auto simp: set_children)
    then show ?thesis using True by (auto simp: collectDescendants_def Let_def set_children tr)
  next
    case False
    then obtain y d where y: "(y, y) \<in> ?G\<^sup>+" "(q, d) \<in> ?G" "(d, y) \<in> ?G\<^sup>*" using tr by blast
    have "collectDescendants procs q = None"
    proof (rule ccontr)
      assume "collectDescendants procs q \<noteq> None"
      then obtain ds where "descend ?m (children_of ?m q) [] = Some ds" by (auto simp: collectDescendants_def Let_def)
      from descend_acc [OF set_children this] y(2) have "d \<in> Wellfounded.acc (?G\<inverse>)" by (auto simp: set_children)
      then show False using acc_no_cycle [OF _ y(3)] y(1) by blast
    qed
    then show ?thesis using False by simp
  qed
qed

text \<open>
  C10. Collecting the descendants of a process ends exactly when no cycle of parent links is below it,
  and then it yields its descendants and nothing else. In a snapshot that lists the idle process,
  process 0 with parent 0, a kill of its tree never returns.
\<close>

theorem collectDescendants_exact:
  "(case collectDescendants procs q of
      None \<Rightarrow> \<exists>y. (q, y) \<in> (child_rel procs)\<^sup>+ \<and> (y, y) \<in> (child_rel procs)\<^sup>+
    | Some ds \<Rightarrow> (\<forall>y. (q, y) \<in> (child_rel procs)\<^sup>+ \<longrightarrow> (y, y) \<notin> (child_rel procs)\<^sup>+) \<and>
        set ds = {d. (q, d) \<in> (child_rel procs)\<^sup>+}) \<and>
   (Latest (os_store os (w_trace w)) = Some snap \<and> ss_Processes snap = procs \<and>
      (\<exists>p\<in>set procs. p_PID p = 0 \<and> p_ParentPID p = 0) \<longrightarrow> KillTree os c 0 confirm w = None)"
proof (intro conjI impI)
  show "KillTree os c 0 confirm w = None" if h: "Latest (os_store os (w_trace w)) = Some snap \<and> ss_Processes snap = procs \<and>
      (\<exists>p\<in>set procs. p_PID p = 0 \<and> p_ParentPID p = 0)"
  proof -
    have "(0, 0) \<in> child_rel procs" using h by (force simp: child_rel_def)
    then have "collectDescendants procs 0 = None" using collectDescendants_iff [where procs = procs and q = 0] by (auto split: option.splits)
    then show ?thesis using h by (auto simp: KillTree_def read_latest_def)
  qed
qed (rule collectDescendants_iff)

theorem collectDescendants_exact_witness:
  "KillTree (demo_os [zero_proc, app_proc] []) demo_controller 0 False world0 = None"
  using collectDescendants_exact [of 0 "[zero_proc, app_proc]" "demo_os [zero_proc, app_proc] []" world0
      "zero_snapshot\<lparr>ss_Processes := [zero_proc, app_proc]\<rparr>" demo_controller False]
  by (simp add: zero_proc_def)

section \<open>Handles and limits\<close>

text \<open>The job handles the controller keeps, and what it keeps true of them.\<close>

definition jobs_of :: "Controller \<Rightarrow> handle list" where
  "jobs_of c = map (\<lambda>(k, j). je_job j) (ct_jobs c)"

definition ctl_inv :: "Controller \<Rightarrow> World \<Rightarrow> bool" where
  "ctl_inv c w \<longleftrightarrow> wf_map (ct_jobs c) \<and> mset (jobs_of c) \<subseteq># mset (w_open w) \<and> 0 \<notin> set (jobs_of c) \<and>
     list_all (\<lambda>(k, j). je_pid j = k \<and> 0 \<le> je_cpuPct j \<and> je_cpuPct j \<le> 100) (ct_jobs c)"

definition real_handles :: "os \<Rightarrow> bool" where
  "real_handles os \<longleftrightarrow> (\<forall>tr call h. os_handle os tr call = Inr h \<longrightarrow> h \<noteq> 0)"

lemma real_handlesD: "real_handles os \<Longrightarrow> os_handle os tr call = Inr h \<Longrightarrow> h \<noteq> 0"
  unfolding real_handles_def by blast

lemmas handle_simps = sys_open_def sys_do_def sys_close_def log_call_def ctl_emit_def

lemma guard_open: "guard os c p b w = (w', r) \<Longrightarrow> w_open w' = w_open w"
  by (drule guard_world) (simp add: log_call_def)

lemma Kill_open: "real_handles os \<Longrightarrow> w_open (fst (Kill os c p b w)) = w_open w"
  by (auto simp: Kill_def handle_simps dest: guard_open real_handlesD split: prod.splits sum.splits option.splits)

lemma with_process_open:
  "real_handles os \<Longrightarrow> w_open (fst (with_process os p call (ctl_emit c n q x) w)) = w_open w"
  by (auto simp: with_process_def handle_simps dest: real_handlesD split: prod.splits sum.splits option.splits)

lemma SetPriority_open: "real_handles os \<Longrightarrow> w_open (fst (SetPriority os c p k b w)) = w_open w"
  by (auto simp: SetPriority_def with_process_open guard_open split: prod.splits sum.splits option.splits)

lemma SetAffinity_open: "real_handles os \<Longrightarrow> w_open (fst (SetAffinity os c p k b w)) = w_open w"
  by (auto simp: SetAffinity_def with_process_open guard_open split: prod.splits sum.splits)

lemma thread_walk_open: "real_handles os \<Longrightarrow> w_open (fst (thread_walk os p b snap ts w n e)) = w_open w"
proof (induction ts arbitrary: w n e)
  case (Cons t ts)
  then show ?case
    by (cases t) (auto simp: handle_simps Let_def dest: real_handlesD split: sum.splits option.splits)
qed simp

lemma suspend_open:
  assumes "real_handles os"
  shows "w_open (fst (suspendOrResumeThreads os p b w)) = w_open w"
proof (cases "os_handle os (w_trace w) (SysSnapshot 4)")
  case (Inr snap)
  note nz = real_handlesD [OF assms Inr]
  obtain ts final where ts: "os_threads os (w_trace w @ [SysSnapshot 4]) = (ts, final)" by fastforce
  define w2 where "w2 = log_call (SysThreadFirst snap) ((log_call (SysSnapshot 4) w)\<lparr>w_open := snap # w_open w\<rparr>)"
  obtain w3 n e where 3: "thread_walk os p b snap ts w2 0 None = (w3, n, e)" by (metis prod_cases3)
  have o2: "w_open w2 = snap # w_open w" by (simp add: w2_def log_call_def)
  have o3: "w_open w3 = snap # w_open w" using thread_walk_open [OF assms, of p b snap ts w2 0 None] 3 o2 by simp
  have "suspendOrResumeThreads os p b w = (sys_close snap (if ts = [] then w2 else w3),
      snd (suspendOrResumeThreads os p b w))"
    using 3 by (simp add: suspendOrResumeThreads_def sys_open_def Inr ts Let_def w2_def)
  then have "fst (suspendOrResumeThreads os p b w) = sys_close snap (if ts = [] then w2 else w3)" by (metis fst_conv)
  then show ?thesis using o2 o3 nz by (simp add: sys_close_def log_call_def)
qed (simp add: suspendOrResumeThreads_def sys_open_def log_call_def)

lemma Suspend_open: "real_handles os \<Longrightarrow> w_open (fst (Suspend os c p b w)) = w_open w"
  using suspend_open [of os p True]
  by (auto simp: Suspend_def ctl_emit_def dest!: guard_open split: prod.splits sum.splits option.splits)
    (metis fst_conv)+

lemma Resume_open: "real_handles os \<Longrightarrow> w_open (fst (Resume os c p w)) = w_open w"
  using suspend_open [of os p False w]
  by (auto simp: Resume_def ctl_emit_def split: prod.splits option.splits)

lemma kill_all_open: "real_handles os \<Longrightarrow> w_open (fst (kill_all os c b ps w n e)) = w_open w"
proof (induction ps arbitrary: w n e)
  case (Cons p ps)
  obtain w1 r where 1: "Kill os c p b w = (w1, r)" by fastforce
  then have "w_open w1 = w_open w" using Kill_open [OF Cons.prems, of c p b w] by simp
  then show ?case using 1 Cons by (auto split: option.splits)
qed simp

lemma KillTree_open: "real_handles os \<Longrightarrow> KillTree os c p b w = Some (w', n, e) \<Longrightarrow> w_open w' = w_open w"
  using kill_all_open [of os c b _ "log_call SysLatest w" 0 None]
  by (auto simp: KillTree_def read_latest_def split: option.splits) (metis (mono_tags) fst_conv log_call_def
      World.select_convs(2) World.surjective World.update_convs(1))+

text \<open>Dropping a job closes its handle: what is open beyond the jobs stays.\<close>

definition spare :: "Controller \<Rightarrow> World \<Rightarrow> handle multiset" where
  "spare c w = mset (w_open w) - mset (jobs_of c)"

lemma jobs_mdel:
  "wf_map m \<Longrightarrow> mget m p = Some j \<Longrightarrow>
     mset (map (\<lambda>(k, j). je_job j) m) = add_mset (je_job j) (mset (map (\<lambda>(k, j). je_job j) (mdel p m)))"
proof (induction m)
  case (Cons e m)
  obtain k i where e: "e = (k, i)" by (cases e)
  show ?case
  proof (cases "k = p")
    case True
    have "p \<notin> fst ` set m" using Cons.prems(1) True by (simp add: wf_map_def e)
    then show ?thesis using Cons.prems(2) True by (simp add: e)
  qed (use Cons in \<open>simp_all add: e wf_map_def add_mset_commute\<close>)
qed simp

lemma drop_job_inv:
  assumes "ctl_inv c w" and "drop_job p (c, w) = (c', w')"
  shows "ctl_inv c' w'" and "spare c' w' = spare c w" and "ct_jobs c' = mdel p (ct_jobs c)"
proof -
  have "ctl_inv c' w' \<and> spare c' w' = spare c w \<and> ct_jobs c' = mdel p (ct_jobs c)"
  proof (cases "mget (ct_jobs c) p")
    case None
    then have "\<not> mhas (ct_jobs c) p" by (simp add: mget_None_iff)
    then show ?thesis using assms None by (simp add: drop_job_def)
  next
    case (Some j)
    have wf: "wf_map (ct_jobs c)" using assms(1) by (simp add: ctl_inv_def)
    have c': "c' = c\<lparr>ct_jobs := mdel p (ct_jobs c)\<rparr>" "w' = sys_close (je_job j) w"
      using assms(2) Some by (simp_all add: drop_job_def)
    have jobs: "mset (jobs_of c) = add_mset (je_job j) (mset (jobs_of c'))"
      using jobs_mdel [OF wf Some] by (simp add: jobs_of_def c')
    then have nz: "je_job j \<noteq> 0" "0 \<notin> set (jobs_of c')"
      using assms(1) unfolding ctl_inv_def by (metis set_mset_mset insert_iff set_mset_add_mset_insert)+
    have op: "mset (w_open w') = mset (w_open w) - {#je_job j#}"
      using nz by (simp add: c' sys_close_def log_call_def)
    have sub: "add_mset (je_job j) (mset (jobs_of c')) \<subseteq># mset (w_open w)"
      using assms(1) jobs by (simp add: ctl_inv_def)
    have "set (mdel p (ct_jobs c)) \<subseteq> set (ct_jobs c)" by (rule set_mdel_subset)
    then show ?thesis
      using assms(1) sub op jobs nz
      by (auto simp: ctl_inv_def spare_def c'(1) list_all_iff insert_subset_eq_iff)
  qed
  then show "ctl_inv c' w'" "spare c' w' = spare c w" "ct_jobs c' = mdel p (ct_jobs c)" by simp_all
qed

text \<open>What setting a limit can come to.\<close>

lemma set_limits:
  "set_mem_limit os job n w = (w', None) \<Longrightarrow> w_open w' = w_open w \<and>
     (\<exists>calls. w_trace w' = w_trace w @ calls \<and> (0 < n \<longrightarrow> SysSetMemLimit job 0x100 n \<in> set calls))"
  "set_cpu_limit os job k w = (w', None) \<Longrightarrow> w_open w' = w_open w \<and>
     (\<exists>calls. w_trace w' = w_trace w @ calls \<and> (0 < k \<longrightarrow> SysSetCpuRate job 5 (cpu_rate k) \<in> set calls))"
  by (auto simp: set_mem_limit_def set_cpu_limit_def sys_do_def log_call_def split: if_splits)

lemma set_limits_open:
  "w_open (fst (set_mem_limit os job n w)) = w_open w" "w_open (fst (set_cpu_limit os job k w)) = w_open w"
  by (auto simp: set_mem_limit_def set_cpu_limit_def sys_do_def log_call_def)

lemma new_job_result:
  assumes "real_handles os" and "new_job os c p cpu n w = (c', w', e)"
  shows "(e \<noteq> None \<and> c' = c \<and> mset (w_open w') = mset (w_open w)) \<or>
    (\<exists>job procH calls. e = None \<and> job \<noteq> 0 \<and> mset (w_open w') = add_mset job (mset (w_open w)) \<and>
       c' = c\<lparr>ct_jobs := mput p \<lparr>je_job = job, je_pid = p, je_cpuPct = cpu, je_memBytes = n\<rparr> (ct_jobs c)\<rparr> \<and>
       w_trace w' = w_trace w @ calls \<and> SysAssignJob job procH \<in> set calls \<and>
       (0 < n \<longrightarrow> SysSetMemLimit job 0x100 n \<in> set calls) \<and>
       (0 < cpu \<longrightarrow> SysSetCpuRate job 5 (cpu_rate cpu) \<in> set calls))"
proof (cases "os_handle os (w_trace w) SysCreateJob")
  case (Inl e1)
  then show ?thesis using assms(2) by (auto simp: new_job_def sys_open_def log_call_def)
next
  case (Inr job)
  note nz = real_handlesD [OF assms(1) Inr]
  let ?open = "SysOpenProcess (PROCESS_SET_QUOTA OR PROCESS_TERMINATE) p"
  define w1 where "w1 = (log_call SysCreateJob w)\<lparr>w_open := job # w_open w\<rparr>"
  have 1: "sys_open os SysCreateJob w = (w1, Inr job)" using Inr by (simp add: sys_open_def w1_def)
  show ?thesis
  proof (cases "os_handle os (w_trace w1) ?open")
    case (Inl e1)
    then show ?thesis using assms(2) nz
      by (auto simp: new_job_def 1 sys_open_def [of os ?open] log_call_def sys_close_def) (simp_all add: w1_def)
  next
    case (Inr h)
    note nzh = real_handlesD [OF assms(1) Inr]
    define w2 where "w2 = (log_call ?open w1)\<lparr>w_open := h # w_open w1\<rparr>"
    have 2: "sys_open os ?open w1 = (w2, Inr h)" using Inr by (simp add: sys_open_def w2_def)
    have o2: "w_open w2 = h # job # w_open w" by (simp add: w2_def w1_def)
    have t2: "w_trace w2 = w_trace w @ [SysCreateJob, ?open]" by (simp add: w2_def w1_def log_call_def)
    obtain w3 r3 where 3: "sys_do os (SysAssignJob job h) w2 = (w3, r3)" by fastforce
    have o3: "w_open w3 = h # job # w_open w" and t3: "w_trace w3 = w_trace w2 @ [SysAssignJob job h]"
      using 3 o2 by (auto simp: sys_do_def log_call_def)
    obtain w4 r4 where 4: "set_mem_limit os job n w3 = (w4, r4)" by fastforce
    obtain w5 r5 where 5: "set_cpu_limit os job cpu w4 = (w5, r5)" by fastforce
    have o4: "w_open w4 = h # job # w_open w" using set_limits_open(1) [of os job n w3] 4 o3 by simp
    have o5: "w_open w5 = h # job # w_open w" using set_limits_open(2) [of os job cpu w4] 5 o4 by simp
    have close: "mset (w_open (sys_close h (sys_close job wx))) = mset (w_open w)"
      if "w_open wx = h # job # w_open w" for wx
      using that nz nzh by (auto simp: sys_close_def log_call_def)
    show ?thesis
    proof (cases "r3 = None \<and> r4 = None \<and> r5 = None")
      case True
      obtain xs where xs: "w_trace w4 = w_trace w3 @ xs" "0 < n \<longrightarrow> SysSetMemLimit job 0x100 n \<in> set xs"
        using set_limits(1) [of os job n w3 w4] 4 True by auto
      obtain ys where ys: "w_trace w5 = w_trace w4 @ ys" "0 < cpu \<longrightarrow> SysSetCpuRate job 5 (cpu_rate cpu) \<in> set ys"
        using set_limits(2) [of os job cpu w4 w5] 5 True by auto
      have res: "e = None" "c' = c\<lparr>ct_jobs := mput p \<lparr>je_job = job, je_pid = p, je_cpuPct = cpu, je_memBytes = n\<rparr> (ct_jobs c)\<rparr>"
        and w': "w' = sys_close h (ctl_emit c ''controller.limited'' p
            [(''cpu_pct'', PInt cpu), (''mem_bytes'', PInt (uint n))] w5)"
        using assms(2) True by (simp_all add: new_job_def 1 2 3 4 5)
      have "w_trace w' = w_trace w @ ([SysCreateJob, ?open, SysAssignJob job h] @ xs @ ys @ [SysClose h])"
        using xs(1) ys(1) t3 t2 nzh by (simp add: w' sys_close_def log_call_def)
      moreover have "mset (w_open w') = add_mset job (mset (w_open w))"
        using o5 nzh by (simp add: w' sys_close_def log_call_def ctl_emit_def)
      ultimately show ?thesis
        using res nz xs(2) ys(2)
        by (intro disjI2 exI [of _ job] exI [of _ h] exI [of _ "[SysCreateJob, ?open, SysAssignJob job h] @ xs @ ys @ [SysClose h]"])
          simp
    next
      case False
      then show ?thesis
        using assms(2) close [OF o3] close [OF o4] close [OF o5]
        by (auto simp: new_job_def 1 2 3 4 5 split: option.splits)
    qed
  qed
qed

lemma Limit_result:
  assumes "real_handles os" and "Limit os c p cpu n b w = (c', w', e)"
  obtains (refused) "c' = c" "w_open w' = w_open w" "e \<noteq> None"
  | (tried) c2 w2 where "0 \<le> cpu" "cpu \<le> 100" "drop_job p (c, log_call SysLatest w) = (c2, w2)"
      "new_job os c2 p cpu n w2 = (c', w', e)"
proof (cases "guard os c p b w")
  case (Pair w1 r)
  note w1 = guard_world [OF Pair]
  obtain c2 w2 where 2: "drop_job p (c, log_call SysLatest w) = (c2, w2)" by fastforce
  show thesis
    using assms(2) Pair w1 2 that
    by (auto simp: Limit_def guard_open [OF Pair] split: sum.splits if_splits) (auto simp: log_call_def)
qed

lemma ctl_inv_open: "w_open w' = w_open w \<Longrightarrow> ctl_inv c w' = ctl_inv c w \<and> spare c w' = spare c w"
  by (simp add: ctl_inv_def spare_def)

lemma ctl_inv_mset: "mset (w_open w') = mset (w_open w) \<Longrightarrow> ctl_inv c w' = ctl_inv c w \<and> spare c w' = spare c w"
  by (simp add: ctl_inv_def spare_def)

lemma new_job_inv:
  assumes "ctl_inv c w" and "real_handles os" and "\<not> mhas (ct_jobs c) p" and "0 \<le> cpu" and "cpu \<le> 100"
    and "new_job os c p cpu n w = (c', w', e)"
  shows "ctl_inv c' w' \<and> spare c' w' = spare c w"
  using new_job_result [OF assms(2,6)]
proof (elim disjE conjE exE)
  assume "c' = c" "mset (w_open w') = mset (w_open w)"
  then show ?thesis using assms(1) ctl_inv_mset [of w' w c] by simp
next
  fix job :: handle
  let ?j = "\<lparr>je_job = job, je_pid = p, je_cpuPct = cpu, je_memBytes = n\<rparr>"
  assume job: "job \<noteq> 0" "mset (w_open w') = add_mset job (mset (w_open w))"
    and c': "c' = c\<lparr>ct_jobs := mput p ?j (ct_jobs c)\<rparr>"
  have "mput p ?j m = m @ [(p, ?j)]" if "\<not> mhas m p" for m
    using that by (induction p ?j m rule: mput.induct) auto
  then have m: "mput p ?j (ct_jobs c) = ct_jobs c @ [(p, ?j)]" using assms(3) by blast
  have "wf_map (ct_jobs c')" using assms(1) by (simp add: c' ctl_inv_def)
  then show ?thesis
    using assms(1,4,5) job by (auto simp: ctl_inv_def spare_def c' m jobs_of_def)
qed

lemma Limit_inv:
  assumes "ctl_inv c w" and "real_handles os" and "Limit os c p cpu n b w = (c', w', e)"
  shows "ctl_inv c' w' \<and> spare c' w' = spare c w"
  using assms(3)
proof (rule Limit_result [OF assms(2)])
  assume "c' = c" "w_open w' = w_open w"
  then show ?thesis using assms(1) ctl_inv_open [of w' w c] by simp
next
  fix c2 w2
  assume r: "0 \<le> cpu" "cpu \<le> 100" "drop_job p (c, log_call SysLatest w) = (c2, w2)" "new_job os c2 p cpu n w2 = (c', w', e)"
  have "ctl_inv c (log_call SysLatest w)" "spare c (log_call SysLatest w) = spare c w"
    using assms(1) ctl_inv_open [of "log_call SysLatest w" w c] by (simp_all add: log_call_def)
  note d = this drop_job_inv [OF this(1) r(3)]
  have "\<not> mhas (ct_jobs c2) p" by (simp add: d(5))
  then show ?thesis using new_job_inv [OF d(3) assms(2) _ r(1,2,4)] d by simp
qed

lemma ClearLimit_inv:
  assumes "ctl_inv c w" and "ClearLimit c p w = (c', w', e)"
  shows "ctl_inv c' w' \<and> spare c' w' = spare c w"
proof (cases "mget (ct_jobs c) p")
  case None
  then show ?thesis using assms by (simp add: ClearLimit_def)
next
  case (Some j)
  obtain c2 w2 where d: "drop_job p (c, w) = (c2, w2)" by fastforce
  then have "c' = c2" "w_open w' = w_open w2" using assms(2) Some by (auto simp: ClearLimit_def ctl_emit_def)
  then show ?thesis using drop_job_inv [OF assms(1) d] ctl_inv_open [of w' w2 c2] by simp
qed

text \<open>
  C8. The controller leaks no handle. If Windows never hands out the null handle, every operation, on
  every path including all errors, closes exactly the handles it opened but for the job of a limit that
  took effect; a job is closed when its limit is cleared or replaced, and what is open besides the jobs
  is the same before and after.
\<close>

theorem controller_handles:
  assumes "ctl_inv c w" and "real_handles os" and "ctl_run os op (c, w) = Some (c', w', e)"
  shows "ctl_inv c' w' \<and> spare c' w' = spare c w"
proof (cases op)
  case (OpKill p b)
  then show ?thesis using assms Kill_open [OF assms(2), of c p b w] ctl_inv_open [of w' w c] by (auto split: prod.splits)
next
  case (OpKillTree p b)
  then show ?thesis using assms ctl_inv_open [of w' w c] by (auto dest: KillTree_open [OF assms(2)])
next
  case (OpSuspend p b)
  then show ?thesis using assms Suspend_open [OF assms(2), of c p b w] ctl_inv_open [of w' w c] by (auto split: prod.splits)
next
  case (OpResume p)
  then show ?thesis using assms Resume_open [OF assms(2), of c p w] ctl_inv_open [of w' w c] by (auto split: prod.splits)
next
  case (OpPriority p k b)
  then show ?thesis using assms SetPriority_open [OF assms(2), of c p k b w] ctl_inv_open [of w' w c] by (auto split: prod.splits)
next
  case (OpAffinity p k b)
  then show ?thesis using assms SetAffinity_open [OF assms(2), of c p k b w] ctl_inv_open [of w' w c] by (auto split: prod.splits)
next
  case (OpLimit p cpu n b)
  then show ?thesis using assms Limit_inv [OF assms(1,2)] by simp
next
  case (OpClearLimit p)
  then show ?thesis using assms ClearLimit_inv [OF assms(1)] by simp
qed


text \<open>A machine on which assigning a process to a job fails.\<close>

definition failing_os :: "ProcessInfo list \<Rightarrow> os" where
  "failing_os procs = (demo_os procs [])\<lparr>os_handle := (\<lambda>tr call. Inr 7), os_unit := (\<lambda>tr call.
     case call of SysAssignJob j h \<Rightarrow> Some (ErrSys ''Access is denied.'') | _ \<Rightarrow> None)\<rparr>"

lemma failing_os_simps [simp]:
  "real_handles (failing_os procs)"
  "Latest (os_store (failing_os procs) tr) = Some (zero_snapshot\<lparr>ss_Processes := procs\<rparr>)"
  "os_sysroot (failing_os procs) = []"
  "os_handle (failing_os procs) tr call = Inr 7"
  "os_unit (failing_os procs) tr call = (case call of SysAssignJob j h \<Rightarrow> Some (ErrSys ''Access is denied.'') | _ \<Rightarrow> None)"
  by (auto simp: failing_os_def real_handles_def)

lemma ctl_inv_start: "ctl_inv demo_controller world0"
  by (simp add: ctl_inv_def demo_controller_def NewController_def jobs_of_def)

definition limited_controller :: Controller where
  "limited_controller = demo_controller\<lparr>ct_jobs := [(8000, \<lparr>je_job = 50, je_pid = 8000, je_cpuPct = 10, je_memBytes = 0\<rparr>)]\<rparr>"

definition limited_world :: World where
  "limited_world = world0\<lparr>w_open := [50]\<rparr>"

lemma limited_inv: "ctl_inv limited_controller limited_world"
  by (simp add: ctl_inv_def limited_controller_def limited_world_def jobs_of_def wf_map_def)

lemma limited_allows [simp]: "Check [] (ct_safety limited_controller) app_proc b = None"
  by (simp add: limited_controller_def)

lemma app_pid [simp]: "p_PID app_proc = 8000"
  by (simp add: app_proc_def)

theorem controller_handles_witness:
  "\<exists>c' w' e. Limit (failing_os [app_proc]) limited_controller 8000 20 0 False limited_world = (c', w', e) \<and>
     e \<noteq> None \<and> spare c' w' = {#} \<and> w_open w' = []"
proof -
  obtain c' w' e where r: "Limit (failing_os [app_proc]) limited_controller 8000 20 0 False limited_world = (c', w', e)"
    by (metis prod_cases3)
  have "e \<noteq> None \<and> w_open w' = []"
    using r by (auto simp: Limit_def new_job_def drop_job_def monitor_simps limited_world_def limited_controller_def world0_def)
  moreover have "spare c' w' = spare limited_controller limited_world"
    using controller_handles [OF limited_inv failing_os_simps(1), of "[app_proc]" "OpLimit 8000 20 0 False" c' w' e] r by simp
  ultimately show ?thesis using r by (simp add: spare_def limited_world_def limited_controller_def jobs_of_def)
qed


section \<open>The controller as the actuator of the engine\<close>

definition controller_actuator :: "os \<Rightarrow> Controller \<Rightarrow> World Actuator" where
  "controller_actuator os c =
     \<lparr>act_Kill = (\<lambda>p confirm w. Kill os c p confirm w), act_Suspend = (\<lambda>p confirm w. Suspend os c p confirm w)\<rparr>"

interpretation ctl_actuator: actuator_contract "controller_actuator os c" "monitored os c False" for os c
  by unfold_locales
    (simp_all add: controller_actuator_def monitored_refl monitored_Kill monitored_Suspend, rule monitored_trans)

end
