(* ===== verification/GoNet.thy ===== *)
theory GoNet
  imports GoFmt GoParse
begin

text \<open>
  The functions of Go's \<^verbatim>\<open>net\<close>, \<^verbatim>\<open>net/url\<close>, \<^verbatim>\<open>strconv\<close>, \<^verbatim>\<open>time\<close>, \<^verbatim>\<open>path\<close> and \<^verbatim>\<open>bytes\<close> packages that
  the HTTP server calls. Addresses are exact for both families. A URL is exact as far as the origin
  check looks at it (scheme, host name and port); one with user information, an escape or a bracketed
  host is read by an unspecified function, so theorems hold whatever it answers.
\<close>

section \<open>Signed numbers\<close>

text \<open>\<^verbatim>\<open>strconv.ParseInt\<close> for base 10 and 64 bits, which \<^verbatim>\<open>Atoi\<close> is too on the target.\<close>

definition parse_i64 :: "gostring \<Rightarrow> int \<times> num_error option" where
  "parse_i64 s =
     (if s = [] then (0, Some NumSyntax)
      else
        (let neg = (hd s = CHR ''-'');
             digits = (if hd s = CHR ''-'' \<or> hd s = CHR ''+'' then tl s else s);
             (n, e) = parse_uint 64 digits
         in if e = Some NumSyntax then (0, e)
            else if neg \<and> 2 ^ 63 < n then (i64_min, Some NumRange)
            else if \<not> neg \<and> 2 ^ 63 \<le> n then (i64_max, Some NumRange)
            else (if neg then - int n else int n, None)))"

lemma parse_i64_range: "is_i64 (fst (parse_i64 s))"
  by (auto simp: parse_i64_def is_i64_def i64_min_def i64_max_def Let_def split: prod.splits)

section \<open>Durations\<close>

definition max_u63 :: nat where "max_u63 = 9223372036854775808"

text \<open>\<^verbatim>\<open>leadingInt\<close>: the number and the rest, or nothing on overflow.\<close>

fun leading_int :: "nat \<Rightarrow> gostring \<Rightarrow> (nat \<times> gostring) option" where
  "leading_int x [] = Some (x, [])"
| "leading_int x (c # s) =
     (case digit_val c of
        None \<Rightarrow> Some (x, c # s)
      | Some d \<Rightarrow>
          if max_u63 div 10 < x then None
          else if max_u63 < 10 * x + d then None
          else leading_int (10 * x + d) s)"

text \<open>\<^verbatim>\<open>leadingFraction\<close>: further digits are dropped once the number is full.\<close>

fun leading_fraction :: "nat \<Rightarrow> nat \<Rightarrow> bool \<Rightarrow> gostring \<Rightarrow> nat \<times> nat \<times> gostring" where
  "leading_fraction x scale over [] = (x, scale, [])"
| "leading_fraction x scale over (c # s) =
     (case digit_val c of
        None \<Rightarrow> (x, scale, c # s)
      | Some d \<Rightarrow>
          if over \<or> (max_u63 - 1) div 10 < x \<or> max_u63 < 10 * x + d
          then leading_fraction x scale True s
          else leading_fraction (10 * x + d) (10 * scale) False s)"

definition duration_unit :: "gostring \<Rightarrow> nat option" where
  "duration_unit u =
     (if u = ''ns'' then Some 1
      else if u = ''us'' \<or> u = [CHR 0xC2, CHR 0xB5, CHR ''s''] \<or> u = [CHR 0xCE, CHR 0xBC, CHR ''s''] then Some 1000
      else if u = ''ms'' then Some 1000000
      else if u = ''s'' then Some 1000000000
      else if u = ''m'' then Some 60000000000
      else if u = ''h'' then Some 3600000000000
      else None)"

definition num_byte :: "char \<Rightarrow> bool" where
  "num_byte c \<longleftrightarrow> c = CHR ''.'' \<or> digit_val c \<noteq> None"

text \<open>One number with its unit, off the front of the text.\<close>

definition duration_item :: "gostring \<Rightarrow> (nat \<times> gostring) option" where
  "duration_item s =
     (if s = [] \<or> \<not> num_byte (hd s) then None
      else
        (case leading_int 0 s of
           None \<Rightarrow> None
         | Some (v, s1) \<Rightarrow>
             (let (f, scale, s2, post) =
                (case s1 of
                   c # r \<Rightarrow> if c = CHR ''.''
                            then (case leading_fraction 0 1 False r of (f, sc, r') \<Rightarrow> (f, sc, r', length r \<noteq> length r'))
                            else (0, 1, s1, False)
                 | [] \<Rightarrow> (0, 1, s1, False));
                  u = takeWhile (\<lambda>c. \<not> num_byte c) s2;
                  s3 = dropWhile (\<lambda>c. \<not> num_byte c) s2
              in if length s = length s1 \<and> \<not> post then None
                 else if u = [] then None
                 else
                   (case duration_unit u of
                      None \<Rightarrow> None
                    | Some unit \<Rightarrow>
                        if max_u63 div unit < v then None
                        else
                          (let v2 = v * unit +
                             (if 0 < f
                              then nat (int_of_f64 (fmul (f64_of_int (int f)) (fdiv (f64_of_int (int unit)) (f64_of_int (int scale)))))
                              else 0)
                           in if max_u63 < v2 then None else Some (v2, s3))))))"

text \<open>The loop over the items; each takes at least its unit off the text, so the text's length is enough fuel.\<close>

fun duration_items :: "nat \<Rightarrow> nat \<Rightarrow> gostring \<Rightarrow> nat option" where
  "duration_items 0 d s = (if s = [] then Some d else None)"
| "duration_items (Suc k) d s =
     (if s = [] then Some d
      else
        (case duration_item s of
           None \<Rightarrow> None
         | Some (v, r) \<Rightarrow> if max_u63 < d + v then None else duration_items k (d + v) r))"

definition parse_duration :: "gostring \<Rightarrow> duration option" where
  "parse_duration s =
     (let neg = (s \<noteq> [] \<and> hd s = CHR ''-'');
          r = (if s \<noteq> [] \<and> (hd s = CHR ''-'' \<or> hd s = CHR ''+'') then tl s else s)
      in if r = ''0'' then Some 0
         else if r = [] then None
         else
           (case duration_items (length r) 0 r of
              None \<Rightarrow> None
            | Some d \<Rightarrow>
                if neg then Some (- int d)
                else if max_u63 - 1 < d then None else Some (int d)))"

lemma leading_int_suffix: "leading_int x s = Some (v, r) \<Longrightarrow> length r \<le> length s"
  by (induction x s rule: leading_int.induct) (auto split: option.splits if_splits)

lemma leading_fraction_suffix: "leading_fraction x sc ov s = (v, sc', r) \<Longrightarrow> length r \<le> length s"
  by (induction x sc ov s rule: leading_fraction.induct) (fastforce split: option.splits if_splits)+

text \<open>The fuel is enough: each item is shorter than what it is read from.\<close>

lemma dropWhile_less: "takeWhile P s \<noteq> [] \<Longrightarrow> length (dropWhile P s) < length s"
  by (cases s) (auto split: if_splits simp: le_imp_less_Suc length_dropWhile_le)

lemma duration_item_shorter:
  assumes "duration_item s = Some (v, r)"
  shows "length r < length s"
proof -
  obtain v1 s1 where l: "leading_int 0 s = Some (v1, s1)"
    using assms by (auto simp: duration_item_def split: if_splits option.splits)
  have s1: "length s1 \<le> length s" using leading_int_suffix [OF l] .
  define s2 where "s2 = (case s1 of c # q \<Rightarrow> if c = CHR ''.'' then snd (snd (leading_fraction 0 1 False q)) else s1 | [] \<Rightarrow> s1)"
  have "length s2 \<le> length s1"
  proof (cases s1)
    case (Cons c q)
    obtain f sc q' where "leading_fraction 0 1 False q = (f, sc, q')" by (metis prod_cases3)
    then show ?thesis using leading_fraction_suffix [of 0 1 False q f sc q'] Cons by (simp add: s2_def)
  qed (simp add: s2_def)
  moreover have "r = dropWhile (\<lambda>c. \<not> num_byte c) s2 \<and> takeWhile (\<lambda>c. \<not> num_byte c) s2 \<noteq> []"
    using assms l
    by (auto simp: duration_item_def s2_def Let_def split: if_splits option.splits list.splits prod.splits)
  ultimately show ?thesis using s1 dropWhile_less [of "\<lambda>c. \<not> num_byte c" s2] by simp
qed

lemma duration_items_fuel: "length s \<le> k \<Longrightarrow> duration_items (Suc k) d s = duration_items k d s"
proof (induction k d s rule: duration_items.induct)
  case (2 k d s)
  show ?case
  proof (cases "duration_item s")
    case (Some q)
    obtain v r where q: "q = (v, r)" by (cases q)
    show ?thesis
    proof (cases "s = [] \<or> max_u63 < d + v")
      case False
      then have "length r \<le> k" using duration_item_shorter [of s v r] Some q "2.prems" by simp
      then have "duration_items (Suc k) (d + v) r = duration_items k (d + v) r"
        using "2.IH" [of q v r] False Some q by blast
      with False Some q show ?thesis
        unfolding duration_items.simps(2) [of "Suc k" d s] duration_items.simps(2) [of k d s] by simp
    qed (auto simp: Some q)
  qed simp
qed simp

section \<open>Addresses\<close>

fun last_byte :: "gostring \<Rightarrow> char \<Rightarrow> nat option" where
  "last_byte [] b = None"
| "last_byte (c # s) b =
     (case last_byte s b of Some i \<Rightarrow> Some (Suc i) | None \<Rightarrow> if c = b then Some 0 else None)"

text \<open>\<^verbatim>\<open>net.SplitHostPort\<close>, without the text of its errors.\<close>

definition split_host_port :: "gostring \<Rightarrow> (gostring \<times> gostring) option" where
  "split_host_port hp =
     (case last_byte hp (CHR '':'') of
        None \<Rightarrow> None
      | Some i \<Rightarrow>
          (let r =
             (if hd hp = CHR ''['' then
                (case index_byte hp (CHR '']'') of
                   None \<Rightarrow> None
                 | Some e \<Rightarrow> if e + 1 = i then Some (take (e - 1) (drop 1 hp), 1, e + 1) else None)
              else
                (let host = take i hp in if CHR '':'' \<in> set host then None else Some (host, 0, 0)))
           in case r of
                None \<Rightarrow> None
              | Some (host, j, k) \<Rightarrow>
                  if CHR ''['' \<in> set (drop j hp) \<or> CHR '']'' \<in> set (drop k hp) then None
                  else Some (host, drop (i + 1) hp)))"

text \<open>A field of a dotted address: digits without a leading zero, up to 255.\<close>

definition ipv4_field :: "gostring \<Rightarrow> nat option" where
  "ipv4_field f =
     (if f = [] \<or> (1 < length f \<and> hd f = CHR ''0'') then None
      else (case parse_uint 8 f of (n, None) \<Rightarrow> Some n | _ \<Rightarrow> None))"

definition parse_ipv4 :: "gostring \<Rightarrow> nat list option" where
  "parse_ipv4 s =
     (case map ipv4_field (split_byte (CHR ''.'') s) of
        [Some a, Some b, Some c, Some d] \<Rightarrow> Some [a, b, c, d]
      | _ \<Rightarrow> None)"

text \<open>
  The loop of Go's IPv6 parser over the groups: the bytes read so far, where the ellipsis stood, and
  the text. A group is one to four hexadecimal digits.
\<close>

definition hex_group :: "gostring \<Rightarrow> gostring" where
  "hex_group s = takeWhile (\<lambda>c. hex_val c \<noteq> None) s"

definition group_val :: "gostring \<Rightarrow> nat" where
  "group_val ds = foldl (\<lambda>acc c. 16 * acc + (case hex_val c of Some d \<Rightarrow> d | None \<Rightarrow> 0)) 0 ds"

function ipv6_groups :: "nat list \<Rightarrow> nat option \<Rightarrow> gostring \<Rightarrow> (nat list \<times> nat option) option" where
  "ipv6_groups bs ell s =
     (if 16 \<le> length bs then (if s = [] then Some (bs, ell) else None)
      else
        (let g = hex_group s; r = drop (length g) s; bs2 = bs @ [group_val g div 256, group_val g mod 256] in
         if g = [] \<or> 4 < length g then None
         else
           (case r of
              [] \<Rightarrow> Some (bs2, ell)
            | c # r1 \<Rightarrow>
                if c = CHR ''.'' then
                  (if (ell = None \<and> length bs \<noteq> 12) \<or> 12 < length bs then None
                   else (case parse_ipv4 s of None \<Rightarrow> None | Some q \<Rightarrow> Some (bs @ q, ell)))
                else if c \<noteq> CHR '':'' \<or> r1 = [] then None
                else if hd r1 = CHR '':'' then
                  (if ell \<noteq> None then None
                   else if tl r1 = [] then Some (bs2, Some (length bs2))
                   else ipv6_groups bs2 (Some (length bs2)) (tl r1))
                else ipv6_groups bs2 ell r1)))"
  by pat_completeness auto
termination
  by (relation "measure (\<lambda>(bs, ell, s). 16 - length bs)") (auto simp: Let_def)

declare ipv6_groups.simps [simp del]

definition parse_ipv6 :: "gostring \<Rightarrow> nat list option" where
  "parse_ipv6 s =
     (if s = ''::'' then Some (replicate 16 0)
      else
        (let r = (if has_prefix s ''::'' then ipv6_groups [] (Some 0) (drop 2 s) else ipv6_groups [] None s) in
         case r of
           None \<Rightarrow> None
         | Some (bs, ell) \<Rightarrow>
             if length bs < 16 then
               (case ell of None \<Rightarrow> None | Some e \<Rightarrow> Some (take e bs @ replicate (16 - length bs) 0 @ drop e bs))
             else if ell \<noteq> None then None else Some bs))"

text \<open>
  \<^verbatim>\<open>net.ParseIP\<close>: the first dot, colon or percent sign decides the family; a zone is refused. The
  result of a dotted address is its four bytes, of the other form its sixteen.
\<close>

definition parse_ip :: "gostring \<Rightarrow> nat list option" where
  "parse_ip s =
     (case filter (\<lambda>c. c \<in> {CHR ''.'', CHR '':'', CHR ''%''}) s of
        [] \<Rightarrow> None
      | c # _ \<Rightarrow>
          if c = CHR ''.'' then parse_ipv4 s
          else if c = CHR '':'' \<and> CHR ''%'' \<notin> set s then parse_ipv6 s
          else None)"

text \<open>\<^verbatim>\<open>IP.IsLoopback\<close>, with the mapped form of a dotted address.\<close>

definition ip_is_loopback :: "nat list \<Rightarrow> bool" where
  "ip_is_loopback bs \<longleftrightarrow>
     (if length bs = 4 then hd bs = 127
      else if take 12 bs = replicate 10 0 @ [255, 255] then bs ! 12 = 127
      else bs = replicate 15 0 @ [1])"

definition loopback_host :: "gostring \<Rightarrow> bool" where
  "loopback_host h \<longleftrightarrow> (case parse_ip h of None \<Rightarrow> False | Some bs \<Rightarrow> ip_is_loopback bs)"

lemmas ip_eval = loopback_host_def parse_ip_def parse_ipv4_def ipv4_field_def parse_uint_def digit_val_def
  ip_is_loopback_def parse_ipv6_def ipv6_groups.simps hex_group_def group_val_def hex_val_def lower_byte_def
  has_prefix_def Let_def

lemma loopback_examples:
  "loopback_host ''127.0.0.1''" "\<not> loopback_host ''localhost''" "\<not> loopback_host ''128.0.0.1''"
  "\<not> loopback_host ''127.0.0.01''" "\<not> loopback_host ''::1%lo''" "\<not> loopback_host ''0.0.0.0''"
  by (simp_all add: ip_eval)

lemma loopback_examples_v6:
  "loopback_host ''0:0::0:1''" "loopback_host ''::ffff:127.0.0.1''" "loopback_host ''::1''"
  by (simp add: ip_eval, code_simp)+

section \<open>Origins\<close>

record origin_url =
  ou_Scheme :: gostring
  ou_Hostname :: gostring
  ou_Port :: gostring

definition unusual_url :: "gostring \<Rightarrow> origin_url option" where "unusual_url = undefined"

definition letter :: "char \<Rightarrow> bool" where
  "letter c \<longleftrightarrow> (65 \<le> byte_val c \<and> byte_val c \<le> 90) \<or> (97 \<le> byte_val c \<and> byte_val c \<le> 122)"

definition scheme_byte :: "char \<Rightarrow> bool" where
  "scheme_byte c \<longleftrightarrow> letter c \<or> digit_val c \<noteq> None \<or> c \<in> {CHR ''+'', CHR ''-'', CHR ''.''}"

definition all_digits :: "gostring \<Rightarrow> bool" where
  "all_digits s \<longleftrightarrow> list_all (\<lambda>c. digit_val c \<noteq> None) s"

text \<open>Bytes a host may hold without an escape (RFC 3986, as \<^verbatim>\<open>shouldEscape\<close> has it), colons apart.\<close>

definition host_byte :: "char \<Rightarrow> bool" where
  "host_byte c \<longleftrightarrow> \<not> ascii_byte c \<or> letter c \<or> digit_val c \<noteq> None \<or>
     c \<in> set ''-_.~!$&()*+,;=:<>'' \<or> c = CHR 0x27 \<or> c = CHR 0x22"

text \<open>
  \<^verbatim>\<open>url.Parse\<close> of \<^verbatim>\<open>scheme://host:port\<close>, maybe followed by a path, a query or a fragment. What has
  no such form, an escape, user information or brackets is left to the unspecified function.
\<close>

definition parse_origin :: "gostring \<Rightarrow> origin_url option" where
  "parse_origin s =
     (let u = takeWhile (\<lambda>c. c \<noteq> CHR ''#'') s in
      if list_ex (\<lambda>c. byte_val c < 32 \<or> byte_val c = 127) u then None
      else if list_ex (\<lambda>c. c \<in> {CHR ''%'', CHR ''@'', CHR ''['', CHR '']''}) s then unusual_url s
      else
        (case index_byte u (CHR '':'') of
           None \<Rightarrow> unusual_url s
         | Some i \<Rightarrow>
             (let scheme = take i u;
                  rest = takeWhile (\<lambda>c. c \<noteq> CHR ''?'') (drop (i + 1) u)
              in if scheme = [] \<or> \<not> letter (hd scheme) \<or> \<not> list_all scheme_byte scheme \<or> \<not> has_prefix rest ''//''
                 then unusual_url s
                 else
                   (let host = takeWhile (\<lambda>c. c \<noteq> CHR ''/'') (drop 2 rest) in
                    if \<not> list_all host_byte host then None
                    else
                      (case last_byte host (CHR '':'') of
                         None \<Rightarrow> Some \<lparr>ou_Scheme = to_lower scheme, ou_Hostname = host, ou_Port = []\<rparr>
                       | Some k \<Rightarrow>
                           if all_digits (drop (k + 1) host)
                           then Some \<lparr>ou_Scheme = to_lower scheme, ou_Hostname = take k host, ou_Port = drop (k + 1) host\<rparr>
                           else None)))))"

section \<open>Paths and bytes\<close>

text \<open>\<^verbatim>\<open>path.Ext\<close>: from the last dot of the last element.\<close>

definition path_ext :: "gostring \<Rightarrow> gostring" where
  "path_ext p =
     (let base = rev (takeWhile (\<lambda>c. c \<noteq> CHR ''/'') (rev p)) in
      case last_byte base (CHR ''.'') of None \<Rightarrow> [] | Some i \<Rightarrow> drop i base)"

text \<open>\<^verbatim>\<open>bytes.ReplaceAll\<close> for a non-empty pattern; the second argument skips the rest of a match.\<close>

fun replace_all :: "gostring \<Rightarrow> gostring \<Rightarrow> nat \<Rightarrow> gostring \<Rightarrow> gostring" where
  "replace_all p r k [] = []"
| "replace_all p r (Suc k) (c # s) = replace_all p r k s"
| "replace_all p r 0 (c # s) =
     (if has_prefix (c # s) p then r @ replace_all p r (length p - 1) s else c # replace_all p r 0 s)"

end
