(* ===== verification/Router.thy ===== *)
theory Router
  imports GoNet Alerts
begin

text \<open>
  \<^verbatim>\<open>internal/server/router.go\<close>, \<^verbatim>\<open>helpers.go\<close> and the middleware of \<^verbatim>\<open>server.go\<close>. A handler turns a
  request, its path parameters and the state of the server into a new state and a response, or never
  returns. The header settings of a response are kept in the order they are made. The logging
  middleware changes no response and stands in the theory Host.
\<close>

section \<open>Requests and responses\<close>

record Request =
  rq_Method :: gostring
  rq_Path :: gostring
  rq_RemoteAddr :: gostring
  rq_Host :: gostring
  rq_header :: "gostring \<Rightarrow> gostring"
  rq_query :: "gostring \<Rightarrow> gostring"
  rq_Body :: "gostring option"

type_synonym params = "(gostring, gostring) gomap"

datatype 'p body = Plain gostring | Json 'p | JsonError gostring gostring

record 'p Response =
  rs_status :: int
  rs_headers :: "(gostring \<times> gostring) list"
  rs_body :: "'p body"

type_synonym ('s, 'p) handlerfn = "Request \<Rightarrow> params \<Rightarrow> 's \<Rightarrow> ('s \<times> 'p Response) option"

definition Param :: "params \<Rightarrow> gostring \<Rightarrow> gostring" where
  "Param ps name = (case mget ps name of None \<Rightarrow> [] | Some v \<Rightarrow> v)"

definition json_type :: "(gostring \<times> gostring) list" where
  "json_type = [(''Content-Type'', ''application/json; charset=utf-8'')]"

definition writeJSON :: "int \<Rightarrow> 'p \<Rightarrow> 'p Response" where
  "writeJSON status p = \<lparr>rs_status = status, rs_headers = json_type, rs_body = Json p\<rparr>"

definition writeError :: "int \<Rightarrow> gostring \<Rightarrow> gostring \<Rightarrow> 'p Response" where
  "writeError status code msg = \<lparr>rs_status = status, rs_headers = json_type, rs_body = JsonError code msg\<rparr>"

text \<open>\<^verbatim>\<open>http.Error\<close>.\<close>

definition http_error :: "gostring \<Rightarrow> int \<Rightarrow> 'p Response" where
  "http_error msg code =
     \<lparr>rs_status = code,
      rs_headers = [(''Content-Type'', ''text/plain; charset=utf-8''), (''X-Content-Type-Options'', ''nosniff'')],
      rs_body = Plain (msg @ [CHR 0x0A])\<rparr>"

text \<open>
  \<^verbatim>\<open>readJSON\<close>. The decoder of a handler's body type is an argument: from the bytes it may read and
  whether the limit cut them off it gives an error or the value and whether only white space is left.
\<close>

definition maxJSONBodyBytes :: nat where "maxJSONBodyBytes = 1048576"

type_synonym 'v decoder = "gostring \<Rightarrow> bool \<Rightarrow> goerror + ('v \<times> bool)"

definition readJSON :: "'v decoder \<Rightarrow> Request \<Rightarrow> 'p Response + 'v" where
  "readJSON dec req =
     (case rq_Body req of
        None \<Rightarrow> Inl (writeError 400 ''invalid_body'' ''missing request body'')
      | Some b \<Rightarrow>
          (let cut = maxJSONBodyBytes < length b in
           case dec (take maxJSONBodyBytes b) cut of
             Inl e \<Rightarrow> Inl (writeError 400 ''invalid_json'' (err_text e))
           | Inr (v, blank) \<Rightarrow>
               if \<not> blank \<or> cut
               then Inl (writeError 400 ''invalid_json'' ''request body must contain a single JSON value'')
               else Inr v))"

definition parsePIDParam :: "params \<Rightarrow> 'p Response + pid" where
  "parsePIDParam ps =
     (let raw = Param ps ''pid'' in
      if raw = [] then Inl (writeError 400 ''missing_param'' ''pid required'')
      else
        (case parse_uint 32 raw of
           (n, Some e) \<Rightarrow> Inl (writeError 400 ''invalid_param'' ''pid must be uint32'')
         | (n, None) \<Rightarrow> Inr (of_nat n)))"

lemma readJSON_bounded: "readJSON dec req = Inr v \<Longrightarrow> \<exists>b. rq_Body req = Some b \<and> length b \<le> maxJSONBodyBytes"
  by (auto simp: readJSON_def Let_def split: option.splits sum.splits if_splits)

lemma parsePIDParam_print: "parsePIDParam [(''pid'', nat_str (unat p))] = Inr p"
proof -
  have "unat p < 2 ^ 32" using unat_u32_less [of p] by simp
  then show ?thesis by (simp add: parsePIDParam_def Param_def parse_uint_nat_str)
qed

section \<open>The router\<close>

record 'h route =
  rt_method :: gostring
  rt_parts :: "gostring list"
  rt_handler :: 'h

definition splitPath :: "gostring \<Rightarrow> gostring list" where
  "splitPath p =
     (let p = trim_byte (CHR ''/'') p in if p = [] then [] else split_byte (CHR ''/'') p)"

definition Handle :: "gostring \<Rightarrow> gostring \<Rightarrow> 'h \<Rightarrow> 'h route list \<Rightarrow> 'h route list" where
  "Handle meth pattern h rs =
     rs @ [\<lparr>rt_method = to_upper meth, rt_parts = splitPath pattern, rt_handler = h\<rparr>]"

definition is_param :: "gostring \<Rightarrow> bool" where
  "is_param part \<longleftrightarrow> has_prefix part '':''"

text \<open>One route against the path: the parameters and the number of literal parts, if it fits.\<close>

fun fit_parts :: "gostring list \<Rightarrow> gostring list \<Rightarrow> params \<Rightarrow> int \<Rightarrow> (params \<times> int) option" where
  "fit_parts (part # ps) (x # xs) params literals =
     (if is_param part then fit_parts ps xs (mput (drop 1 part) x params) literals
      else if part \<noteq> x then None
      else fit_parts ps xs params (literals + 1))"
| "fit_parts ps xs params literals = Some (params, literals)"

fun match_loop :: "gostring \<Rightarrow> gostring list \<Rightarrow> 'h route list \<Rightarrow> ('h \<times> params) option \<Rightarrow> int \<Rightarrow> ('h \<times> params) option" where
  "match_loop meth parts [] best bestLiteral = best"
| "match_loop meth parts (r # rs) best bestLiteral =
     (if rt_method r \<noteq> meth \<or> length (rt_parts r) \<noteq> length parts then match_loop meth parts rs best bestLiteral
      else
        (case fit_parts (rt_parts r) parts [] 0 of
           Some (ps, n) \<Rightarrow>
             if bestLiteral < n then match_loop meth parts rs (Some (rt_handler r, ps)) n
             else match_loop meth parts rs best bestLiteral
         | None \<Rightarrow> match_loop meth parts rs best bestLiteral))"

definition rt_match :: "gostring \<Rightarrow> gostring list \<Rightarrow> 'h route list \<Rightarrow> ('h \<times> params) option" where
  "rt_match meth parts rs = match_loop meth parts rs None (-1)"

text \<open>What a match means, without the loop: literal parts are equal, and the more of them the better.\<close>

definition fits :: "gostring \<Rightarrow> gostring list \<Rightarrow> 'h route \<Rightarrow> bool" where
  "fits meth parts r \<longleftrightarrow>
     rt_method r = meth \<and> list_all2 (\<lambda>part x. is_param part \<or> part = x) (rt_parts r) parts"

definition literals :: "'h route \<Rightarrow> int" where
  "literals r = int (length (filter (\<lambda>part. \<not> is_param part) (rt_parts r)))"

definition bindings :: "gostring list \<Rightarrow> gostring list \<Rightarrow> params \<Rightarrow> params" where
  "bindings ps xs params = fold (\<lambda>(part, x) m. if is_param part then mput (drop 1 part) x m else m) (zip ps xs) params"

lemma fit_parts_spec:
  "length ps = length xs \<Longrightarrow> fit_parts ps xs params n =
     (if list_all2 (\<lambda>part x. is_param part \<or> part = x) ps xs
      then Some (bindings ps xs params, n + int (length (filter (\<lambda>part. \<not> is_param part) ps))) else None)"
  by (induction ps xs arbitrary: params n rule: list_induct2) (auto simp: bindings_def)

definition best_fit :: "gostring \<Rightarrow> gostring list \<Rightarrow> 'h route list \<Rightarrow> 'h route \<Rightarrow> bool" where
  "best_fit meth parts rs r \<longleftrightarrow>
     (\<exists>before after. rs = before @ r # after \<and> fits meth parts r \<and>
        (\<forall>q\<in>set before. fits meth parts q \<longrightarrow> literals q < literals r) \<and>
        (\<forall>q\<in>set after. fits meth parts q \<longrightarrow> literals q \<le> literals r))"

lemma match_loop_step:
  "match_loop meth parts (r # rs) best k =
     (if fits meth parts r \<and> k < literals r
      then match_loop meth parts rs (Some (rt_handler r, bindings (rt_parts r) parts [])) (literals r)
      else match_loop meth parts rs best k)"
  by (auto simp: fit_parts_spec fits_def literals_def dest: list_all2_lengthD)

declare match_loop.simps(2) [simp del]

lemma best_fit_max: "best_fit meth parts rs r \<Longrightarrow> q \<in> set rs \<Longrightarrow> fits meth parts q \<Longrightarrow> literals q \<le> literals r"
  unfolding best_fit_def by fastforce

lemma best_fit_keep:
  "best_fit meth parts rs r \<Longrightarrow> \<not> (fits meth parts q \<and> literals r < literals q) \<Longrightarrow> best_fit meth parts (rs @ [q]) r"
proof -
  assume b: "best_fit meth parts rs r" and n: "\<not> (fits meth parts q \<and> literals r < literals q)"
  obtain before after where rs: "rs = before @ r # after" "fits meth parts r"
    "\<forall>q\<in>set before. fits meth parts q \<longrightarrow> literals q < literals r"
    "\<forall>q\<in>set after. fits meth parts q \<longrightarrow> literals q \<le> literals r"
    using b unfolding best_fit_def by blast
  have "rs @ [q] = before @ r # (after @ [q])" using rs(1) by simp
  moreover have "\<forall>p\<in>set (after @ [q]). fits meth parts p \<longrightarrow> literals p \<le> literals r"
    using rs(4) n by auto
  ultimately show ?thesis using rs(2,3) unfolding best_fit_def by blast
qed

lemma best_fit_new:
  "fits meth parts q \<Longrightarrow> \<forall>p\<in>set rs. fits meth parts p \<longrightarrow> literals p < literals q \<Longrightarrow> best_fit meth parts (rs @ [q]) q"
  unfolding best_fit_def by fastforce

text \<open>What the loop knows after the routes \<open>rs\<close>.\<close>

definition loop_state :: "gostring \<Rightarrow> gostring list \<Rightarrow> 'h route list \<Rightarrow> ('h \<times> params) option \<Rightarrow> int \<Rightarrow> bool" where
  "loop_state meth parts rs best k \<longleftrightarrow>
     (best = None \<and> k = -1 \<and> (\<forall>q\<in>set rs. \<not> fits meth parts q)) \<or>
     (\<exists>r. best = Some (rt_handler r, bindings (rt_parts r) parts []) \<and> k = literals r \<and> best_fit meth parts rs r)"

lemma loop_state_step:
  assumes "loop_state meth parts rs best k"
  shows "fits meth parts q \<Longrightarrow> k < literals q \<Longrightarrow>
      loop_state meth parts (rs @ [q]) (Some (rt_handler q, bindings (rt_parts q) parts [])) (literals q)"
    and "\<not> (fits meth parts q \<and> k < literals q) \<Longrightarrow> loop_state meth parts (rs @ [q]) best k"
proof -
  have pos: "-1 < literals q" by (simp add: literals_def)
  show "loop_state meth parts (rs @ [q]) (Some (rt_handler q, bindings (rt_parts q) parts [])) (literals q)"
    if "fits meth parts q" "k < literals q"
  proof -
    have "\<forall>p\<in>set rs. fits meth parts p \<longrightarrow> literals p < literals q"
      using assms that(2) best_fit_max unfolding loop_state_def by fastforce
    then show ?thesis using best_fit_new [OF that(1)] unfolding loop_state_def by blast
  qed
  show "loop_state meth parts (rs @ [q]) best k" if "\<not> (fits meth parts q \<and> k < literals q)"
    using assms that pos best_fit_keep unfolding loop_state_def by fastforce
qed

lemma match_loop_spec:
  "loop_state meth parts pre best k \<Longrightarrow> \<exists>k'. loop_state meth parts (pre @ rs) (match_loop meth parts rs best k) k'"
proof (induction rs arbitrary: pre best k)
  case (Cons r rs)
  show ?case
  proof (cases "fits meth parts r \<and> k < literals r")
    case True
    with Cons.IH [OF loop_state_step(1) [OF Cons.prems, of r]] show ?thesis by (simp add: match_loop_step)
  next
    case False
    with Cons.IH [OF loop_state_step(2) [OF Cons.prems False]] show ?thesis by (auto simp: match_loop_step)
  qed
qed auto

text \<open>
  C34. The router picks the most specific route. It answers if and only if some registered route has
  the method and the length of the path and equals it in every literal part; of those the one with the
  most literal parts, and among equals the one registered first; and its parameters are bound to the
  parts of the path they stand for, a repeated name to the last of them.
\<close>

theorem match_most_specific:
  "(rt_match meth parts rs = None \<longleftrightarrow> (\<forall>q\<in>set rs. \<not> fits meth parts q)) \<and>
   (\<forall>h ps. rt_match meth parts rs = Some (h, ps) \<longrightarrow>
      (\<exists>r. best_fit meth parts rs r \<and> h = rt_handler r \<and> ps = bindings (rt_parts r) parts []))"
proof -
  have "loop_state meth parts [] None (-1)" by (simp add: loop_state_def)
  then obtain k where "loop_state meth parts rs (rt_match meth parts rs) k"
    using match_loop_spec [of meth parts "[]" None "-1" rs] by (auto simp: rt_match_def)
  then consider (none) "rt_match meth parts rs = None" "\<forall>q\<in>set rs. \<not> fits meth parts q"
    | (some) r where "rt_match meth parts rs = Some (rt_handler r, bindings (rt_parts r) parts [])" "best_fit meth parts rs r"
    unfolding loop_state_def by auto
  then show ?thesis
  proof cases
    case some
    moreover have "\<exists>q\<in>set rs. fits meth parts q" using some(2) unfolding best_fit_def by auto
    ultimately show ?thesis by auto
  qed simp
qed

definition demo_routes :: "nat route list" where
  "demo_routes = Handle ''GET'' ''/p/limits'' 2 (Handle ''GET'' ''/p/:pid'' 1 [])"

theorem match_most_specific_witness:
  "rt_match ''GET'' [''p'', ''limits''] demo_routes \<noteq> None \<and> rt_match ''PUT'' [''p'', ''limits''] demo_routes = None"
proof -
  have r: "map (\<lambda>r. (rt_method r, rt_parts r)) demo_routes = [(''GET'', [''p'', '':pid'']), (''GET'', [''p'', ''limits''])]"
    by code_simp
  have none: "\<forall>q\<in>set demo_routes. \<not> fits ''PUT'' [''p'', ''limits''] q"
  proof
    fix q assume "q \<in> set demo_routes"
    then have "rt_method q \<in> fst ` set (map (\<lambda>r. (rt_method r, rt_parts r)) demo_routes)" by force
    then show "\<not> fits ''PUT'' [''p'', ''limits''] q" by (auto simp: r fits_def)
  qed
  have some: "fits ''GET'' [''p'', ''limits''] (demo_routes ! 1)" "demo_routes ! 1 \<in> set demo_routes"
    by code_simp+
  show ?thesis
    using match_most_specific [of "''PUT''" "[''p'', ''limits'']" demo_routes] none
      match_most_specific [of "''GET''" "[''p'', ''limits'']" demo_routes] some by blast
qed

section \<open>Middleware\<close>

definition isSafeMethod :: "gostring \<Rightarrow> bool" where
  "isSafeMethod meth \<longleftrightarrow> meth = ''GET'' \<or> meth = ''HEAD'' \<or> meth = ''OPTIONS''"

definition requestPort :: "gostring \<Rightarrow> gostring" where
  "requestPort hostport = (case split_host_port hostport of Some (host, port) \<Rightarrow> port | None \<Rightarrow> [])"

definition samePort :: "gostring \<Rightarrow> gostring \<Rightarrow> bool" where
  "samePort originPort reqPort \<longleftrightarrow>
     (if originPort = [] then ''80'' else originPort) = (if reqPort = [] then ''80'' else reqPort)"

definition validOrigin :: "Request \<Rightarrow> bool" where
  "validOrigin req =
     (let origin = trim_space (rq_header req ''Origin'') in
      if origin = [] then False
      else
        (case parse_origin origin of
           None \<Rightarrow> False
         | Some u \<Rightarrow>
             if ou_Scheme u \<noteq> ''http'' then False
             else if \<not> (equal_fold (ou_Hostname u) ''localhost'' \<or> loopback_host (ou_Hostname u)) then False
             else samePort (ou_Port u) (requestPort (rq_Host req))))"

definition securityHeadersMiddleware :: "('s, 'p) handlerfn \<Rightarrow> ('s, 'p) handlerfn" where
  "securityHeadersMiddleware nxt = (\<lambda>req ps s.
     map_option (\<lambda>(s', r). (s', r\<lparr>rs_headers :=
        [(''X-Content-Type-Options'', ''nosniff''), (''Referrer-Policy'', ''same-origin''), (''X-Frame-Options'', ''DENY'')]
          @ rs_headers r\<rparr>)) (nxt req ps s))"

definition localOnlyMiddleware :: "('s, 'p) handlerfn \<Rightarrow> ('s, 'p) handlerfn" where
  "localOnlyMiddleware nxt = (\<lambda>req ps s.
     case split_host_port (rq_RemoteAddr req) of
       None \<Rightarrow> Some (s, http_error ''forbidden: invalid remote address'' 403)
     | Some (host, port) \<Rightarrow>
         (case parse_ip host of
            None \<Rightarrow> Some (s, http_error ''forbidden: local-only API'' 403)
          | Some ip \<Rightarrow>
              if \<not> ip_is_loopback ip then Some (s, http_error ''forbidden: local-only API'' 403) else nxt req ps s))"

definition mutationGuardMiddleware :: "gostring \<Rightarrow> ('s, 'p) handlerfn \<Rightarrow> ('s, 'p) handlerfn" where
  "mutationGuardMiddleware csrfToken nxt = (\<lambda>req ps s.
     if isSafeMethod (rq_Method req) then nxt req ps s
     else if \<not> validOrigin req then Some (s, http_error ''forbidden: invalid origin'' 403)
     else if rq_header req ''X-WTM-CSRF'' \<noteq> csrfToken then Some (s, http_error ''forbidden: missing csrf token'' 403)
     else nxt req ps s)"

text \<open>\<^verbatim>\<open>ServeHTTP\<close>: the loop wraps the handler in the last middleware first; an unmatched path gets none.\<close>

definition ServeHTTP ::
  "(('s, 'p) handlerfn \<Rightarrow> ('s, 'p) handlerfn) list \<Rightarrow> ('s, 'p) handlerfn \<Rightarrow> ('s, 'p) handlerfn route list \<Rightarrow>
     Request \<Rightarrow> 's \<Rightarrow> ('s \<times> 'p Response) option" where
  "ServeHTTP middleware notFound rs req s =
     (case rt_match (rq_Method req) (splitPath (rq_Path req)) rs of
        None \<Rightarrow> notFound req [] s
      | Some (h, ps) \<Rightarrow> foldr (\<lambda>mw h. mw h) middleware h req ps s)"

text \<open>Who may have a handler run at all.\<close>

definition local_peer :: "Request \<Rightarrow> bool" where
  "local_peer req \<longleftrightarrow> (\<exists>host port. split_host_port (rq_RemoteAddr req) = Some (host, port) \<and> loopback_host host)"

definition admitted :: "gostring \<Rightarrow> Request \<Rightarrow> bool" where
  "admitted csrfToken req \<longleftrightarrow>
     local_peer req \<and> (isSafeMethod (rq_Method req) \<or> (validOrigin req \<and> rq_header req ''X-WTM-CSRF'' = csrfToken))"

lemma refused:
  assumes "\<not> admitted csrfToken req"
  shows "\<exists>r. rs_status r = 403 \<and>
    securityHeadersMiddleware (localOnlyMiddleware (mutationGuardMiddleware csrfToken h)) req ps s = Some (s, r)"
  using assms
  by (auto simp: admitted_def local_peer_def loopback_host_def securityHeadersMiddleware_def localOnlyMiddleware_def
      mutationGuardMiddleware_def http_error_def split: option.splits if_splits)

lemma passed:
  assumes "admitted csrfToken req"
  shows "localOnlyMiddleware (mutationGuardMiddleware csrfToken h) req ps s = h req ps s"
  using assms
  by (auto simp: admitted_def local_peer_def loopback_host_def localOnlyMiddleware_def
      mutationGuardMiddleware_def split: option.splits)

end
