(* ===== verification/Ttl.thy ===== *)
theory Ttl
  imports GoFloat
begin

text \<open>
  Two components keep things for a limited time until they are asked for once: the suggestions of the
  AI advisor that the dashboard may execute, and the actions a Telegram chat has to confirm. This
  theory states the interface they share and what their clients rely on: whatever is taken was put
  before, has not expired, and is taken at most once per put.
\<close>

definition live_at :: "('v \<Rightarrow> gotime) \<Rightarrow> gotime \<Rightarrow> 'v option \<Rightarrow> 'v option" where
  "live_at due now x = (case x of None \<Rightarrow> None | Some v \<Rightarrow> if now < due v then Some v else None)"

lemma live_at_Some [simp]: "live_at due now x = Some v \<longleftrightarrow> x = Some v \<and> now < due v"
  by (auto simp: live_at_def split: option.splits)

lemma live_at_None [simp]: "live_at due now None = None"
  by (simp add: live_at_def)

datatype ('k, 'v) ttl_op = Put gotime 'k 'v | Take gotime 'k "'v \<Rightarrow> bool"

text \<open>An entry of the log of a run: the operation and, for a take, what it returned.\<close>

type_synonym ('k, 'v) ttl_log = "(('k, 'v) ttl_op \<times> 'v option) list"

fun ends_stay :: "'k \<Rightarrow> ('k, 'v) ttl_op \<times> 'v option \<Rightarrow> bool" where
  "ends_stay k (Put t k' v, r) = (k' = k)"
| "ends_stay k (Take t k' ok, r) = (k' = k \<and> r \<noteq> None)"

locale ttl_store =
  fixes good :: "'s \<Rightarrow> bool"
    and view :: "'s \<Rightarrow> 'k \<Rightarrow> 'v option"
    and due :: "'v \<Rightarrow> gotime"
    and put :: "gotime \<Rightarrow> 'k \<Rightarrow> 'v \<Rightarrow> 's \<Rightarrow> 's"
    and take :: "gotime \<Rightarrow> 'k \<Rightarrow> ('v \<Rightarrow> bool) \<Rightarrow> 's \<Rightarrow> 's \<times> 'v option"
  assumes good_put: "good s \<Longrightarrow> good (put now k v s)"
    and good_take: "good s \<Longrightarrow> good (fst (take now k ok s))"
    and view_put: "good s \<Longrightarrow> view (put now k v s) k' = (if k' = k then Some v else live_at due now (view s k'))"
    and take_result: "good s \<Longrightarrow> snd (take now k ok s) =
      (case live_at due now (view s k) of None \<Rightarrow> None | Some v \<Rightarrow> if ok v then Some v else None)"
    and view_take: "good s \<Longrightarrow> view (fst (take now k ok s)) k' =
      (if k' = k \<and> snd (take now k ok s) \<noteq> None then None else live_at due now (view s k'))"
begin

fun exec :: "('k, 'v) ttl_op \<Rightarrow> 's \<Rightarrow> 's \<times> 'v option" where
  "exec (Put now k v) s = (put now k v s, None)"
| "exec (Take now k ok) s = take now k ok s"

fun run :: "('k, 'v) ttl_op list \<Rightarrow> 's \<Rightarrow> 's \<times> ('k, 'v) ttl_log" where
  "run [] s = (s, [])"
| "run (c # cs) s = (let (s1, r) = exec c s; (s2, l) = run cs s1 in (s2, (c, r) # l))"

lemma run_append:
  "run (cs @ ds) s = (fst (run ds (fst (run cs s))), snd (run cs s) @ snd (run ds (fst (run cs s))))"
  by (induction cs arbitrary: s) (auto simp: Let_def split: prod.splits)

lemma good_exec: "good s \<Longrightarrow> good (fst (exec c s))"
  by (cases c) (simp_all add: good_put good_take)

lemma exec_view:
  assumes "good s" and "view (fst (exec c s)) k = Some v"
  shows "(\<exists>t. c = Put t k v) \<or> (view s k = Some v \<and> \<not> ends_stay k (c, snd (exec c s)))"
proof (cases c)
  case (Put t k' v')
  then show ?thesis using assms by (cases "k = k'") (auto simp: view_put)
next
  case (Take t k' ok)
  then show ?thesis using assms by (auto simp: view_take split: if_splits)
qed

text \<open>Whatever is in the store was put there and not taken or replaced since.\<close>

lemma view_origin:
  "good s0 \<Longrightarrow> view s0 = (\<lambda>_. None) \<Longrightarrow> view (fst (run cs s0)) k = Some v \<Longrightarrow>
     \<exists>l1 t l2. snd (run cs s0) = l1 @ (Put t k v, None) # l2 \<and> (\<forall>e\<in>set l2. \<not> ends_stay k e)"
proof -
  have gen: "view (fst (run cs s)) k = Some v \<Longrightarrow> good s \<Longrightarrow>
      (\<exists>l1 t l2. snd (run cs s) = l1 @ (Put t k v, None) # l2 \<and> (\<forall>e\<in>set l2. \<not> ends_stay k e)) \<or>
      (view s k = Some v \<and> (\<forall>e\<in>set (snd (run cs s)). \<not> ends_stay k e))" for cs s
  proof (induction cs arbitrary: s)
    case (Cons c cs)
    obtain s1 r where e: "exec c s = (s1, r)" by fastforce
    obtain s2 l where r2: "run cs s1 = (s2, l)" by fastforce
    have "good s1" using good_exec [OF Cons.prems(2), of c] e by simp
    from Cons.IH [of s1, OF _ this] Cons.prems(1) e r2
    consider (later) l1 t l2 where "l = l1 @ (Put t k v, None) # l2" "\<forall>e\<in>set l2. \<not> ends_stay k e"
      | (here) "view s1 k = Some v" "\<forall>e\<in>set l. \<not> ends_stay k e" by auto
    then show ?case
    proof cases
      case later
      then show ?thesis using e r2
        by (intro disjI1 exI [of _ "(c, r) # l1"] exI [of _ t] exI [of _ l2]) simp
    next
      case here
      then show ?thesis
        using exec_view [OF Cons.prems(2), of c k v] e r2
        by (auto intro: exI [of _ "[]"])
    qed
  qed simp
  assume "good s0" "view s0 = (\<lambda>_. None)" "view (fst (run cs s0)) k = Some v"
  then show ?thesis using gen [of cs s0] by simp
qed

text \<open>And so is whatever a take returns: put, still due, accepted, and not returned since it was put.\<close>

lemma take_origin:
  assumes "good s0" and "view s0 = (\<lambda>_. None)"
    and "take now k ok (fst (run cs s0)) = (s', Some v)"
  shows "now < due v \<and> ok v \<and> view s' k = None \<and>
    (\<exists>l1 t l2. snd (run cs s0) = l1 @ (Put t k v, None) # l2 \<and> (\<forall>e\<in>set l2. \<not> ends_stay k e))"
proof -
  let ?s = "fst (run cs s0)"
  have g: "good (fst (run cs s))" if "good s" for s
    using that
  proof (induction cs arbitrary: s)
    case (Cons c cs)
    then show ?case using good_exec [of s c] by (auto simp: Let_def split_beta)
  qed simp
  have "good ?s" using g assms(1) .
  then have r: "Some v = (case live_at due now (view ?s k) of None \<Rightarrow> None | Some v \<Rightarrow> if ok v then Some v else None)"
    using take_result [of ?s now k ok] assms(3) by simp
  then have "view ?s k = Some v" "now < due v" "ok v" by (auto split: option.splits if_splits)
  then show ?thesis
    using view_origin [OF assms(1,2), of cs k v] view_take [OF \<open>good ?s\<close>, of now k ok k] assms(3) by auto
qed

end

text \<open>Dropping the expired entries of a Go map in a range loop.\<close>

definition prune_map :: "('v \<Rightarrow> gotime) \<Rightarrow> gotime \<Rightarrow> ('k, 'v) gomap \<Rightarrow> ('k, 'v) gomap" where
  "prune_map due now m = mfilter (\<lambda>_ v. t_after (due v) now) m"

lemma wf_prune [simp, intro]: "wf_map m \<Longrightarrow> wf_map (prune_map due now m)"
  by (simp add: prune_map_def wf_map_mfilter)

lemma mget_prune: "wf_map m \<Longrightarrow> mget (prune_map due now m) k = live_at due now (mget m k)"
  by (simp add: prune_map_def mget_mfilter live_at_def t_after_def split: option.splits)

lemma length_prune_le: "length (prune_map due now m) \<le> length m"
  by (simp add: prune_map_def length_mfilter_le)

end
