(* ===== verification/Advice.thy ===== *)
theory Advice
  imports Alerts Metrics GoText
begin

text \<open>
  What the advisor and the model say to each other: \<^verbatim>\<open>internal/ai/actions.go\<close> and
  \<^verbatim>\<open>internal/ai/prompt.go\<close>. Decoding the JSON of an action block, the digest behind an action's id, the
  general format of a float and the sort of the standard library are fields of an environment; the
  prompts' long fixed texts are written out.
\<close>

section \<open>Suggestions\<close>

record RuleSuggestion =
  rsg_Name :: gostring
  rsg_Enabled :: bool
  rsg_Match :: gostring
  rsg_Metric :: gostring
  rsg_Op :: gostring
  rsg_Threshold :: f64
  rsg_For :: int
  rsg_ForSeconds :: int
  rsg_Action :: gostring
  rsg_Cooldown :: int
  rsg_CooldownSeconds :: int

record AutoPolicy =
  ap_Status :: gostring
  ap_Reason :: gostring
  ap_RepeatCount :: int
  ap_RequiredRepeatCount :: int

record Suggestion =
  sg_ID :: gostring
  sg_Type :: gostring
  sg_PID :: pid
  sg_Name :: gostring
  sg_Reason :: gostring
  sg_Rule :: "RuleSuggestion option"
  sg_Policy :: "AutoPolicy option"

record AnalyzeResult =
  ar_Answer :: gostring
  ar_Actions :: "Suggestion list"
  ar_Cached :: bool

record ai_env =
  ae_sha256hex :: "gostring \<Rightarrow> gostring"
  ae_format_v :: "f64 \<Rightarrow> gostring"
  ae_unmarshal :: "gostring \<Rightarrow> goerror + Suggestion list"
  ae_sort :: "(ProcessInfo \<Rightarrow> ProcessInfo \<Rightarrow> bool) \<Rightarrow> ProcessInfo list \<Rightarrow> ProcessInfo list"
  ae_day :: "gotime \<Rightarrow> gostring"

definition hashSuggestion :: "ai_env \<Rightarrow> Suggestion \<Rightarrow> gostring" where
  "hashSuggestion env s =
     take 12 (ae_sha256hex env
       (sprintf ''%s|%d|%s'' [FStr (sg_Type s), FInt (uint (sg_PID s)), FStr (to_lower (sg_Name s))] @
        (case sg_Rule s of
           None \<Rightarrow> []
         | Some r \<Rightarrow> sprintf ''|%s|%s|%s''
             [FStr (rsg_Name r), FStr (rsg_Match r), FStr (ae_format_v env (rsg_Threshold r))])))"

definition known_types :: "gostring list" where
  "known_types = [''kill'', ''suspend'', ''protect'', ''ignore'', ''add_rule'']"

definition keep_suggestion :: "ai_env \<Rightarrow> Suggestion \<Rightarrow> Suggestion list" where
  "keep_suggestion env it =
     (let it = it\<lparr>sg_Type := to_lower (trim_space (sg_Type it))\<rparr> in
      if sg_Type it \<in> set known_types then [it\<lparr>sg_ID := hashSuggestion env it\<rparr>] else [])"

definition fence :: gostring where "fence = [CHR 0x60, CHR 0x60, CHR 0x60]"

definition parseActionsBlock :: "ai_env \<Rightarrow> gostring \<Rightarrow> gostring \<times> Suggestion list" where
  "parseActionsBlock env raw =
     (case str_index raw ''<actions>'' of
        None \<Rightarrow> (trim_space raw, [])
      | Some start \<Rightarrow>
        (case str_index (drop start raw) ''</actions>'' of
           None \<Rightarrow> (trim_space raw, [])
         | Some n \<Rightarrow>
           (let stop = n + start;
                body = trim_space (drop (start + 9) (take stop raw));
                cleaned = trim_space (take start raw @ drop (stop + 10) raw);
                body = trim_prefix body (fence @ ''json'');
                body = trim_prefix body fence;
                body = trim_suffix body fence;
                body = trim_space body
            in if body = [] \<or> body = ''[]'' then (cleaned, [])
               else
                 (case ae_unmarshal env body of
                    Inl err \<Rightarrow> (cleaned @ [CHR 0x0A, CHR 0x0A] @ ''(actions block parse error: '' @ err_text err @ '')'', [])
                  | Inr items \<Rightarrow> (cleaned, concat (map (keep_suggestion env) items))))))"

text \<open>
  Only known operations come out of an answer. Every suggestion parsed from an answer has one of
  the five types, in lower case and without blanks around it, and an id computed from it by the server,
  whatever the model wrote; and an answer without a block is passed on, trimmed, with no suggestions.
\<close>

theorem parsed_suggestions_known:
  "(\<forall>s\<in>set (snd (parseActionsBlock env raw)).
      sg_Type s \<in> {''kill'', ''suspend'', ''protect'', ''ignore'', ''add_rule''} \<and>
      sg_ID s = hashSuggestion env s) \<and>
   (\<not> str_contains raw ''<actions>'' \<longrightarrow> parseActionsBlock env raw = (trim_space raw, []))"
proof -
  have id: "hashSuggestion env (s\<lparr>sg_ID := i\<rparr>) = hashSuggestion env s" for s i by (simp add: hashSuggestion_def)
  have "\<forall>s\<in>set (keep_suggestion env it). sg_Type s \<in> set known_types \<and> sg_ID s = hashSuggestion env s" for it
    by (auto simp: keep_suggestion_def Let_def id)
  then show ?thesis
    by (auto simp: parseActionsBlock_def known_types_def Let_def str_contains_def split: option.splits sum.splits)
qed

theorem parsed_suggestions_known_witness:
  "parseActionsBlock env ''  all is well '' = (''all is well'', [])"
proof -
  have "\<not> str_contains ''  all is well '' ''<actions>''" by code_simp
  moreover have "trim_space ''  all is well '' = ''all is well''" by code_simp
  ultimately show ?thesis using parsed_suggestions_known [of env "''  all is well ''"] by simp
qed

section \<open>Formatting\<close>

text \<open>The loop that finds the unit: at most four steps past the first.\<close>

fun unit_loop :: "nat \<Rightarrow> nat \<Rightarrow> nat \<Rightarrow> nat \<Rightarrow> nat \<times> nat" where
  "unit_loop 0 n dv ex = (dv, ex)"
| "unit_loop (Suc k) n dv ex = (if 1024 \<le> n div dv then unit_loop k n (dv * 1024) (ex + 1) else (dv, ex))"

definition humanBytes :: "u64 \<Rightarrow> gostring" where
  "humanBytes n =
     (if unat n < 1024 then sprintf ''%dB'' [FInt (uint n)]
      else
        (let (dv, ex) = unit_loop 4 (unat n) 1024 0
         in sprintf ''%.1f%s'' [FF64 (fdiv (f64_of_u64 n) (f64_of_int (int dv))), FStr [''KMGTP'' ! ex]]))"

definition ellipsis :: gostring where "ellipsis = [CHR 0xE2, CHR 0x80, CHR 0xA6]"
definition em_dash :: gostring where "em_dash = [CHR 0xE2, CHR 0x80, CHR 0x94]"
definition nl :: gostring where "nl = [CHR 0x0A]"

definition ai_truncate :: "gostring \<Rightarrow> nat \<Rightarrow> gostring" where
  "ai_truncate s n = (if length s \<le> n then s else take (n - 1) s @ ellipsis)"

text \<open>The unit found is the one the number is at least once and less than 1024 times, up to the fifth.\<close>

lemma unit_loop_spec:
  "unit_loop k n dv ex = (d, e) \<Longrightarrow> 0 < dv \<Longrightarrow> dv \<le> n \<Longrightarrow>
     ex \<le> e \<and> e \<le> ex + k \<and> d = dv * 1024 ^ (e - ex) \<and> d \<le> n \<and> (e < ex + k \<longrightarrow> n < d * 1024)"
proof (induction k n dv ex rule: unit_loop.induct)
  case (2 k n dv ex)
  show ?case
  proof (cases "1024 \<le> n div dv")
    case True
    then have le: "dv * 1024 \<le> n" using "2.prems"(2) by (metis mult.commute div_le_mono less_eq_div_iff_mult_less_eq)
    have u: "unit_loop k n (dv * 1024) (ex + 1) = (d, e)" using "2.prems"(1) True by simp
    have "0 < dv * 1024" using "2.prems"(2) by simp
    from "2.IH" [OF True u this le] have ih: "ex + 1 \<le> e" "e \<le> ex + 1 + k"
        "d = dv * 1024 * 1024 ^ (e - (ex + 1))" "d \<le> n" "e < ex + 1 + k \<longrightarrow> n < d * 1024" by blast+
    have "1024 ^ (e - ex) = 1024 * (1024 :: nat) ^ (e - (ex + 1))"
      using ih(1) by (metis Suc_diff_Suc Suc_eq_plus1 less_eq_Suc_le power_Suc)
    then have "d = dv * 1024 ^ (e - ex)" using ih(3) by (simp only: mult.assoc)
    moreover have "ex \<le> e" "e \<le> ex + Suc k" "e < ex + Suc k \<longrightarrow> n < d * 1024" using ih by simp_all
    ultimately show ?thesis using ih(4) by blast
  next
    case False
    then have "n < dv * 1024" using "2.prems"(2) by (metis div_less_iff_less_mult linorder_not_less mult.commute)
    then show ?thesis using "2.prems" False by auto
  qed
qed simp

section \<open>Prompts\<close>

record chatTurn =
  ct_Role :: gostring
  ct_Content :: gostring

definition top8 :: "ai_env \<Rightarrow> (ProcessInfo \<Rightarrow> ProcessInfo \<Rightarrow> bool) \<Rightarrow> ProcessInfo list \<Rightarrow> ProcessInfo list" where
  "top8 env lt ps = take 8 (ae_sort env lt ps)"

definition prompt_disks :: "DriveInfo list \<Rightarrow> gostring" where
  "prompt_disks ds =
     (if ds = [] then []
      else ''Disks: '' @
        str_join '', '' (map (\<lambda>d. sprintf ''%s %.0f%% used'' [FStr (drv_Letter d), FF64 (drv_UsedPct d)]) ds) @ nl)"

definition prompt_alerts :: "Alert list \<Rightarrow> gostring" where
  "prompt_alerts alerts =
     (if alerts = [] then []
      else nl @ ''## ACTIVE ALERTS'' @ nl @
        concat (map (\<lambda>a. ''- ['' @ al_Severity a @ ''] '' @ al_Title a @ '' '' @ em_dash @ '' '' @ al_Description a @ nl) alerts))"

definition prompt_tree :: "bool \<Rightarrow> ProcessNode list \<Rightarrow> gostring" where
  "prompt_tree include roots =
     (if include \<and> roots \<noteq> []
      then nl @ ''## PROCESS TREE (roots)'' @ nl @
        concat (map (\<lambda>r. case r of ProcessNode p cs d orph \<Rightarrow>
          sprintf ''- %s (PID %d, children=%d)'' [FStr (p_Name p), FInt (uint (p_PID p)), FInt (int (length cs))] @ nl)
          (take 6 roots))
      else [])"

definition prompt_ports :: "bool \<Rightarrow> PortBinding list \<Rightarrow> gostring" where
  "prompt_ports include pbs =
     (if include \<and> pbs \<noteq> []
      then nl @ sprintf ''Listening ports: %d, total endpoints: %d''
             [FInt (int (length (filter (\<lambda>pb. pb_State pb = ''listen'') pbs))), FInt (int (length pbs))] @ nl
      else [])"

definition prompt_question :: "gostring \<Rightarrow> gostring" where
  "prompt_question q =
     (if trim_space q \<noteq> [] then nl @ ''## USER QUESTION'' @ nl @ q @ nl
      else nl @ ''## REQUEST'' @ nl @
        ''Give a short health assessment and call out the most worrying processes, if any.'' @ nl)"

definition actionsSchemaDoc :: gostring where
  \<open>actionsSchemaDoc =
     nl @
     nl @
     ''When you recommend an operation the user could take, append a single'' @ nl @
     ''<actions>...</actions> block at the very end of your reply containing a JSON'' @ nl @
     ''array. Never put actions inside prose; only inside one <actions> block. Omit'' @ nl @
     ''the block entirely when you have no concrete operation to suggest.'' @ nl @
     nl @
     ''Each item must be one of:'' @ nl @
     ''  {"type":"kill","pid":<uint>,"name":"<exe>","reason":"<short>"}'' @ nl @
     ''  {"type":"suspend","pid":<uint>,"name":"<exe>","reason":"<short>"}'' @ nl @
     ''  {"type":"protect","name":"<exe>","reason":"<short>"}'' @ nl @
     ''  {"type":"ignore","name":"<exe>","reason":"<short>"}'' @ nl @
     ''  {"type":"add_rule","rule":{"name":"<id>","match":"<exe>","metric":"cpu_percent|memory_bytes|thread_count","op":">=|>|<=|<","threshold":<num>,"for_seconds":<int>,"action":"alert|kill|suspend","cooldown_seconds":<int>},"reason":"<short>"}'' @ nl @
     nl @
     ''CRITICAL RULES:'' @ nl @
     ''- NEVER suggest kill or suspend for any process that could be a Windows system'' @ nl @
     ''  process. When in doubt, recommend "protect" or "ignore" instead of destructive actions.'' @ nl @
     ''- NEVER suggest kill or suspend for processes whose PID is NOT present in the'' @ nl @
     ''  current snapshot data. Always cross-reference the PID.'' @ nl @
     ''- Maximum 3 concrete actions per response. Prefer quality over quantity.'' @ nl @
     ''- If a process is consuming high CPU but could be a legitimate user app, suggest'' @ nl @
     ''  "protect" first and ask the user to verify.'' @ nl @
     ''- Keep reasons under 80 chars.'' @ nl @
     ''- Only recommend operations that are directly justified by the snapshot data.'' @ nl @
     ''- Do not wrap the <actions> block in markdown fences.''\<close>

definition systemPromptEN :: gostring where
  \<open>systemPromptEN =
     ''You are a Windows system performance expert. Given the current snapshot'' @ nl @
     ''and active alerts, give the user concise, concrete, actionable advice in'' @ nl @
     ''3-5 sentences max. No speculation; reason from data only.'' @
     actionsSchemaDoc\<close>

definition SystemPrompt :: "gostring \<Rightarrow> gostring" where
  "SystemPrompt language = systemPromptEN"

definition BuildPrompt ::
  "ai_env \<Rightarrow> gostring \<Rightarrow> SystemSnapshot option \<Rightarrow> Alert list \<Rightarrow> bool \<Rightarrow> bool \<Rightarrow> gostring \<Rightarrow> gostring" where
  "BuildPrompt env language snap alerts includeTree includePorts userQuestion =
     (case snap of
        None \<Rightarrow> userQuestion
      | Some s \<Rightarrow>
          ''## SYSTEM SNAPSHOT'' @ nl @
          sprintf ''CPU: %.1f%% (%d cores, %s)''
            [FF64 (cpu_TotalPercent (ss_CPU s)), FInt (cpu_NumLogical (ss_CPU s)), FStr (cpu_Name (ss_CPU s))] @ nl @
          sprintf ''Memory: %.1f%% used (%s / %s)''
            [FF64 (mem_UsedPercent (ss_Memory s)), FStr (humanBytes (mem_UsedPhys (ss_Memory s))),
             FStr (humanBytes (mem_TotalPhys (ss_Memory s)))] @ nl @
          (if gpu_Available (ss_GPU s)
           then sprintf ''GPU: %s util %.0f%%, %s/%s VRAM''
             [FStr (gpu_Name (ss_GPU s)), FF64 (gpu_Utilization (ss_GPU s)), FStr (humanBytes (gpu_VRAMUsed (ss_GPU s))),
              FStr (humanBytes (gpu_VRAMTotal (ss_GPU s)))] @ nl
           else []) @
          prompt_disks (dsk_Drives (ss_Disk s)) @
          nl @ ''## TOP CPU PROCESSES'' @ nl @
          concat (map (\<lambda>p. sprintf ''- PID %d %-25s CPU %5.1f%% MEM %s''
            [FInt (uint (p_PID p)), FStr (ai_truncate (p_Name p) 25), FF64 (p_CPUPercent p), FStr (humanBytes (p_WorkingSet p))] @ nl)
            (top8 env (\<lambda>a b. flt (p_CPUPercent b) (p_CPUPercent a)) (ss_Processes s))) @
          nl @ ''## TOP MEMORY PROCESSES'' @ nl @
          concat (map (\<lambda>p. sprintf ''- PID %d %-25s MEM %s CPU %.1f%%''
            [FInt (uint (p_PID p)), FStr (ai_truncate (p_Name p) 25), FStr (humanBytes (p_WorkingSet p)), FF64 (p_CPUPercent p)] @ nl)
            (top8 env (\<lambda>a b. p_WorkingSet b < p_WorkingSet a) (ss_Processes s))) @
          prompt_alerts alerts @
          prompt_tree includeTree (ss_ProcessTree s) @
          prompt_ports includePorts (ss_PortBindings s) @
          prompt_question userQuestion)"

definition BuildChatPrompt ::
  "ai_env \<Rightarrow> gostring \<Rightarrow> SystemSnapshot option \<Rightarrow> Alert list \<Rightarrow> bool \<Rightarrow> bool \<Rightarrow> chatTurn list \<Rightarrow> gostring \<Rightarrow> gostring" where
  "BuildChatPrompt env language snap alerts includeTree includePorts history userMessage =
     BuildPrompt env language snap alerts includeTree includePorts [] @
     (if history = [] then []
      else nl @ ''## RECENT CHAT'' @ nl @
        concat (map (\<lambda>turn. (if equal_fold (ct_Role turn) ''user'' then ''User'' else ''Assistant'') @ '': '' @
          trim_space (ct_Content turn) @ nl) history)) @
     nl @ ''## CHAT TASK'' @ nl @
     ''Continue the conversation naturally. Answer the latest user message directly using the current snapshot.'' @ nl @
     ''If the user asks for an action recommendation, keep using the <actions> block format.'' @ nl @
     nl @ ''## LATEST USER MESSAGE'' @ nl @ trim_space userMessage @ nl"

definition buildBackgroundPrompt :: "Alert \<Rightarrow> gostring" where
  "buildBackgroundPrompt a =
     ''A new CRITICAL anomaly alert was raised by the background watcher.'' @ nl @
     ''Focus on this alert first, but use the full snapshot for context.'' @ nl @
     nl @ ''CRITICAL SAFETY RULES FOR THIS ANALYSIS:'' @ nl @
     ''- If the alert targets a Windows system process or a PID you cannot verify from the snapshot, recommend '' @
     [CHR 0x22] @ ''protect'' @ [CHR 0x22] @ '' or '' @ [CHR 0x22] @ ''ignore'' @ [CHR 0x22] @ '' '' @ em_dash @
     '' NOT kill or suspend.'' @ nl @
     ''- Never recommend an action against a PID not present in the current snapshot.'' @ nl @
     ''- Prefer the minimum-risk action that addresses the root cause.'' @ nl @
     ''- Maximum 3 actions in your response.'' @ nl @ nl @
     ''Alert type: '' @ al_Type a @ nl @
     ''Title: '' @ al_Title a @ nl @
     (if al_Description a \<noteq> [] then ''Description: '' @ al_Description a @ nl else []) @
     (if al_PID a \<noteq> 0 then sprintf ''PID: %d'' [FInt (uint (al_PID a))] @ nl else []) @
     (if al_ProcessName a \<noteq> [] then ''Process: '' @ al_ProcessName a @ nl else [])"

end
