(* ===== verification/Issued.thy ===== *)
theory Issued
  imports Ttl Advice
begin

text \<open>
  The store of issued suggestions of \<^verbatim>\<open>internal/server/ai_execute.go\<close>: the dashboard may have executed
  only what the advisor has offered, once, and before it expires. A \<open>nil\<close> store is not modelled, the
  server always makes one. Copying a suggestion is the identity on values.
\<close>

record issuedAISuggestion =
  is_suggestion :: Suggestion
  is_expiresAt :: gotime

record aiSuggestionStore =
  xs_ttl :: duration
  xs_items :: "(gostring, issuedAISuggestion) gomap"

definition newAISuggestionStore :: "duration \<Rightarrow> aiSuggestionStore" where
  "newAISuggestionStore ttl = \<lparr>xs_ttl = ttl, xs_items = []\<rparr>"

definition pruneLocked :: "gotime \<Rightarrow> aiSuggestionStore \<Rightarrow> aiSuggestionStore" where
  "pruneLocked now s = s\<lparr>xs_items := prune_map is_expiresAt now (xs_items s)\<rparr>"

definition remember :: "gotime \<Rightarrow> Suggestion list \<Rightarrow> aiSuggestionStore \<Rightarrow> aiSuggestionStore" where
  "remember now items s =
     (if items = [] then s
      else
        fold (\<lambda>item s.
          let i = trim_space (sg_ID item) in
          if i = [] then s
          else s\<lparr>xs_items := mput i \<lparr>is_suggestion = item, is_expiresAt = t_add now (xs_ttl s)\<rparr> (xs_items s)\<rparr>)
          items (pruneLocked now s))"

definition sameRuleSuggestion :: "RuleSuggestion option \<Rightarrow> RuleSuggestion option \<Rightarrow> bool" where
  "sameRuleSuggestion left right =
     (case (left, right) of
        (Some l, Some r) \<Rightarrow>
          rsg_Name l = rsg_Name r \<and> rsg_Enabled l = rsg_Enabled r \<and> rsg_Match l = rsg_Match r \<and>
          rsg_Metric l = rsg_Metric r \<and> rsg_Op l = rsg_Op r \<and> feq (rsg_Threshold l) (rsg_Threshold r) \<and>
          rsg_For l = rsg_For r \<and> rsg_ForSeconds l = rsg_ForSeconds r \<and> rsg_Action l = rsg_Action r \<and>
          rsg_Cooldown l = rsg_Cooldown r \<and> rsg_CooldownSeconds l = rsg_CooldownSeconds r
      | (None, None) \<Rightarrow> True
      | _ \<Rightarrow> False)"

definition sameAISuggestion :: "Suggestion \<Rightarrow> Suggestion \<Rightarrow> bool" where
  "sameAISuggestion left right \<longleftrightarrow>
     trim_space (sg_ID left) = trim_space (sg_ID right) \<and>
     equal_fold (trim_space (sg_Type left)) (trim_space (sg_Type right)) \<and>
     sg_PID left = sg_PID right \<and>
     equal_fold (trim_space (sg_Name left)) (trim_space (sg_Name right)) \<and>
     sameRuleSuggestion (sg_Rule left) (sg_Rule right)"

definition consume :: "gotime \<Rightarrow> Suggestion \<Rightarrow> aiSuggestionStore \<Rightarrow> aiSuggestionStore \<times> goerror option" where
  "consume now expected s =
     (let i = trim_space (sg_ID expected) in
      if i = [] then (s, Some (ErrNew ''suggestion id required''))
      else
        (let s = pruneLocked now s in
         case mget (xs_items s) i of
           None \<Rightarrow> (s, Some (ErrNew ''suggestion not found or expired''))
         | Some issued \<Rightarrow>
             if \<not> sameAISuggestion (is_suggestion issued) expected
             then (s, Some (ErrNew ''suggestion payload mismatch''))
             else (s\<lparr>xs_items := mdel i (xs_items s)\<rparr>, None)))"

section \<open>The store keeps the contract of a store with expiry\<close>

definition issue :: "gotime \<Rightarrow> gostring \<Rightarrow> issuedAISuggestion \<Rightarrow> aiSuggestionStore \<Rightarrow> aiSuggestionStore" where
  "issue now k v s = (let s = pruneLocked now s in s\<lparr>xs_items := mput k v (xs_items s)\<rparr>)"

definition redeem ::
  "gotime \<Rightarrow> gostring \<Rightarrow> (issuedAISuggestion \<Rightarrow> bool) \<Rightarrow> aiSuggestionStore \<Rightarrow> aiSuggestionStore \<times> issuedAISuggestion option" where
  "redeem now k ok s =
     (let s = pruneLocked now s in
      case mget (xs_items s) k of
        None \<Rightarrow> (s, None)
      | Some v \<Rightarrow> if ok v then (s\<lparr>xs_items := mdel k (xs_items s)\<rparr>, Some v) else (s, None))"

interpretation issued: ttl_store "\<lambda>s. wf_map (xs_items s)" "\<lambda>s. mget (xs_items s)" is_expiresAt issue redeem
  by unfold_locales
     (auto simp: issue_def redeem_def pruneLocked_def mget_prune Let_def live_at_def split: option.splits)

lemma prune_prune [simp]: "pruneLocked now (pruneLocked now s) = pruneLocked now s"
  by (simp add: pruneLocked_def prune_map_def mfilter_def)

lemma prune_ttl [simp]: "xs_ttl (pruneLocked now s) = xs_ttl s"
  by (simp add: pruneLocked_def)

lemma prune_issue: "now < is_expiresAt v \<Longrightarrow> pruneLocked now (issue now k v s) = issue now k v s"
proof -
  have "filter (\<lambda>(_, v). t_after (is_expiresAt v) now) (mput k v m) = mput k v (filter (\<lambda>(_, v). t_after (is_expiresAt v) now) m)"
    if "now < is_expiresAt v" "list_all (\<lambda>(_, v). t_after (is_expiresAt v) now) m" for m :: "(gostring, issuedAISuggestion) gomap"
    using that by (induction k v m rule: mput.induct) (auto simp: t_after_def)
  moreover have "list_all (\<lambda>(_, v). t_after (is_expiresAt v) now) (filter (\<lambda>(_, v). t_after (is_expiresAt v) now) m)"
    for m :: "(gostring, issuedAISuggestion) gomap" by (simp add: list_all_iff)
  ultimately show "now < is_expiresAt v \<Longrightarrow> ?thesis"
    by (simp add: issue_def pruneLocked_def prune_map_def mfilter_def Let_def)
qed

lemma consume_redeem:
  assumes "trim_space (sg_ID e) \<noteq> []"
  shows "consume now e s =
     (case redeem now (trim_space (sg_ID e)) (\<lambda>i. sameAISuggestion (is_suggestion i) e) s of
        (s', Some v) \<Rightarrow> (s', None)
      | (s', None) \<Rightarrow> (s', snd (consume now e s)))
     \<and> (snd (consume now e s) = None \<longleftrightarrow>
          snd (redeem now (trim_space (sg_ID e)) (\<lambda>i. sameAISuggestion (is_suggestion i) e) s) \<noteq> None)"
  using assms by (auto simp: consume_def redeem_def Let_def split: option.splits)

section \<open>Runs of the store\<close>

datatype sug_op = Remember gotime "Suggestion list" | Consume gotime Suggestion

fun xs_exec :: "sug_op \<Rightarrow> aiSuggestionStore \<Rightarrow> aiSuggestionStore \<times> bool" where
  "xs_exec (Remember now items) s = (remember now items s, True)"
| "xs_exec (Consume now e) s = (case consume now e s of (s', err) \<Rightarrow> (s', err = None))"

fun xs_run :: "sug_op list \<Rightarrow> aiSuggestionStore \<Rightarrow> aiSuggestionStore \<times> (sug_op \<times> bool) list" where
  "xs_run [] s = (s, [])"
| "xs_run (c # cs) s = (let (s1, r) = xs_exec c s; (s2, l) = xs_run cs s1 in (s2, (c, r) # l))"

text \<open>What an operation is in terms of the contract; the take that never accepts only prunes.\<close>

fun ttl_of :: "duration \<Rightarrow> sug_op \<Rightarrow> (gostring, issuedAISuggestion) ttl_op list" where
  "ttl_of ttl (Remember now items) =
     (if items = [] then []
      else Take now [] (\<lambda>_. False) #
        map (\<lambda>i. Put now (trim_space (sg_ID i)) \<lparr>is_suggestion = i, is_expiresAt = t_add now ttl\<rparr>)
          (filter (\<lambda>i. trim_space (sg_ID i) \<noteq> []) items))"
| "ttl_of ttl (Consume now e) =
     (if trim_space (sg_ID e) = [] then []
      else [Take now (trim_space (sg_ID e)) (\<lambda>i. sameAISuggestion (is_suggestion i) e)])"

definition same_step :: "duration \<Rightarrow> sug_op \<times> bool \<Rightarrow> (gostring, issuedAISuggestion) ttl_log \<Rightarrow> bool" where
  "same_step ttl x l \<longleftrightarrow>
     map fst l = ttl_of ttl (fst x) \<and>
     (\<forall>n e. fst x = Consume n e \<longrightarrow> snd x = (l \<noteq> [] \<and> snd (last l) \<noteq> None))"

lemma remember_puts:
  assumes "0 < ttl" and "xs_ttl s = ttl" and "pruneLocked now s = s"
  shows "fst (issued.run (map (\<lambda>i. Put now (trim_space (sg_ID i)) \<lparr>is_suggestion = i, is_expiresAt = t_add now ttl\<rparr>)
          (filter (\<lambda>i. trim_space (sg_ID i) \<noteq> []) items)) s) =
    fold (\<lambda>item s.
          let i = trim_space (sg_ID item) in
          if i = [] then s
          else s\<lparr>xs_items := mput i \<lparr>is_suggestion = item, is_expiresAt = t_add now (xs_ttl s)\<rparr> (xs_items s)\<rparr>) items s"
  using assms
proof (induction items arbitrary: s)
  case (Cons i items)
  let ?v = "\<lparr>is_suggestion = i, is_expiresAt = t_add now ttl\<rparr>"
  show ?case
  proof (cases "trim_space (sg_ID i) = []")
    case True
    then show ?thesis using Cons by simp
  next
    case False
    let ?s = "issue now (trim_space (sg_ID i)) ?v s"
    have eq: "?s = s\<lparr>xs_items := mput (trim_space (sg_ID i)) ?v (xs_items s)\<rparr>"
      using Cons.prems(3) by (simp add: issue_def Let_def)
    have "pruneLocked now ?s = ?s" using Cons.prems(1) by (intro prune_issue) (simp add: t_add_def)
    moreover have "xs_ttl ?s = ttl" using Cons.prems(2) eq by simp
    ultimately show ?thesis
      using Cons.IH [of ?s] Cons.prems(1,2) False eq by (simp add: Let_def split_beta)
  qed
qed simp

lemma exec_refines:
  assumes "0 < xs_ttl s"
  shows "fst (issued.run (ttl_of (xs_ttl s) op) s) = fst (xs_exec op s) \<and>
    same_step (xs_ttl s) (op, snd (xs_exec op s)) (snd (issued.run (ttl_of (xs_ttl s) op) s))"
proof -
  have log: "map fst (snd (issued.run cs t)) = cs" for cs t
    by (induction cs arbitrary: t) (simp_all add: Let_def split_beta)
  show ?thesis
  proof (cases op)
    case (Remember now items)
    have "fst (redeem now [] (\<lambda>_. False) s) = pruneLocked now s"
      by (simp add: redeem_def Let_def split: option.splits)
    then have "fst (issued.run (ttl_of (xs_ttl s) op) s) = fst (xs_exec op s)"
      using remember_puts [OF assms, of "pruneLocked now s" now items] Remember
      by (simp add: remember_def Let_def split_beta)
    then show ?thesis using log [of "ttl_of (xs_ttl s) op" s] Remember by (simp add: same_step_def del: ttl_of.simps)
  next
    case (Consume now e)
    show ?thesis
    proof (cases "trim_space (sg_ID e) = []")
      case False
      then show ?thesis
        using Consume consume_redeem [OF False, of now s]
        by (auto simp: same_step_def split: prod.splits option.splits)
    qed (simp add: Consume same_step_def consume_def)
  qed
qed

lemma remember_ttl [simp]: "xs_ttl (remember now items s) = xs_ttl s"
proof -
  have step: "xs_ttl (fold f items t) = xs_ttl t" if "\<And>i u. xs_ttl (f i u) = xs_ttl u"
    for f :: "Suggestion \<Rightarrow> aiSuggestionStore \<Rightarrow> aiSuggestionStore" and t
    by (induction items arbitrary: t) (simp_all add: that)
  show ?thesis unfolding remember_def by (simp add: step Let_def)
qed

lemma xs_exec_ttl [simp]: "xs_ttl (fst (xs_exec op s)) = xs_ttl s"
  by (cases op) (auto simp: consume_def Let_def split: option.splits if_splits)

lemma run_refines:
  "0 < xs_ttl s \<Longrightarrow>
     fst (issued.run (concat (map (ttl_of (xs_ttl s)) ops)) s) = fst (xs_run ops s) \<and>
     (\<exists>ls. snd (issued.run (concat (map (ttl_of (xs_ttl s)) ops)) s) = concat ls \<and>
        list_all2 (same_step (xs_ttl s)) (snd (xs_run ops s)) ls)"
proof (induction ops arbitrary: s)
  case (Cons op ops)
  let ?s = "fst (xs_exec op s)"
  have r: "fst (issued.run (ttl_of (xs_ttl s) op) s) = ?s"
    "same_step (xs_ttl s) (op, snd (xs_exec op s)) (snd (issued.run (ttl_of (xs_ttl s) op) s))"
    using exec_refines [OF Cons.prems, of op] by simp_all
  have run: "xs_run (op # ops) s = (fst (xs_run ops ?s), (op, snd (xs_exec op s)) # snd (xs_run ops ?s))"
    by (simp add: Let_def split_beta)
  have ih: "fst (issued.run (concat (map (ttl_of (xs_ttl s)) ops)) ?s) = fst (xs_run ops ?s)"
    "\<exists>ls. snd (issued.run (concat (map (ttl_of (xs_ttl s)) ops)) ?s) = concat ls \<and>
        list_all2 (same_step (xs_ttl s)) (snd (xs_run ops ?s)) ls"
    using Cons.IH [of ?s] Cons.prems by simp_all
  from ih(2) obtain ls where ls: "snd (issued.run (concat (map (ttl_of (xs_ttl s)) ops)) ?s) = concat ls"
    "list_all2 (same_step (xs_ttl s)) (snd (xs_run ops ?s)) ls" by blast
  have "snd (issued.run (concat (map (ttl_of (xs_ttl s)) (op # ops))) s) =
      concat (snd (issued.run (ttl_of (xs_ttl s) op) s) # ls)"
    using r ls by (simp add: issued.run_append)
  moreover have "list_all2 (same_step (xs_ttl s)) (snd (xs_run (op # ops) s)) (snd (issued.run (ttl_of (xs_ttl s) op) s) # ls)"
    using r(2) ls(2) run by simp
  moreover have "fst (issued.run (concat (map (ttl_of (xs_ttl s)) (op # ops))) s) = fst (xs_run (op # ops) s)"
    using ih(1) r(1) run by (simp add: issued.run_append)
  ultimately show ?case by blast
qed auto

lemma concat_split:
  "concat xss = l1 @ x # l2 \<Longrightarrow> \<exists>a b c p q. xss = a @ b # c \<and> b = p @ x # q \<and> l2 = q @ concat c"
proof (induction xss arbitrary: l1)
  case (Cons ys xss)
  from Cons.prems have "ys @ concat xss = l1 @ x # l2" by simp
  then consider (later) us where "l1 = ys @ us" "concat xss = us @ x # l2" | (here) us where "ys = l1 @ x # us" "l2 = us @ concat xss"
    by (auto simp: append_eq_append_conv2 append_eq_Cons_conv)
  then show ?case
  proof cases
    case later
    then obtain a b c p q where "xss = a @ b # c" "b = p @ x # q" "l2 = q @ concat c" using Cons.IH by blast
    then have "ys # xss = (ys # a) @ b # c \<and> b = p @ x # q \<and> l2 = q @ concat c" by simp
    then show ?thesis by blast
  next
    case here
    then have "ys # xss = [] @ ys # xss \<and> ys = l1 @ x # us \<and> l2 = us @ concat xss" by simp
    then show ?thesis by blast
  qed
qed simp

lemma remember_accepted: "x \<in> set (snd (xs_run ops s)) \<Longrightarrow> fst x = Remember t items \<Longrightarrow> snd x"
  by (induction ops arbitrary: s) (auto simp: Let_def split_beta)

text \<open>A successful execution stands in the refined history as a taking of its key that found something.\<close>

lemma consumed_takes:
  assumes "list_all2 (same_step ttl) later c" "(Consume n e, True) \<in> set later" "trim_space (sg_ID e) \<noteq> []"
  obtains l r where "l \<in> set c" "(Take n (trim_space (sg_ID e)) (\<lambda>i. sameAISuggestion (is_suggestion i) e), r) \<in> set l" "r \<noteq> None"
proof -
  obtain l where l: "l \<in> set c" "same_step ttl (Consume n e, True) l"
    using assms(1,2) by (metis list_all2_conv_all_nth in_set_conv_nth)
  then have "l \<noteq> []" "snd (last l) \<noteq> None" "map fst l = ttl_of ttl (Consume n e)" by (auto simp: same_step_def)
  then obtain r where "l = [(Take n (trim_space (sg_ID e)) (\<lambda>i. sameAISuggestion (is_suggestion i) e), r)]" "r \<noteq> None"
    using assms(3) by (auto simp: map_eq_Cons_conv)
  then show ?thesis using that l(1) by simp
qed

text \<open>
  C11. A suggestion is redeemed only if it was offered, unchanged, recently, and once. Whatever was
  offered and asked for before, if asking to execute a suggestion is accepted then one with the same
  trimmed id, type, process, name and rule was among those offered at some time, less than the time to
  live ago, and no request for that id has been accepted since.
\<close>

theorem suggestion_single_use:
  assumes "0 < ttl" and "xs_run ops (newAISuggestionStore ttl) = (s, hist)" and "consume now e s = (s', None)"
  shows "\<exists>before t items later item. hist = before @ (Remember t items, True) # later \<and> item \<in> set items \<and>
    sameAISuggestion item e \<and> now < t_add t ttl \<and>
    (\<forall>n e2. (Consume n e2, True) \<in> set later \<longrightarrow> trim_space (sg_ID e2) \<noteq> trim_space (sg_ID e))"
proof -
  let ?s0 = "newAISuggestionStore ttl" and ?k = "trim_space (sg_ID e)"
  let ?cs = "concat (map (ttl_of ttl) ops)"
  have k: "?k \<noteq> []" using assms(3) by (auto simp: consume_def)
  have r: "fst (issued.run ?cs ?s0) = s"
    "\<exists>ls. snd (issued.run ?cs ?s0) = concat ls \<and> list_all2 (same_step ttl) hist ls"
    using run_refines [of ?s0 ops] assms(1,2) by (simp_all add: newAISuggestionStore_def)
  obtain v where red: "redeem now ?k (\<lambda>i. sameAISuggestion (is_suggestion i) e) s = (s', Some v)"
    using consume_redeem [OF k, of now s] assms(3)
    by (cases "redeem now ?k (\<lambda>i. sameAISuggestion (is_suggestion i) e) s") auto
  obtain l1 t l2 where o: "now < is_expiresAt v" "sameAISuggestion (is_suggestion v) e"
    "snd (issued.run ?cs ?s0) = l1 @ (Put t ?k v, None) # l2" "\<forall>x\<in>set l2. \<not> ends_stay ?k x"
    using issued.take_origin [of ?s0 now ?k "\<lambda>i. sameAISuggestion (is_suggestion i) e" ?cs s' v] red r(1)
    by (auto simp: newAISuggestionStore_def)
  obtain ls where ls: "concat ls = l1 @ (Put t ?k v, None) # l2" "list_all2 (same_step ttl) hist ls"
    using r(2) o(3) by auto
  obtain a b c p q where sp: "ls = a @ b # c" "b = p @ (Put t ?k v, None) # q" "l2 = q @ concat c"
    using concat_split [OF ls(1)] by blast
  obtain before x later where lg: "hist = before @ x # later" "same_step ttl x b" "list_all2 (same_step ttl) later c"
    using ls(2) unfolding sp(1) by (auto simp: list_all2_append2 list_all2_Cons2)
  have "ttl_of ttl (fst x) = map fst b" using lg(2) by (simp add: same_step_def)
  then have "Put t ?k v \<in> set (ttl_of ttl (fst x))" using sp(2) by simp
  then obtain items item where op: "fst x = Remember t items" "item \<in> set items" "v = \<lparr>is_suggestion = item, is_expiresAt = t_add t ttl\<rparr>"
    by (cases "fst x") (auto split: if_splits)
  have acc: "snd x" using remember_accepted [of x ops ?s0 t items] op(1) lg(1) assms(2) by simp
  have "trim_space (sg_ID e2) \<noteq> ?k" if y: "(Consume n e2, True) \<in> set later" for n e2
  proof
    assume eq: "trim_space (sg_ID e2) = ?k"
    then obtain l r where l: "l \<in> set c" "(Take n ?k (\<lambda>i. sameAISuggestion (is_suggestion i) e2), r) \<in> set l" "r \<noteq> None"
      using consumed_takes [OF lg(3) y] k by metis
    then have "(Take n ?k (\<lambda>i. sameAISuggestion (is_suggestion i) e2), r) \<in> set l2"
      unfolding sp(3) by (metis UN_I UnI2 set_append set_concat)
    then show False using o(4) l(3) by fastforce
  qed
  moreover have "hist = before @ (Remember t items, True) # later" using lg(1) op(1) acc by (metis (full_types) prod.collapse)
  moreover have "sameAISuggestion item e" "now < t_add t ttl" using op(3) o(1,2) by simp_all
  ultimately show ?thesis using op(2) by blast
qed

definition demo_sug :: Suggestion where
  "demo_sug = \<lparr>sg_ID = ''a1'', sg_Type = ''kill'', sg_PID = 77, sg_Name = ''x.exe'', sg_Reason = [], sg_Rule = None,
     sg_Policy = None\<rparr>"

lemma demo_issue:
  "xs_run [Remember 5 [demo_sug]] (newAISuggestionStore 100) =
     (\<lparr>xs_ttl = 100, xs_items = [(''a1'', \<lparr>is_suggestion = demo_sug, is_expiresAt = 105\<rparr>)]\<rparr>, [(Remember 5 [demo_sug], True)])"
  "consume 50 demo_sug \<lparr>xs_ttl = 100, xs_items = [(''a1'', \<lparr>is_suggestion = demo_sug, is_expiresAt = 105\<rparr>)]\<rparr> =
     (\<lparr>xs_ttl = 100, xs_items = []\<rparr>, None)"
proof -
  have t: "trim_space ''a1'' = ''a1''" by code_simp
  show "xs_run [Remember 5 [demo_sug]] (newAISuggestionStore 100) =
     (\<lparr>xs_ttl = 100, xs_items = [(''a1'', \<lparr>is_suggestion = demo_sug, is_expiresAt = 105\<rparr>)]\<rparr>, [(Remember 5 [demo_sug], True)])"
    by (simp add: remember_def newAISuggestionStore_def pruneLocked_def prune_map_def mfilter_def t demo_sug_def t_add_def Let_def)
  show "consume 50 demo_sug \<lparr>xs_ttl = 100, xs_items = [(''a1'', \<lparr>is_suggestion = demo_sug, is_expiresAt = 105\<rparr>)]\<rparr> =
     (\<lparr>xs_ttl = 100, xs_items = []\<rparr>, None)"
    by (simp add: consume_def pruneLocked_def prune_map_def mfilter_def t demo_sug_def t_after_def sameAISuggestion_def
        sameRuleSuggestion_def Let_def)
qed

theorem suggestion_single_use_witness:
  "\<exists>before t items later item. [(Remember 5 [demo_sug], True)] = before @ (Remember t items, True) # later \<and>
     item \<in> set items \<and> sameAISuggestion item demo_sug \<and> 50 < t_add t 100"
  using suggestion_single_use [OF _ demo_issue] by auto

end
