(* ===== verification/WebRules.thy ===== *)
theory WebRules
  imports Config Advice
begin

text \<open>
  \<^verbatim>\<open>internal/server/rules.go\<close> and the rule part of \<^verbatim>\<open>ai_execute.go\<close>: what the dashboard and the AI
  advisor send as a rule, and the rule of the configuration it becomes. Both conversions are written
  out as the code has them, check by check; that they agree is proved.
\<close>

section \<open>The wire shape\<close>

record ruleDTO =
  rd_Name :: gostring
  rd_Enabled :: bool
  rd_Match :: gostring
  rd_Metric :: gostring
  rd_Op :: gostring
  rd_Threshold :: f64
  rd_ForSeconds :: int
  rd_Action :: gostring
  rd_CooldownSeconds :: int

definition rule_dto :: "Rule \<Rightarrow> ruleDTO" where
  "rule_dto r =
     \<lparr>rd_Name = ru_Name r, rd_Enabled = ru_Enabled r, rd_Match = ru_Match r, rd_Metric = ru_Metric r,
      rd_Op = ru_Op r, rd_Threshold = ru_Threshold r, rd_ForSeconds = go_div (ru_For r) second,
      rd_Action = ru_Action r, rd_CooldownSeconds = go_div (ru_Cooldown r) second\<rparr>"

definition rulesToDTO :: "Rule list \<Rightarrow> ruleDTO list" where
  "rulesToDTO rs = map rule_dto rs"

definition rule_metrics :: "gostring list" where
  "rule_metrics = [''cpu_percent'', ''memory_bytes'', ''private_bytes'', ''thread_count'']"

definition rule_ops :: "gostring list" where "rule_ops = [''>'', ''>='', ''<'', ''<='']"

definition rule_actions :: "gostring list" where "rule_actions = [''alert'', ''kill'', ''suspend'']"

fun from_dto_loop :: "gostring list \<Rightarrow> ruleDTO list \<Rightarrow> goerror + Rule list" where
  "from_dto_loop seen [] = Inr []"
| "from_dto_loop seen (d # ds) =
     (let name = trim_space (rd_Name d) in
      if name = [] then Inl (ErrNew ''name required'')
      else if name \<in> set seen then Inl (ErrNew (''duplicate rule name: '' @ name))
      else if trim_space (rd_Match d) = [] then Inl (ErrNew ''match pattern required'')
      else
        (let metric = to_lower (trim_space (rd_Metric d)) in
         if metric \<notin> set rule_metrics
         then Inl (ErrNew ''metric must be cpu_percent, memory_bytes, private_bytes, or thread_count'')
         else
           (let op = trim_space (rd_Op d); op = (if op = [] then ''>='' else op) in
            if op \<notin> set rule_ops then Inl (ErrNew ''op must be one of > >= < <='')
            else
              (let action = to_lower (trim_space (rd_Action d)); action = (if action = [] then ''alert'' else action) in
               if action \<notin> set rule_actions then Inl (ErrNew ''action must be alert, kill, or suspend'')
               else if rd_ForSeconds d < 0 \<or> 86400 < rd_ForSeconds d then Inl (ErrNew ''for_seconds must be 0..86400'')
               else
                 (let cool = (if rd_CooldownSeconds d < 0 then 0 else rd_CooldownSeconds d);
                      r = \<lparr>ru_Name = name, ru_Enabled = rd_Enabled d, ru_Match = rd_Match d, ru_Metric = metric,
                           ru_Op = op, ru_Threshold = rd_Threshold d, ru_For = dur_mul (rd_ForSeconds d) second,
                           ru_Action = action, ru_Cooldown = dur_mul cool second\<rparr>
                  in map_sum id (Cons r) (from_dto_loop (name # seen) ds))))))"

definition rulesFromDTO :: "ruleDTO list \<Rightarrow> goerror + Rule list" where
  "rulesFromDTO ds = from_dto_loop [] ds"

definition aiRuleToConfig :: "RuleSuggestion option \<Rightarrow> goerror + Rule" where
  "aiRuleToConfig sug =
     (case sug of
        None \<Rightarrow> Inl (ErrNew ''rule required'')
      | Some d \<Rightarrow>
          (let name = trim_space (rsg_Name d) in
           if name = [] then Inl (ErrNew ''rule name required'')
           else
             (let pattern = trim_space (rsg_Match d) in
              if pattern = [] then Inl (ErrNew ''rule match pattern required'')
              else
                (let metric = to_lower (trim_space (rsg_Metric d)) in
                 if metric \<notin> set rule_metrics
                 then Inl (ErrNew ''metric must be cpu_percent, memory_bytes, private_bytes, or thread_count'')
                 else
                   (let op = trim_space (rsg_Op d); op = (if op = [] then ''>='' else op) in
                    if op \<notin> set rule_ops then Inl (ErrNew ''op must be one of > >= < <='')
                    else
                      (let action = to_lower (trim_space (rsg_Action d)); action = (if action = [] then ''alert'' else action) in
                       if action \<notin> set rule_actions then Inl (ErrNew ''action must be alert, kill, or suspend'')
                       else
                         (let forSec = (if rsg_ForSeconds d = 0 then rsg_For d else rsg_ForSeconds d) in
                          if forSec < 0 \<or> 86400 < forSec then Inl (ErrNew ''for_seconds must be 0..86400'')
                          else
                            (let cool = (if rsg_CooldownSeconds d = 0 then rsg_Cooldown d else rsg_CooldownSeconds d);
                                 cool = (if cool < 0 then 0 else cool)
                             in Inr \<lparr>ru_Name = name, ru_Enabled = rsg_Enabled d, ru_Match = pattern, ru_Metric = metric,
                                     ru_Op = op, ru_Threshold = rsg_Threshold d, ru_For = dur_mul forSec second,
                                     ru_Action = action, ru_Cooldown = dur_mul cool second\<rparr>))))))))"

section \<open>What an accepted rule is\<close>

definition rule_ok :: "Rule \<Rightarrow> bool" where
  "rule_ok r \<longleftrightarrow>
     ru_Name r \<noteq> [] \<and> trim_space (ru_Name r) = ru_Name r \<and> trim_space (ru_Match r) \<noteq> [] \<and>
     ru_Metric r \<in> set rule_metrics \<and> ru_Op r \<in> set rule_ops \<and> ru_Action r \<in> set rule_actions \<and>
     (\<exists>k. 0 \<le> k \<and> k \<le> 86400 \<and> ru_For r = k * second)"

text \<open>The rule one entry becomes, and when it does.\<close>

definition dto_rule :: "ruleDTO \<Rightarrow> Rule" where
  "dto_rule d =
     \<lparr>ru_Name = trim_space (rd_Name d), ru_Enabled = rd_Enabled d, ru_Match = rd_Match d,
      ru_Metric = to_lower (trim_space (rd_Metric d)),
      ru_Op = (if trim_space (rd_Op d) = [] then ''>='' else trim_space (rd_Op d)),
      ru_Threshold = rd_Threshold d, ru_For = dur_mul (rd_ForSeconds d) second,
      ru_Action = (if to_lower (trim_space (rd_Action d)) = [] then ''alert'' else to_lower (trim_space (rd_Action d))),
      ru_Cooldown = dur_mul (max 0 (rd_CooldownSeconds d)) second\<rparr>"

definition dto_ok :: "ruleDTO \<Rightarrow> bool" where
  "dto_ok d \<longleftrightarrow>
     (let r = dto_rule d in
      ru_Name r \<noteq> [] \<and> trim_space (ru_Match r) \<noteq> [] \<and> ru_Metric r \<in> set rule_metrics \<and>
      ru_Op r \<in> set rule_ops \<and> ru_Action r \<in> set rule_actions \<and> 0 \<le> rd_ForSeconds d \<and> rd_ForSeconds d \<le> 86400)"

declare from_dto_loop.simps(2) [simp del]

lemma from_dto_loop_spec:
  "from_dto_loop seen ds = Inr rs \<longleftrightarrow>
     rs = map dto_rule ds \<and> list_all dto_ok ds \<and> distinct (map ru_Name rs) \<and> set (map ru_Name rs) \<inter> set seen = {}"
proof (induction ds arbitrary: seen rs)
  case Nil
  then show ?case by auto
next
  case (Cons d ds)
  have max: "(if c < 0 then 0 else c) = max 0 c" for c :: int by simp
  show ?case
  proof (cases "dto_ok d \<and> trim_space (rd_Name d) \<notin> set seen")
    case True
    then have step: "from_dto_loop seen (d # ds) = map_sum id (Cons (dto_rule d)) (from_dto_loop (trim_space (rd_Name d) # seen) ds)"
      by (simp add: from_dto_loop.simps(2) dto_ok_def dto_rule_def Let_def max del: max_0L max_0R)
    have ok: "dto_ok d" and new: "trim_space (rd_Name d) \<notin> set seen" using True by simp_all
    have name: "ru_Name (dto_rule d) = trim_space (rd_Name d)" by (simp add: dto_rule_def)
    show ?thesis
    proof (cases "from_dto_loop (trim_space (rd_Name d) # seen) ds")
      case (Inl e)
      then have "\<not> (list_all dto_ok ds \<and> distinct (map ru_Name (map dto_rule ds)) \<and>
          set (map ru_Name (map dto_rule ds)) \<inter> set (trim_space (rd_Name d) # seen) = {})"
        using Cons.IH [of "trim_space (rd_Name d) # seen" "map dto_rule ds"] by auto
      then show ?thesis using Inl step name by auto
    next
      case (Inr qs)
      then have all: "qs = map dto_rule ds \<and> list_all dto_ok ds \<and> distinct (map ru_Name qs) \<and>
          set (map ru_Name qs) \<inter> set (trim_space (rd_Name d) # seen) = {}"
        unfolding Cons.IH .
      then have q: "map dto_rule ds = qs" "list_all dto_ok ds" "distinct (map ru_Name qs)"
          "set (map ru_Name qs) \<inter> set (trim_space (rd_Name d) # seen) = {}" by blast+
      show ?thesis using Inr step ok new name q(2-4) by (auto simp: q(1) disjoint_iff)
    qed
  next
    case False
    then have "\<exists>e. from_dto_loop seen (d # ds) = Inl e"
      by (auto simp: from_dto_loop.simps(2) dto_ok_def dto_rule_def Let_def)
    then show ?thesis using False by (auto simp: dto_rule_def)
  qed
qed

lemma rulesFromDTO_ok:
  "rulesFromDTO ds = Inr rs \<longleftrightarrow> rs = map dto_rule ds \<and> list_all dto_ok ds \<and> distinct (map ru_Name rs)"
  by (simp add: rulesFromDTO_def from_dto_loop_spec)

lemma second_pos [simp]: "0 < second" "second \<noteq> 0"
  by (simp_all add: second_def)

lemma small_seconds: "0 \<le> k \<Longrightarrow> k \<le> 9223372036 \<Longrightarrow> dur_mul k second = k * second"
  by (rule dur_mul_id) (simp add: is_i64_def i64_min_def i64_max_def second_def)

lemma go_div_seconds: "0 \<le> k \<Longrightarrow> go_div (k * second) second = k"
  by (simp add: go_div_nonneg second_def)

lemma big_cooldown: "9223372037 \<le> k \<Longrightarrow> k \<le> 18446744073 \<Longrightarrow> dur_mul k second < 0"
proof -
  assume k: "9223372037 \<le> k" "k \<le> 18446744073"
  have "wrap64 (k * 1000000000) = wrap64 (k * 1000000000 - 18446744073709551616)"
    by (simp add: wrap64_def mod_eq_dvd_iff)
  also have "\<dots> = k * 1000000000 - 18446744073709551616"
    using k by (intro wrap64_id) (simp add: is_i64_def i64_min_def i64_max_def)
  finally show ?thesis using k by (simp add: dur_mul_def second_def)
qed

lemma dto_ok_rule: "dto_ok d \<Longrightarrow> rule_ok (dto_rule d)"
  by (auto simp: dto_ok_def rule_ok_def dto_rule_def Let_def small_seconds intro: exI [of _ "rd_ForSeconds d"])

text \<open>
  What the rules page may store. A list of rules is accepted only whole: then every rule has a
  trimmed name of its own, a pattern that is not blank, a known metric, comparison and action in lower
  case, and a duration from 0 to 24 hours; its cooldown is the number of seconds sent, none if that
  was negative. But the number has no upper limit, and from 9223372037 to 18446744073 seconds the
  multiplication wraps to a negative cooldown, which never holds an action back.
\<close>

theorem rules_accepted:
  assumes "rulesFromDTO ds = Inr rs"
  shows "length rs = length ds \<and> distinct (map ru_Name rs) \<and> list_all rule_ok rs \<and>
    (\<forall>i<length ds.
       (rd_CooldownSeconds (ds ! i) \<le> 9223372036 \<longrightarrow> ru_Cooldown (rs ! i) = max 0 (rd_CooldownSeconds (ds ! i)) * second) \<and>
       (9223372037 \<le> rd_CooldownSeconds (ds ! i) \<and> rd_CooldownSeconds (ds ! i) \<le> 18446744073 \<longrightarrow>
          ru_Cooldown (rs ! i) < 0))"
proof -
  have rs: "rs = map dto_rule ds" and ok: "list_all dto_ok ds" and "distinct (map ru_Name rs)"
    using assms by (auto simp: rulesFromDTO_ok)
  moreover have "list_all rule_ok rs"
    using rs ok dto_ok_rule by (simp add: list_all_iff)
  moreover have "(rd_CooldownSeconds d \<le> 9223372036 \<longrightarrow> ru_Cooldown (dto_rule d) = max 0 (rd_CooldownSeconds d) * second) \<and>
      (9223372037 \<le> rd_CooldownSeconds d \<and> rd_CooldownSeconds d \<le> 18446744073 \<longrightarrow> ru_Cooldown (dto_rule d) < 0)" for d
    using small_seconds [of "max 0 (rd_CooldownSeconds d)"] big_cooldown [of "rd_CooldownSeconds d"]
    by (auto simp: dto_rule_def)
  ultimately show ?thesis by auto
qed

definition demo_dto :: ruleDTO where
  "demo_dto = \<lparr>rd_Name = '' hog '', rd_Enabled = True, rd_Match = ''miner.exe'', rd_Metric = ''CPU_Percent'', rd_Op = [],
     rd_Threshold = Fin 90, rd_ForSeconds = 60, rd_Action = ''Kill'', rd_CooldownSeconds = 9223372037\<rparr>"

definition demo_rule :: Rule where
  "demo_rule = \<lparr>ru_Name = ''hog'', ru_Enabled = True, ru_Match = ''miner.exe'', ru_Metric = ''cpu_percent'', ru_Op = ''>='',
     ru_Threshold = Fin 90, ru_For = 60000000000, ru_Action = ''kill'', ru_Cooldown = -9223372036709551616\<rparr>"

lemma demo_dto_rule: "rulesFromDTO [demo_dto] = Inr [demo_rule]"
proof -
  have t: "trim_space '' hog '' = ''hog''" "trim_space ''miner.exe'' = ''miner.exe''"
    "to_lower (trim_space ''CPU_Percent'') = ''cpu_percent''" "to_lower (trim_space ''Kill'') = ''kill''"
    by code_simp+
  have d: "dur_mul 60 second = 60000000000" "dur_mul 9223372037 second = -9223372036709551616"
    by (simp_all add: dur_mul_def second_def wrap64_def)
  show ?thesis
    by (simp add: rulesFromDTO_def from_dto_loop.simps(2) demo_dto_def demo_rule_def t d rule_metrics_def rule_ops_def rule_actions_def)
qed

theorem rules_accepted_witness: "ru_Cooldown demo_rule < 0 \<and> ru_Action demo_rule = ''kill'' \<and> rule_ok demo_rule"
  using rules_accepted [OF demo_dto_rule] by (simp add: demo_dto_def demo_rule_def)

text \<open>
  What the page reads it may send back. Rules that were accepted with cooldowns the multiplication
  does not wrap are shown in the wire shape, and sending just that is accepted and changes nothing.
\<close>

theorem rules_roundtrip:
  assumes "rulesFromDTO ds = Inr rs" and "list_all (\<lambda>d. rd_CooldownSeconds d \<le> 9223372036) ds"
  shows "rulesFromDTO (rulesToDTO rs) = Inr rs"
proof -
  have rs: "rs = map dto_rule ds" "list_all dto_ok ds" "distinct (map ru_Name rs)"
    using assms(1) by (auto simp: rulesFromDTO_ok)
  have low: "to_lower (trim_space m) = m" if "m \<in> set (rule_metrics @ rule_actions)" for m
  proof -
    have "list_all (\<lambda>m. to_lower (trim_space m) = m) (rule_metrics @ rule_actions)" by code_simp
    then show ?thesis using that by (simp add: list_all_iff)
  qed
  have op: "trim_space p = p \<and> p \<noteq> []" if "p \<in> set rule_ops" for p
  proof -
    have "list_all (\<lambda>p. trim_space p = p \<and> p \<noteq> []) rule_ops" by code_simp
    then show ?thesis using that by (simp add: list_all_iff)
  qed
  have again: "dto_rule (rule_dto r) = r \<and> dto_ok (rule_dto r)"
    if d: "dto_ok d" "rd_CooldownSeconds d \<le> 9223372036" "r = dto_rule d" for d r
  proof -
    have r: "rule_ok r" using d(1,3) dto_ok_rule by simp
    then obtain k where k: "0 \<le> k" "k \<le> 86400" "ru_For r = k * second" by (auto simp: rule_ok_def)
    have c: "ru_Cooldown r = max 0 (rd_CooldownSeconds d) * second"
      using d(2,3) small_seconds [of "max 0 (rd_CooldownSeconds d)"] by (simp add: dto_rule_def)
    have m: "to_lower (trim_space (ru_Metric r)) = ru_Metric r" "to_lower (trim_space (ru_Action r)) = ru_Action r"
      "trim_space (ru_Op r) = ru_Op r" "ru_Op r \<noteq> []" "ru_Action r \<noteq> []"
      using r low [of "ru_Metric r"] low [of "ru_Action r"] op [of "ru_Op r"] by (auto simp: rule_ok_def rule_actions_def)
    have "dto_rule (rule_dto r) = r"
      using r k c m d(2) small_seconds [of k] small_seconds [of "max 0 (rd_CooldownSeconds d)"]
      by (simp add: dto_rule_def rule_dto_def rule_ok_def go_div_seconds)
    then show ?thesis
      using r k by (simp add: dto_ok_def rule_ok_def Let_def rule_dto_def go_div_seconds)
  qed
  have "map dto_rule (map rule_dto rs) = rs"
    using rs(1,2) assms(2) again by (auto simp: list_all_iff intro!: map_idI)
  moreover have "list_all dto_ok (map rule_dto rs)"
    using rs(1,2) assms(2) again by (auto simp: list_all_iff)
  ultimately show ?thesis using rs(3) by (simp add: rulesFromDTO_ok rulesToDTO_def)
qed

theorem rules_roundtrip_witness:
  "rulesFromDTO (rulesToDTO [demo_rule\<lparr>ru_Cooldown := 60000000000\<rparr>]) = Inr [demo_rule\<lparr>ru_Cooldown := 60000000000\<rparr>]"
proof -
  have t: "trim_space '' hog '' = ''hog''" "trim_space ''miner.exe'' = ''miner.exe''"
    "to_lower (trim_space ''CPU_Percent'') = ''cpu_percent''" "to_lower (trim_space ''Kill'') = ''kill''"
    by code_simp+
  have d: "dur_mul 60 second = 60000000000" by (simp add: dur_mul_def second_def wrap64_def)
  have "rulesFromDTO [demo_dto\<lparr>rd_CooldownSeconds := 60\<rparr>] = Inr [demo_rule\<lparr>ru_Cooldown := 60000000000\<rparr>]"
    by (simp add: rulesFromDTO_def from_dto_loop.simps(2) demo_dto_def demo_rule_def t d rule_metrics_def rule_ops_def rule_actions_def)
  from rules_roundtrip [OF this] show ?thesis by simp
qed

section \<open>Rules from the advisor\<close>

text \<open>The rule of a suggestion as the rules page would send it: the second of two spellings of each time.\<close>

definition suggestion_dto :: "RuleSuggestion \<Rightarrow> ruleDTO" where
  "suggestion_dto d =
     \<lparr>rd_Name = rsg_Name d, rd_Enabled = rsg_Enabled d, rd_Match = trim_space (rsg_Match d), rd_Metric = rsg_Metric d,
      rd_Op = rsg_Op d, rd_Threshold = rsg_Threshold d,
      rd_ForSeconds = (if rsg_ForSeconds d = 0 then rsg_For d else rsg_ForSeconds d),
      rd_Action = rsg_Action d,
      rd_CooldownSeconds = (if rsg_CooldownSeconds d = 0 then rsg_Cooldown d else rsg_CooldownSeconds d)\<rparr>"

text \<open>
  C39. A rule suggested by the model passes the very checks of the rules page. A suggestion is
  turned into a rule if and only if the page would accept it, with the pattern trimmed, as a list of
  one, and into that rule; and a missing rule is refused.
\<close>

theorem suggested_rule_checked:
  "(aiRuleToConfig (Some d) = Inr r \<longleftrightarrow> rulesFromDTO [suggestion_dto d] = Inr [r]) \<and> aiRuleToConfig None \<noteq> Inr r"
proof -
  have max: "(if c < 0 then 0 else c) = max 0 c" for c :: int by simp
  have "aiRuleToConfig (Some d) = Inr r \<longleftrightarrow> r = dto_rule (suggestion_dto d) \<and> dto_ok (suggestion_dto d)"
    by (auto simp: aiRuleToConfig_def dto_ok_def dto_rule_def suggestion_dto_def Let_def max not_less)
  then show ?thesis by (auto simp: rulesFromDTO_ok aiRuleToConfig_def)
qed

end
