(* ===== verification/WebConfig.thy ===== *)
theory WebConfig
  imports Loader
begin

text \<open>
  How the dashboard changes the configuration: \<^verbatim>\<open>config_clone.go\<close>, \<^verbatim>\<open>config_api.go\<close>,
  \<^verbatim>\<open>telegram_config.go\<close>, \<^verbatim>\<open>ai_config.go\<close> and \<^verbatim>\<open>mutateConfig\<close> of \<^verbatim>\<open>ai_execute.go\<close>. All of
  them end in the same four steps, validation, saving, replacing the live configuration and telling the
  other components, which are defined once. An optional field of a request is an option.
\<close>

section \<open>The live configuration and its file\<close>

text \<open>The callback's calls are recorded; \<open>cs_callback\<close> says whether there is one.\<close>

record cfg_state =
  cs_cfg :: Config
  cs_path :: gostring
  cs_fs :: "gostring fs"
  cs_callback :: bool
  cs_applied :: "Config list"

text \<open>A deep copy is the identity on values; only a missing configuration makes a difference.\<close>

definition cloneConfig :: "Config option \<Rightarrow> Config" where
  "cloneConfig src = (case src of None \<Rightarrow> DefaultConfig | Some c \<Rightarrow> c)"

datatype persist_error = PInvalid goerror | PSave goerror

primrec persist_cause :: "persist_error \<Rightarrow> goerror" where
  "persist_cause (PInvalid e) = e"
| "persist_cause (PSave e) = e"

definition persist :: "gostring load_env \<Rightarrow> Config \<Rightarrow> cfg_state \<Rightarrow> cfg_state \<times> persist_error option" where
  "persist env nxt st =
     (case Validate nxt of
        (nxt, Some e) \<Rightarrow> (st, Some (PInvalid e))
      | (nxt, None) \<Rightarrow>
          (case Save env (cs_path st) nxt (cs_fs st) of
             (states, Some e) \<Rightarrow> (st\<lparr>cs_fs := hd states\<rparr>, Some (PSave e))
           | (states, None) \<Rightarrow>
               (st\<lparr>cs_fs := hd states, cs_cfg := nxt,
                   cs_applied := (if cs_callback st then cs_applied st @ [nxt] else cs_applied st)\<rparr>, None)))"

definition mutateConfig ::
  "gostring load_env \<Rightarrow> (Config \<Rightarrow> goerror + Config) \<Rightarrow> cfg_state \<Rightarrow> cfg_state \<times> goerror option" where
  "mutateConfig env change st =
     (if cs_path st = [] then (st, Some (Errorf ''config file path not set'' []))
      else
        (case change (cloneConfig (Some (cs_cfg st))) of
           Inl e \<Rightarrow> (st, Some e)
         | Inr nxt \<Rightarrow> map_prod id (map_option persist_cause) (persist env nxt st)))"

definition appendUniqueFold :: "gostring list \<Rightarrow> gostring \<Rightarrow> gostring list" where
  "appendUniqueFold xs item =
     (let item = trim_space item in
      if item = [] then xs
      else if list_ex (\<lambda>x. equal_fold x item) xs then xs
      else xs @ [item])"

definition removeFold :: "gostring list \<Rightarrow> gostring \<Rightarrow> gostring list" where
  "removeFold xs item = filter (\<lambda>x. \<not> equal_fold x item) xs"

section \<open>Secrets\<close>

definition maskSecret :: "gostring \<Rightarrow> gostring" where
  "maskSecret s =
     (if s = [] then [] else if length s \<le> 4 then ''****'' else ''****'' @ drop (length s - 4) s)"

definition isSensitiveHeaderKey :: "gostring \<Rightarrow> bool" where
  "isSensitiveHeaderKey key =
     (let k = to_lower (trim_space key) in
      if k = ''authorization'' then True
      else if k = ''proxy-authorization'' then True
      else if str_contains k ''api-key'' then True
      else if str_contains k ''api_key'' then True
      else if has_suffix k ''key'' then True
      else if str_contains k ''token'' then True
      else if str_contains k ''secret'' then True
      else False)"

definition redactHeaderValues :: "(gostring, gostring) gomap \<Rightarrow> (gostring, gostring) gomap" where
  "redactHeaderValues src = map (\<lambda>(k, v). (k, if isSensitiveHeaderKey k then maskSecret v else v)) src"

text \<open>What \<^verbatim>\<open>GET /api/v1/config\<close> shows.\<close>

definition masked_config :: "Config \<Rightarrow> Config" where
  "masked_config c =
     c\<lparr>c_AI := (c_AI c)\<lparr>ai_APIKey := maskSecret (ai_APIKey (c_AI c)),
                        ai_ExtraHeaders := redactHeaderValues (ai_ExtraHeaders (c_AI c))\<rparr>,
       c_Telegram := (c_Telegram c)\<lparr>tg_BotToken := maskSecret (tg_BotToken (c_Telegram c))\<rparr>\<rparr>"

section \<open>General settings\<close>

record configServerUpdateDTO =
  su_OpenBrowser :: "bool option"

record configMonitoringUpdateDTO =
  mu_IntervalMS :: "int option"
  mu_ProcessTreeIntervalMS :: "int option"
  mu_PortScanIntervalMS :: "int option"
  mu_GPUIntervalMS :: "int option"
  mu_HistoryDurationSec :: "int option"
  mu_MaxProcesses :: "int option"

record configControllerUpdateDTO =
  cu_ConfirmKillSystem :: "bool option"

record configNotificationsUpdateDTO =
  nu_TrayBalloon :: "bool option"
  nu_BalloonRateLimitSec :: "int option"
  nu_BalloonMinSeverity :: "gostring option"

record configUIUpdateDTO =
  uu_Theme :: "gostring option"
  uu_DefaultSort :: "gostring option"
  uu_DefaultSortOrder :: "gostring option"
  uu_SparklinePoints :: "int option"
  uu_ProcessTablePageSize :: "int option"
  uu_RefreshRateMS :: "int option"

record configUpdateDTO =
  du_Server :: "configServerUpdateDTO option"
  du_Monitoring :: "configMonitoringUpdateDTO option"
  du_Controller :: "configControllerUpdateDTO option"
  du_Notifications :: "configNotificationsUpdateDTO option"
  du_UI :: "configUIUpdateDTO option"

text \<open>A field that was sent replaces the old one.\<close>

definition sent :: "'a option \<Rightarrow> ('a \<Rightarrow> 'b) \<Rightarrow> 'b \<Rightarrow> 'b" where
  "sent new f old = (case new of None \<Rightarrow> old | Some v \<Rightarrow> f v)"

definition millis :: "int \<Rightarrow> duration" where "millis n = dur_mul n millisecond"
definition seconds :: "int \<Rightarrow> duration" where "seconds n = dur_mul n second"

definition update_monitoring :: "configMonitoringUpdateDTO \<Rightarrow> MonitoringConfig \<Rightarrow> MonitoringConfig" where
  "update_monitoring b m =
     m\<lparr>mo_Interval := sent (mu_IntervalMS b) millis (mo_Interval m),
       mo_ProcessTreeInterval := sent (mu_ProcessTreeIntervalMS b) millis (mo_ProcessTreeInterval m),
       mo_PortScanInterval := sent (mu_PortScanIntervalMS b) millis (mo_PortScanInterval m),
       mo_GPUInterval := sent (mu_GPUIntervalMS b) millis (mo_GPUInterval m),
       mo_HistoryDuration := sent (mu_HistoryDurationSec b) seconds (mo_HistoryDuration m),
       mo_MaxProcesses := sent (mu_MaxProcesses b) id (mo_MaxProcesses m)\<rparr>"

definition update_notifications :: "configNotificationsUpdateDTO \<Rightarrow> NotificationsConfig \<Rightarrow> NotificationsConfig" where
  "update_notifications b n =
     n\<lparr>no_TrayBalloon := sent (nu_TrayBalloon b) id (no_TrayBalloon n),
       no_BalloonRateLimit := sent (nu_BalloonRateLimitSec b) seconds (no_BalloonRateLimit n),
       no_BalloonMinSeverity := sent (nu_BalloonMinSeverity b) trim_space (no_BalloonMinSeverity n)\<rparr>"

definition update_ui :: "configUIUpdateDTO \<Rightarrow> UIConfig \<Rightarrow> UIConfig" where
  "update_ui b u =
     u\<lparr>ui_Theme := sent (uu_Theme b) trim_space (ui_Theme u),
       ui_DefaultSort := sent (uu_DefaultSort b) trim_space (ui_DefaultSort u),
       ui_DefaultSortOrder := sent (uu_DefaultSortOrder b) trim_space (ui_DefaultSortOrder u),
       ui_SparklinePoints := sent (uu_SparklinePoints b) id (ui_SparklinePoints u),
       ui_ProcessTablePageSize := sent (uu_ProcessTablePageSize b) id (ui_ProcessTablePageSize u),
       ui_RefreshRate := sent (uu_RefreshRateMS b) millis (ui_RefreshRate u)\<rparr>"

definition applyConfigUpdate :: "configUpdateDTO \<Rightarrow> Config \<Rightarrow> Config" where
  "applyConfigUpdate b c =
     c\<lparr>c_Server := (case du_Server b of
                      None \<Rightarrow> c_Server c
                    | Some s \<Rightarrow> (c_Server c)\<lparr>sv_OpenBrowser := sent (su_OpenBrowser s) id (sv_OpenBrowser (c_Server c))\<rparr>),
       c_Monitoring := (case du_Monitoring b of None \<Rightarrow> c_Monitoring c | Some m \<Rightarrow> update_monitoring m (c_Monitoring c)),
       c_Controller := (case du_Controller b of
                          None \<Rightarrow> c_Controller c
                        | Some k \<Rightarrow> (c_Controller c)\<lparr>co_ConfirmKillSystem :=
                            sent (cu_ConfirmKillSystem k) id (co_ConfirmKillSystem (c_Controller c))\<rparr>),
       c_Notifications := (case du_Notifications b of
                             None \<Rightarrow> c_Notifications c | Some n \<Rightarrow> update_notifications n (c_Notifications c)),
       c_UI := (case du_UI b of None \<Rightarrow> c_UI c | Some u \<Rightarrow> update_ui u (c_UI c))\<rparr>"

section \<open>Telegram settings\<close>

record telegramConfigDTO =
  td_Enabled :: bool
  td_BotToken :: gostring
  td_AllowedChatIDs :: "int list"
  td_APIBaseURL :: gostring
  td_PollTimeoutSec :: int
  td_NotifyOnCritical :: bool
  td_NotificationMode :: gostring
  td_NotificationTypes :: "gostring list"
  td_RequireConfirm :: bool
  td_ConfirmTTLSec :: int

definition telegramDTOFromConfig :: "TelegramConfig \<Rightarrow> telegramConfigDTO" where
  "telegramDTOFromConfig tg =
     \<lparr>td_Enabled = tg_Enabled tg, td_BotToken = maskSecret (tg_BotToken tg), td_AllowedChatIDs = tg_AllowedChatIDs tg,
      td_APIBaseURL = tg_APIBaseURL tg, td_PollTimeoutSec = go_div (tg_PollTimeout tg) second,
      td_NotifyOnCritical = tg_NotifyOnCritical tg, td_NotificationMode = tg_NotificationMode tg,
      td_NotificationTypes = tg_NotificationTypes tg, td_RequireConfirm = tg_RequireConfirm tg,
      td_ConfirmTTLSec = go_div (tg_ConfirmTTL tg) second\<rparr>"

definition telegram_update :: "telegramConfigDTO \<Rightarrow> Config \<Rightarrow> Config" where
  "telegram_update b c =
     c\<lparr>c_Telegram :=
        \<lparr>tg_Enabled = td_Enabled b,
         tg_BotToken = (if td_BotToken b \<noteq> [] then trim_space (td_BotToken b) else tg_BotToken (c_Telegram c)),
         tg_AllowedChatIDs = td_AllowedChatIDs b, tg_APIBaseURL = trim_space (td_APIBaseURL b),
         tg_PollTimeout = seconds (td_PollTimeoutSec b), tg_NotifyOnCritical = td_NotifyOnCritical b,
         tg_NotificationMode = trim_space (td_NotificationMode b), tg_NotificationTypes = td_NotificationTypes b,
         tg_RequireConfirm = td_RequireConfirm b, tg_ConfirmTTL = seconds (td_ConfirmTTLSec b)\<rparr>\<rparr>"

section \<open>AI settings\<close>

record aiConfigDTO =
  axd_Enabled :: bool
  axd_Provider :: gostring
  axd_APIKey :: gostring
  axd_Model :: gostring
  axd_Endpoint :: gostring
  axd_ExtraHeaders :: "(gostring, gostring) gomap option"
  axd_Language :: gostring
  axd_MaxTokens :: int
  axd_MaxRequestsPerMinute :: int
  axd_IncludeProcessTree :: bool
  axd_IncludePortMap :: bool

definition dtoFromConfig :: "AIConfig \<Rightarrow> aiConfigDTO" where
  "dtoFromConfig a =
     \<lparr>axd_Enabled = ai_Enabled a, axd_Provider = ai_Provider a, axd_APIKey = maskSecret (ai_APIKey a),
      axd_Model = ai_Model a, axd_Endpoint = ai_Endpoint a,
      axd_ExtraHeaders = Some (redactHeaderValues (ai_ExtraHeaders a)), axd_Language = ai_Language a,
      axd_MaxTokens = ai_MaxTokens a, axd_MaxRequestsPerMinute = ai_MaxRequestsPerMinute a,
      axd_IncludeProcessTree = ai_IncludeProcessTree a, axd_IncludePortMap = ai_IncludePortMap a\<rparr>"

definition update_provider :: "aiConfigDTO \<Rightarrow> gostring" where
  "update_provider b =
     (let p = to_lower (trim_space (axd_Provider b)) in if p = [] then ''anthropic'' else p)"

definition ai_update :: "aiConfigDTO \<Rightarrow> Config \<Rightarrow> Config" where
  "ai_update b c =
     (let a = c_AI c in
      c\<lparr>c_AI := a\<lparr>ai_Enabled := axd_Enabled b, ai_Provider := update_provider b,
                  ai_APIKey := (if axd_APIKey b \<noteq> [] then axd_APIKey b else ai_APIKey a),
                  ai_Model := trim_space (axd_Model b), ai_Endpoint := trim_space (axd_Endpoint b),
                  ai_ExtraHeaders := sent (axd_ExtraHeaders b) id (ai_ExtraHeaders a),
                  ai_Language := (if axd_Language b \<noteq> [] then axd_Language b else ai_Language a),
                  ai_MaxTokens := (if 0 < axd_MaxTokens b then axd_MaxTokens b else ai_MaxTokens a),
                  ai_MaxRequestsPerMinute :=
                    (if 0 < axd_MaxRequestsPerMinute b then axd_MaxRequestsPerMinute b else ai_MaxRequestsPerMinute a),
                  ai_IncludeProcessTree := axd_IncludeProcessTree b, ai_IncludePortMap := axd_IncludePortMap b\<rparr>\<rparr>)"

section \<open>Updates are all or nothing\<close>

lemma Save_error_keeps:
  "Save env path cfg fs = (states, Some e) \<Longrightarrow> hd states path = fs path"
  by (auto simp: Save_def Let_def split: option.splits sum.splits if_splits)

lemma persist_ok:
  "persist env nxt st = (st', None) \<longleftrightarrow>
     (\<exists>c d. Validate nxt = (c, None) \<and> le_mkdir env = None \<and> le_marshal env c = Inr d \<and> le_write env = None \<and>
        le_rename env = None \<and>
        st' = st\<lparr>cs_fs := (cs_fs st)(cs_path st @ ''.tmp'' := None, cs_path st \<mapsto> \<lparr>f_content = d, f_mtime = le_now env\<rparr>),
                 cs_cfg := c, cs_applied := (if cs_callback st then cs_applied st @ [c] else cs_applied st)\<rparr>)"
  by (auto simp: persist_def Save_def Let_def fun_upd_twist split: prod.splits option.splits sum.splits)

lemma persist_error:
  "persist env nxt st = (st', Some e) \<Longrightarrow>
     cs_cfg st' = cs_cfg st \<and> cs_applied st' = cs_applied st \<and> cs_fs st' (cs_path st) = cs_fs st (cs_path st)"
  by (auto simp: persist_def dest: Save_error_keeps split: prod.splits option.splits)

text \<open>
  C25. An update of the configuration is all or nothing. If it is refused or fails, at whatever step, the
  live configuration and the file are what they were and no component is told; if it succeeds, the live
  configuration is the changed one after validation, it satisfies every bound, the file holds it, and
  the components were told that one and once.
\<close>

theorem update_all_or_nothing:
  assumes "mutateConfig env change st = (st', r)"
  shows "(\<forall>e. r = Some e \<longrightarrow>
      cs_cfg st' = cs_cfg st \<and> cs_applied st' = cs_applied st \<and> cs_fs st' (cs_path st) = cs_fs st (cs_path st)) \<and>
    (r = None \<longrightarrow>
      (\<exists>nxt d. change (cs_cfg st) = Inr nxt \<and> Validate nxt = (cs_cfg st', None) \<and> cfg_ok (cs_cfg st') \<and>
         le_marshal env (cs_cfg st') = Inr d \<and>
         cs_fs st' (cs_path st) = Some \<lparr>f_content = d, f_mtime = le_now env\<rparr> \<and>
         cs_applied st' = cs_applied st @ (if cs_callback st then [cs_cfg st'] else [])))"
proof (cases "cs_path st = []")
  case False
  show ?thesis
  proof (cases "change (cs_cfg st)")
    case (Inr nxt)
    obtain p q where p: "persist env nxt st = (p, q)" by fastforce
    then have "st' = p \<and> r = map_option persist_cause q"
      using assms False Inr by (simp add: mutateConfig_def cloneConfig_def)
    then show ?thesis
      using p persist_ok [of env nxt st p] persist_error [of env nxt st p] Inr
      by (cases q) (auto dest: Validate_ok)
  qed (use assms False in \<open>auto simp: mutateConfig_def cloneConfig_def\<close>)
qed (use assms in \<open>auto simp: mutateConfig_def\<close>)

text \<open>An environment in which every call works; the file holds an empty text.\<close>

definition calm_env :: "gostring load_env" where
  "calm_env = \<lparr>le_stat = None, le_read = None, le_mkdir = None, le_write = None, le_partial = None, le_rename = None,
     le_remove = None, le_now = 7, le_marshal = (\<lambda>c. Inr []), le_unmarshal = (\<lambda>d c. (c, None))\<rparr>"

definition fresh_cfg :: cfg_state where
  "fresh_cfg = \<lparr>cs_cfg = DefaultConfig, cs_path = ''wtm.yaml'', cs_fs = Map.empty, cs_callback = True, cs_applied = []\<rparr>"

definition set_protected :: "gostring list \<Rightarrow> Config \<Rightarrow> Config" where
  "set_protected ps c = c\<lparr>c_Controller := (c_Controller c)\<lparr>co_ProtectedProcesses := ps\<rparr>\<rparr>"

definition set_ignored :: "gostring list \<Rightarrow> Config \<Rightarrow> Config" where
  "set_ignored ps c = c\<lparr>c_Anomaly := (c_Anomaly c)\<lparr>an_IgnoreProcesses := ps\<rparr>\<rparr>"

lemma set_protected_ok [simp]: "cfg_ok (set_protected ps c) = cfg_ok c"
  by (simp add: cfg_ok_def set_protected_def)

lemma set_ignored_ok [simp]: "cfg_ok (set_ignored ps c) = cfg_ok c"
  by (simp add: cfg_ok_def set_ignored_def)

lemma persist_calm:
  "cfg_ok c \<Longrightarrow> persist calm_env c st =
     (st\<lparr>cs_fs := (cs_fs st)(cs_path st @ ''.tmp'' := None, cs_path st \<mapsto> \<lparr>f_content = [], f_mtime = 7\<rparr>),
         cs_cfg := c, cs_applied := (if cs_callback st then cs_applied st @ [c] else cs_applied st)\<rparr>, None)"
  by (simp add: persist_ok Validate_id calm_env_def)

theorem update_all_or_nothing_witness:
  "cfg_ok (cs_cfg (fst (mutateConfig calm_env (\<lambda>c. Inr (set_protected [''a.exe''] c)) fresh_cfg)))"
proof -
  let ?c = "set_protected [''a.exe''] DefaultConfig"
  have "mutateConfig calm_env (\<lambda>c. Inr (set_protected [''a.exe''] c)) fresh_cfg =
      (fst (persist calm_env ?c fresh_cfg), None)"
    by (simp add: mutateConfig_def cloneConfig_def fresh_cfg_def persist_calm DefaultConfig_ok)
  from update_all_or_nothing [OF this] show ?thesis
    by (simp add: mutateConfig_def cloneConfig_def fresh_cfg_def persist_calm DefaultConfig_ok)
qed

text \<open>
  Two updates at once lose one. The lock is held while the configuration is read and while it is
  replaced, not in between. If two requests read it before either has replaced it, both succeed, but
  in the end the live configuration is what it would be had the first request never been made.
\<close>

theorem racing_updates_lose:
  assumes "cs_path st \<noteq> []" and "change1 (cs_cfg st) = Inr n1" and "change2 (cs_cfg st) = Inr n2"
    and "persist env1 n1 st = (st1, None)" and "persist env2 n2 st1 = (st2, None)"
  shows "mutateConfig env1 change1 st = (st1, None) \<and> snd (mutateConfig env2 change2 st) = None \<and>
    cs_cfg st2 = cs_cfg (fst (mutateConfig env2 change2 st))"
proof -
  have "mutateConfig env1 change1 st = (st1, None)"
    using assms(1,2,4) by (simp add: mutateConfig_def cloneConfig_def)
  moreover obtain c d where p: "Validate n2 = (c, None)" "le_mkdir env2 = None" "le_marshal env2 c = Inr d"
    "le_write env2 = None" "le_rename env2 = None" "cs_cfg st2 = c"
    using assms(5) unfolding persist_ok by auto
  have "\<exists>q. persist env2 n2 st = (q, None) \<and> cs_cfg q = c"
    unfolding persist_ok using p by auto
  then have "snd (mutateConfig env2 change2 st) = None \<and> cs_cfg (fst (mutateConfig env2 change2 st)) = c"
    using assms(1,3) by (auto simp: mutateConfig_def cloneConfig_def)
  ultimately show ?thesis using p(6) by simp
qed

theorem racing_updates_lose_witness:
  "let st1 = fst (persist calm_env (set_protected [''a.exe''] DefaultConfig) fresh_cfg);
       st2 = fst (persist calm_env (set_ignored [''b.exe''] DefaultConfig) st1)
   in co_ProtectedProcesses (c_Controller (cs_cfg st1)) = [''a.exe''] \<and>
      co_ProtectedProcesses (c_Controller (cs_cfg st2)) \<noteq> [''a.exe'']"
proof -
  let ?c1 = "set_protected [''a.exe''] DefaultConfig" and ?c2 = "set_ignored [''b.exe''] DefaultConfig"
  let ?st1 = "fst (persist calm_env ?c1 fresh_cfg)"
  have "cs_cfg (fst (persist calm_env ?c2 ?st1)) =
      cs_cfg (fst (mutateConfig calm_env (\<lambda>c. Inr (set_ignored [''b.exe''] c)) fresh_cfg))"
    by (rule racing_updates_lose [where ?change1.0 = "\<lambda>c. Inr (set_protected [''a.exe''] c)" and ?n1.0 = ?c1 and ?n2.0 = ?c2
          and ?env1.0 = calm_env and ?st1.0 = ?st1, THEN conjunct2, THEN conjunct2])
      (simp_all add: fresh_cfg_def persist_calm DefaultConfig_ok)
  then have "cs_cfg (fst (persist calm_env ?c2 ?st1)) = ?c2"
    by (simp add: mutateConfig_def cloneConfig_def fresh_cfg_def persist_calm DefaultConfig_ok)
  moreover have "cs_cfg ?st1 = ?c1" by (simp add: persist_calm DefaultConfig_ok)
  moreover have "co_ProtectedProcesses (c_Controller ?c1) = [''a.exe'']"
    "co_ProtectedProcesses (c_Controller ?c2) \<noteq> [''a.exe'']"
    by (simp_all add: set_protected_def set_ignored_def DefaultConfig_def default_controller_def)
  ultimately show ?thesis by (simp add: Let_def)
qed

section \<open>What of the secrets is shown\<close>

text \<open>All a mask depends on: whether there is a secret, and of a long one the last four bytes.\<close>

definition secret_tail :: "gostring \<Rightarrow> gostring option" where
  "secret_tail s = (if s = [] then None else Some (if length s \<le> 4 then [] else drop (length s - 4) s))"

lemma mask_tail: "maskSecret s = (case secret_tail s of None \<Rightarrow> [] | Some t \<Rightarrow> ''****'' @ t)"
  by (simp add: maskSecret_def secret_tail_def)

definition same_header :: "gostring \<times> gostring \<Rightarrow> gostring \<times> gostring \<Rightarrow> bool" where
  "same_header x y \<longleftrightarrow> fst x = fst y \<and>
     (if isSensitiveHeaderKey (fst x) then secret_tail (snd x) = secret_tail (snd y) else snd x = snd y)"

definition same_but_secrets :: "Config \<Rightarrow> Config \<Rightarrow> bool" where
  "same_but_secrets c c' \<longleftrightarrow>
     (\<exists>k hs t. c' = c\<lparr>c_AI := (c_AI c)\<lparr>ai_APIKey := k, ai_ExtraHeaders := hs\<rparr>,
                      c_Telegram := (c_Telegram c)\<lparr>tg_BotToken := t\<rparr>\<rparr> \<and>
        secret_tail k = secret_tail (ai_APIKey (c_AI c)) \<and> secret_tail t = secret_tail (tg_BotToken (c_Telegram c)) \<and>
        list_all2 same_header hs (ai_ExtraHeaders (c_AI c)))"

text \<open>
  C33. Responses show no more of a secret than its last four bytes. Two configurations that differ only in
  the API key, the bot token and the values of sensitive headers, with the same last four bytes of
  each long one, look the same in every form the server returns them; and a mask is never longer than
  eight bytes.
\<close>

theorem secrets_masked:
  assumes "same_but_secrets c c'"
  shows "masked_config c' = masked_config c \<and> dtoFromConfig (c_AI c') = dtoFromConfig (c_AI c) \<and>
    telegramDTOFromConfig (c_Telegram c') = telegramDTOFromConfig (c_Telegram c) \<and> length (maskSecret s) \<le> 8"
proof -
  have h: "redactHeaderValues hs = redactHeaderValues hs'" if "list_all2 same_header hs hs'" for hs hs'
    using that by (induction rule: list_all2_induct)
      (auto simp: redactHeaderValues_def same_header_def mask_tail split: if_splits)
  have "length (maskSecret s) \<le> 8" by (simp add: maskSecret_def)
  then show ?thesis
    using assms h
    by (auto simp: same_but_secrets_def masked_config_def dtoFromConfig_def telegramDTOFromConfig_def mask_tail)
qed

definition with_key :: "gostring \<Rightarrow> Config \<Rightarrow> Config" where
  "with_key k c = c\<lparr>c_AI := (c_AI c)\<lparr>ai_APIKey := k\<rparr>\<rparr>"

theorem secrets_masked_witness:
  "masked_config (with_key ''sk-other-1234'' DefaultConfig) = masked_config (with_key ''sk-ant-secret-1234'' DefaultConfig)"
proof -
  have "same_but_secrets (with_key ''sk-ant-secret-1234'' DefaultConfig) (with_key ''sk-other-1234'' DefaultConfig)"
    unfolding same_but_secrets_def
  proof (intro exI conjI)
    let ?c = "with_key ''sk-ant-secret-1234'' DefaultConfig"
    show "with_key ''sk-other-1234'' DefaultConfig =
      ?c\<lparr>c_AI := (c_AI ?c)\<lparr>ai_APIKey := ''sk-other-1234'', ai_ExtraHeaders := ai_ExtraHeaders (c_AI ?c)\<rparr>,
         c_Telegram := (c_Telegram ?c)\<lparr>tg_BotToken := tg_BotToken (c_Telegram ?c)\<rparr>\<rparr>"
      by (simp add: with_key_def)
  qed (simp_all add: with_key_def secret_tail_def same_header_def list_all2_same split: if_splits)
  from secrets_masked [OF this] show ?thesis by simp
qed

lemma redact_lookup:
  "mget (redactHeaderValues m) k = map_option (\<lambda>v. if isSensitiveHeaderKey k then maskSecret v else v) (mget m k)"
  by (induction m) (auto simp: redactHeaderValues_def)

text \<open>
  Saving the settings page destroys the secret headers. The page reads the AI settings, blanks the
  key, which keeps it, and sends the rest back: every header whose name is sensitive then has for its
  value the mask it was shown as, and the request still counts as a success.
\<close>

theorem settings_page_masks_headers:
  assumes "mget (ai_ExtraHeaders (c_AI c)) h = Some v" and "isSensitiveHeaderKey h"
  shows "mget (ai_ExtraHeaders (c_AI (ai_update ((dtoFromConfig (c_AI c))\<lparr>axd_APIKey := []\<rparr>) c))) h = Some (maskSecret v) \<and>
    ai_APIKey (c_AI (ai_update ((dtoFromConfig (c_AI c))\<lparr>axd_APIKey := []\<rparr>) c)) = ai_APIKey (c_AI c)"
  using assms by (simp add: ai_update_def dtoFromConfig_def sent_def redact_lookup Let_def)

definition header_cfg :: Config where
  "header_cfg = DefaultConfig\<lparr>c_AI := default_ai\<lparr>ai_ExtraHeaders := [(''Authorization'', ''Bearer abcdef12'')]\<rparr>\<rparr>"

theorem settings_page_masks_headers_witness:
  "mget (ai_ExtraHeaders (c_AI (ai_update ((dtoFromConfig (c_AI header_cfg))\<lparr>axd_APIKey := []\<rparr>) header_cfg))) ''Authorization''
     = Some ''****ef12''"
proof -
  have "isSensitiveHeaderKey ''Authorization''" by code_simp
  moreover have "maskSecret ''Bearer abcdef12'' = ''****ef12''" by (simp add: maskSecret_def)
  ultimately show ?thesis
    using settings_page_masks_headers [of header_cfg "''Authorization''" "''Bearer abcdef12''"]
    by (simp add: header_cfg_def)
qed

end
