(* ===== verification/Sse.thy ===== *)
theory Sse
  imports Prelude "HOL-Library.Sublist"
begin

text \<open>
  \<^verbatim>\<open>internal/server/sse.go\<close>: the hub that copies events to the connected dashboards. Every dashboard
  has a channel of 64 messages; a full one drops the event. One step is a broadcast, a connection, its
  end, or a message taken off a channel by its handler; writing it to the connection and the heartbeat
  are input and output and not modelled. Coding an event as JSON is an argument.
\<close>

record sseMsg =
  sm_event :: gostring
  sm_data :: gostring

record sseClient =
  sl_id :: u64
  sl_send :: "sseMsg list"

record SSEHub =
  hb_clients :: "(u64, sseClient) gomap"
  hb_nextID :: u64

definition NewSSEHub :: SSEHub where "NewSSEHub = \<lparr>hb_clients = [], hb_nextID = 0\<rparr>"

definition send_cap :: nat where "send_cap = 64"

definition offer :: "sseMsg \<Rightarrow> sseClient \<Rightarrow> sseClient" where
  "offer msg c = (if length (sl_send c) < send_cap then c\<lparr>sl_send := sl_send c @ [msg]\<rparr> else c)"

definition broadcast :: "('d \<Rightarrow> gostring option) \<Rightarrow> gostring \<Rightarrow> 'd \<Rightarrow> SSEHub \<Rightarrow> SSEHub" where
  "broadcast marshal eventType payload h =
     (case marshal payload of
        None \<Rightarrow> h
      | Some bytes \<Rightarrow>
          h\<lparr>hb_clients := map (\<lambda>(i, c). (i, offer \<lparr>sm_event = eventType, sm_data = bytes\<rparr> c)) (hb_clients h)\<rparr>)"

definition sse_connect :: "SSEHub \<Rightarrow> SSEHub \<times> u64" where
  "sse_connect h =
     (let i = hb_nextID h + 1
      in (h\<lparr>hb_nextID := i, hb_clients := mput i \<lparr>sl_id = i, sl_send = []\<rparr> (hb_clients h)\<rparr>, i))"

definition sse_disconnect :: "u64 \<Rightarrow> SSEHub \<Rightarrow> SSEHub" where
  "sse_disconnect i h = h\<lparr>hb_clients := mdel i (hb_clients h)\<rparr>"

definition sse_receive :: "u64 \<Rightarrow> SSEHub \<Rightarrow> SSEHub \<times> sseMsg option" where
  "sse_receive i h =
     (case mget (hb_clients h) i of
        None \<Rightarrow> (h, None)
      | Some c \<Rightarrow>
          (case sl_send c of
             [] \<Rightarrow> (h, None)
           | m # ms \<Rightarrow> (h\<lparr>hb_clients := mput i (c\<lparr>sl_send := ms\<rparr>) (hb_clients h)\<rparr>, Some m)))"

definition ClientCount :: "SSEHub \<Rightarrow> nat" where "ClientCount h = length (hb_clients h)"

section \<open>Runs of the hub\<close>

datatype 'd hub_op = HBroadcast gostring 'd | HConnect | HDisconnect u64 | HReceive u64

text \<open>The messages taken off the channels, with the client that took them.\<close>

fun hub_run :: "('d \<Rightarrow> gostring option) \<Rightarrow> 'd hub_op list \<Rightarrow> SSEHub \<Rightarrow> SSEHub \<times> (u64 \<times> sseMsg) list" where
  "hub_run marshal [] h = (h, [])"
| "hub_run marshal (HBroadcast t d # ops) h = hub_run marshal ops (broadcast marshal t d h)"
| "hub_run marshal (HConnect # ops) h = hub_run marshal ops (fst (sse_connect h))"
| "hub_run marshal (HDisconnect i # ops) h = hub_run marshal ops (sse_disconnect i h)"
| "hub_run marshal (HReceive i # ops) h =
     (case sse_receive i h of
        (h1, r) \<Rightarrow> (case hub_run marshal ops h1 of
                      (h2, out) \<Rightarrow> (h2, (case r of None \<Rightarrow> [] | Some m \<Rightarrow> [(i, m)]) @ out)))"

fun sent_by :: "('d \<Rightarrow> gostring option) \<Rightarrow> 'd hub_op list \<Rightarrow> sseMsg list" where
  "sent_by marshal [] = []"
| "sent_by marshal (HBroadcast t d # ops) =
     (case marshal d of None \<Rightarrow> [] | Some b \<Rightarrow> [\<lparr>sm_event = t, sm_data = b\<rparr>]) @ sent_by marshal ops"
| "sent_by marshal (_ # ops) = sent_by marshal ops"

definition connects :: "'d hub_op list \<Rightarrow> nat" where
  "connects ops = length (filter (\<lambda>c. c = HConnect) ops)"

definition taken_by :: "u64 \<Rightarrow> (u64 \<times> sseMsg) list \<Rightarrow> sseMsg list" where
  "taken_by i out = map snd (filter (\<lambda>(j, m). j = i) out)"

lemma broadcast_lookup:
  "mget (hb_clients (broadcast marshal t d h)) i =
     (case marshal d of None \<Rightarrow> mget (hb_clients h) i
      | Some b \<Rightarrow> map_option (offer \<lparr>sm_event = t, sm_data = b\<rparr>) (mget (hb_clients h) i))"
  by (simp add: broadcast_def map_of_map split: option.splits)

lemma broadcast_next [simp]: "hb_nextID (broadcast marshal t d h) = hb_nextID h"
  by (simp add: broadcast_def split: option.splits)

lemma receive_next [simp]: "hb_nextID (fst (sse_receive i h)) = hb_nextID h"
  by (simp add: sse_receive_def split: option.splits list.splits)

text \<open>The state of one client: nothing out of order, the channel within its size, and nothing lost while it fits.\<close>

definition in_order :: "sseMsg list \<Rightarrow> sseMsg list \<Rightarrow> sseMsg list \<Rightarrow> sseMsg list \<Rightarrow> bool" where
  "in_order q0 taken q msgs \<longleftrightarrow>
     subseq (taken @ q) (q0 @ msgs) \<and> length q \<le> send_cap \<and>
     (length q0 + length msgs \<le> send_cap \<longrightarrow> taken @ q = q0 @ msgs)"

lemma in_order_offer:
  assumes "in_order (sl_send (offer m c)) taken q msgs" and "length (sl_send c) \<le> send_cap"
  shows "in_order (sl_send c) taken q (m # msgs)"
proof (cases "length (sl_send c) < send_cap")
  case True
  then show ?thesis using assms(1) by (simp add: in_order_def offer_def)
next
  case False
  then have "subseq (taken @ q) (sl_send c @ msgs)" "length q \<le> send_cap"
    using assms(1) by (simp_all add: in_order_def offer_def)
  moreover have "subseq (sl_send c @ msgs) (sl_send c @ m # msgs)"
    by (intro list_emb_append_mono) auto
  ultimately show ?thesis using False by (auto simp: in_order_def intro: subseq_order.trans)
qed

lemma word_step: "n + 1 < 2 ^ 64 \<Longrightarrow> (i :: u64) + of_nat n + 1 \<noteq> i"
proof
  assume n: "n + 1 < 2 ^ 64" and "i + of_nat n + 1 = i"
  then have "of_nat (n + 1) = (0 :: u64)" by (simp add: add_ac)
  then have "(n + 1) mod 2 ^ 64 = 0"
    using unat_of_nat [of "n + 1", where ?'a = 64] by simp
  then show False using n by simp
qed

lemma hub_run_client:
  assumes "mget (hb_clients h) i = Some c" and "length (sl_send c) \<le> send_cap"
    and "hb_nextID h = i + of_nat n" and "n + connects ops < 2 ^ 64" and "HDisconnect i \<notin> set ops"
    and "hub_run marshal ops h = (h', out)"
  shows "\<exists>c'. mget (hb_clients h') i = Some c' \<and> in_order (sl_send c) (taken_by i out) (sl_send c') (sent_by marshal ops)"
  using assms
proof (induction marshal ops h arbitrary: c n h' out rule: hub_run.induct)
  case (1 marshal h)
  then show ?case by (auto simp: in_order_def taken_by_def)
next
  case (2 marshal t d ops h)
  have n: "n + connects ops < 2 ^ 64" using 2(5) by (simp add: connects_def)
  show ?case
  proof (cases "marshal d")
    case None
    then show ?thesis using "2.IH" [of c n h' out] 2(2-7) n by (simp add: broadcast_lookup)
  next
    case (Some b)
    let ?m = "\<lparr>sm_event = t, sm_data = b\<rparr>"
    have "mget (hb_clients (broadcast marshal t d h)) i = Some (offer ?m c)"
      using 2(2) Some by (simp add: broadcast_lookup)
    moreover have "length (sl_send (offer ?m c)) \<le> send_cap" using 2(3) by (simp add: offer_def)
    ultimately show ?thesis
      using "2.IH" [of "offer ?m c" n h' out] 2(3-7) n Some in_order_offer [of ?m c] by auto
  qed
next
  case (3 marshal ops h)
  have n: "Suc n + connects ops < 2 ^ 64" using 3(5) by (simp add: connects_def)
  let ?h = "fst (sse_connect h)"
  have "mget (hb_clients ?h) i = Some c" "hb_nextID ?h = i + of_nat (Suc n)"
    using 3(2,4) word_step [of n i] n by (auto simp: sse_connect_def Let_def add_ac)
  then show ?case using "3.IH" [of c "Suc n" h' out] 3(3,6,7) n by simp
next
  case (4 marshal j ops h)
  have n: "n + connects ops < 2 ^ 64" using 4(5) by (simp add: connects_def)
  show ?case using "4.IH" [of c n h' out] 4(2-7) n by (simp add: sse_disconnect_def)
next
  case (5 marshal j ops h)
  have n: "n + connects ops < 2 ^ 64" using 5(5) by (simp add: connects_def)
  obtain h1 r where r: "sse_receive j h = (h1, r)" by fastforce
  obtain h2 out2 where run: "hub_run marshal ops h1 = (h2, out2)" by fastforce
  have eq: "h' = h2" "out = (case r of None \<Rightarrow> [] | Some m \<Rightarrow> [(j, m)]) @ out2"
    using 5(7) r run by simp_all
  have nid: "hb_nextID h1 = i + of_nat n" using r receive_next [of j h] 5(4) by simp
  show ?case
  proof (cases "j = i \<and> sl_send c \<noteq> []")
    case True
    then obtain m ms where m: "sl_send c = m # ms" by (cases "sl_send c") auto
    have "mget (hb_clients h1) i = Some (c\<lparr>sl_send := ms\<rparr>)" "r = Some m"
      using r True m 5(2) by (auto simp: sse_receive_def)
    moreover have "length (sl_send (c\<lparr>sl_send := ms\<rparr>)) \<le> send_cap" using 5(3) m by simp
    ultimately obtain c' where "mget (hb_clients h2) i = Some c'"
      "in_order ms (taken_by i out2) (sl_send c') (sent_by marshal ops)"
      using "5.IH" [OF r [symmetric], of "c\<lparr>sl_send := ms\<rparr>" n h2 out2] nid n 5(6) run by auto
    then show ?thesis using eq m True \<open>r = Some m\<close> by (auto simp: in_order_def taken_by_def)
  next
    case False
    have "mget (hb_clients h1) i = Some c" "taken_by i out = taken_by i out2"
      using r False 5(2) eq(2) by (auto simp: sse_receive_def taken_by_def split: option.splits list.splits)
    then show ?thesis using "5.IH" [OF r [symmetric], of c n h2 out2] nid n 5(3,6) run eq(1) by simp
  qed
qed

text \<open>
  C28. A dashboard sees events in order, and misses only what does not fit. Whatever the hub does after a
  dashboard connected, other dashboards coming and going, what the dashboard has taken and what still
  waits for it is a part, in order, of what was broadcast since; never more than 64 messages wait; and as
  long as no more than 64 were broadcast in all, none is missing. This holds until the counter of
  connections comes round.
\<close>

theorem sse_in_order:
  assumes "sse_connect h = (h1, i)" and "hub_run marshal ops h1 = (h2, out)"
    and "HDisconnect i \<notin> set ops" and "connects ops < 2 ^ 64"
  shows "\<exists>c. mget (hb_clients h2) i = Some c \<and> length (sl_send c) \<le> 64 \<and>
    subseq (taken_by i out @ sl_send c) (sent_by marshal ops) \<and>
    (length (sent_by marshal ops) \<le> 64 \<longrightarrow> taken_by i out @ sl_send c = sent_by marshal ops)"
proof -
  have "mget (hb_clients h1) i = Some \<lparr>sl_id = i, sl_send = []\<rparr>" "hb_nextID h1 = i + of_nat 0"
    using assms(1) by (auto simp: sse_connect_def Let_def)
  from hub_run_client [OF this(1) _ this(2) _ assms(3,2)] show ?thesis
    using assms(4) by (auto simp: in_order_def send_cap_def)
qed

theorem sse_in_order_witness:
  "taken_by 1 (snd (hub_run Some [HBroadcast ''tick'' ''{}'', HConnect, HReceive 1] (fst (sse_connect NewSSEHub))))
     = [\<lparr>sm_event = ''tick'', sm_data = ''{}''\<rparr>]"
proof -
  let ?ops = "[HBroadcast ''tick'' ''{}'', HConnect, HReceive 1]"
  obtain h2 out where r: "hub_run Some ?ops (fst (sse_connect NewSSEHub)) = (h2, out)" by fastforce
  have c: "sse_connect NewSSEHub = (fst (sse_connect NewSSEHub), 1)"
    by (simp add: sse_connect_def NewSSEHub_def Let_def)
  obtain cl where "mget (hb_clients h2) 1 = Some cl" "taken_by 1 out @ sl_send cl = sent_by Some ?ops"
    using sse_in_order [OF c r] by (auto simp: connects_def)
  moreover have "sl_send cl = []"
    using r calculation(1)
    by (auto simp: sse_connect_def NewSSEHub_def Let_def broadcast_def offer_def send_cap_def sse_receive_def)
  ultimately show ?thesis using r by simp
qed

end
