(* ===== verification/RateCache.thy ===== *)
theory RateCache
  imports GoFloat
begin

text \<open>
  The two guards in front of a paid model: the token bucket of \<^verbatim>\<open>internal/ai/ratelimit.go\<close> and the
  answer cache of \<^verbatim>\<open>internal/ai/cache.go\<close>. The clock is an argument of each call. The cache hashes a
  prompt to a key; the hash is an argument too.
\<close>

section \<open>The token bucket\<close>

record TokenBucket =
  tb_max :: int
  tb_tokens :: int
  tb_lastFill :: gotime

definition NewTokenBucket :: "gotime \<Rightarrow> int \<Rightarrow> TokenBucket" where
  "NewTokenBucket now perMinute =
     (let n = (if perMinute < 1 then 1 else perMinute)
      in \<lparr>tb_max = n, tb_tokens = n, tb_lastFill = now\<rparr>)"

definition tb_add :: "int \<Rightarrow> duration \<Rightarrow> int" where
  "tb_add m elapsed = int_of_f64 (fmul (f64_of_int m) (dur_minutes elapsed))"

definition refill :: "gotime \<Rightarrow> TokenBucket \<Rightarrow> TokenBucket" where
  "refill now tb =
     (let elapsed = t_sub now (tb_lastFill tb) in
      if elapsed \<le> 0 then tb
      else
        (let add = tb_add (tb_max tb) elapsed in
         if 0 < add
         then (let tokens = wrap64 (tb_tokens tb + add)
               in tb\<lparr>tb_tokens := (if tb_max tb < tokens then tb_max tb else tokens), tb_lastFill := now\<rparr>)
         else tb))"

definition tb_Take :: "gotime \<Rightarrow> TokenBucket \<Rightarrow> TokenBucket \<times> bool" where
  "tb_Take now tb =
     (let tb = refill now tb in
      if tb_tokens tb \<le> 0 then (tb, False) else (tb\<lparr>tb_tokens := tb_tokens tb - 1\<rparr>, True))"

definition tb_Available :: "gotime \<Rightarrow> TokenBucket \<Rightarrow> TokenBucket \<times> int" where
  "tb_Available now tb = (let tb = refill now tb in (tb, tb_tokens tb))"

definition tb_inv :: "TokenBucket \<Rightarrow> bool" where
  "tb_inv tb \<longleftrightarrow> 1 \<le> tb_max tb \<and> tb_tokens tb \<le> tb_max tb"

lemma NewTokenBucket_inv [simp]: "tb_inv (NewTokenBucket now n)"
  by (simp add: tb_inv_def NewTokenBucket_def Let_def)

lemma refill_frame [simp]: "tb_max (refill now tb) = tb_max tb"
  by (simp add: refill_def Let_def)

lemma refill_inv [simp]: "tb_inv tb \<Longrightarrow> tb_inv (refill now tb)"
  by (simp add: tb_inv_def refill_def Let_def)

text \<open>Filling twice at one instant is filling once.\<close>

lemma refill_idem: "refill now (refill now tb) = refill now tb"
  by (simp add: refill_def Let_def)

lemma refill_tokens:
  "refill now ((refill now tb)\<lparr>tb_tokens := n\<rparr>) =
     (refill now tb)\<lparr>tb_tokens := n\<rparr>"
  by (simp add: refill_def Let_def)

lemma Take_cases:
  "tb_Take now tb = (tb', b) \<Longrightarrow>
     tb' = (refill now tb)\<lparr>tb_tokens := tb_tokens (refill now tb) - (if b then 1 else 0)\<rparr> \<and>
     (b \<longleftrightarrow> 0 < tb_tokens (refill now tb))"
  by (auto simp: tb_Take_def Let_def split: if_splits)

fun takes :: "gotime list \<Rightarrow> TokenBucket \<Rightarrow> TokenBucket \<times> nat" where
  "takes [] tb = (tb, 0)"
| "takes (t # ts) tb = (let (tb, b) = tb_Take t tb; (tb, n) = takes ts tb in (tb, (if b then 1 else 0) + n))"

lemma takes_inv: "tb_inv tb \<Longrightarrow> tb_inv (fst (takes ts tb)) \<and> tb_max (fst (takes ts tb)) = tb_max tb"
proof (induction ts arbitrary: tb)
  case (Cons t ts)
  obtain tb1 b where 1: "tb_Take t tb = (tb1, b)" by fastforce
  have "tb_inv tb1 \<and> tb_max tb1 = tb_max tb"
    using Take_cases [OF 1] refill_inv [OF Cons.prems, where now = t]
    by (auto simp: tb_inv_def)
  then show ?case using Cons.IH [of tb1] 1 by (simp add: split_beta)
qed simp

lemma takes_burst:
  "refill now tb = tb \<Longrightarrow> snd (takes (replicate k now) tb) = min k (nat (tb_tokens tb))"
proof (induction k arbitrary: tb)
  case (Suc k)
  obtain tb1 b where 1: "tb_Take now tb = (tb1, b)" by fastforce
  note c = Take_cases [OF 1]
  have fill: "refill now tb1 = tb1" using c refill_tokens [where now = now and tb = tb] Suc.prems by simp
  have "snd (takes (replicate k now) tb1) = min k (nat (tb_tokens tb1))" by (rule Suc.IH [OF fill])
  moreover have "tb_tokens tb1 = tb_tokens tb - (if b then 1 else 0)" "b \<longleftrightarrow> 0 < tb_tokens tb"
    using c Suc.prems by simp_all
  ultimately show ?case using 1 by (auto simp: split_beta)
qed simp

text \<open>
  The bucket limits bursts. Whatever the times of the calls, the bucket never holds more than its
  maximum, which is at least one; and of any number of calls at one instant exactly as many succeed as
  there are tokens after the refill, so at most the maximum.
\<close>

theorem bucket_limits_bursts:
  assumes "takes ts (NewTokenBucket t0 n) = (tb, g)"
  shows "tb_max tb = max 1 n \<and> tb_tokens tb \<le> max 1 n \<and>
    snd (takes (replicate k now) tb) = min k (nat (tb_tokens (refill now tb))) \<and>
    int (snd (takes (replicate k now) tb)) \<le> max 1 n"
proof -
  have inv: "tb_inv tb" "tb_max tb = max 1 n"
    using takes_inv [OF NewTokenBucket_inv, of ts t0 n] assms by (simp_all add: NewTokenBucket_def Let_def)
  have "snd (takes (replicate k now) tb) = snd (takes (replicate k now) (refill now tb))"
    by (cases k) (simp_all add: tb_Take_def refill_idem)
  also have "\<dots> = min k (nat (tb_tokens (refill now tb)))" by (rule takes_burst [OF refill_idem])
  finally have eq: "snd (takes (replicate k now) tb) = min k (nat (tb_tokens (refill now tb)))" .
  have "tb_tokens (refill now tb) \<le> max 1 n" using refill_inv [OF inv(1), of now] inv(2) by (simp add: tb_inv_def)
  then have "int (min k (nat (tb_tokens (refill now tb)))) \<le> max 1 n" by linarith
  then show ?thesis using eq inv by (simp add: tb_inv_def)
qed

theorem bucket_limits_bursts_witness:
  "snd (takes (replicate 7 0) (NewTokenBucket 0 5)) = 5"
  using bucket_limits_bursts [of "[]" 0 5 "NewTokenBucket 0 5" 0 7 0]
  by (simp add: NewTokenBucket_def refill_def)

section \<open>The cache\<close>

record cacheEntry =
  ce_answer :: gostring
  ce_createdAt :: gotime

record Cache =
  ca_entries :: "(gostring, cacheEntry) gomap"
  ca_ttl :: duration
  ca_maxSize :: int

definition NewCache :: "duration \<Rightarrow> int \<Rightarrow> Cache" where
  "NewCache ttl maxSize =
     \<lparr>ca_entries = [], ca_ttl = ttl, ca_maxSize = (if maxSize < 16 then 16 else maxSize)\<rparr>"

definition Cache_Get :: "(gostring \<Rightarrow> gostring) \<Rightarrow> gotime \<Rightarrow> gostring \<Rightarrow> Cache \<Rightarrow> gostring option" where
  "Cache_Get keyOf now prompt c =
     (case mget (ca_entries c) (keyOf prompt) of
        None \<Rightarrow> None
      | Some e \<Rightarrow> if ca_ttl c < t_sub now (ce_createdAt e) then None else Some (ce_answer e))"

text \<open>The range loop for the oldest entry; the first of several oldest ones stays.\<close>

fun oldest_entry :: "(gostring, cacheEntry) gomap \<Rightarrow> (gostring \<times> gotime) option \<Rightarrow> (gostring \<times> gotime) option" where
  "oldest_entry [] acc = acc"
| "oldest_entry ((k, e) # m) acc =
     (case acc of
        None \<Rightarrow> oldest_entry m (Some (k, ce_createdAt e))
      | Some (k0, t0) \<Rightarrow>
          if t_before (ce_createdAt e) t0 then oldest_entry m (Some (k, ce_createdAt e)) else oldest_entry m acc)"

definition evict_oldest :: "(gostring, cacheEntry) gomap \<Rightarrow> (gostring, cacheEntry) gomap" where
  "evict_oldest m = mdel (case oldest_entry m None of None \<Rightarrow> [] | Some (k, t) \<Rightarrow> k) m"

definition Cache_Set :: "(gostring \<Rightarrow> gostring) \<Rightarrow> gotime \<Rightarrow> gostring \<Rightarrow> gostring \<Rightarrow> Cache \<Rightarrow> Cache" where
  "Cache_Set keyOf now prompt answer c =
     (let m = (if ca_maxSize c \<le> int (length (ca_entries c)) then evict_oldest (ca_entries c) else ca_entries c)
      in c\<lparr>ca_entries := mput (keyOf prompt) \<lparr>ce_answer = answer, ce_createdAt = now\<rparr> m\<rparr>)"

definition Cache_Size :: "Cache \<Rightarrow> nat" where "Cache_Size c = length (ca_entries c)"

definition cache_inv :: "Cache \<Rightarrow> bool" where
  "cache_inv c \<longleftrightarrow> wf_map (ca_entries c) \<and> 16 \<le> ca_maxSize c \<and> int (length (ca_entries c)) \<le> ca_maxSize c"

lemma oldest_entry_Some:
  "oldest_entry m acc = Some (k, t) \<Longrightarrow>
     (acc = Some (k, t) \<or> (\<exists>e. (k, e) \<in> set m \<and> ce_createdAt e = t)) \<and>
     (\<forall>(k', e')\<in>set m. t \<le> ce_createdAt e') \<and> (\<forall>k' t'. acc = Some (k', t') \<longrightarrow> t \<le> t')"
proof (induction m arbitrary: acc)
  case (Cons x m)
  obtain k1 e1 where x: "x = (k1, e1)" by (cases x)
  show ?case
  proof (cases acc)
    case None
    then have "oldest_entry m (Some (k1, ce_createdAt e1)) = Some (k, t)" using Cons.prems x by simp
    from Cons.IH [OF this] None x show ?thesis by auto
  next
    case (Some a)
    obtain k0 t0 where a: "a = (k0, t0)" by (cases a)
    show ?thesis
    proof (cases "ce_createdAt e1 < t0")
      case True
      then have "oldest_entry m (Some (k1, ce_createdAt e1)) = Some (k, t)"
        using Cons.prems x Some a by (simp add: t_before_def)
      from Cons.IH [OF this] Some a x True show ?thesis by auto
    next
      case False
      then have "oldest_entry m (Some (k0, t0)) = Some (k, t)" using Cons.prems x Some a by (simp add: t_before_def)
      from Cons.IH [OF this] Some a x False show ?thesis by auto
    qed
  qed
qed simp

lemma oldest_entry_None: "oldest_entry m acc = None \<longleftrightarrow> m = [] \<and> acc = None"
  by (induction m acc rule: oldest_entry.induct) (auto split: option.splits prod.splits)

lemma evict_oldest_spec:
  assumes "wf_map m" and "m \<noteq> []"
  obtains k e where "mget m k = Some e" and "evict_oldest m = mdel k m"
    and "\<And>k' e'. mget m k' = Some e' \<Longrightarrow> ce_createdAt e \<le> ce_createdAt e'"
    and "length (evict_oldest m) = length m - 1"
proof -
  obtain k t where o: "oldest_entry m None = Some (k, t)" using oldest_entry_None [of m None] assms(2) by (cases "oldest_entry m None") auto
  from oldest_entry_Some [OF o] obtain e where e: "(k, e) \<in> set m" "ce_createdAt e = t"
    "\<forall>(k', e')\<in>set m. t \<le> ce_createdAt e'" by auto
  have "mget m k = Some e" using mget_mem [OF assms(1) e(1)] .
  moreover have "evict_oldest m = mdel k m" using o by (simp add: evict_oldest_def)
  moreover have "ce_createdAt e \<le> ce_createdAt e'" if "mget m k' = Some e'" for k' e'
    using e(2,3) map_of_SomeD [OF that] by auto
  moreover have "length (mdel k m) = length m - 1"
    using length_mdel [OF assms(1), of k] mget_Some_mhas [OF \<open>mget m k = Some e\<close>] by simp
  ultimately show thesis using that by metis
qed

text \<open>
  The cache answers what was asked last, for its time to live, and stays bounded. After an answer
  is stored the same prompt gets it until the time to live is over, and no longer; no other prompt
  (whose key is different) gets anything it would not have got before; the cache never grows beyond
  its size; and what it drops when full is an entry no younger than any other.
\<close>

theorem cache_answers:
  assumes "cache_inv c" and "c' = Cache_Set keyOf now prompt answer c"
  shows "cache_inv c' \<and>
    Cache_Get keyOf t prompt c' = (if ca_ttl c < t_sub t now then None else Some answer) \<and>
    (keyOf q \<noteq> keyOf prompt \<longrightarrow> Cache_Get keyOf t q c' \<noteq> None \<longrightarrow> Cache_Get keyOf t q c' = Cache_Get keyOf t q c) \<and>
    (int (Cache_Size c) < ca_maxSize c \<longrightarrow> keyOf q \<noteq> keyOf prompt \<longrightarrow> Cache_Get keyOf t q c' = Cache_Get keyOf t q c) \<and>
    (\<forall>k e. mget (ca_entries c) k = Some e \<and> mget (ca_entries c') k = None \<longrightarrow>
       (\<forall>k' e'. mget (ca_entries c) k' = Some e' \<longrightarrow> ce_createdAt e \<le> ce_createdAt e'))"
proof -
  let ?m = "ca_entries c"
  define m where "m = (if ca_maxSize c \<le> int (length ?m) then evict_oldest ?m else ?m)"
  have wf: "wf_map ?m" and sz: "16 \<le> ca_maxSize c" "int (length ?m) \<le> ca_maxSize c"
    using assms(1) by (simp_all add: cache_inv_def)
  have c': "c' = c\<lparr>ca_entries := mput (keyOf prompt) \<lparr>ce_answer = answer, ce_createdAt = now\<rparr> m\<rparr>"
    by (simp add: assms(2) Cache_Set_def m_def Let_def)
  have "wf_map m \<and> int (length m) < ca_maxSize c \<and>
      (\<forall>k e. mget m k = Some e \<longrightarrow> mget ?m k = Some e) \<and>
      (\<forall>k e. mget ?m k = Some e \<and> mget m k = None \<longrightarrow> (\<forall>k' e'. mget ?m k' = Some e' \<longrightarrow> ce_createdAt e \<le> ce_createdAt e'))"
  proof (cases "ca_maxSize c \<le> int (length ?m)")
    case True
    then have ne: "?m \<noteq> []" using sz by auto
    obtain k e where e: "mget ?m k = Some e" "evict_oldest ?m = mdel k ?m"
      "\<And>k' e'. mget ?m k' = Some e' \<Longrightarrow> ce_createdAt e \<le> ce_createdAt e'" "length (evict_oldest ?m) = length ?m - 1"
      by (rule evict_oldest_spec [OF wf ne], rule that)
    have m: "m = mdel k ?m" using True e(2) by (simp add: m_def)
    have "length ?m \<noteq> 0" using ne by simp
    then have "int (length m) < ca_maxSize c" using e(2,4) sz m by simp
    moreover have "\<forall>k1 e1. mget ?m k1 = Some e1 \<and> mget m k1 = None \<longrightarrow> k1 = k \<and> e1 = e" using e(1) by (auto simp: m)
    moreover have "wf_map m" using wf by (simp add: m)
    moreover have "\<forall>k1 e1. mget m k1 = Some e1 \<longrightarrow> mget ?m k1 = Some e1" by (simp add: m)
    ultimately show ?thesis using e(3) by blast
  next
    case False
    then have "m = ?m" by (simp add: m_def)
    then show ?thesis using wf False by auto
  qed
  note M = this
  let ?e = "\<lparr>ce_answer = answer, ce_createdAt = now\<rparr>"
  have get: "mget (ca_entries c') k = (if k = keyOf prompt then Some ?e else mget m k)" for k by (simp add: c')
  have ttl: "ca_ttl c' = ca_ttl c" by (simp add: c')
  have same: "Cache_Get keyOf t q c' = Cache_Get keyOf t q c"
    if "keyOf q \<noteq> keyOf prompt" "mget m (keyOf q) = mget ?m (keyOf q)"
    using that by (simp add: Cache_Get_def get ttl split: option.split)
  show ?thesis
  proof (intro conjI impI)
    show "cache_inv c'" using M sz by (simp add: c' cache_inv_def length_mput)
    show "Cache_Get keyOf t prompt c' = (if ca_ttl c < t_sub t now then None else Some answer)"
      by (simp add: Cache_Get_def get ttl split: option.split)
    show "\<forall>k e. mget ?m k = Some e \<and> mget (ca_entries c') k = None \<longrightarrow>
       (\<forall>k' e'. mget ?m k' = Some e' \<longrightarrow> ce_createdAt e \<le> ce_createdAt e')"
      using M by (simp add: get)
  next
    assume q: "keyOf q \<noteq> keyOf prompt" "Cache_Get keyOf t q c' \<noteq> None"
    then have "mget m (keyOf q) \<noteq> None" by (simp add: Cache_Get_def get split: option.splits)
    then have "mget m (keyOf q) = mget ?m (keyOf q)" using M by fastforce
    then show "Cache_Get keyOf t q c' = Cache_Get keyOf t q c" by (rule same [OF q(1)])
  next
    assume "int (Cache_Size c) < ca_maxSize c" and q: "keyOf q \<noteq> keyOf prompt"
    then have "m = ?m" by (simp add: m_def Cache_Size_def)
    then show "Cache_Get keyOf t q c' = Cache_Get keyOf t q c" using same [OF q] by simp
  qed
qed

theorem cache_answers_witness:
  "Cache_Get id 61 ''why?'' (Cache_Set id 0 ''why?'' ''because'' (NewCache 60 64)) = None \<and>
   Cache_Get id 60 ''why?'' (Cache_Set id 0 ''why?'' ''because'' (NewCache 60 64)) = Some ''because''"
proof -
  have inv: "cache_inv (NewCache 60 64)" by (simp add: cache_inv_def NewCache_def)
  show ?thesis
    using cache_answers [OF inv refl, where keyOf = id and t = 61 and prompt = "''why?''" and now = 0 and answer = "''because''"]
      cache_answers [OF inv refl, where keyOf = id and t = 60 and prompt = "''why?''" and now = 0 and answer = "''because''"]
    by (simp add: NewCache_def t_sub_def sat64_def i64_max_def i64_min_def)
qed

end
