(* ===== verification/Advisor.thy ===== *)
theory Advisor
  imports Advice RateCache Config Storage
begin

text \<open>
  \<^verbatim>\<open>internal/ai/advisor.go\<close>, \<^verbatim>\<open>anthropic.go\<close> and \<^verbatim>\<open>openai.go\<close>: a question to the model, through the
  cache and the rate limit, to one of two wire formats. Coding of JSON and the HTTP exchange are fields
  of an environment; what the source does with them is the model. A call runs without another one in
  between; the clock is read once at its start, and once when the provider has answered.
\<close>

section \<open>Endpoints and providers\<close>

definition providerOf :: "Config \<Rightarrow> gostring" where
  "providerOf cfg =
     (let p = to_lower (trim_space (ai_Provider (c_AI cfg))) in
      if p = [] then ''anthropic''
      else if p \<in> {''openai-compatible'', ''openai_compatible'', ''openrouter'', ''groq'', ''deepseek'', ''together'',
                   ''mistral'', ''ollama'', ''lmstudio'', ''lm-studio''}
      then ''openai'' else p)"

definition effectiveEndpoint :: "Config \<Rightarrow> gostring" where
  "effectiveEndpoint cfg =
     (if ai_Endpoint (c_AI cfg) \<noteq> [] then ai_Endpoint (c_AI cfg)
      else if providerOf cfg = ''anthropic'' then ''https://api.anthropic.com/v1/messages''
      else if providerOf cfg = ''openai'' then ''https://api.openai.com/v1/chat/completions''
      else [])"

definition normalizeAnthropicEndpoint :: "gostring \<Rightarrow> gostring" where
  "normalizeAnthropicEndpoint endpoint =
     (if endpoint = [] then ''https://api.anthropic.com/v1/messages''
      else
        (let trimmed = trim_right_byte (CHR ''/'') endpoint
         in if has_suffix trimmed ''/messages'' then trimmed else trimmed @ ''/v1/messages''))"

section \<open>The wire\<close>

record TokenUsage =
  tu_Prompt :: u64
  tu_Completion :: u64
  tu_Total :: u64

record wire_message =
  wm_Role :: gostring
  wm_Content :: gostring

datatype provider_body =
    AnthropicRequest gostring gostring int "wire_message list"
  | OpenAIRequest gostring "wire_message list" int

record http_request =
  hq_url :: gostring
  hq_headers :: "(gostring \<times> gostring) list"
  hq_body :: gostring

record http_reply =
  hp_status :: int
  hp_body :: "goerror + gostring"

record anthropicResponse =
  an_Content :: "(gostring \<times> gostring) list"
  an_Usage :: "(int \<times> int) option"
  an_Error :: "(gostring \<times> gostring) option"

record openaiResponse =
  oa_Choices :: "wire_message list"
  oa_Usage :: "(int \<times> int \<times> int) option"
  oa_Error :: "(gostring \<times> gostring) option"

record provider_env =
  pv_marshal :: "provider_body \<Rightarrow> goerror + gostring"
  pv_newreq :: "gostring \<Rightarrow> goerror option"
  pv_do :: "http_request \<Rightarrow> goerror + http_reply"
  pv_anthropic :: "gostring \<Rightarrow> goerror + anthropicResponse"
  pv_openai :: "gostring \<Rightarrow> goerror + openaiResponse"

definition maxProviderResponseBytes :: nat where "maxProviderResponseBytes = 2097152"

definition readProviderBody :: "goerror + gostring \<Rightarrow> goerror + gostring" where
  "readProviderBody r =
     (case r of
        Inl e \<Rightarrow> Inl e
      | Inr body \<Rightarrow>
          if maxProviderResponseBytes < length body
          then Inl (Errorf ''provider response exceeds %d bytes'' [FInt (int maxProviderResponseBytes)])
          else Inr body)"

definition truncateForError :: "gostring \<Rightarrow> gostring" where
  "truncateForError s = (if length s \<le> 512 then s else take 512 s @ ellipsis)"

type_synonym provider_result = "gostring \<times> TokenUsage option \<times> goerror option"

text \<open>The headers in the order they are set; the configured ones come last.\<close>

definition callAnthropic :: "provider_env \<Rightarrow> Config \<Rightarrow> gostring \<Rightarrow> provider_result" where
  "callAnthropic pv cfg prompt =
     (let ai = c_AI cfg in
      case pv_marshal pv (AnthropicRequest (ai_Model ai) (SystemPrompt (ai_Language ai)) (ai_MaxTokens ai)
             [\<lparr>wm_Role = ''user'', wm_Content = prompt\<rparr>]) of
        Inl e \<Rightarrow> ([], None, Some e)
      | Inr buf \<Rightarrow>
        (let endpoint = normalizeAnthropicEndpoint (ai_Endpoint ai) in
         case pv_newreq pv endpoint of
           Some e \<Rightarrow> ([], None, Some e)
         | None \<Rightarrow>
           (case pv_do pv \<lparr>hq_url = endpoint,
                hq_headers = [(''Content-Type'', ''application/json''), (''x-api-key'', ai_APIKey ai),
                  (''anthropic-version'', ''2023-06-01'')] @ ai_ExtraHeaders ai,
                hq_body = buf\<rparr> of
              Inl e \<Rightarrow> ([], None, Some (Errorf ''anthropic call: %w'' [FWrap e]))
            | Inr resp \<Rightarrow>
              (case readProviderBody (hp_body resp) of
                 Inl e \<Rightarrow> ([], None, Some (Errorf ''read response: %w'' [FWrap e]))
               | Inr body \<Rightarrow>
                 if 400 \<le> hp_status resp
                 then ([], None, Some (Errorf ''anthropic %d: %s'' [FInt (hp_status resp), FStr (truncateForError body)]))
                 else
                   (case pv_anthropic pv body of
                      Inl e \<Rightarrow> ([], None, Some (Errorf ''parse response: %w (body: %s)'' [FWrap e, FStr (truncateForError body)]))
                    | Inr parsed \<Rightarrow>
                      (case an_Error parsed of
                         Some (t, msg) \<Rightarrow> ([], None, Some (Errorf ''anthropic %s: %s'' [FStr t, FStr msg]))
                       | None \<Rightarrow>
                         (let usage = map_option (\<lambda>(i, j). \<lparr>tu_Prompt = word_of_int i, tu_Completion = word_of_int j,
                                         tu_Total = word_of_int (i + j)\<rparr>) (an_Usage parsed) in
                          case find (\<lambda>(t, x). t = ''text'' \<and> x \<noteq> []) (an_Content parsed) of
                            Some (t, x) \<Rightarrow> (x, usage, None)
                          | None \<Rightarrow>
                            (case find (\<lambda>(t, x). x \<noteq> []) (an_Content parsed) of
                               Some (t, x) \<Rightarrow> (x, usage, None)
                             | None \<Rightarrow> ([], usage, Some (Errorf ''anthropic: no text content in response: %s''
                                          [FStr (truncateForError body)]))))))))))"

definition callOpenAI :: "provider_env \<Rightarrow> Config \<Rightarrow> gostring \<Rightarrow> provider_result" where
  "callOpenAI pv cfg prompt =
     (let ai = c_AI cfg in
      case pv_marshal pv (OpenAIRequest (ai_Model ai)
             [\<lparr>wm_Role = ''system'', wm_Content = SystemPrompt (ai_Language ai)\<rparr>,
              \<lparr>wm_Role = ''user'', wm_Content = prompt\<rparr>] (ai_MaxTokens ai)) of
        Inl e \<Rightarrow> ([], None, Some e)
      | Inr buf \<Rightarrow>
        (let endpoint = (if ai_Endpoint ai = [] then ''https://api.openai.com/v1/chat/completions'' else ai_Endpoint ai) in
         case pv_newreq pv endpoint of
           Some e \<Rightarrow> ([], None, Some e)
         | None \<Rightarrow>
           (case pv_do pv \<lparr>hq_url = endpoint,
                hq_headers = [(''Content-Type'', ''application/json'')] @
                  (if ai_APIKey ai \<noteq> [] then [(''Authorization'', ''Bearer '' @ ai_APIKey ai)] else []) @ ai_ExtraHeaders ai,
                hq_body = buf\<rparr> of
              Inl e \<Rightarrow> ([], None, Some (Errorf ''openai call: %w'' [FWrap e]))
            | Inr resp \<Rightarrow>
              (case readProviderBody (hp_body resp) of
                 Inl e \<Rightarrow> ([], None, Some (Errorf ''read response: %w'' [FWrap e]))
               | Inr body \<Rightarrow>
                 if 400 \<le> hp_status resp
                 then ([], None, Some (Errorf ''openai %d: %s'' [FInt (hp_status resp), FStr (truncateForError body)]))
                 else
                   (case pv_openai pv body of
                      Inl e \<Rightarrow> ([], None, Some (Errorf ''parse response: %w'' [FWrap e]))
                    | Inr parsed \<Rightarrow>
                      (case oa_Error parsed of
                         Some (t, msg) \<Rightarrow> ([], None, Some (Errorf ''openai %s: %s'' [FStr t, FStr msg]))
                       | None \<Rightarrow>
                         (case oa_Choices parsed of
                            [] \<Rightarrow> ([], None, Some (ErrNew ''openai: empty response''))
                          | m # _ \<Rightarrow>
                            (trim_space (wm_Content m),
                             map_option (\<lambda>(i, j, k). \<lparr>tu_Prompt = word_of_int i, tu_Completion = word_of_int j,
                                tu_Total = word_of_int k\<rparr>) (oa_Usage parsed), None))))))))"

definition quoted :: "gostring \<Rightarrow> gostring" where "quoted s = CHR 0x27 # s @ [CHR 0x27]"

definition callProvider :: "provider_env \<Rightarrow> Config \<Rightarrow> gostring \<Rightarrow> provider_result" where
  "callProvider pv cfg prompt =
     (if providerOf cfg = ''anthropic'' then callAnthropic pv cfg prompt
      else if providerOf cfg = ''openai'' then callOpenAI pv cfg prompt
      else ([], None, Some (Errorf (''unknown AI provider %q (use '' @ quoted ''anthropic'' @ '' or '' @ quoted ''openai'' @ '')'') [FStr (ai_Provider (c_AI cfg))])))"

section \<open>The advisor\<close>

text \<open>The part of the advisor its mutex guards; the background tracker is in its own theory.\<close>

record Advisor =
  ad_cfg :: Config
  ad_rl :: TokenBucket
  ad_cache :: Cache
  ad_lastErr :: gostring
  ad_lastReqAt :: gotime
  ad_totalReqs :: u64
  ad_totalCacheHits :: u64
  ad_totalTokens :: u64
  ad_promptTokens :: u64
  ad_completionTokens :: u64
  ad_chatHistory :: "chatTurn list"

text \<open>What a call reads from outside: the environment, the clock, the store and the active alerts.\<close>

record call_env =
  cv_env :: ai_env
  cv_provider :: provider_env
  cv_now :: gotime
  cv_done :: gotime
  cv_store :: Store
  cv_alerts :: "Alert list"

definition NewAdvisor :: "gotime \<Rightarrow> Config \<Rightarrow> Advisor" where
  "NewAdvisor now cfg =
     \<lparr>ad_cfg = cfg, ad_rl = NewTokenBucket now (ai_MaxRequestsPerMinute (c_AI cfg)),
      ad_cache = NewCache (60 * second) 64, ad_lastErr = [], ad_lastReqAt = zero_time, ad_totalReqs = 0,
      ad_totalCacheHits = 0, ad_totalTokens = 0, ad_promptTokens = 0, ad_completionTokens = 0, ad_chatHistory = []\<rparr>"

definition Advisor_SetConfig :: "gotime \<Rightarrow> Config \<Rightarrow> Advisor \<Rightarrow> Advisor" where
  "Advisor_SetConfig now cfg a =
     (let a = (if ai_MaxRequestsPerMinute (c_AI (ad_cfg a)) \<noteq> ai_MaxRequestsPerMinute (c_AI cfg)
               then a\<lparr>ad_rl := NewTokenBucket now (ai_MaxRequestsPerMinute (c_AI cfg))\<rparr> else a)
      in a\<lparr>ad_cfg := cfg\<rparr>)"

definition ai_configured :: "Config \<Rightarrow> bool" where
  "ai_configured cfg \<longleftrightarrow> ai_Enabled (c_AI cfg) \<and> ai_APIKey (c_AI cfg) \<noteq> []"

definition Advisor_Enabled :: "Advisor \<Rightarrow> bool" where
  "Advisor_Enabled a = ai_configured (ad_cfg a)"

definition statusErrorMessage :: "goerror option \<Rightarrow> gostring" where
  "statusErrorMessage err =
     (case err of
        None \<Rightarrow> []
      | Some e \<Rightarrow>
          (let msg = to_lower (err_text e) in
           if str_contains msg ''rate limit'' then ''AI rate limit exceeded; try again later''
           else if str_contains msg ''disabled'' then ''AI advisor disabled''
           else ''AI provider request failed''))"

text \<open>The third component says whether the provider was called.\<close>

definition runPrompt :: "call_env \<Rightarrow> Config \<Rightarrow> gostring \<Rightarrow> Advisor \<Rightarrow> Advisor \<times> (goerror + AnalyzeResult) \<times> bool" where
  "runPrompt cv cfg prompt a =
     (let env = cv_env cv; key = ae_sha256hex env in
      case Cache_Get key (cv_now cv) prompt (ad_cache a) of
        Some cached \<Rightarrow>
          (let (cleaned, actions) = parseActionsBlock env cached
           in (a\<lparr>ad_totalCacheHits := ad_totalCacheHits a + 1\<rparr>,
               Inr \<lparr>ar_Answer = cleaned, ar_Actions = actions, ar_Cached = True\<rparr>, False))
      | None \<Rightarrow>
          (case tb_Take (cv_now cv) (ad_rl a) of
             (rl, False) \<Rightarrow> (a\<lparr>ad_rl := rl\<rparr>, Inl (ErrNew ''AI rate limit exceeded; try again later''), False)
           | (rl, True) \<Rightarrow>
               (let (answer, usage, err) = callProvider (cv_provider cv) cfg prompt;
                    a = a\<lparr>ad_rl := rl, ad_totalReqs := ad_totalReqs a + 1, ad_lastReqAt := cv_done cv\<rparr>;
                    a = (case usage of
                           None \<Rightarrow> a
                         | Some u \<Rightarrow> a\<lparr>ad_totalTokens := ad_totalTokens a + tu_Total u,
                                       ad_promptTokens := ad_promptTokens a + tu_Prompt u,
                                       ad_completionTokens := ad_completionTokens a + tu_Completion u\<rparr>);
                    a = a\<lparr>ad_lastErr := statusErrorMessage err\<rparr>
                in case err of
                     Some e \<Rightarrow> (a, Inl e, True)
                   | None \<Rightarrow>
                       (let a = a\<lparr>ad_cache := Cache_Set key (cv_done cv) prompt answer (ad_cache a)\<rparr>;
                            (cleaned, actions) = parseActionsBlock env answer
                        in (a, Inr \<lparr>ar_Answer = cleaned, ar_Actions = actions, ar_Cached = False\<rparr>, True)))))"

definition analyzeWithConfig ::
  "call_env \<Rightarrow> Config option \<Rightarrow> gostring \<Rightarrow> Advisor \<Rightarrow> Advisor \<times> (goerror + AnalyzeResult) \<times> bool" where
  "analyzeWithConfig cv cfg userQuestion a =
     (case cfg of
        None \<Rightarrow> (a, Inl (ErrNew ''AI advisor disabled''), False)
      | Some cfg \<Rightarrow>
          if \<not> ai_Enabled (c_AI cfg) \<or> ai_APIKey (c_AI cfg) = []
          then (a, Inl (ErrNew ''AI advisor disabled''), False)
          else runPrompt cv cfg
                 (BuildPrompt (cv_env cv) (ai_Language (c_AI cfg)) (Latest (cv_store cv)) (cv_alerts cv)
                    (ai_IncludeProcessTree (c_AI cfg)) (ai_IncludePortMap (c_AI cfg)) userQuestion) a)"

definition Analyze :: "call_env \<Rightarrow> gostring \<Rightarrow> Advisor \<Rightarrow> Advisor \<times> (goerror + AnalyzeResult) \<times> bool" where
  "Analyze cv userQuestion a = analyzeWithConfig cv (Some (ad_cfg a)) userQuestion a"

definition Chat :: "call_env \<Rightarrow> gostring \<Rightarrow> Advisor \<Rightarrow> Advisor \<times> (goerror + AnalyzeResult) \<times> bool" where
  "Chat cv userMessage a =
     (let cfg = ad_cfg a in
      if \<not> ai_Enabled (c_AI cfg) \<or> ai_APIKey (c_AI cfg) = []
      then (a, Inl (ErrNew ''AI advisor disabled''), False)
      else if trim_space userMessage = [] then (a, Inl (ErrNew ''chat message required''), False)
      else
        (let prompt = BuildChatPrompt (cv_env cv) (ai_Language (c_AI cfg)) (Latest (cv_store cv)) (cv_alerts cv)
               (ai_IncludeProcessTree (c_AI cfg)) (ai_IncludePortMap (c_AI cfg)) (ad_chatHistory a) userMessage
         in case runPrompt cv cfg prompt a of
              (a, Inl e, called) \<Rightarrow> (a, Inl e, called)
            | (a, Inr resp, called) \<Rightarrow>
                (let h = ad_chatHistory a @ [\<lparr>ct_Role = ''user'', ct_Content = trim_space userMessage\<rparr>,
                                            \<lparr>ct_Role = ''assistant'', ct_Content = trim_space (ar_Answer resp)\<rparr>]
                 in (a\<lparr>ad_chatHistory := (if 10 < length h then drop (length h - 10) h else h)\<rparr>, Inr resp, called))))"

record advisor_status =
  st_texts :: "(gostring \<times> gostring) list"
  st_numbers :: "(gostring \<times> int) list"
  st_hit_rate :: f64
  st_last_request :: gotime

definition Advisor_Status :: "gotime \<Rightarrow> Advisor \<Rightarrow> Advisor \<times> advisor_status" where
  "Advisor_Status now a =
     (let cfg = ad_cfg a;
          rate = (if 0 < ad_totalReqs a
                  then fmul (fdiv (f64_of_u64 (ad_totalCacheHits a)) (f64_of_u64 (ad_totalReqs a))) (Fin 100) else Fin 0);
          (rl, avail) = tb_Available now (ad_rl a)
      in (a\<lparr>ad_rl := rl\<rparr>,
          \<lparr>st_texts = [(''provider'', providerOf cfg), (''endpoint'', effectiveEndpoint cfg), (''model'', ai_Model (c_AI cfg)),
             (''language'', ai_Language (c_AI cfg)), (''last_error'', ad_lastErr a)],
           st_numbers = [(''enabled'', if ai_Enabled (c_AI cfg) then 1 else 0),
             (''configured'', if ai_APIKey (c_AI cfg) \<noteq> [] then 1 else 0),
             (''max_per_minute'', ai_MaxRequestsPerMinute (c_AI cfg)),
             (''tokens_available'', avail), (''cache_size'', int (Cache_Size (ad_cache a))),
             (''total_requests'', uint (ad_totalReqs a)), (''cache_hits'', uint (ad_totalCacheHits a)),
             (''total_tokens'', uint (ad_totalTokens a)), (''prompt_tokens'', uint (ad_promptTokens a)),
             (''completion_tokens'', uint (ad_completionTokens a))],
           st_hit_rate = rate, st_last_request = ad_lastReqAt a\<rparr>))"

section \<open>What a call costs\<close>

lemma runPrompt_cases:
  assumes "runPrompt cv cfg prompt a = (a', r, called)"
  shows "(called \<longleftrightarrow> Cache_Get (ae_sha256hex (cv_env cv)) (cv_now cv) prompt (ad_cache a) = None \<and>
            0 < tb_tokens (refill (cv_now cv) (ad_rl a))) \<and>
    (called \<longrightarrow> ad_totalReqs a' = ad_totalReqs a + 1 \<and>
       tb_tokens (ad_rl a') = tb_tokens (refill (cv_now cv) (ad_rl a)) - 1) \<and>
    (\<not> called \<longrightarrow> ad_totalReqs a' = ad_totalReqs a \<and> ad_cache a' = ad_cache a) \<and>
    (\<forall>resp. r = Inr resp \<and> ar_Cached resp \<longrightarrow> ad_rl a' = ad_rl a) \<and>
    (\<forall>e. r = Inl e \<longrightarrow> ad_cache a' = ad_cache a) \<and>
    ad_cfg a' = ad_cfg a \<and> ad_chatHistory a' = ad_chatHistory a"
proof (cases "Cache_Get (ae_sha256hex (cv_env cv)) (cv_now cv) prompt (ad_cache a)")
  case None
  obtain rl b where t: "tb_Take (cv_now cv) (ad_rl a) = (rl, b)" by fastforce
  show ?thesis
  proof (cases b)
    case True
    obtain answer usage err where p: "callProvider (cv_provider cv) cfg prompt = (answer, usage, err)"
      by (metis prod_cases3)
    show ?thesis
      using assms None t True p Take_cases [OF t]
      by (cases err; cases usage) (auto simp: runPrompt_def Let_def split: prod.splits)
  next
    case False
    then show ?thesis using assms None t Take_cases [OF t] by (auto simp: runPrompt_def)
  qed
next
  case (Some cached)
  then show ?thesis using assms by (auto simp: runPrompt_def Let_def split: prod.splits)
qed

lemma cached_again:
  assumes "runPrompt cv cfg prompt a = (a', Inr resp, True)"
    and "t_sub (cv_now cv2) (cv_done cv) \<le> ca_ttl (ad_cache a)" and "cv_env cv2 = cv_env cv"
  shows "runPrompt cv2 cfg2 prompt a' =
    (a'\<lparr>ad_totalCacheHits := ad_totalCacheHits a' + 1\<rparr>, Inr (resp\<lparr>ar_Cached := True\<rparr>), False)"
proof -
  let ?key = "ae_sha256hex (cv_env cv)"
  obtain rl b where t: "tb_Take (cv_now cv) (ad_rl a) = (rl, b)" by fastforce
  obtain answer usage err where p: "callProvider (cv_provider cv) cfg prompt = (answer, usage, err)"
    by (metis prod_cases3)
  obtain cleaned actions where pa: "parseActionsBlock (cv_env cv) answer = (cleaned, actions)" by fastforce
  have n: "Cache_Get ?key (cv_now cv) prompt (ad_cache a) = None" and b: b and err: "err = None"
    using assms(1) t p by (auto simp: runPrompt_def Let_def split: option.splits prod.splits bool.splits)
  have "ad_cache a' = Cache_Set ?key (cv_done cv) prompt answer (ad_cache a)"
    and resp: "resp = \<lparr>ar_Answer = cleaned, ar_Actions = actions, ar_Cached = False\<rparr>"
    using assms(1) t p n b err pa
    by (cases usage; auto simp: runPrompt_def Let_def)+
  then have "Cache_Get ?key (cv_now cv2) prompt (ad_cache a') = Some answer"
    using assms(2) by (auto simp: Cache_Get_def Cache_Set_def Let_def)
  then show ?thesis using pa assms(3) resp by (simp add: runPrompt_def Let_def)
qed

text \<open>
  The advisor pays for an answer only when it must. A question reaches the provider only if the
  advisor is enabled with a key, the cache has no fresh answer to the very prompt and a token is left;
  it then costs one token and counts as one request, and otherwise no request is counted; an error
  leaves the cache alone; and an answer from the provider is given again from the cache, free of
  charge, until its time to live is over.
\<close>

theorem advisor_spends:
  assumes "Analyze cv q a = (a', r, called)"
  shows "(called \<longrightarrow> ai_configured (ad_cfg a) \<and> 0 < tb_tokens (refill (cv_now cv) (ad_rl a)) \<and>
            ad_totalReqs a' = ad_totalReqs a + 1 \<and>
            tb_tokens (ad_rl a') = tb_tokens (refill (cv_now cv) (ad_rl a)) - 1) \<and>
    (\<not> called \<longrightarrow> ad_totalReqs a' = ad_totalReqs a \<and> ad_cache a' = ad_cache a) \<and>
    (\<forall>e. r = Inl e \<longrightarrow> ad_cache a' = ad_cache a) \<and>
    (\<forall>resp cv2. r = Inr resp \<and> called \<and> t_sub (cv_now cv2) (cv_done cv) \<le> ca_ttl (ad_cache a) \<and>
       cv_env cv2 = cv_env cv \<and> cv_store cv2 = cv_store cv \<and> cv_alerts cv2 = cv_alerts cv \<longrightarrow>
       (\<exists>a''. Analyze cv2 q a' = (a'', Inr (resp\<lparr>ar_Cached := True\<rparr>), False) \<and> ad_rl a'' = ad_rl a'))"
proof (cases "ai_configured (ad_cfg a)")
  case True
  let ?cfg = "ad_cfg a"
  let ?p = "BuildPrompt (cv_env cv) (ai_Language (c_AI ?cfg)) (Latest (cv_store cv)) (cv_alerts cv)
              (ai_IncludeProcessTree (c_AI ?cfg)) (ai_IncludePortMap (c_AI ?cfg)) q"
  have run: "runPrompt cv ?cfg ?p a = (a', r, called)"
    using assms True by (simp add: Analyze_def analyzeWithConfig_def ai_configured_def)
  note c = runPrompt_cases [OF run]
  have "\<exists>a''. Analyze cv2 q a' = (a'', Inr (resp\<lparr>ar_Cached := True\<rparr>), False) \<and> ad_rl a'' = ad_rl a'"
    if "r = Inr resp" "called" "t_sub (cv_now cv2) (cv_done cv) \<le> ca_ttl (ad_cache a)" "cv_env cv2 = cv_env cv"
      "cv_store cv2 = cv_store cv" "cv_alerts cv2 = cv_alerts cv" for resp cv2
    using cached_again [of cv ?cfg ?p a a' resp cv2 ?cfg] run that c True
    by (simp add: Analyze_def analyzeWithConfig_def ai_configured_def)
  then show ?thesis using c True by blast
next
  case False
  then show ?thesis using assms by (auto simp: Analyze_def analyzeWithConfig_def ai_configured_def)
qed

text \<open>
  A conversation remembers its last ten messages. A successful turn appends the question and the
  answer, both trimmed, and keeps the last ten messages; a failed one changes nothing; and a question
  without text is refused before anything is spent.
\<close>

theorem chat_remembers:
  assumes "Chat cv msg a = (a', r, called)"
  shows "(\<forall>resp. r = Inr resp \<longrightarrow> ad_chatHistory a' = take_last 10 (ad_chatHistory a @
            [\<lparr>ct_Role = ''user'', ct_Content = trim_space msg\<rparr>, \<lparr>ct_Role = ''assistant'', ct_Content = trim_space (ar_Answer resp)\<rparr>])) \<and>
    (\<forall>e. r = Inl e \<longrightarrow> ad_chatHistory a' = ad_chatHistory a) \<and>
    (trim_space msg = [] \<longrightarrow> a' = a \<and> \<not> called)"
proof (cases "ai_configured (ad_cfg a) \<and> trim_space msg \<noteq> []")
  case True
  let ?cfg = "ad_cfg a"
  let ?p = "BuildChatPrompt (cv_env cv) (ai_Language (c_AI ?cfg)) (Latest (cv_store cv)) (cv_alerts cv)
              (ai_IncludeProcessTree (c_AI ?cfg)) (ai_IncludePortMap (c_AI ?cfg)) (ad_chatHistory a) msg"
  obtain a1 r1 called1 where run: "runPrompt cv ?cfg ?p a = (a1, r1, called1)" by (metis prod_cases3)
  note c = runPrompt_cases [OF run]
  have chat: "Chat cv msg a = (case (a1, r1, called1) of (a, Inl e, called) \<Rightarrow> (a, Inl e, called)
        | (a, Inr resp, called) \<Rightarrow>
            (let h = ad_chatHistory a @ [\<lparr>ct_Role = ''user'', ct_Content = trim_space msg\<rparr>,
                       \<lparr>ct_Role = ''assistant'', ct_Content = trim_space (ar_Answer resp)\<rparr>]
             in (a\<lparr>ad_chatHistory := (if 10 < length h then drop (length h - 10) h else h)\<rparr>, Inr resp, called)))"
    using True run by (simp add: Chat_def ai_configured_def)
  show ?thesis
    using assms chat c True by (cases r1) (auto simp: Let_def take_last_def)
next
  case False
  then show ?thesis using assms by (auto simp: Chat_def ai_configured_def Let_def split: if_splits)
qed

text \<open>
  The status page shows the endpoint called only when it needs no repair. For the Anthropic format
  the address reported is the address the request goes to exactly when none is configured or the one
  configured ends in /messages; a base address is reported bare, and called with a path appended.
\<close>

theorem endpoint_reported:
  assumes "providerOf cfg = ''anthropic''"
  shows "effectiveEndpoint cfg = normalizeAnthropicEndpoint (ai_Endpoint (c_AI cfg)) \<longleftrightarrow>
    ai_Endpoint (c_AI cfg) = [] \<or> has_suffix (ai_Endpoint (c_AI cfg)) ''/messages''"
proof -
  let ?e = "ai_Endpoint (c_AI cfg)"
  have tr: "trim_right_byte (CHR ''/'') ?e = ?e" if "has_suffix ?e ''/messages''"
    using that by (auto simp: has_suffix_iff trim_right_byte_def)
  have sfx: "has_suffix ?e ''/messages''" if "?e \<noteq> []" "?e = normalizeAnthropicEndpoint ?e"
  proof (cases "has_suffix (trim_right_byte (CHR ''/'') ?e) ''/messages''")
    case True
    then show ?thesis using that by (simp add: normalizeAnthropicEndpoint_def)
  next
    case False
    then have "?e = trim_right_byte (CHR ''/'') ?e @ ''/v1/messages''" using that by (simp add: normalizeAnthropicEndpoint_def)
    then obtain t where "?e = t @ ''/v1/messages''" by blast
    then have "?e = (t @ ''/v1'') @ ''/messages''" by simp
    then show ?thesis unfolding has_suffix_iff by blast
  qed
  show ?thesis
  proof (cases "?e = []")
    case True
    then show ?thesis using assms by (simp add: effectiveEndpoint_def normalizeAnthropicEndpoint_def)
  next
    case False
    have "normalizeAnthropicEndpoint ?e = ?e" if "has_suffix ?e ''/messages''"
      using False that tr [OF that] by (simp add: normalizeAnthropicEndpoint_def)
    then show ?thesis using False sfx by (auto simp: effectiveEndpoint_def)
  qed
qed

theorem endpoint_reported_witness:
  "effectiveEndpoint (DefaultConfig\<lparr>c_AI := default_ai\<lparr>ai_Endpoint := ''https://h/v1/''\<rparr>\<rparr>) \<noteq>
     normalizeAnthropicEndpoint ''https://h/v1/''"
proof -
  have p: "providerOf (DefaultConfig\<lparr>c_AI := default_ai\<lparr>ai_Endpoint := ''https://h/v1/''\<rparr>\<rparr>) = ''anthropic''"
  proof -
    have "to_lower (trim_space ''anthropic'') = ''anthropic''" by code_simp
    then show ?thesis by (simp add: providerOf_def default_ai_def Let_def)
  qed
  have "\<not> has_suffix ''https://h/v1/'' ''/messages''" by code_simp
  then show ?thesis using endpoint_reported [OF p] by simp
qed

text \<open>A provider that answers every request, and a call with it at a given time.\<close>

definition demo_provider :: provider_env where
  "demo_provider = \<lparr>pv_marshal = (\<lambda>b. Inr []), pv_newreq = (\<lambda>u. None),
     pv_do = (\<lambda>q. Inr \<lparr>hp_status = 200, hp_body = Inr []\<rparr>),
     pv_anthropic = (\<lambda>b. Inr \<lparr>an_Content = [(''text'', ''fine'')], an_Usage = None, an_Error = None\<rparr>),
     pv_openai = (\<lambda>b. Inl (ErrNew ''no''))\<rparr>"

definition demo_env :: ai_env where
  "demo_env = \<lparr>ae_sha256hex = id, ae_format_v = (\<lambda>x. []), ae_unmarshal = (\<lambda>b. Inr []), ae_sort = (\<lambda>lt xs. xs),
     ae_day = (\<lambda>t. [])\<rparr>"

definition demo_call :: "gotime \<Rightarrow> call_env" where
  "demo_call now = \<lparr>cv_env = demo_env, cv_provider = demo_provider, cv_now = now, cv_done = now,
     cv_store = NewStore 60 10, cv_alerts = []\<rparr>"

definition keyed_cfg :: Config where
  "keyed_cfg = DefaultConfig\<lparr>c_AI := default_ai\<lparr>ai_Enabled := True, ai_APIKey := ''k''\<rparr>\<rparr>"

lemma keyed_cfg_simps [simp]:
  "ai_Enabled (c_AI keyed_cfg)" "ai_APIKey (c_AI keyed_cfg) = ''k''" "ai_MaxRequestsPerMinute (c_AI keyed_cfg) = 5"
  "ai_Endpoint (c_AI keyed_cfg) = []" "ai_configured keyed_cfg"
  by (simp_all add: keyed_cfg_def default_ai_def ai_configured_def)

lemma keyed_provider: "providerOf keyed_cfg = ''anthropic''"
proof -
  have "to_lower (trim_space ''anthropic'') = ''anthropic''" by code_simp
  then show ?thesis by (simp add: providerOf_def keyed_cfg_def default_ai_def Let_def)
qed

lemma demo_answer: "callProvider demo_provider keyed_cfg prompt = (''fine'', None, None)"
  by (simp add: callProvider_def keyed_provider callAnthropic_def demo_provider_def normalizeAnthropicEndpoint_def
      readProviderBody_def maxProviderResponseBytes_def Let_def)

lemma demo_parse: "parseActionsBlock demo_env ''fine'' = (''fine'', [])"
proof -
  have "str_index ''fine'' ''<actions>'' = None" "trim_space ''fine'' = ''fine''" by code_simp+
  then show ?thesis by (simp add: parseActionsBlock_def)
qed

lemma demo_run:
  "runPrompt (demo_call 0) keyed_cfg prompt (NewAdvisor 0 keyed_cfg) =
     (let a = NewAdvisor 0 keyed_cfg
      in a\<lparr>ad_rl := fst (tb_Take 0 (NewTokenBucket 0 5)), ad_totalReqs := 1, ad_lastReqAt := 0,
           ad_cache := Cache_Set id 0 prompt ''fine'' (ad_cache a)\<rparr>,
      Inr \<lparr>ar_Answer = ''fine'', ar_Actions = [], ar_Cached = False\<rparr>, True)"
proof -
  have pos: "0 < tb_tokens (refill 0 (NewTokenBucket 0 5))"
    by (simp add: refill_def NewTokenBucket_def Let_def)
  obtain rl b where t: "tb_Take 0 (NewTokenBucket 0 5) = (rl, b)" by fastforce
  have b using Take_cases [OF t] pos by simp
  then show ?thesis
    using t by (simp add: runPrompt_def NewAdvisor_def Cache_Get_def NewCache_def demo_call_def demo_answer demo_parse
        demo_env_def [symmetric] statusErrorMessage_def Let_def ai_env.simps) (simp add: demo_env_def)
qed

theorem advisor_spends_witness:
  "\<exists>a' a''. Analyze (demo_call 0) ''?'' (NewAdvisor 0 keyed_cfg) =
       (a', Inr \<lparr>ar_Answer = ''fine'', ar_Actions = [], ar_Cached = False\<rparr>, True) \<and>
     Analyze (demo_call 1) ''?'' a' = (a'', Inr \<lparr>ar_Answer = ''fine'', ar_Actions = [], ar_Cached = True\<rparr>, False) \<and>
     ad_totalReqs a' = 1"
proof -
  let ?a = "NewAdvisor 0 keyed_cfg"
  obtain a' where a: "Analyze (demo_call 0) ''?'' ?a =
       (a', Inr \<lparr>ar_Answer = ''fine'', ar_Actions = [], ar_Cached = False\<rparr>, True)"
    using demo_run by (simp add: Analyze_def analyzeWithConfig_def NewAdvisor_def Let_def)
  have "t_sub (cv_now (demo_call 1)) (cv_done (demo_call 0)) \<le> ca_ttl (ad_cache ?a)"
    by (simp add: demo_call_def NewAdvisor_def NewCache_def t_sub_def sat64_def second_def i64_max_def i64_min_def)
  moreover have "cv_env (demo_call 1) = cv_env (demo_call 0)" "cv_store (demo_call 1) = cv_store (demo_call 0)"
    "cv_alerts (demo_call 1) = cv_alerts (demo_call 0)" by (simp_all add: demo_call_def)
  ultimately show ?thesis
    using advisor_spends [OF a] a by (auto simp: NewAdvisor_def)
qed

theorem chat_remembers_witness:
  "\<exists>a' r. Chat (demo_call 0) '' hi '' (NewAdvisor 0 keyed_cfg) = (a', r, True) \<and>
     ad_chatHistory a' = [\<lparr>ct_Role = ''user'', ct_Content = ''hi''\<rparr>, \<lparr>ct_Role = ''assistant'', ct_Content = ''fine''\<rparr>]"
proof -
  have ts: "trim_space '' hi '' = ''hi''" "trim_space ''fine'' = ''fine''" by code_simp+
  let ?a = "NewAdvisor 0 keyed_cfg"
  obtain a' where a: "Chat (demo_call 0) '' hi '' ?a =
       (a', Inr \<lparr>ar_Answer = ''fine'', ar_Actions = [], ar_Cached = False\<rparr>, True)"
    using demo_run by (simp add: Chat_def NewAdvisor_def Let_def ts)
  show ?thesis using chat_remembers [OF a] a by (auto simp: ts NewAdvisor_def)
qed

end
