(* ===== verification/Models.thy ===== *)
theory Models
  imports Advisor
begin

text \<open>
  \<^verbatim>\<open>internal/server/ai_models.go\<close>: the catalogue of models, fetched in the background and kept for half
  an hour. Decoding the catalogue's JSON, the HTTP exchange and the sort of the standard library are
  arguments; the order of a map's range loop is the order of its list.
\<close>

section \<open>The catalogue\<close>

record modelInfo =
  mi_ID :: gostring
  mi_Name :: gostring
  mi_ProviderID :: gostring
  mi_Provider :: gostring
  mi_Endpoint :: gostring
  mi_Format :: gostring
  mi_Context :: int
  mi_Output :: int

record rawModel =
  rm_Name :: gostring
  rm_Context :: int
  rm_Output :: int

record rawProvider =
  rp_Name :: gostring
  rp_API :: gostring
  rp_NPM :: gostring
  rp_Models :: "(gostring, rawModel) gomap"

definition inferFormat :: "gostring \<Rightarrow> gostring \<Rightarrow> gostring \<Rightarrow> gostring" where
  "inferFormat npm api providerID =
     (let low = to_lower (npm @ '' '' @ api @ '' '' @ providerID) in
      if str_contains low ''anthropic'' then ''anthropic''
      else if str_contains low ''z.ai'' \<or> str_contains low ''zhipu'' then ''anthropic''
      else ''openai'')"

definition normalizedEndpoint :: "gostring \<Rightarrow> gostring \<Rightarrow> gostring" where
  "normalizedEndpoint api format =
     (let api = trim_right_byte (CHR ''/'') api in
      if api = [] then []
      else if format = ''anthropic'' then
        (if has_suffix api ''/v1/messages'' \<or> has_suffix api ''/messages'' then api
         else if has_suffix api ''/anthropic'' then api @ ''/v1/messages''
         else if has_suffix api ''/v1'' then api @ ''/messages''
         else api @ ''/v1/messages'')
      else if format = ''openai'' then
        (if has_suffix api ''/chat/completions'' then api
         else if has_suffix api ''/v1'' then api @ ''/chat/completions''
         else api @ ''/v1/chat/completions'')
      else api)"

definition models_of :: "gostring \<Rightarrow> rawProvider \<Rightarrow> modelInfo list" where
  "models_of pid p =
     (let format = inferFormat (rp_NPM p) (rp_API p) pid; endpoint = normalizedEndpoint (rp_API p) format
      in map (\<lambda>(mid, m).
           \<lparr>mi_ID = mid, mi_Name = (if rm_Name m = [] then mid else rm_Name m), mi_ProviderID = pid,
            mi_Provider = rp_Name p, mi_Endpoint = endpoint, mi_Format = format, mi_Context = rm_Context m,
            mi_Output = rm_Output m\<rparr>) (rp_Models p))"

fun bytes_less :: "gostring \<Rightarrow> gostring \<Rightarrow> bool" where
  "bytes_less s [] = False"
| "bytes_less [] (b # t) = True"
| "bytes_less (a # s) (b # t) =
     (byte_val a < byte_val b \<or> (byte_val a = byte_val b \<and> bytes_less s t))"

definition model_less :: "modelInfo \<Rightarrow> modelInfo \<Rightarrow> bool" where
  "model_less a b =
     (if mi_Provider a \<noteq> mi_Provider b then bytes_less (to_lower (mi_Provider a)) (to_lower (mi_Provider b))
      else bytes_less (to_lower (mi_ID a)) (to_lower (mi_ID b)))"

record models_env =
  me_unmarshal :: "gostring \<Rightarrow> goerror + (gostring, rawProvider) gomap"
  me_sort :: "(modelInfo \<Rightarrow> modelInfo \<Rightarrow> bool) \<Rightarrow> modelInfo list \<Rightarrow> modelInfo list"
  me_request :: "goerror + http_reply"

definition parseModelsDev :: "models_env \<Rightarrow> gostring \<Rightarrow> goerror + modelInfo list" where
  "parseModelsDev env bytes =
     (case me_unmarshal env bytes of
        Inl e \<Rightarrow> Inl e
      | Inr doc \<Rightarrow> Inr (me_sort env model_less (concat (map (\<lambda>(pid, p). models_of pid p) doc))))"

section \<open>The cache\<close>

record modelsCache =
  mc_data :: "modelInfo list"
  mc_loadedAt :: gotime
  mc_ttl :: duration
  mc_inFlight :: bool
  mc_lastError :: gostring

record modelsSnapshot =
  ms_data :: "modelInfo list"
  ms_loadedAt :: gotime
  ms_lastErr :: gostring

definition sharedModelsCache :: modelsCache where
  "sharedModelsCache = \<lparr>mc_data = [], mc_loadedAt = zero_time, mc_ttl = 30 * minute, mc_inFlight = False, mc_lastError = []\<rparr>"

text \<open>The third component says whether a refresh was started.\<close>

definition mc_get :: "gotime \<Rightarrow> modelsCache \<Rightarrow> modelsCache \<times> modelsSnapshot \<times> bool" where
  "mc_get now c =
     (let fresh = (t_sub now (mc_loadedAt c) < mc_ttl c \<and> mc_data c \<noteq> []);
          snap = \<lparr>ms_data = mc_data c, ms_loadedAt = mc_loadedAt c, ms_lastErr = mc_lastError c\<rparr>
      in if \<not> fresh \<and> \<not> mc_inFlight c then (c\<lparr>mc_inFlight := True\<rparr>, snap, True) else (c, snap, False))"

definition maxModelsCatalogBytes :: nat where "maxModelsCatalogBytes = 2097152"

definition mc_setError :: "goerror \<Rightarrow> modelsCache \<Rightarrow> modelsCache" where
  "mc_setError e c = c\<lparr>mc_lastError := err_text e\<rparr>"

text \<open>A refresh with the time it stores its result; at its end the flag is cleared whatever happened.\<close>

definition mc_refresh :: "models_env \<Rightarrow> gotime \<Rightarrow> modelsCache \<Rightarrow> modelsCache" where
  "mc_refresh env now c =
     (let c =
        (case me_request env of
           Inl e \<Rightarrow> mc_setError e c
         | Inr resp \<Rightarrow>
             if 400 \<le> hp_status resp
             then mc_setError (Errorf ''models.dev: status %d'' [FInt (hp_status resp)]) c
             else
               (case hp_body resp of
                  Inl e \<Rightarrow> mc_setError e c
                | Inr bytes \<Rightarrow>
                    if maxModelsCatalogBytes < length bytes
                    then mc_setError (Errorf ''models.dev response exceeds %d bytes'' [FInt (int maxModelsCatalogBytes)]) c
                    else
                      (case parseModelsDev env bytes of
                         Inl e \<Rightarrow> mc_setError e c
                       | Inr parsed \<Rightarrow> c\<lparr>mc_data := parsed, mc_loadedAt := now, mc_lastError := []\<rparr>)))
      in c\<lparr>mc_inFlight := False\<rparr>)"

definition model_matches :: "gostring \<Rightarrow> modelInfo \<Rightarrow> bool" where
  "model_matches q m \<longleftrightarrow>
     str_contains (to_lower (mi_ProviderID m)) q \<or> str_contains (to_lower (mi_Provider m)) q \<or>
     str_contains (to_lower (mi_Format m)) q"

definition effectiveAIEndpoint :: "Config option \<Rightarrow> gostring" where
  "effectiveAIEndpoint cfg =
     (case cfg of
        None \<Rightarrow> []
      | Some c \<Rightarrow>
          (let endpoint = ai_Endpoint (c_AI c) in
           if to_lower (trim_space (ai_Provider (c_AI c))) = ''anthropic'' then
             (if endpoint \<noteq> [] then trim_right_byte (CHR ''/'') endpoint @ ''/v1/messages''
              else ''https://api.anthropic.com/v1/messages'')
           else if endpoint \<noteq> [] then
             (let ep = trim_right_byte (CHR ''/'') endpoint in
              if has_suffix ep ''/chat/completions'' then ep else ep @ ''/v1/chat/completions'')
           else ''https://api.openai.com/v1/chat/completions''))"

section \<open>One refresh at a time\<close>

inductive mc_reach :: "modelsCache \<Rightarrow> nat \<Rightarrow> modelInfo list \<Rightarrow> bool" where
  mc_start: "mc_reach sharedModelsCache 0 []"
| mc_asked: "mc_reach c n d \<Longrightarrow> mc_get now c = (c', snap, started) \<Longrightarrow>
    mc_reach c' (n + (if started then 1 else 0)) d"
| mc_failed: "mc_reach c (Suc n) d \<Longrightarrow> mc_refresh env now c = c' \<Longrightarrow> mc_lastError c' \<noteq> [] \<Longrightarrow> mc_reach c' n d"
| mc_loaded: "mc_reach c (Suc n) d \<Longrightarrow> mc_refresh env now c = c' \<Longrightarrow> mc_lastError c' = [] \<Longrightarrow>
    mc_reach c' n (mc_data c')"

lemma refresh_keeps: "mc_lastError (mc_refresh env now c) \<noteq> [] \<Longrightarrow> mc_data (mc_refresh env now c) = mc_data c"
  by (auto simp: mc_refresh_def mc_setError_def Let_def split: sum.splits if_splits)

lemma refresh_done [simp]: "\<not> mc_inFlight (mc_refresh env now c)"
  by (simp add: mc_refresh_def Let_def)

text \<open>
  The catalogue is fetched by one request at a time and survives failures. In every reachable state
  of the cache at most one refresh is running, exactly when the flag says so, and what it serves is
  what the last successful refresh brought, nothing before the first.
\<close>

theorem models_cache_state:
  "mc_reach c n d \<Longrightarrow> n \<le> 1 \<and> (mc_inFlight c \<longleftrightarrow> n = 1) \<and> mc_data c = d"
proof (induction rule: mc_reach.induct)
  case mc_start
  then show ?case by (simp add: sharedModelsCache_def)
next
  case (mc_asked c n d now c' snap started)
  then show ?case by (auto simp: mc_get_def Let_def split: if_splits)
next
  case (mc_failed c n d env now c')
  then show ?case using refresh_keeps [of env now c] by auto
next
  case (mc_loaded c n d env now c')
  then show ?case by auto
qed

definition demo_models :: models_env where
  "demo_models = \<lparr>me_unmarshal = (\<lambda>_. Inr []), me_sort = (\<lambda>_. id), me_request = Inr \<lparr>hp_status = 503, hp_body = Inr []\<rparr>\<rparr>"

theorem models_cache_state_witness:
  "mc_inFlight (fst (mc_get 5 sharedModelsCache)) \<and> mc_data (mc_refresh demo_models 6 (fst (mc_get 5 sharedModelsCache))) = []"
proof -
  let ?c = "sharedModelsCache\<lparr>mc_inFlight := True\<rparr>"
  have g: "mc_get 5 sharedModelsCache = (?c, \<lparr>ms_data = [], ms_loadedAt = 0, ms_lastErr = []\<rparr>, True)"
    by (simp add: mc_get_def sharedModelsCache_def zero_time_def)
  have r: "mc_reach ?c 1 []" using mc_asked [OF mc_start g] by simp
  have "mc_lastError (mc_refresh demo_models 6 ?c) \<noteq> []"
    by (simp add: mc_refresh_def demo_models_def mc_setError_def sprintf_def no_spec_def)
  then have "mc_reach (mc_refresh demo_models 6 ?c) 0 []" using r mc_failed [of ?c 0 "[]"] by simp
  from models_cache_state [OF this] models_cache_state [OF r] g show ?thesis by simp
qed

section \<open>Endpoints\<close>

lemma trim_right_id: "s = [] \<or> last s \<noteq> b \<Longrightarrow> trim_right_byte b s = s"
  by (cases s rule: rev_cases) (auto simp: trim_right_byte_def)

lemma normalized_suffix:
  "trim_right_byte (CHR ''/'') api \<noteq> [] \<Longrightarrow> has_suffix (normalizedEndpoint api ''anthropic'') ''/messages''"
  by (auto simp: normalizedEndpoint_def Let_def has_suffix_iff)

text \<open>
  The endpoints of the catalogue are called as they are, but the models page shows another one. An
  endpoint the catalogue offers for the Anthropic format needs no repair by the advisor, and neither
  does any that ends in /messages; yet for such an endpoint the models page reports an address with
  the path appended once more, which is not the one that is called.
\<close>

theorem catalogue_endpoints:
  assumes "trim_right_byte (CHR ''/'') api \<noteq> []"
  shows "normalizeAnthropicEndpoint (normalizedEndpoint api ''anthropic'') = normalizedEndpoint api ''anthropic'' \<and>
    (to_lower (trim_space (ai_Provider (c_AI cfg))) = ''anthropic'' \<and>
       ai_Endpoint (c_AI cfg) = normalizedEndpoint api ''anthropic'' \<longrightarrow>
     effectiveAIEndpoint (Some cfg) = normalizeAnthropicEndpoint (ai_Endpoint (c_AI cfg)) @ ''/v1/messages'')"
proof -
  let ?e = "normalizedEndpoint api ''anthropic''"
  obtain t where t: "?e = t @ ''/messages''" using normalized_suffix [OF assms] by (auto simp: has_suffix_iff)
  then have e: "?e \<noteq> []" "trim_right_byte (CHR ''/'') ?e = ?e" by (simp_all add: trim_right_id)
  then have n: "normalizeAnthropicEndpoint ?e = ?e"
    using normalized_suffix [OF assms] by (simp add: normalizeAnthropicEndpoint_def)
  show ?thesis using n e by (auto simp: effectiveAIEndpoint_def)
qed

definition preset_cfg :: Config where
  "preset_cfg = DefaultConfig\<lparr>c_AI := default_ai\<lparr>ai_Provider := ''anthropic'',
     ai_Endpoint := ''https://api.anthropic.com/v1/messages''\<rparr>\<rparr>"

theorem catalogue_endpoints_witness:
  "effectiveAIEndpoint (Some preset_cfg) = ''https://api.anthropic.com/v1/messages/v1/messages''"
proof -
  have n: "trim_right_byte (CHR ''/'') ''https://api.anthropic.com'' = ''https://api.anthropic.com''" by code_simp
  have e: "normalizedEndpoint ''https://api.anthropic.com'' ''anthropic'' = ''https://api.anthropic.com/v1/messages''"
    by code_simp
  have p: "to_lower (trim_space ''anthropic'') = ''anthropic''" by code_simp
  show ?thesis
    using catalogue_endpoints [of "''https://api.anthropic.com''" preset_cfg] n e p by (simp add: preset_cfg_def)
qed

end
