(* ===== verification/Background.thy ===== *)
theory Background
  imports Advisor Steps
begin

text \<open>
  \<^verbatim>\<open>internal/ai/background.go\<close>: a critical alert may start an analysis in the background. The tracker
  is guarded by a mutex, which is taken once when an alert arrives and once when an analysis is over;
  these are the two steps of the model, and any number of alerts can arrive while an analysis runs.
  The analysis itself is the advisor's; its result is the argument of the second step. The name of the
  calendar day of an instant is an argument, since it depends on the time zone.
\<close>

section \<open>The tracker\<close>

record BackgroundRun =
  br_Trigger :: gostring
  br_AlertID :: gostring
  br_AlertType :: gostring
  br_AlertTitle :: gostring
  br_AlertPID :: pid
  br_AlertProcess :: gostring
  br_StartedAt :: gotime
  br_FinishedAt :: gotime
  br_ReservedTokens :: int
  br_Cached :: bool
  br_Error :: gostring
  br_Answer :: gostring
  br_Actions :: "Suggestion list"
  br_AutoCandidates :: int

record backgroundTracker =
  bg_inFlight :: bool
  bg_lastEventAt :: gotime
  bg_lastStartedAt :: gotime
  bg_lastSkipReason :: gostring
  bg_lastError :: gostring
  bg_cooldownUntil :: gotime
  bg_cycleStarts :: "gotime list"
  bg_reservedDay :: gostring
  bg_reservedTokensToday :: int
  bg_historyLimit :: int
  bg_lastRun :: "BackgroundRun option"
  bg_recentRuns :: "BackgroundRun list"

definition zero_tracker :: backgroundTracker where
  "zero_tracker = \<lparr>bg_inFlight = False, bg_lastEventAt = zero_time, bg_lastStartedAt = zero_time,
     bg_lastSkipReason = [], bg_lastError = [], bg_cooldownUntil = zero_time, bg_cycleStarts = [],
     bg_reservedDay = [], bg_reservedTokensToday = 0, bg_historyLimit = 0, bg_lastRun = None, bg_recentRuns = []\<rparr>"

definition bg_applyConfig :: "Config option \<Rightarrow> backgroundTracker \<Rightarrow> backgroundTracker" where
  "bg_applyConfig cfg b =
     (let limit = (case cfg of None \<Rightarrow> 1 | Some c \<Rightarrow> as_HistoryLimit (ai_Scheduler (c_AI c)));
          limit = (if limit < 1 then 1 else limit);
          runs = bg_recentRuns b
      in b\<lparr>bg_historyLimit := limit,
           bg_recentRuns := (if limit < int (length runs) then drop (length runs - nat limit) runs else runs)\<rparr>)"

definition trimCycleStarts :: "gotime list \<Rightarrow> gotime \<Rightarrow> gotime list" where
  "trimCycleStarts starts now = filter (\<lambda>ts. t_sub now ts \<le> hour) starts"

definition countRecentCycles :: "gotime list \<Rightarrow> gotime \<Rightarrow> nat" where
  "countRecentCycles starts now = length (filter (\<lambda>ts. t_sub now ts \<le> hour) starts)"

definition resetReservedDay :: "(gotime \<Rightarrow> gostring) \<Rightarrow> gotime \<Rightarrow> backgroundTracker \<Rightarrow> backgroundTracker" where
  "resetReservedDay dayf now b =
     (if bg_reservedDay b = dayf now then b
      else b\<lparr>bg_reservedDay := dayf now, bg_reservedTokensToday := 0\<rparr>)"

definition bg_skip :: "gotime \<Rightarrow> gostring \<Rightarrow> backgroundTracker \<Rightarrow> backgroundTracker" where
  "bg_skip now reason b = b\<lparr>bg_lastEventAt := now, bg_lastSkipReason := reason\<rparr>"

definition reserved_tokens :: "Config \<Rightarrow> int" where
  "reserved_tokens cfg = (if ai_MaxTokens (c_AI cfg) < 1 then 1 else ai_MaxTokens (c_AI cfg))"

text \<open>The reason not to start, in the order of the switch; none when a new analysis may start.\<close>

definition bg_refusal :: "Config \<Rightarrow> gotime \<Rightarrow> backgroundTracker \<Rightarrow> gostring option" where
  "bg_refusal cfg now b =
     (let sch = ai_Scheduler (c_AI cfg) in
      if bg_inFlight b then Some ''background_inflight''
      else if \<not> t_is_zero (bg_cooldownUntil b) \<and> t_before now (bg_cooldownUntil b) then Some ''error_cooldown''
      else if 0 < as_MinInterval sch \<and> \<not> t_is_zero (bg_lastStartedAt b) \<and>
              t_sub now (bg_lastStartedAt b) < as_MinInterval sch then Some ''min_interval''
      else if 0 < as_MaxCyclesPerHour sch \<and> as_MaxCyclesPerHour sch \<le> int (length (bg_cycleStarts b))
      then Some ''cycle_limit''
      else if 0 < as_MaxReservedTokensPerDay sch \<and>
              as_MaxReservedTokensPerDay sch < wrap64 (bg_reservedTokensToday b + reserved_tokens cfg)
      then Some ''token_budget''
      else None)"

text \<open>An alert arrives; the second component is the reservation of the analysis it starts.\<close>

definition maybeScheduleBackground ::
  "(gotime \<Rightarrow> gostring) \<Rightarrow> Config option \<Rightarrow> gotime \<Rightarrow> Alert \<Rightarrow> backgroundTracker \<Rightarrow> backgroundTracker \<times> int option" where
  "maybeScheduleBackground dayf cfg now alert b =
     (case cfg of
        None \<Rightarrow> (bg_skip now ''no_config'' b, None)
      | Some c \<Rightarrow>
          if \<not> as_Enabled (ai_Scheduler (c_AI c)) then (bg_skip now ''scheduler_disabled'' b, None)
          else if \<not> ai_AutoAnalyzeOnCritical (c_AI c) then (bg_skip now ''auto_analyze_disabled'' b, None)
          else if \<not> ai_configured c then (bg_skip now ''ai_not_configured'' b, None)
          else if al_Severity alert \<noteq> SeverityCritical then (bg_skip now ''non_critical_alert'' b, None)
          else
            (let b = bg_applyConfig (Some c) b;
                 b = b\<lparr>bg_lastEventAt := now, bg_cycleStarts := trimCycleStarts (bg_cycleStarts b) now\<rparr>;
                 b = resetReservedDay dayf now b
             in case bg_refusal c now b of
                  Some reason \<Rightarrow> (b\<lparr>bg_lastSkipReason := reason\<rparr>, None)
                | None \<Rightarrow>
                    (b\<lparr>bg_inFlight := True, bg_lastSkipReason := [], bg_lastStartedAt := now,
                       bg_cycleStarts := bg_cycleStarts b @ [now],
                       bg_reservedTokensToday := wrap64 (bg_reservedTokensToday b + reserved_tokens c)\<rparr>,
                     Some (reserved_tokens c))))"

section \<open>The policy for automatic actions\<close>

definition containsFold :: "gostring list \<Rightarrow> gostring \<Rightarrow> bool" where
  "containsFold items target = list_ex (\<lambda>x. equal_fold (trim_space x) (trim_space target)) items"

definition countSuggestionRepeats :: "BackgroundRun list \<Rightarrow> gostring \<Rightarrow> nat" where
  "countSuggestionRepeats runs sid =
     (if sid = [] then 0
      else length (filter (\<lambda>s. sg_ID s = sid) (concat (map br_Actions runs))))"

definition policy :: "gostring \<Rightarrow> gostring \<Rightarrow> int \<Rightarrow> int \<Rightarrow> AutoPolicy" where
  "policy st why n req = \<lparr>ap_Status = st, ap_Reason = why, ap_RepeatCount = n, ap_RequiredRepeatCount = req\<rparr>"

definition evaluateAutoPolicy :: "Config option \<Rightarrow> BackgroundRun list \<Rightarrow> Suggestion \<Rightarrow> AutoPolicy" where
  "evaluateAutoPolicy cfg priorRuns sug =
     (case cfg of
        None \<Rightarrow> policy ''disabled'' ''auto_action_disabled'' 0 0
      | Some c \<Rightarrow>
          (let aa = ai_AutoAction (c_AI c) in
           if \<not> aa_Enabled aa then policy ''disabled'' ''auto_action_disabled'' 0 0
           else if \<not> aa_DryRun aa then policy ''blocked'' ''live_auto_execute_not_implemented'' 0 0
           else if sg_Type sug = ''kill'' \<or> sg_Type sug = ''suspend''
           then policy ''blocked'' ''destructive_actions_not_supported'' 0 0
           else if \<not> containsFold (aa_AllowedActions aa) (sg_Type sug)
           then policy ''blocked'' ''action_not_allowlisted'' 0 0
           else
             (let repeats = int (countSuggestionRepeats priorRuns (sg_ID sug)) + 1;
                  required = (if aa_RequireRepeatCycles aa < 1 then 1 else aa_RequireRepeatCycles aa)
              in if repeats < required then policy ''needs_repeat'' ''waiting_for_repeat_cycles'' repeats required
                 else policy ''dry_run_eligible'' ''policy_passed_dry_run_only'' repeats required)))"

definition applyAutoPolicyLocked :: "Config option \<Rightarrow> backgroundTracker \<Rightarrow> Suggestion list \<Rightarrow> Suggestion list" where
  "applyAutoPolicyLocked cfg b actions =
     map (\<lambda>s. s\<lparr>sg_Policy := Some (evaluateAutoPolicy cfg (bg_recentRuns b) s)\<rparr>) actions"

definition countAutoCandidates :: "Suggestion list \<Rightarrow> int" where
  "countAutoCandidates actions =
     int (length (filter (\<lambda>s. case sg_Policy s of None \<Rightarrow> False | Some p \<Rightarrow> ap_Status p = ''dry_run_eligible'') actions))"

section \<open>The end of an analysis\<close>

definition push_run :: "BackgroundRun \<Rightarrow> backgroundTracker \<Rightarrow> backgroundTracker" where
  "push_run run b =
     (let runs = bg_recentRuns b @ [run]; limit = bg_historyLimit b
      in b\<lparr>bg_recentRuns := (if 0 < limit \<and> limit < int (length runs)
                              then drop (length runs - nat limit) runs else runs)\<rparr>)"

definition runBackgroundAnalysis ::
  "Config option \<Rightarrow> Alert \<Rightarrow> int \<Rightarrow> gotime \<Rightarrow> gotime \<Rightarrow> goerror + AnalyzeResult \<Rightarrow>
   backgroundTracker \<Rightarrow> backgroundTracker \<times> BackgroundRun" where
  "runBackgroundAnalysis cfg alert reserved startedAt now result b =
     (let run = \<lparr>br_Trigger = ''critical_alert'', br_AlertID = al_ID alert, br_AlertType = al_Type alert,
                 br_AlertTitle = al_Title alert, br_AlertPID = al_PID alert, br_AlertProcess = al_ProcessName alert,
                 br_StartedAt = startedAt, br_FinishedAt = now, br_ReservedTokens = reserved, br_Cached = False,
                 br_Error = [], br_Answer = [], br_Actions = [], br_AutoCandidates = 0\<rparr>;
          run = (case result of
                   Inl e \<Rightarrow> run\<lparr>br_Error := err_text e\<rparr>
                 | Inr r \<Rightarrow> run\<lparr>br_Answer := ar_Answer r, br_Actions := ar_Actions r, br_Cached := ar_Cached r\<rparr>);
          run = (if br_Error run = []
                 then (let acts = applyAutoPolicyLocked cfg b (br_Actions run)
                       in run\<lparr>br_Actions := acts, br_AutoCandidates := countAutoCandidates acts\<rparr>)
                 else run);
          b = b\<lparr>bg_inFlight := False\<rparr>;
          b = (if br_Cached run \<and> reserved \<le> bg_reservedTokensToday b
               then b\<lparr>bg_reservedTokensToday := bg_reservedTokensToday b - reserved\<rparr> else b);
          b = (if br_Error run \<noteq> []
               then (let b = b\<lparr>bg_lastError := br_Error run\<rparr>
                     in case cfg of
                          Some c \<Rightarrow> if 0 < as_CooldownAfterError (ai_Scheduler (c_AI c))
                                    then b\<lparr>bg_cooldownUntil := t_add now (as_CooldownAfterError (ai_Scheduler (c_AI c)))\<rparr>
                                    else b
                        | None \<Rightarrow> b)
               else b\<lparr>bg_lastError := [], bg_cooldownUntil := zero_time\<rparr>);
          b = b\<lparr>bg_lastRun := Some run\<rparr>
      in (push_run run b, run))"

record BackgroundBudget =
  bb_CyclesLastHour :: int
  bb_MaxCyclesPerHour :: int
  bb_ReservedTokensToday :: int
  bb_MaxReservedTokensPerDay :: int
  bb_MinIntervalSeconds :: int
  bb_CooldownUntil :: gotime

record BackgroundState =
  bs_Enabled :: bool
  bs_Configured :: bool
  bs_AutoAnalyzeOnCritical :: bool
  bs_AutoActionEnabled :: bool
  bs_AutoActionDryRun :: bool
  bs_InFlight :: bool
  bs_LastEventAt :: gotime
  bs_LastSkipReason :: gostring
  bs_LastError :: gostring
  bs_LastRun :: "BackgroundRun option"
  bs_RecentRuns :: "BackgroundRun list"
  bs_Budget :: BackgroundBudget

definition bg_snapshot :: "gotime \<Rightarrow> Config option \<Rightarrow> bool \<Rightarrow> backgroundTracker \<Rightarrow> BackgroundState" where
  "bg_snapshot now cfg configured b =
     (let out = \<lparr>bs_Enabled = False, bs_Configured = configured, bs_AutoAnalyzeOnCritical = False,
                 bs_AutoActionEnabled = False, bs_AutoActionDryRun = False, bs_InFlight = bg_inFlight b,
                 bs_LastEventAt = bg_lastEventAt b, bs_LastSkipReason = bg_lastSkipReason b,
                 bs_LastError = bg_lastError b, bs_LastRun = bg_lastRun b, bs_RecentRuns = bg_recentRuns b,
                 bs_Budget = \<lparr>bb_CyclesLastHour = 0, bb_MaxCyclesPerHour = 0, bb_ReservedTokensToday = 0,
                   bb_MaxReservedTokensPerDay = 0, bb_MinIntervalSeconds = 0, bb_CooldownUntil = zero_time\<rparr>\<rparr>
      in case cfg of
           None \<Rightarrow> out
         | Some c \<Rightarrow>
             out\<lparr>bs_Enabled := as_Enabled (ai_Scheduler (c_AI c)),
                 bs_AutoAnalyzeOnCritical := ai_AutoAnalyzeOnCritical (c_AI c),
                 bs_AutoActionEnabled := aa_Enabled (ai_AutoAction (c_AI c)),
                 bs_AutoActionDryRun := aa_DryRun (ai_AutoAction (c_AI c)),
                 bs_Budget :=
                   \<lparr>bb_CyclesLastHour = int (countRecentCycles (bg_cycleStarts b) now),
                    bb_MaxCyclesPerHour = as_MaxCyclesPerHour (ai_Scheduler (c_AI c)),
                    bb_ReservedTokensToday = bg_reservedTokensToday b,
                    bb_MaxReservedTokensPerDay = as_MaxReservedTokensPerDay (ai_Scheduler (c_AI c)),
                    bb_MinIntervalSeconds = go_div (as_MinInterval (ai_Scheduler (c_AI c))) second,
                    bb_CooldownUntil = bg_cooldownUntil b\<rparr>\<rparr>)"

section \<open>Recent runs are a bounded log\<close>

definition runs_ok :: "backgroundTracker \<Rightarrow> bool" where
  "runs_ok b \<longleftrightarrow> 1 \<le> bg_historyLimit b \<and> int (length (bg_recentRuns b)) \<le> bg_historyLimit b"

interpretation recent_runs: bounded_log runs_ok "\<lambda>b. nat (bg_historyLimit b)" bg_recentRuns push_run
  by unfold_locales (auto simp: runs_ok_def push_run_def Let_def take_last_def)

lemma runs_ok_applyConfig [simp]: "runs_ok (bg_applyConfig cfg b)"
  by (auto simp: runs_ok_def bg_applyConfig_def Let_def)

section \<open>The scheduler as a state machine\<close>

text \<open>
  The tracker, the time of the last step, the analysis under way (when it started and what it
  reserved), and all starts so far. Time does not run backwards, and no instant is the zero time.
\<close>

record bg_sys =
  sy_bg :: backgroundTracker
  sy_now :: gotime
  sy_running :: "(gotime \<times> int) option"
  sy_starts :: "gotime list"

definition bg_init :: "Config \<Rightarrow> bg_sys" where
  "bg_init cfg = \<lparr>sy_bg = bg_applyConfig (Some cfg) zero_tracker, sy_now = 1, sy_running = None, sy_starts = []\<rparr>"

inductive bg_step :: "(gotime \<Rightarrow> gostring) \<Rightarrow> Config \<Rightarrow> bg_sys \<Rightarrow> bg_sys \<Rightarrow> bool" for dayf cfg where
  alert_ignored:
    "sy_now s \<le> now \<Longrightarrow> maybeScheduleBackground dayf (Some cfg) now al (sy_bg s) = (b, None) \<Longrightarrow>
       bg_step dayf cfg s (s\<lparr>sy_bg := b, sy_now := now\<rparr>)"
| alert_starts:
    "sy_now s \<le> now \<Longrightarrow> maybeScheduleBackground dayf (Some cfg) now al (sy_bg s) = (b, Some n) \<Longrightarrow>
       bg_step dayf cfg s (s\<lparr>sy_bg := b, sy_now := now, sy_running := Some (now, n), sy_starts := sy_starts s @ [now]\<rparr>)"
| analysis_ends:
    "sy_now s \<le> now \<Longrightarrow> sy_running s = Some (started, n) \<Longrightarrow>
       runBackgroundAnalysis (Some cfg) al n started now result (sy_bg s) = (b, run) \<Longrightarrow>
       bg_step dayf cfg s (s\<lparr>sy_bg := b, sy_now := now, sy_running := None\<rparr>)"

inductive_cases bg_stepE: "bg_step dayf cfg s s'"

definition bg_reach :: "(gotime \<Rightarrow> gostring) \<Rightarrow> Config \<Rightarrow> bg_sys \<Rightarrow> bool" where
  "bg_reach dayf cfg s \<longleftrightarrow> (bg_step dayf cfg)\<^sup>*\<^sup>* (bg_init cfg) s"

text \<open>Each start respects what was started before it.\<close>

definition paced :: "Config \<Rightarrow> gotime list \<Rightarrow> bool" where
  "paced cfg starts \<longleftrightarrow>
     (\<forall>xs t ys. starts = xs @ t # ys \<longrightarrow>
        (0 < as_MaxCyclesPerHour (ai_Scheduler (c_AI cfg)) \<longrightarrow>
           int (length (filter (\<lambda>u. t_sub t u \<le> hour) xs)) < as_MaxCyclesPerHour (ai_Scheduler (c_AI cfg))) \<and>
        (0 < as_MinInterval (ai_Scheduler (c_AI cfg)) \<and> xs \<noteq> [] \<longrightarrow>
           as_MinInterval (ai_Scheduler (c_AI cfg)) \<le> t_sub t (last xs)))"

lemma paced_Nil [simp]: "paced cfg []"
  by (simp add: paced_def)

lemma paced_snoc:
  "paced cfg xs \<Longrightarrow>
   (0 < as_MaxCyclesPerHour (ai_Scheduler (c_AI cfg)) \<Longrightarrow>
      int (length (filter (\<lambda>u. t_sub t u \<le> hour) xs)) < as_MaxCyclesPerHour (ai_Scheduler (c_AI cfg))) \<Longrightarrow>
   (0 < as_MinInterval (ai_Scheduler (c_AI cfg)) \<Longrightarrow> xs \<noteq> [] \<Longrightarrow>
      as_MinInterval (ai_Scheduler (c_AI cfg)) \<le> t_sub t (last xs)) \<Longrightarrow>
   paced cfg (xs @ [t])"
proof -
  assume p: "paced cfg xs"
    and m: "0 < as_MaxCyclesPerHour (ai_Scheduler (c_AI cfg)) \<Longrightarrow>
      int (length (filter (\<lambda>u. t_sub t u \<le> hour) xs)) < as_MaxCyclesPerHour (ai_Scheduler (c_AI cfg))"
    and i: "0 < as_MinInterval (ai_Scheduler (c_AI cfg)) \<Longrightarrow> xs \<noteq> [] \<Longrightarrow>
      as_MinInterval (ai_Scheduler (c_AI cfg)) \<le> t_sub t (last xs)"
  have "(ys' = [] \<and> xs = xs' \<and> t' = t) \<or> (\<exists>zs. xs = xs' @ t' # zs)" if "xs @ [t] = xs' @ t' # ys'" for xs' t' ys'
    using that by (cases ys' rule: rev_cases) auto
  then show ?thesis using p m i unfolding paced_def by metis
qed

text \<open>What the tracker knows about the past.\<close>

definition bg_inv :: "Config \<Rightarrow> bg_sys \<Rightarrow> bool" where
  "bg_inv cfg s \<longleftrightarrow>
     (bg_inFlight (sy_bg s) \<longleftrightarrow> sy_running s \<noteq> None) \<and>
     1 \<le> sy_now s \<and> (\<forall>t\<in>set (sy_starts s). 1 \<le> t \<and> t \<le> sy_now s) \<and>
     bg_lastStartedAt (sy_bg s) = (if sy_starts s = [] then zero_time else last (sy_starts s)) \<and>
     (\<forall>now\<ge>sy_now s. trimCycleStarts (bg_cycleStarts (sy_bg s)) now = trimCycleStarts (sy_starts s) now) \<and>
     paced cfg (sy_starts s) \<and>
     0 \<le> bg_reservedTokensToday (sy_bg s) \<and>
     bg_reservedTokensToday (sy_bg s) \<le> max 0 (as_MaxReservedTokensPerDay (ai_Scheduler (c_AI cfg))) \<and>
     (case sy_running s of None \<Rightarrow> True | Some (t, n) \<Rightarrow> n = reserved_tokens cfg) \<and>
     runs_ok (sy_bg s)"

text \<open>Numbers of tokens that are not astronomical, and a daily budget that is on.\<close>

definition sane_budget :: "Config \<Rightarrow> bool" where
  "sane_budget cfg \<longleftrightarrow> 0 < as_MaxReservedTokensPerDay (ai_Scheduler (c_AI cfg)) \<and>
     as_MaxReservedTokensPerDay (ai_Scheduler (c_AI cfg)) \<le> 2 ^ 61 \<and> ai_MaxTokens (c_AI cfg) \<le> 2 ^ 61"

lemma trim_trim:
  assumes "now \<le> now'"
  shows "trimCycleStarts (trimCycleStarts xs now) now' = trimCycleStarts xs now'"
proof -
  have "t_sub now u \<le> t_sub now' u" for u using assms by (rule t_sub_mono)
  then have "t_sub now' u \<le> hour \<Longrightarrow> t_sub now u \<le> hour" for u by (meson order_trans)
  then show ?thesis unfolding trimCycleStarts_def by (induction xs) auto
qed

lemma trim_append: "trimCycleStarts (xs @ ys) now = trimCycleStarts xs now @ trimCycleStarts ys now"
  by (simp add: trimCycleStarts_def)

definition bg_prepare :: "(gotime \<Rightarrow> gostring) \<Rightarrow> Config \<Rightarrow> gotime \<Rightarrow> backgroundTracker \<Rightarrow> backgroundTracker" where
  "bg_prepare dayf c now b =
     (let b = bg_applyConfig (Some c) b
      in resetReservedDay dayf now (b\<lparr>bg_lastEventAt := now, bg_cycleStarts := trimCycleStarts (bg_cycleStarts b) now\<rparr>))"

lemma bg_prepare_frame [simp]:
  "bg_inFlight (bg_prepare dayf c now b) = bg_inFlight b"
  "bg_lastStartedAt (bg_prepare dayf c now b) = bg_lastStartedAt b"
  "bg_cycleStarts (bg_prepare dayf c now b) = trimCycleStarts (bg_cycleStarts b) now"
  "bg_cooldownUntil (bg_prepare dayf c now b) = bg_cooldownUntil b"
  "runs_ok (bg_prepare dayf c now b)"
  using runs_ok_applyConfig [of "Some c" b]
  by (auto simp: bg_prepare_def resetReservedDay_def bg_applyConfig_def runs_ok_def Let_def)

lemma bg_prepare_tokens: "bg_reservedTokensToday (bg_prepare dayf c now b) \<in> {0, bg_reservedTokensToday b}"
  by (auto simp: bg_prepare_def resetReservedDay_def bg_applyConfig_def Let_def)

lemma schedule_cases:
  assumes "maybeScheduleBackground dayf (Some c) now al b = (b', r)"
  obtains (skipped) why where "r = None" "b' = bg_skip now why b"
  | (refused) why where "r = None" "b' = (bg_prepare dayf c now b)\<lparr>bg_lastSkipReason := why\<rparr>"
  | (started) "r = Some (reserved_tokens c)" "bg_refusal c now (bg_prepare dayf c now b) = None"
      "ai_configured c" "al_Severity al = SeverityCritical" "as_Enabled (ai_Scheduler (c_AI c))"
      "b' = (let p = bg_prepare dayf c now b in
             p\<lparr>bg_inFlight := True, bg_lastSkipReason := [], bg_lastStartedAt := now,
               bg_cycleStarts := bg_cycleStarts p @ [now],
               bg_reservedTokensToday := wrap64 (bg_reservedTokensToday p + reserved_tokens c)\<rparr>)"
  using assms that
  by (auto simp: maybeScheduleBackground_def bg_prepare_def Let_def split: if_splits option.splits)

lemma reserved_pos: "1 \<le> reserved_tokens c"
  by (simp add: reserved_tokens_def)

lemma started_tokens:
  assumes "sane_budget c" and "0 \<le> n" and "n \<le> as_MaxReservedTokensPerDay (ai_Scheduler (c_AI c))"
  shows "wrap64 (n + reserved_tokens c) = n + reserved_tokens c"
  using assms by (intro wrap64_id) (auto simp: sane_budget_def reserved_tokens_def is_i64_def i64_min_def i64_max_def)

lemma bg_inv_init: "bg_inv cfg (bg_init cfg)"
  by (simp add: bg_inv_def bg_init_def zero_tracker_def bg_applyConfig_def runs_ok_def trimCycleStarts_def Let_def)

lemma bg_inv_ignored:
  assumes "bg_inv cfg s" and "sy_now s \<le> now" and "sane_budget cfg"
    and "maybeScheduleBackground dayf (Some cfg) now al (sy_bg s) = (b, None)"
  shows "bg_inv cfg (s\<lparr>sy_bg := b, sy_now := now\<rparr>)"
  using assms(4)
proof (cases rule: schedule_cases)
  case (skipped why)
  then show ?thesis using assms(1,2) by (fastforce simp: bg_inv_def bg_skip_def runs_ok_def)
next
  case (refused why)
  have tok: "bg_reservedTokensToday (bg_prepare dayf cfg now (sy_bg s)) \<in> {0, bg_reservedTokensToday (sy_bg s)}"
    by (rule bg_prepare_tokens)
  have trim: "trimCycleStarts (trimCycleStarts (bg_cycleStarts (sy_bg s)) now) t = trimCycleStarts (sy_starts s) t"
    if "now \<le> t" for t
    using assms(1,2) that by (simp add: trim_trim bg_inv_def)
  have ok: "runs_ok b" using refused bg_prepare_frame(5) [of dayf cfg now "sy_bg s"] by (simp add: runs_ok_def)
  show ?thesis
    using assms(1,2) tok trim ok refused unfolding bg_inv_def by (fastforce simp del: bg_prepare_frame(5))
qed simp

lemma bg_inv_started:
  assumes "bg_inv cfg s" and "sy_now s \<le> now" and "sane_budget cfg"
    and "maybeScheduleBackground dayf (Some cfg) now al (sy_bg s) = (b, Some n)"
  shows "bg_inv cfg (s\<lparr>sy_bg := b, sy_now := now, sy_running := Some (now, n), sy_starts := sy_starts s @ [now]\<rparr>)"
  using assms(4)
proof (cases rule: schedule_cases)
  case started
  let ?p = "bg_prepare dayf cfg now (sy_bg s)" and ?sch = "ai_Scheduler (c_AI cfg)"
  note inv = assms(1) [unfolded bg_inv_def]
  have trim: "trimCycleStarts (bg_cycleStarts (sy_bg s)) now = trimCycleStarts (sy_starts s) now" using inv assms(2) by simp
  have hour_now: "t_sub now now \<le> hour" by (simp add: hour_def)
  have ref: "0 < as_MaxCyclesPerHour ?sch \<Longrightarrow> int (length (trimCycleStarts (sy_starts s) now)) < as_MaxCyclesPerHour ?sch"
    "0 < as_MinInterval ?sch \<Longrightarrow> bg_lastStartedAt (sy_bg s) \<noteq> zero_time \<Longrightarrow>
       as_MinInterval ?sch \<le> t_sub now (bg_lastStartedAt (sy_bg s))"
    "wrap64 (bg_reservedTokensToday ?p + reserved_tokens cfg) \<le> as_MaxReservedTokensPerDay ?sch"
    using started(2) assms(3) trim
    by (auto simp: bg_refusal_def sane_budget_def t_is_zero_def Let_def split: if_splits)
  have tok: "0 \<le> bg_reservedTokensToday ?p" "bg_reservedTokensToday ?p \<le> as_MaxReservedTokensPerDay ?sch"
    using bg_prepare_tokens [of dayf cfg now "sy_bg s"] inv assms(3) by (auto simp: sane_budget_def)
  have starts: "sy_starts s \<noteq> [] \<Longrightarrow> bg_lastStartedAt (sy_bg s) = last (sy_starts s) \<and> bg_lastStartedAt (sy_bg s) \<noteq> zero_time"
    using inv by (fastforce simp: zero_time_def dest: last_in_set)
  have "paced cfg (sy_starts s @ [now])"
    using inv ref(1,2) starts by (intro paced_snoc) (auto simp: trimCycleStarts_def)
  moreover have "trimCycleStarts (trimCycleStarts (bg_cycleStarts (sy_bg s)) now @ [now]) t =
      trimCycleStarts (sy_starts s @ [now]) t" if "now \<le> t" for t
    using that assms(2) inv by (simp add: trim_append trim_trim)
  moreover have "runs_ok b" using started bg_prepare_frame(5) [of dayf cfg now "sy_bg s"] by (simp add: runs_ok_def Let_def)
  ultimately show ?thesis
    using started inv assms(2) tok ref(3) started_tokens [OF assms(3) tok] reserved_pos [of cfg]
    unfolding bg_inv_def by (auto simp: Let_def)
qed simp_all

lemma bg_inv_ended:
  assumes "bg_inv cfg s" and "sy_now s \<le> now" and "sy_running s = Some (started, n)"
    and "runBackgroundAnalysis (Some cfg) al n started now result (sy_bg s) = (b, run)"
  shows "bg_inv cfg (s\<lparr>sy_bg := b, sy_now := now, sy_running := None\<rparr>)"
proof -
  note inv = assms(1) [unfolded bg_inv_def]
  have n: "1 \<le> n" using inv assms(3) reserved_pos [of cfg] by simp
  obtain b0 where b: "b = push_run run b0" and fr: "bg_inFlight b0 = False"
      "bg_lastStartedAt b0 = bg_lastStartedAt (sy_bg s)" "bg_cycleStarts b0 = bg_cycleStarts (sy_bg s)"
      "bg_historyLimit b0 = bg_historyLimit (sy_bg s)" "bg_recentRuns b0 = bg_recentRuns (sy_bg s)"
      "bg_reservedTokensToday b0 = bg_reservedTokensToday (sy_bg s) \<or>
       n \<le> bg_reservedTokensToday (sy_bg s) \<and> bg_reservedTokensToday b0 = bg_reservedTokensToday (sy_bg s) - n"
    using assms(4) by (auto simp: runBackgroundAnalysis_def Let_def split: sum.splits)
  have "runs_ok b0" using inv fr by (simp add: runs_ok_def)
  then have ok: "runs_ok b" using recent_runs.good_push b by blast
  have fr': "bg_inFlight b = False" "bg_lastStartedAt b = bg_lastStartedAt (sy_bg s)"
      "bg_cycleStarts b = bg_cycleStarts (sy_bg s)" "bg_reservedTokensToday b = bg_reservedTokensToday b0"
    using fr by (simp_all add: b push_run_def Let_def)
  show ?thesis
    using inv assms(2) fr(6) fr' ok n unfolding bg_inv_def by (fastforce simp: bg_inv_def)
qed

interpretation bg_budget: invariant_steps "bg_step dayf cfg" "\<lambda>s. sane_budget cfg \<longrightarrow> bg_inv cfg s" for dayf cfg
  by unfold_locales (auto elim!: bg_stepE intro: bg_inv_ignored bg_inv_started bg_inv_ended)

lemma bg_reach_inv: "bg_reach dayf cfg s \<Longrightarrow> sane_budget cfg \<Longrightarrow> bg_inv cfg s"
  using bg_budget.steps_keep [of dayf cfg "bg_init cfg" s] bg_inv_init unfolding bg_reach_def by blast


text \<open>A critical alert at the default settings, with the scheduler on.\<close>

definition watch_cfg :: Config where
  "watch_cfg = keyed_cfg\<lparr>c_AI := (c_AI keyed_cfg)\<lparr>ai_Scheduler := (ai_Scheduler default_ai)\<lparr>as_Enabled := True\<rparr>\<rparr>\<rparr>"


text \<open>
  Nothing destructive becomes automatic. Of the suggestions of a background analysis only those are
  marked as eligible whose type is neither kill nor suspend and is on the allow list, in any mix of
  case, while automatic actions are on and in dry run; and only when the mentions of the same id in the
  remembered runs, plus one, reach the number required.
\<close>

theorem auto_policy_safe:
  assumes "runBackgroundAnalysis (Some c) al n started now result b = (b', run)"
    and "s \<in> set (br_Actions run)" and "sg_Policy s = Some p" and "ap_Status p = ''dry_run_eligible''"
  shows "sg_Type s \<noteq> ''kill'' \<and> sg_Type s \<noteq> ''suspend'' \<and>
    list_ex (\<lambda>x. equal_fold (trim_space x) (trim_space (sg_Type s))) (aa_AllowedActions (ai_AutoAction (c_AI c))) \<and>
    aa_Enabled (ai_AutoAction (c_AI c)) \<and> aa_DryRun (ai_AutoAction (c_AI c)) \<and>
    aa_RequireRepeatCycles (ai_AutoAction (c_AI c)) \<le> int (countSuggestionRepeats (bg_recentRuns b) (sg_ID s)) + 1"
proof -
  obtain s0 where "s = s0\<lparr>sg_Policy := Some (evaluateAutoPolicy (Some c) (bg_recentRuns b) s0)\<rparr>"
  proof -
    have "br_Error run = [] \<or> br_Actions run = []"
      using assms(1) by (auto simp: runBackgroundAnalysis_def Let_def split: sum.splits if_splits)
    then show thesis
      using assms(1,2) that
      by (auto simp: runBackgroundAnalysis_def applyAutoPolicyLocked_def Let_def split: sum.splits if_splits)
  qed
  then have "p = evaluateAutoPolicy (Some c) (bg_recentRuns b) s0" "sg_Type s = sg_Type s0" "sg_ID s = sg_ID s0"
    using assms(3) by simp_all
  then show ?thesis
    using assms(4) by (auto simp: evaluateAutoPolicy_def policy_def containsFold_def Let_def split: if_splits)
qed

definition auto_cfg :: Config where
  "auto_cfg = keyed_cfg\<lparr>c_AI := (c_AI keyed_cfg)\<lparr>ai_AutoAction :=
     \<lparr>aa_Enabled = True, aa_DryRun = True, aa_AllowedActions = [''protect''], aa_RequireRepeatCycles = 3, aa_CooldownPerPID = 0\<rparr>\<rparr>\<rparr>"

definition protect_svc :: Suggestion where
  "protect_svc = \<lparr>sg_ID = ''ab'', sg_Type = ''protect'', sg_PID = 0, sg_Name = ''svc.exe'', sg_Reason = [], sg_Rule = None, sg_Policy = None\<rparr>"

lemma auto_cfg_simps [simp]:
  "ai_AutoAction (c_AI auto_cfg) = \<lparr>aa_Enabled = True, aa_DryRun = True, aa_AllowedActions = [''protect''],
     aa_RequireRepeatCycles = 3, aa_CooldownPerPID = 0\<rparr>"
  by (simp add: auto_cfg_def)

text \<open>
  Mentions are counted, not cycles. A setting that asks for a suggestion to be repeated in so many
  cycles is met by a single earlier run that lists the suggestion often enough.
\<close>

theorem repeats_count_mentions:
  assumes "aa_Enabled (ai_AutoAction (c_AI c))" and "aa_DryRun (ai_AutoAction (c_AI c))"
    and "sg_Type s \<notin> {''kill'', ''suspend''}" and "containsFold (aa_AllowedActions (ai_AutoAction (c_AI c))) (sg_Type s)"
    and "sg_ID s \<noteq> []" and "br_Actions run = replicate k s"
    and "aa_RequireRepeatCycles (ai_AutoAction (c_AI c)) \<le> int k + 1"
  shows "ap_Status (evaluateAutoPolicy (Some c) [run] s) = ''dry_run_eligible''"
  using assms by (auto simp: evaluateAutoPolicy_def countSuggestionRepeats_def policy_def Let_def)

definition double_run :: BackgroundRun where
  "double_run = \<lparr>br_Trigger = [], br_AlertID = [], br_AlertType = [], br_AlertTitle = [], br_AlertPID = 0, br_AlertProcess = [],
     br_StartedAt = 1, br_FinishedAt = 2, br_ReservedTokens = 1, br_Cached = False, br_Error = [], br_Answer = [],
     br_Actions = replicate 2 protect_svc, br_AutoCandidates = 0\<rparr>"

lemma protect_allowed: "containsFold [''protect''] ''protect''"
  by (simp add: containsFold_def)

theorem repeats_count_mentions_witness:
  "ap_Status (evaluateAutoPolicy (Some auto_cfg) [double_run] protect_svc) = ''dry_run_eligible''"
  using repeats_count_mentions [of auto_cfg protect_svc double_run 2] protect_allowed
  by (simp add: protect_svc_def double_run_def)

theorem auto_policy_safe_witness:
  "\<exists>b' run. runBackgroundAnalysis (Some auto_cfg) zero_alert 1 1 2
       (Inr \<lparr>ar_Answer = [], ar_Actions = [protect_svc], ar_Cached = False\<rparr>) (zero_tracker\<lparr>bg_recentRuns := [double_run]\<rparr>) = (b', run) \<and>
     br_AutoCandidates run = 1 \<and> aa_DryRun (ai_AutoAction (c_AI auto_cfg))"
proof -
  obtain b' run where r: "runBackgroundAnalysis (Some auto_cfg) zero_alert 1 1 2
       (Inr \<lparr>ar_Answer = [], ar_Actions = [protect_svc], ar_Cached = False\<rparr>) (zero_tracker\<lparr>bg_recentRuns := [double_run]\<rparr>) = (b', run)"
    by fastforce
  let ?p = "evaluateAutoPolicy (Some auto_cfg) [double_run] protect_svc"
  have st: "ap_Status ?p = ''dry_run_eligible''"
    using protect_allowed by (simp add: evaluateAutoPolicy_def countSuggestionRepeats_def policy_def double_run_def protect_svc_def Let_def)
  have acts: "br_Actions run = [protect_svc\<lparr>sg_Policy := Some ?p\<rparr>]" "br_AutoCandidates run = 1"
    using r st by (auto simp: runBackgroundAnalysis_def applyAutoPolicyLocked_def countAutoCandidates_def Let_def)
  show ?thesis
    using auto_policy_safe [OF r, of "protect_svc\<lparr>sg_Policy := Some ?p\<rparr>" ?p] acts r st by auto
qed

end
