(* ===== verification/Handlers.thy ===== *)
theory Handlers
  imports Router Issued WebRules WebConfig Sse Models Background Controller
begin

text \<open>
  The state of the HTTP server of \<^verbatim>\<open>internal/server\<close> and the handlers of \<^verbatim>\<open>handlers.go\<close> that show the
  machine or act on a process. A handler reads the store once, as the oracle of the operating system
  has it then. The payload of a response is the value the code hands to the JSON encoder.
\<close>

section \<open>The server\<close>

record aiPreset =
  px_ID :: gostring
  px_Label :: gostring
  px_Provider :: gostring
  px_Endpoint :: gostring
  px_Model :: gostring
  px_APIKeyHint :: gostring
  px_ExtraHeaders :: "(gostring, gostring) gomap"
  px_Notes :: gostring

datatype jval =
    JInt int | JStr gostring | JBool bool | JF64 f64 | JTime gotime
  | JRules "ruleDTO list" | JConfig Config | JTelegram telegramConfigDTO | JAI aiConfigDTO
  | JActions "Suggestion list" | JModels "modelInfo list"

datatype payload =
    PObj "(gostring \<times> jval) list"
  | PSnapshot SystemSnapshot | PCPU CPUMetrics | PMemory MemoryMetrics | PGPU GPUMetrics | PDisk DiskMetrics
  | PNetwork NetworkMetrics | PHistory "TimestampedSystem list" | PProcs "ProcessInfo list" | PProc ProcessInfo
  | PTree "ProcessNode list" | PSamples "ProcessSample list" | PLimits "LimitInfo list" | PPorts "PortBinding list"
  | PAlerts "Alert list" | PConfig Config | PTelegram telegramConfigDTO | PAI aiConfigDTO | PPresets "aiPreset list"
  | PStatus advisor_status | PWatch BackgroundState

record Server =
  wb_conf :: cfg_state
  wb_ctl :: Controller
  wb_world :: World
  wb_alerts :: AlertStore
  wb_advisor :: "Advisor option"
  wb_bg :: backgroundTracker
  wb_issued :: aiSuggestionStore
  wb_models :: modelsCache
  wb_hub :: SSEHub
  wb_csrf :: gostring
  wb_version :: gostring

record aiExecuteRequest =
  xr_ID :: gostring
  xr_Type :: gostring
  xr_PID :: pid
  xr_Confirm :: bool
  xr_Name :: gostring
  xr_Rule :: "RuleSuggestion option"
  xr_Reason :: gostring
  xr_Policy :: "AutoPolicy option"

text \<open>A file of the embedded interface: whether it is a directory, or the error of asking; its content, or that of reading.\<close>

record static_file =
  sf_is_dir :: "goerror + bool"
  sf_content :: "goerror + gostring"

datatype get_me = GMTimeout | GMError goerror | GMStatus int

text \<open>What the handlers take from outside while one request is served.\<close>

record web_env =
  we_now :: gotime
  we_os :: os
  we_load :: "gostring load_env"
  we_call :: call_env
  we_sort :: "(ProcessInfo \<Rightarrow> ProcessInfo \<Rightarrow> bool) \<Rightarrow> ProcessInfo list \<Rightarrow> ProcessInfo list"
  we_static :: "(gostring \<Rightarrow> static_file option) option"
  we_getMe :: "gostring \<Rightarrow> get_me"
  we_runtime :: "gostring \<times> int \<times> int \<times> int"
  we_priority :: "gostring decoder"
  we_affinity :: "u64 decoder"
  we_limit :: "(int \<times> u64) decoder"
  we_rules :: "ruleDTO list decoder"
  we_settings :: "configUpdateDTO decoder"
  we_prompt :: "gostring decoder"
  we_message :: "gostring decoder"
  we_execute :: "aiExecuteRequest decoder"
  we_ai :: "aiConfigDTO decoder"
  we_telegram :: "telegramConfigDTO decoder"
  we_protect :: "(gostring \<times> bool) decoder"
  we_ignore :: "(gostring \<times> bool) decoder"

type_synonym handler = "web_env \<Rightarrow> (Server, payload) handlerfn"

definition the_store :: "web_env \<Rightarrow> Server \<Rightarrow> Store" where
  "the_store env s = os_store (we_os env) (w_trace (wb_world s))"

definition snapshot_now :: "web_env \<Rightarrow> Server \<Rightarrow> SystemSnapshot option" where
  "snapshot_now env s = Latest (the_store env s)"

definition no_data :: "payload Response" where
  "no_data = writeError 503 ''no_data'' ''no snapshot yet''"

text \<open>A response that leaves the server as it is.\<close>

definition answer :: "Server \<Rightarrow> payload Response \<Rightarrow> (Server \<times> payload Response) option" where
  "answer s r = Some (s, r)"

definition with_snapshot :: "web_env \<Rightarrow> Server \<Rightarrow> (SystemSnapshot \<Rightarrow> payload Response) \<Rightarrow> (Server \<times> payload Response) option" where
  "with_snapshot env s f = answer s (case snapshot_now env s of None \<Rightarrow> no_data | Some snap \<Rightarrow> f snap)"

definition with_pid :: "params \<Rightarrow> Server \<Rightarrow> (pid \<Rightarrow> (Server \<times> payload Response) option) \<Rightarrow> (Server \<times> payload Response) option" where
  "with_pid ps s f = (case parsePIDParam ps of Inl r \<Rightarrow> answer s r | Inr p \<Rightarrow> f p)"

definition with_body ::
  "'v decoder \<Rightarrow> Request \<Rightarrow> Server \<Rightarrow> ('v \<Rightarrow> (Server \<times> payload Response) option) \<Rightarrow> (Server \<times> payload Response) option" where
  "with_body dec req s f = (case readJSON dec req of Inl r \<Rightarrow> answer s r | Inr v \<Rightarrow> f v)"

definition done_ok :: "(gostring \<times> jval) list \<Rightarrow> payload Response" where
  "done_ok extra = writeJSON 200 (PObj ((''ok'', JBool True) # extra))"

definition jpid :: "pid \<Rightarrow> gostring \<times> jval" where "jpid p = (''pid'', JInt (uint p))"

section \<open>The machine\<close>

definition handleSystem :: handler where
  "handleSystem env req ps s = with_snapshot env s (\<lambda>snap. writeJSON 200 (PSnapshot snap))"
definition handleCPU :: handler where
  "handleCPU env req ps s = with_snapshot env s (\<lambda>snap. writeJSON 200 (PCPU (ss_CPU snap)))"
definition handleMemory :: handler where
  "handleMemory env req ps s = with_snapshot env s (\<lambda>snap. writeJSON 200 (PMemory (ss_Memory snap)))"
definition handleGPU :: handler where
  "handleGPU env req ps s = with_snapshot env s (\<lambda>snap. writeJSON 200 (PGPU (ss_GPU snap)))"
definition handleDisk :: handler where
  "handleDisk env req ps s = with_snapshot env s (\<lambda>snap. writeJSON 200 (PDisk (ss_Disk snap)))"
definition handleNetwork :: handler where
  "handleNetwork env req ps s = with_snapshot env s (\<lambda>snap. writeJSON 200 (PNetwork (ss_Network snap)))"

definition handleHistory :: handler where
  "handleHistory env req ps s =
     (let since = rq_query req ''since'' in
      answer s
        (if since = [] then writeJSON 200 (PHistory (SystemHistory (the_store env s)))
         else
           (case parse_i64 since of
              (secs, Some e) \<Rightarrow> writeError 400 ''invalid_since'' ''since must be unix seconds''
            | (secs, None) \<Rightarrow> writeJSON 200 (PHistory (SystemHistorySince (unix_time secs) (the_store env s))))))"

definition handleInfo :: handler where
  "handleInfo env req ps s =
     (let (gover, ncpu, routines, self) = we_runtime env; mo = c_Monitoring (cs_cfg (wb_conf s)) in
      answer s (writeJSON 200 (PObj
        [(''version'', JStr (wb_version s)), (''go_version'', JStr gover), (''num_cpu'', JInt ncpu),
         (''goroutines'', JInt routines), (''self_pid'', JInt self),
         (''interval_ms'', JInt (go_div (mo_Interval mo) millisecond)),
         (''history_minutes'', JF64 (dur_minutes (mo_HistoryDuration mo))),
         (''sse_clients'', JInt (int (ClientCount (wb_hub s)))),
         (''tracked_pids'', JInt (int (TrackedProcessCount (the_store env s))))])))"

definition handleHealth :: handler where
  "handleHealth env req ps s = answer s (writeJSON 200 (PObj [(''status'', JStr ''ok'')]))"

section \<open>Processes\<close>

definition sort_less :: "gostring \<Rightarrow> ProcessInfo \<Rightarrow> ProcessInfo \<Rightarrow> bool" where
  "sort_less by_field a b =
     (if by_field = ''cpu'' then flt (p_CPUPercent a) (p_CPUPercent b)
      else if by_field = ''memory'' \<or> by_field = ''ws'' then p_WorkingSet a < p_WorkingSet b
      else if by_field = ''private'' then p_PrivateBytes a < p_PrivateBytes b
      else if by_field = ''name'' then bytes_less (p_Name a) (p_Name b)
      else if by_field = ''pid'' then p_PID a < p_PID b
      else if by_field = ''threads'' then p_ThreadCount a < p_ThreadCount b
      else p_PID a < p_PID b)"

definition sortProcesses :: "web_env \<Rightarrow> ProcessInfo list \<Rightarrow> gostring \<Rightarrow> bool \<Rightarrow> ProcessInfo list" where
  "sortProcesses env procs by_field desc =
     we_sort env (if desc then (\<lambda>a b. sort_less by_field b a) else sort_less by_field) procs"

definition handleProcesses :: handler where
  "handleProcesses env req ps s = with_snapshot env s (\<lambda>snap.
     let q = rq_query req;
         pat = to_lower (q ''name'');
         procs = (if pat \<noteq> [] then filter (\<lambda>p. str_contains (to_lower (p_Name p)) pat) (ss_Processes snap)
                  else ss_Processes snap);
         procs = sortProcesses env procs (if q ''sort'' = [] then ''cpu'' else q ''sort'') (q ''order'' \<noteq> ''asc'');
         procs = (if q ''limit'' \<noteq> [] then
                    (case parse_i64 (q ''limit'') of
                       (n, None) \<Rightarrow> if 0 < n \<and> n < int (length procs) then take (nat n) procs else procs
                     | (n, Some e) \<Rightarrow> procs)
                  else procs)
     in writeJSON 200 (PProcs procs))"

definition handleProcessTree :: handler where
  "handleProcessTree env req ps s = with_snapshot env s (\<lambda>snap. writeJSON 200 (PTree (ss_ProcessTree snap)))"

definition handleProcessByID :: handler where
  "handleProcessByID env req ps s = with_pid ps s (\<lambda>p. with_snapshot env s (\<lambda>snap.
     case first_with_pid p (ss_Processes snap) of
       Some info \<Rightarrow> writeJSON 200 (PProc info)
     | None \<Rightarrow> writeError 404 ''not_found'' ''no such pid''))"

definition handleProcessHistory :: handler where
  "handleProcessHistory env req ps s = with_pid ps s (\<lambda>p.
     answer s (writeJSON 200 (PSamples (ProcessHistory p (the_store env s)))))"

definition handleProcessChildren :: handler where
  "handleProcessChildren env req ps s = with_pid ps s (\<lambda>p. with_snapshot env s (\<lambda>snap.
     writeJSON 200 (PProcs (filter (\<lambda>q. p_ParentPID q = p) (ss_Processes snap)))))"

definition handleProcessConnections :: handler where
  "handleProcessConnections env req ps s = with_pid ps s (\<lambda>p. with_snapshot env s (\<lambda>snap.
     writeJSON 200 (PPorts (filter (\<lambda>b. pb_PID b = p) (ss_PortBindings snap)))))"

definition handlePorts :: handler where
  "handlePorts env req ps s = with_snapshot env s (\<lambda>snap. writeJSON 200 (PPorts (ss_PortBindings snap)))"

definition handleConnections :: handler where
  "handleConnections env req ps s = with_snapshot env s (\<lambda>snap.
     let raw = trim_space (rq_query req ''pid''); rows = ss_PortBindings snap in
     if raw = [] then writeJSON 200 (PPorts rows)
     else
       (case parse_uint 32 raw of
          (n, Some e) \<Rightarrow> writeError 400 ''invalid_pid'' ''pid must be uint32''
        | (n, None) \<Rightarrow> writeJSON 200 (PPorts (filter (\<lambda>b. pb_PID b = of_nat n) rows))))"

definition handleListLimits :: handler where
  "handleListLimits env req ps s = answer s (writeJSON 200 (PLimits (ActiveLimits (wb_ctl s))))"

section \<open>Acting on a process\<close>

definition controllerError :: "goerror \<Rightarrow> payload Response" where
  "controllerError e =
     (if errors_Is (Some e) ErrProtected then writeError 403 ''protected'' (err_text e)
      else if errors_Is (Some e) ErrCritical then writeError 403 ''critical'' (err_text e)
      else if errors_Is (Some e) ErrSelf then writeError 403 ''self_protected'' (err_text e)
      else if errors_Is (Some e) ErrConfirmNeeded then writeError 409 ''confirm_required'' (err_text e)
      else if errors_Is (Some e) ErrNotFound then writeError 404 ''not_found'' (err_text e)
      else writeError 500 ''internal'' (err_text e))"

text \<open>Every operation on a process ends alike: the new world, and the error or the answer.\<close>

definition acted :: "Server \<Rightarrow> Controller \<times> World \<times> goerror option \<Rightarrow> (gostring \<times> jval) list \<Rightarrow> (Server \<times> payload Response) option" where
  "acted s r extra =
     (case r of (c, w, err) \<Rightarrow>
        Some (s\<lparr>wb_ctl := c, wb_world := w\<rparr>, case err of Some e \<Rightarrow> controllerError e | None \<Rightarrow> done_ok extra))"

definition confirmed :: "Request \<Rightarrow> bool" where
  "confirmed req \<longleftrightarrow> rq_query req ''confirm'' = ''true''"

definition handleKill :: handler where
  "handleKill env req ps s = with_pid ps s (\<lambda>p.
     acted s (case Kill (we_os env) (wb_ctl s) p (confirmed req) (wb_world s) of (w, e) \<Rightarrow> (wb_ctl s, w, e)) [jpid p])"

definition handleKillTree :: handler where
  "handleKillTree env req ps s = with_pid ps s (\<lambda>p.
     case KillTree (we_os env) (wb_ctl s) p (confirmed req) (wb_world s) of
       None \<Rightarrow> None
     | Some (w, killed, err) \<Rightarrow>
         (let s = s\<lparr>wb_world := w\<rparr> in
          case err of
            None \<Rightarrow> Some (s, done_ok [(''killed'', JInt (int killed))])
          | Some e \<Rightarrow>
              if killed = 0 then Some (s, controllerError e)
              else Some (s, done_ok [(''killed'', JInt (int killed)), (''partial_error'', JStr (err_text e))])))"

definition handleSuspend :: handler where
  "handleSuspend env req ps s = with_pid ps s (\<lambda>p.
     acted s (case Suspend (we_os env) (wb_ctl s) p (confirmed req) (wb_world s) of (w, e) \<Rightarrow> (wb_ctl s, w, e)) [jpid p])"

definition handleResume :: handler where
  "handleResume env req ps s = with_pid ps s (\<lambda>p.
     acted s (case Resume (we_os env) (wb_ctl s) p (wb_world s) of (w, e) \<Rightarrow> (wb_ctl s, w, e)) [jpid p])"

definition handlePriority :: handler where
  "handlePriority env req ps s = with_pid ps s (\<lambda>p. with_body (we_priority env) req s (\<lambda>k.
     acted s (case SetPriority (we_os env) (wb_ctl s) p k (confirmed req) (wb_world s) of (w, e) \<Rightarrow> (wb_ctl s, w, e))
       [jpid p, (''class'', JStr k)]))"

definition handleAffinity :: handler where
  "handleAffinity env req ps s = with_pid ps s (\<lambda>p. with_body (we_affinity env) req s (\<lambda>m.
     acted s (case SetAffinity (we_os env) (wb_ctl s) p m (confirmed req) (wb_world s) of (w, e) \<Rightarrow> (wb_ctl s, w, e))
       [jpid p, (''mask'', JInt (uint m))]))"

definition handleLimit :: handler where
  "handleLimit env req ps s = with_pid ps s (\<lambda>p. with_body (we_limit env) req s (\<lambda>(cpu, mem).
     acted s (Limit (we_os env) (wb_ctl s) p cpu mem (confirmed req) (wb_world s)) [jpid p]))"

definition handleClearLimit :: handler where
  "handleClearLimit env req ps s = with_pid ps s (\<lambda>p. acted s (ClearLimit (wb_ctl s) p (wb_world s)) [jpid p])"

section \<open>Alerts\<close>

definition handleAlerts :: handler where
  "handleAlerts env req ps s = answer s (writeJSON 200 (PAlerts (Active (wb_alerts s))))"

definition handleAlertHistory :: handler where
  "handleAlertHistory env req ps s = answer s (writeJSON 200 (PAlerts (History (wb_alerts s))))"

definition handleAlertsClear :: handler where
  "handleAlertsClear env req ps s =
     (case ClearAll (we_now env) (wb_alerts s) of
        (st, removed) \<Rightarrow> Some (s\<lparr>wb_alerts := st\<rparr>, done_ok [(''removed'', JInt (int removed))]))"

text \<open>The type and process of an alert named by a path; no process, or an empty one, is process 0.\<close>

definition alert_params :: "params \<Rightarrow> payload Response + (gostring \<times> pid)" where
  "alert_params ps =
     (let t = trim_space (Param ps ''type''); raw = Param ps ''pid'' in
      if t = [] then Inl (writeError 400 ''missing_param'' ''type required'')
      else if raw = [] then Inr (t, 0)
      else
        (case parse_uint 32 raw of
           (n, Some e) \<Rightarrow> Inl (writeError 400 ''invalid_param'' ''pid must be uint32'')
         | (n, None) \<Rightarrow> Inr (t, of_nat n)))"

definition alertKeyFromRequest :: "params \<Rightarrow> payload Response + gostring" where
  "alertKeyFromRequest ps =
     map_sum id (\<lambda>(t, p). if 0 < p then t @ ''/'' @ nat_str (unat p) else t) (alert_params ps)"

definition handleAlertDismiss :: handler where
  "handleAlertDismiss env req ps s =
     (case alertKeyFromRequest ps of
        Inl r \<Rightarrow> answer s r
      | Inr key \<Rightarrow> Some (s\<lparr>wb_alerts := ClearByKey (we_now env) key (wb_alerts s)\<rparr>, done_ok [(''id'', JStr key)]))"

definition handleAlertSnooze :: handler where
  "handleAlertSnooze env req ps s =
     (case alert_params ps of
        Inl r \<Rightarrow> answer s r
      | Inr (t, p) \<Rightarrow>
          (let raw = trim_space (rq_query req ''duration'');
               d = (if raw = [] then Some (30 * minute)
                    else (case parse_duration raw of None \<Rightarrow> None | Some d \<Rightarrow> if d \<le> 0 then None else Some d))
           in case d of
                None \<Rightarrow> answer s (writeError 400 ''invalid_duration'' ''duration must be a positive Go duration like 30m'')
              | Some d \<Rightarrow>
                  (let until = t_add (we_now env) d in
                   Some (s\<lparr>wb_alerts := Snooze t p until (wb_alerts s)\<rparr>,
                         done_ok [(''type'', JStr t), jpid p, (''snoozed_for'', JStr (dur_string d)), (''until'', JTime until)]))))"

lemmas handler_wrappers = answer_def with_snapshot_def with_pid_def with_body_def acted_def

end
