(* ===== verification/Server.thy ===== *)
theory Server
  imports Handlers
begin

text \<open>
  The rest of \<^verbatim>\<open>internal/server\<close>: the handlers of the configuration, the rules, the AI advisor and
  Telegram, the embedded interface, the table of routes and the server as a whole. The callback that
  tells the other components of a new configuration is the one of \<open>WebConfig\<close>.
\<close>

section \<open>Configuration and rules\<close>

definition current_cfg :: "Server \<Rightarrow> Config" where "current_cfg s = cs_cfg (wb_conf s)"

definition handleConfigGet :: handler where
  "handleConfigGet env req ps s = answer s (writeJSON 200 (PConfig (masked_config (current_cfg s))))"

definition no_config :: "payload Response" where
  "no_config = writeError 503 ''no_config'' ''config file path not set''"

definition handleConfigUpdate :: handler where
  "handleConfigUpdate env req ps s =
     (if cs_path (wb_conf s) = [] then answer s no_config
      else with_body (we_settings env) req s (\<lambda>b.
        case mutateConfig (we_load env) (\<lambda>c. Inr (applyConfigUpdate b c)) (wb_conf s) of
          (st, err) \<Rightarrow>
            (let s = s\<lparr>wb_conf := st\<rparr> in
             Some (s, case err of
                        Some e \<Rightarrow> writeError 400 ''invalid_config'' (err_text e)
                      | None \<Rightarrow> done_ok [(''config'', JConfig (masked_config (current_cfg s)))]))))"

text \<open>The end of the handlers that replace a part of the configuration themselves.\<close>

definition replace_config :: "web_env \<Rightarrow> Config \<Rightarrow> Server \<Rightarrow> (Config \<Rightarrow> (gostring \<times> jval) list) \<Rightarrow> (Server \<times> payload Response) option" where
  "replace_config env nxt s extra =
     (case persist (we_load env) nxt (wb_conf s) of
        (st, err) \<Rightarrow>
          (let s = s\<lparr>wb_conf := st\<rparr> in
           Some (s, case err of
                      Some (PInvalid e) \<Rightarrow> writeError 400 ''invalid_config'' (err_text e)
                    | Some (PSave e) \<Rightarrow> writeError 500 ''save_failed'' (err_text e)
                    | None \<Rightarrow> done_ok (extra (current_cfg s)))))"

definition handleRulesGet :: handler where
  "handleRulesGet env req ps s = answer s (writeJSON 200 (PObj [(''rules'', JRules (rulesToDTO (c_Rules (current_cfg s))))]))"

definition handleRulesUpdate :: handler where
  "handleRulesUpdate env req ps s =
     (if cs_path (wb_conf s) = [] then answer s no_config
      else with_body (we_rules env) req s (\<lambda>ds.
        case rulesFromDTO ds of
          Inl e \<Rightarrow> answer s (writeError 400 ''invalid_rule'' (err_text e))
        | Inr rules \<Rightarrow>
            replace_config env ((cloneConfig (Some (current_cfg s)))\<lparr>c_Rules := rules\<rparr>) s
              (\<lambda>c. [(''rules'', JRules (rulesToDTO (c_Rules c)))])))"

definition handleTelegramConfigGet :: handler where
  "handleTelegramConfigGet env req ps s = answer s (writeJSON 200 (PTelegram (telegramDTOFromConfig (c_Telegram (current_cfg s)))))"

definition handleTelegramConfigUpdate :: handler where
  "handleTelegramConfigUpdate env req ps s =
     (if cs_path (wb_conf s) = [] then answer s no_config
      else with_body (we_telegram env) req s (\<lambda>b.
        replace_config env (telegram_update b (cloneConfig (Some (current_cfg s)))) s
          (\<lambda>c. [(''config'', JTelegram (telegramDTOFromConfig (c_Telegram c)))])))"

definition handleTelegramTest :: handler where
  "handleTelegramTest env req ps s =
     (let tg = c_Telegram (current_cfg s) in
      answer s
        (if tg_BotToken tg = [] then writeError 400 ''no_token'' ''no bot token configured''
         else
           (let base = trim_suffix (tg_APIBaseURL tg) ''/'';
                base = (if base = [] then ''https://api.telegram.org'' else base);
                failed = (\<lambda>e. writeError 502 ''connection_failed'' (sprintf ''failed to reach Telegram: %v'' [FErr e]))
            in case we_getMe env (base @ ''/bot'' @ tg_BotToken tg @ ''/getMe'') of
                 GMTimeout \<Rightarrow> writeError 504 ''timeout'' ''Telegram API did not respond in time''
               | GMError e \<Rightarrow> failed e
               | GMStatus k \<Rightarrow>
                   if k \<noteq> 200 then failed (Errorf ''HTTP %d'' [FInt k])
                   else done_ok [(''message'', JStr ''bot token is valid'')])))"

definition toggled :: "Server \<Rightarrow> cfg_state \<times> goerror option \<Rightarrow> (gostring \<times> jval) list \<Rightarrow> (Server \<times> payload Response) option" where
  "toggled s r extra =
     (case r of (st, err) \<Rightarrow>
        Some (s\<lparr>wb_conf := st\<rparr>, case err of Some e \<Rightarrow> writeError 500 ''save_failed'' (err_text e) | None \<Rightarrow> done_ok extra))"

definition change_protected :: "(gostring list \<Rightarrow> gostring list) \<Rightarrow> Config \<Rightarrow> goerror + Config" where
  "change_protected f c =
     Inr (c\<lparr>c_Controller := (c_Controller c)\<lparr>co_ProtectedProcesses := f (co_ProtectedProcesses (c_Controller c))\<rparr>\<rparr>)"

definition change_ignored :: "(gostring list \<Rightarrow> gostring list) \<Rightarrow> Config \<Rightarrow> goerror + Config" where
  "change_ignored f c =
     Inr (c\<lparr>c_Anomaly := (c_Anomaly c)\<lparr>an_IgnoreProcesses := f (an_IgnoreProcesses (c_Anomaly c))\<rparr>\<rparr>)"

definition handleConfigProtectToggle :: handler where
  "handleConfigProtectToggle env req ps s = with_body (we_protect env) req s (\<lambda>(name, on).
     if trim_space name = [] then answer s (writeError 400 ''bad_request'' ''name required'')
     else toggled s (mutateConfig (we_load env)
            (change_protected (\<lambda>xs. if on then appendUniqueFold xs name else removeFold xs name)) (wb_conf s))
            [(''name'', JStr name), (''protect'', JBool on)])"

definition handleConfigIgnoreToggle :: handler where
  "handleConfigIgnoreToggle env req ps s = with_body (we_ignore env) req s (\<lambda>(name, on).
     if trim_space name = [] then answer s (writeError 400 ''bad_request'' ''name required'')
     else toggled s (mutateConfig (we_load env)
            (change_ignored (\<lambda>xs. if on then appendUniqueFold xs name else removeFold xs name)) (wb_conf s))
            [(''name'', JStr name), (''ignore'', JBool on)])"

section \<open>The advisor\<close>

definition handleAIConfigGet :: handler where
  "handleAIConfigGet env req ps s = answer s (writeJSON 200 (PAI (dtoFromConfig (c_AI (current_cfg s)))))"

definition handleAIConfigUpdate :: handler where
  "handleAIConfigUpdate env req ps s =
     (if cs_path (wb_conf s) = [] then answer s no_config
      else with_body (we_ai env) req s (\<lambda>b.
        if update_provider b \<noteq> ''anthropic'' \<and> update_provider b \<noteq> ''openai''
        then answer s (writeError 400 ''bad_provider''
               (''provider must be '' @ quoted ''anthropic'' @ '' or '' @ quoted ''openai''))
        else replace_config env (ai_update b (cloneConfig (Some (current_cfg s)))) s
               (\<lambda>c. [(''config'', JAI (dtoFromConfig (c_AI c)))])))"

definition handleAIStatus :: handler where
  "handleAIStatus env req ps s =
     (case wb_advisor s of
        None \<Rightarrow> answer s (writeJSON 200 (PObj [(''enabled'', JBool False)]))
      | Some a \<Rightarrow>
          (case Advisor_Status (we_now env) a of
             (a, st) \<Rightarrow> Some (s\<lparr>wb_advisor := Some a\<rparr>, writeJSON 200 (PStatus st))))"

definition zero_watch :: BackgroundState where
  "zero_watch = bg_snapshot zero_time None False zero_tracker"

definition handleAIWatch :: handler where
  "handleAIWatch env req ps s =
     (case wb_advisor s of
        None \<Rightarrow> answer s (writeJSON 200 (PWatch zero_watch))
      | Some a \<Rightarrow>
          answer s (writeJSON 200 (PWatch
            (bg_snapshot (we_now env) (Some (ad_cfg a)) (ai_configured (ad_cfg a)) (wb_bg s)))))"

definition publicAIErrorMessage :: "goerror \<Rightarrow> gostring" where
  "publicAIErrorMessage e =
     (let msg = to_lower (err_text e) in
      if str_contains msg ''rate limit'' then ''AI rate limit exceeded; try again later''
      else if str_contains msg ''disabled'' then ''AI advisor not configured''
      else ''AI provider request failed'')"

text \<open>What the advisor reads while it answers: the store and the alerts of the program.\<close>

definition advisor_call :: "web_env \<Rightarrow> Server \<Rightarrow> call_env" where
  "advisor_call env s = (we_call env)\<lparr>cv_store := the_store env s, cv_alerts := Active (wb_alerts s)\<rparr>"

definition rememberAISuggestions :: "web_env \<Rightarrow> Suggestion list \<Rightarrow> Server \<Rightarrow> Server" where
  "rememberAISuggestions env items s = s\<lparr>wb_issued := remember (we_now env) items (wb_issued s)\<rparr>"

definition ai_disabled :: "payload Response" where
  "ai_disabled = writeError 503 ''ai_disabled'' ''AI advisor not configured''"

definition handleAIAnalyze :: handler where
  "handleAIAnalyze env req ps s =
     (case wb_advisor s of
        None \<Rightarrow> answer s ai_disabled
      | Some a \<Rightarrow>
          if \<not> Advisor_Enabled a then answer s ai_disabled
          else with_body (we_prompt env) req s (\<lambda>prompt.
            case Analyze (advisor_call env s) prompt a of
              (a, Inl e, _) \<Rightarrow> Some (s\<lparr>wb_advisor := Some a\<rparr>, writeError 502 ''ai_error'' (publicAIErrorMessage e))
            | (a, Inr resp, _) \<Rightarrow>
                Some (rememberAISuggestions env (ar_Actions resp) (s\<lparr>wb_advisor := Some a\<rparr>),
                  writeJSON 200 (PObj [(''answer'', JStr (ar_Answer resp)), (''actions'', JActions (ar_Actions resp))]))))"

definition handleAIChat :: handler where
  "handleAIChat env req ps s =
     (case wb_advisor s of
        None \<Rightarrow> answer s ai_disabled
      | Some a \<Rightarrow>
          if \<not> Advisor_Enabled a then answer s ai_disabled
          else with_body (we_message env) req s (\<lambda>msg.
            if trim_space msg = [] then answer s (writeError 400 ''invalid_message'' ''message required'')
            else
              (case Chat (advisor_call env s) msg a of
                 (a, Inl e, _) \<Rightarrow> Some (s\<lparr>wb_advisor := Some a\<rparr>, writeError 502 ''ai_error'' (publicAIErrorMessage e))
               | (a, Inr resp, _) \<Rightarrow>
                   Some (rememberAISuggestions env (ar_Actions resp) (s\<lparr>wb_advisor := Some a\<rparr>),
                     writeJSON 200 (PObj [(''answer'', JStr (ar_Answer resp)), (''actions'', JActions (ar_Actions resp)),
                       (''cached'', JBool (ar_Cached resp))])))))"

text \<open>Without an advisor the call panics and the connection is dropped: no response.\<close>

definition handleAITest :: handler where
  "handleAITest env req ps s =
     (let ai = c_AI (current_cfg s) in
      if ai_APIKey ai = [] then answer s (writeError 400 ''no_api_key'' ''no API key configured'')
      else if ai_Endpoint ai = [] then answer s (writeError 400 ''no_endpoint'' ''no endpoint configured'')
      else if \<not> ai_Enabled ai then answer s (writeError 400 ''ai_disabled'' ''AI is disabled'')
      else
        (case wb_advisor s of
           None \<Rightarrow> None
         | Some a \<Rightarrow>
             (case Chat (advisor_call env s)
                 (''Reply with exactly the word '' @ quoted ''ok'' @ '' if you can read this.'') a of
                (a, Inl e, _) \<Rightarrow> Some (s\<lparr>wb_advisor := Some a\<rparr>, writeError 502 ''ai_error'' (err_text e))
              | (a, Inr resp, _) \<Rightarrow>
                  Some (s\<lparr>wb_advisor := Some a\<rparr>, done_ok [(''response'', JStr (ar_Answer resp))]))))"

definition modelsDevURL :: gostring where "modelsDevURL = ''https://models.dev/api.json''"

text \<open>The refresh it may start runs on its own, as a step of the cache.\<close>

definition handleAIModels :: handler where
  "handleAIModels env req ps s =
     (case mc_get (we_now env) (wb_models s) of
        (c, snap, started) \<Rightarrow>
          (let q = to_lower (rq_query req ''provider'');
               models = (if q \<noteq> [] then filter (model_matches q) (ms_data snap) else ms_data snap);
               r = writeJSON 200 (PObj ([(''models'', JModels models), (''count'', JInt (int (length models))),
                     (''source'', JStr modelsDevURL), (''updated'', JTime (ms_loadedAt snap)),
                     (''endpoint'', JStr (effectiveAIEndpoint (Some (current_cfg s))))] @
                     (if ms_lastErr snap \<noteq> [] then [(''error'', JStr (ms_lastErr snap))] else [])));
               r = (if models = [] \<and> ms_lastErr snap = [] then r\<lparr>rs_headers := (''Retry-After'', ''2'') # rs_headers r\<rparr> else r)
           in Some (s\<lparr>wb_models := c\<rparr>, r)))"

section \<open>Executing a suggestion\<close>

definition exec_input :: "gostring \<Rightarrow> Server \<Rightarrow> Server \<times> goerror option" where
  "exec_input msg s = (s, Some (ErrNew msg))"

definition exec_config :: "web_env \<Rightarrow> (Config \<Rightarrow> goerror + Config) \<Rightarrow> Server \<Rightarrow> Server \<times> goerror option" where
  "exec_config env change s =
     (case mutateConfig (we_load env) change (wb_conf s) of (st, err) \<Rightarrow> (s\<lparr>wb_conf := st\<rparr>, err))"

definition add_rule :: "Rule \<Rightarrow> Config \<Rightarrow> goerror + Config" where
  "add_rule rule c =
     (if list_ex (\<lambda>r. equal_fold (ru_Name r) (ru_Name rule)) (c_Rules c)
      then Inl (Errorf ''rule %q already exists'' [FStr (ru_Name rule)])
      else Inr (c\<lparr>c_Rules := c_Rules c @ [rule]\<rparr>))"

text \<open>The third component says whether the error is one of the input, which the handler tells apart.\<close>

definition ExecuteAISuggestion :: "web_env \<Rightarrow> Suggestion \<Rightarrow> bool \<Rightarrow> Server \<Rightarrow> (Server \<times> goerror option) \<times> bool" where
  "ExecuteAISuggestion env sug confirm s =
     (let t = to_lower (trim_space (sg_Type sug)) in
      if t = ''kill'' then
        (if sg_PID sug = 0 then (exec_input ''pid required'' s, True)
         else (case Kill (we_os env) (wb_ctl s) (sg_PID sug) confirm (wb_world s) of (w, e) \<Rightarrow> ((s\<lparr>wb_world := w\<rparr>, e), False)))
      else if t = ''suspend'' then
        (if sg_PID sug = 0 then (exec_input ''pid required'' s, True)
         else (case Suspend (we_os env) (wb_ctl s) (sg_PID sug) confirm (wb_world s) of (w, e) \<Rightarrow> ((s\<lparr>wb_world := w\<rparr>, e), False)))
      else if t = ''protect'' then
        (if trim_space (sg_Name sug) = [] then (exec_input ''name required'' s, True)
         else (exec_config env (change_protected (\<lambda>xs. appendUniqueFold xs (sg_Name sug))) s, False))
      else if t = ''ignore'' then
        (if trim_space (sg_Name sug) = [] then (exec_input ''name required'' s, True)
         else (exec_config env (change_ignored (\<lambda>xs. appendUniqueFold xs (sg_Name sug))) s, False))
      else if t = ''add_rule'' then
        (case aiRuleToConfig (sg_Rule sug) of
           Inl e \<Rightarrow> (exec_input (err_text e) s, True)
         | Inr rule \<Rightarrow> (exec_config env (add_rule rule) s, False))
      else (exec_input ''type must be kill|suspend|protect|ignore|add_rule'' s, True))"

definition from_controller :: "goerror \<Rightarrow> bool" where
  "from_controller e \<longleftrightarrow>
     errors_Is (Some e) ErrProtected \<or> errors_Is (Some e) ErrCritical \<or> errors_Is (Some e) ErrSelf \<or>
     errors_Is (Some e) ErrConfirmNeeded \<or> errors_Is (Some e) ErrNotFound"

definition handleAIExecute :: handler where
  "handleAIExecute env req ps s = with_body (we_execute env) req s (\<lambda>b.
     let sug = \<lparr>sg_ID = xr_ID b, sg_Type = xr_Type b, sg_PID = xr_PID b, sg_Name = xr_Name b, sg_Reason = xr_Reason b,
                sg_Rule = xr_Rule b, sg_Policy = xr_Policy b\<rparr>
     in case consume (we_now env) sug (wb_issued s) of
          (st, Some e) \<Rightarrow> Some (s\<lparr>wb_issued := st\<rparr>, writeError 400 ''bad_request'' (err_text e))
        | (st, None) \<Rightarrow>
            (case ExecuteAISuggestion env sug (xr_Confirm b) (s\<lparr>wb_issued := st\<rparr>) of
               ((s, Some e), input) \<Rightarrow>
                 Some (s, if input then writeError 400 ''bad_request'' (err_text e)
                          else if from_controller e then controllerError e
                          else writeError 400 ''save_failed'' (err_text e))
             | ((s, None), input) \<Rightarrow>
                 Some (s, done_ok [(''type'', JStr (sg_Type sug)), jpid (sg_PID sug), (''name'', JStr (sg_Name sug))])))"

section \<open>Provider templates\<close>

definition preset :: "gostring \<Rightarrow> gostring \<Rightarrow> gostring \<Rightarrow> gostring \<Rightarrow> gostring \<Rightarrow> gostring \<Rightarrow> aiPreset" where
  "preset i label provider endpoint model hint =
     \<lparr>px_ID = i, px_Label = label, px_Provider = provider, px_Endpoint = endpoint, px_Model = model,
      px_APIKeyHint = hint, px_ExtraHeaders = [], px_Notes = []\<rparr>"

definition aiPresets :: "aiPreset list" where
  "aiPresets =
    [preset ''anthropic'' ''Anthropic Claude'' ''anthropic'' ''https://api.anthropic.com/v1/messages''
       ''claude-sonnet-4-20250514'' ''sk-ant-...'',
     (preset ''zai'' ''Z.AI / Zhipu (Anthropic-compatible)'' ''anthropic'' ''https://api.z.ai/api/anthropic''
       ''glm-5.1'' ''z.ai api key'')
       \<lparr>px_Notes := ''Z.AI coding plans expose an Anthropic-compatible endpoint. Popular models: glm-5.1, glm-5-turbo, glm-4.7, glm-4.6. The alternate paas endpoint https://api.z.ai/api/paas/v4/v1/messages also works.''\<rparr>,
     preset ''openai'' ''OpenAI GPT'' ''openai'' ''https://api.openai.com/v1/chat/completions'' ''gpt-5-mini'' ''sk-...'',
     (preset ''openrouter'' ''OpenRouter (multi-model)'' ''openai'' ''https://openrouter.ai/api/v1/chat/completions''
       ''openrouter/auto'' ''sk-or-v1-...'')
       \<lparr>px_ExtraHeaders := [(''HTTP-Referer'', ''http://localhost''), (''X-Title'', ''WTM'')],
         px_Notes := ''Single key, hundreds of models. openrouter/auto routes to current top models; browse https://openrouter.ai/models for explicit picks.''\<rparr>,
     preset ''groq'' ''Groq (Llama / Mixtral, fast)'' ''openai'' ''https://api.groq.com/openai/v1/chat/completions''
       ''llama-3.3-70b-versatile'' ''gsk_...'',
     preset ''deepseek'' ''DeepSeek'' ''openai'' ''https://api.deepseek.com/v1/chat/completions'' ''deepseek-chat'' ''sk-...'',
     preset ''together'' ''Together AI'' ''openai'' ''https://api.together.xyz/v1/chat/completions'' ''moonshotai/Kimi-K2.5'' ''...'',
     preset ''mistral'' ''Mistral La Plateforme'' ''openai'' ''https://api.mistral.ai/v1/chat/completions'' ''mistral-medium-2508'' ''...'',
     preset ''fireworks'' ''Fireworks AI'' ''openai'' ''https://api.fireworks.ai/inference/v1/chat/completions''
       ''accounts/fireworks/models/llama-v3p3-70b-instruct'' ''fw_...'',
     preset ''xai'' ''xAI Grok'' ''openai'' ''https://api.x.ai/v1/chat/completions'' ''grok-4.20-reasoning'' ''xai-...'',
     (preset ''ollama'' ''Ollama (local)'' ''openai'' ''http://localhost:11434/v1/chat/completions'' ''llama3.1'' ''ollama (any value)'')
       \<lparr>px_Notes := ''Run '' @ [CHR 0x60] @ ''ollama serve'' @ [CHR 0x60] @ '' then '' @ [CHR 0x60] @ ''ollama pull llama3.1'' @ [CHR 0x60]\<rparr>,
     (preset ''lmstudio'' ''LM Studio (local)'' ''openai'' ''http://localhost:1234/v1/chat/completions'' ''local-model''
       ''lm-studio (any value)'')
       \<lparr>px_Notes := ''Start LM Studio'' @ [CHR 0x27] @ ''s local server and load a model''\<rparr>,
     (preset ''custom'' ''Custom OpenAI-compatible'' ''openai'' [] [] [])
       \<lparr>px_Notes := ''Any service exposing /v1/chat/completions''\<rparr>]"

definition handleAIPresets :: handler where
  "handleAIPresets env req ps s = answer s (writeJSON 200 (PPresets aiPresets))"

section \<open>The embedded interface and the stream\<close>

definition contentTypeFor :: "gostring \<Rightarrow> gostring" where
  "contentTypeFor name =
     (let ext = to_lower (path_ext name) in
      if ext = ''.html'' then ''text/html; charset=utf-8''
      else if ext = ''.css'' then ''text/css; charset=utf-8''
      else if ext = ''.js'' \<or> ext = ''.mjs'' then ''application/javascript; charset=utf-8''
      else if ext = ''.json'' then ''application/json''
      else if ext = ''.svg'' then ''image/svg+xml''
      else if ext = ''.jpg'' \<or> ext = ''.jpeg'' then ''image/jpeg''
      else if ext = ''.png'' then ''image/png''
      else if ext = ''.webp'' then ''image/webp''
      else if ext = ''.ico'' then ''image/x-icon''
      else if ext = ''.map'' then ''application/json''
      else if ext = ''.woff'' then ''font/woff''
      else if ext = ''.woff2'' then ''font/woff2''
      else ''application/octet-stream'')"

definition serveIndexHTML :: "goerror + gostring \<Rightarrow> gostring \<Rightarrow> payload Response" where
  "serveIndexHTML content csrfToken =
     (case content of
        Inl e \<Rightarrow> http_error ''failed to read index'' 500
      | Inr body \<Rightarrow>
          \<lparr>rs_status = 200, rs_headers = [(''Content-Type'', ''text/html; charset=utf-8'')],
           rs_body = Plain (replace_all ''__WTM_CSRF_TOKEN__'' csrfToken 0 body)\<rparr>)"

definition not_found :: "payload Response" where "not_found = http_error ''404 page not found'' 404"

text \<open>A read error in the middle of a file only ends the response; what was read before is sent.\<close>

definition serveStatic :: handler where
  "serveStatic env req ps s = answer s
     (case we_static env of
        None \<Rightarrow> not_found
      | Some fetch \<Rightarrow>
          (let upath = trim_prefix (rq_Path req) ''/''; upath = (if upath = [] then ''index.html'' else upath) in
           case fetch upath of
             None \<Rightarrow>
               (case fetch ''index.html'' of
                  None \<Rightarrow> not_found
                | Some f \<Rightarrow> serveIndexHTML (sf_content f) (wb_csrf s))
           | Some f \<Rightarrow>
               if sf_is_dir f \<noteq> Inr False then not_found
               else if equal_fold upath ''index.html'' then serveIndexHTML (sf_content f) (wb_csrf s)
               else \<lparr>rs_status = 200, rs_headers = [(''Content-Type'', contentTypeFor upath)],
                     rs_body = Plain (case sf_content f of Inl e \<Rightarrow> [] | Inr body \<Rightarrow> body)\<rparr>))"

text \<open>The start of a stream: the client is registered; what follows are steps of the hub.\<close>

definition handleStream :: handler where
  "handleStream env req ps s =
     (case sse_connect (wb_hub s) of
        (h, i) \<Rightarrow>
          Some (s\<lparr>wb_hub := h\<rparr>,
            \<lparr>rs_status = 200,
             rs_headers = [(''Content-Type'', ''text/event-stream''), (''Cache-Control'', ''no-cache''),
               (''Connection'', ''keep-alive''), (''X-Accel-Buffering'', ''no'')],
             rs_body = Plain (''event: hello'' @ [CHR 0x0A] @ ''data: {'' @ [CHR 0x22] @ ''client'' @ [CHR 0x22] @ '':'' @
               nat_str (unat i) @ ''}'' @ [CHR 0x0A, CHR 0x0A])\<rparr>))"

section \<open>The routes\<close>

definition routes_table :: "(gostring \<times> gostring \<times> handler) list" where
  "routes_table =
    [(''GET'', ''/api/v1/system'', handleSystem),
     (''GET'', ''/api/v1/cpu'', handleCPU),
     (''GET'', ''/api/v1/memory'', handleMemory),
     (''GET'', ''/api/v1/gpu'', handleGPU),
     (''GET'', ''/api/v1/disk'', handleDisk),
     (''GET'', ''/api/v1/network'', handleNetwork),
     (''GET'', ''/api/v1/history'', handleHistory),
     (''GET'', ''/api/v1/info'', handleInfo),
     (''GET'', ''/api/v1/health'', handleHealth),
     (''GET'', ''/api/v1/processes'', handleProcesses),
     (''GET'', ''/api/v1/processes/tree'', handleProcessTree),
     (''GET'', ''/api/v1/processes/:pid'', handleProcessByID),
     (''GET'', ''/api/v1/processes/:pid/history'', handleProcessHistory),
     (''GET'', ''/api/v1/processes/:pid/children'', handleProcessChildren),
     (''GET'', ''/api/v1/processes/:pid/connections'', handleProcessConnections),
     (''POST'', ''/api/v1/processes/:pid/kill'', handleKill),
     (''POST'', ''/api/v1/processes/:pid/kill-tree'', handleKillTree),
     (''POST'', ''/api/v1/processes/:pid/suspend'', handleSuspend),
     (''POST'', ''/api/v1/processes/:pid/resume'', handleResume),
     (''POST'', ''/api/v1/processes/:pid/priority'', handlePriority),
     (''POST'', ''/api/v1/processes/:pid/affinity'', handleAffinity),
     (''POST'', ''/api/v1/processes/:pid/limit'', handleLimit),
     (''DELETE'', ''/api/v1/processes/:pid/limit'', handleClearLimit),
     (''GET'', ''/api/v1/processes/limits'', handleListLimits),
     (''GET'', ''/api/v1/ports'', handlePorts),
     (''GET'', ''/api/v1/connections'', handleConnections),
     (''GET'', ''/api/v1/alerts'', handleAlerts),
     (''GET'', ''/api/v1/alerts/history'', handleAlertHistory),
     (''POST'', ''/api/v1/alerts/clear'', handleAlertsClear),
     (''POST'', ''/api/v1/alerts/:type/dismiss'', handleAlertDismiss),
     (''POST'', ''/api/v1/alerts/:type/:pid/dismiss'', handleAlertDismiss),
     (''POST'', ''/api/v1/alerts/:type/snooze'', handleAlertSnooze),
     (''POST'', ''/api/v1/alerts/:type/:pid/snooze'', handleAlertSnooze),
     (''GET'', ''/api/v1/config'', handleConfigGet),
     (''PUT'', ''/api/v1/config'', handleConfigUpdate),
     (''GET'', ''/api/v1/ai/status'', handleAIStatus),
     (''GET'', ''/api/v1/ai/watch'', handleAIWatch),
     (''POST'', ''/api/v1/ai/analyze'', handleAIAnalyze),
     (''POST'', ''/api/v1/ai/chat'', handleAIChat),
     (''POST'', ''/api/v1/ai/execute'', handleAIExecute),
     (''GET'', ''/api/v1/ai/config'', handleAIConfigGet),
     (''POST'', ''/api/v1/ai/config'', handleAIConfigUpdate),
     (''GET'', ''/api/v1/ai/presets'', handleAIPresets),
     (''GET'', ''/api/v1/ai/models'', handleAIModels),
     (''POST'', ''/api/v1/ai/test'', handleAITest),
     (''GET'', ''/api/v1/telegram/config'', handleTelegramConfigGet),
     (''POST'', ''/api/v1/telegram/config'', handleTelegramConfigUpdate),
     (''POST'', ''/api/v1/telegram/test'', handleTelegramTest),
     (''GET'', ''/api/v1/rules'', handleRulesGet),
     (''POST'', ''/api/v1/rules'', handleRulesUpdate),
     (''POST'', ''/api/v1/config/protect'', handleConfigProtectToggle),
     (''POST'', ''/api/v1/config/ignore'', handleConfigIgnoreToggle),
     (''GET'', ''/api/v1/stream'', handleStream)]"

definition server_routes :: "web_env \<Rightarrow> (Server, payload) handlerfn route list" where
  "server_routes env = fold (\<lambda>(m, p, h). Handle m p (h env)) routes_table []"

definition server_middleware :: "gostring \<Rightarrow> ((Server, payload) handlerfn \<Rightarrow> (Server, payload) handlerfn) list" where
  "server_middleware csrfToken = [securityHeadersMiddleware, localOnlyMiddleware, mutationGuardMiddleware csrfToken]"

definition serve :: "web_env \<Rightarrow> Request \<Rightarrow> Server \<Rightarrow> (Server \<times> payload Response) option" where
  "serve env req s = ServeHTTP (server_middleware (wb_csrf s)) (serveStatic env) (server_routes env) req s"

text \<open>\<^verbatim>\<open>New\<close>: the token is the hexadecimal form of 32 random bytes; without randomness there is no server.\<close>

definition newCSRFSafeToken :: "goerror + gostring \<Rightarrow> goerror + gostring" where
  "newCSRFSafeToken random =
     (case random of
        Inl e \<Rightarrow> Inl (Errorf ''generate csrf token: %w'' [FWrap e])
      | Inr buf \<Rightarrow> Inr (concat (map (\<lambda>c. hex_digits ''0123456789abcdef'' (byte_val c) 2) buf)))"

definition NewServer ::
  "goerror + gostring \<Rightarrow> cfg_state \<Rightarrow> Controller \<Rightarrow> World \<Rightarrow> AlertStore \<Rightarrow> Advisor option \<Rightarrow> backgroundTracker \<Rightarrow> gostring \<Rightarrow>
     goerror + Server" where
  "NewServer random conf ctl w alerts advisor bg version =
     (case newCSRFSafeToken random of
        Inl e \<Rightarrow> Inl (Errorf ''server: generate csrf token: %w'' [FWrap e])
      | Inr token \<Rightarrow>
          Inr \<lparr>wb_conf = conf, wb_ctl = ctl, wb_world = w, wb_alerts = alerts, wb_advisor = advisor, wb_bg = bg,
               wb_issued = newAISuggestionStore (15 * minute), wb_models = sharedModelsCache, wb_hub = NewSSEHub,
               wb_csrf = token, wb_version = (if trim_space version = [] then ''dev'' else version)\<rparr>)"

end
