(* ===== verification/Guarded.thy ===== *)
theory Guarded
  imports Server
begin

text \<open>
  What the server as a whole guarantees: which requests can change anything, what they can do to the
  processes of the machine, and how a suggestion of the advisor is used up.
\<close>

section \<open>From a request to its handler\<close>

lemma best_fit_in: "best_fit meth parts rs r \<Longrightarrow> r \<in> set rs \<and> fits meth parts r"
  unfolding best_fit_def by auto

lemma rt_match_state: "\<exists>k. loop_state meth parts rs (rt_match meth parts rs) k"
  using match_loop_spec [of meth parts "[]" None "-1" rs] by (simp add: rt_match_def loop_state_def [of _ _ "[]"])

lemma rt_match_in:
  assumes "rt_match meth parts rs = Some (h, ps)"
  shows "\<exists>r\<in>set rs. fits meth parts r \<and> h = rt_handler r"
  using rt_match_state [of meth parts rs] assms unfolding loop_state_def by (auto dest: best_fit_in)

lemma rt_match_none:
  assumes "\<forall>q\<in>set rs. \<not> fits meth parts q"
  shows "rt_match meth parts rs = None"
  using rt_match_in [of meth parts rs] assms by (cases "rt_match meth parts rs") auto

lemma rt_match_some:
  assumes "q \<in> set rs" "fits meth parts q"
  shows "\<exists>h ps. rt_match meth parts rs = Some (h, ps)"
  using rt_match_state [of meth parts rs] assms unfolding loop_state_def by auto

lemma set_routes_fold:
  "set (fold (\<lambda>(m, p, h). Handle m p (f h)) ts rs) =
     set rs \<union> (\<lambda>(m, p, h). \<lparr>rt_method = to_upper m, rt_parts = splitPath p, rt_handler = f h\<rparr>) ` set ts"
  by (induction ts arbitrary: rs) (auto simp: Handle_def)

lemma set_server_routes:
  "set (server_routes env) =
     (\<lambda>(m, p, h). \<lparr>rt_method = to_upper m, rt_parts = splitPath p, rt_handler = h env\<rparr>) ` set routes_table"
  by (simp add: server_routes_def set_routes_fold)

lemma static_keeps: "serveStatic env req ps s = Some (s', r) \<Longrightarrow> s' = s"
  by (auto simp: serveStatic_def answer_def)

lemma serve_cases:
  assumes "serve env req s = Some (s', r)"
  obtains (same) "s' = s"
    | (handled) m p h ps r' where "(m, p, h) \<in> set routes_table" "to_upper m = rq_Method req"
        "list_all2 (\<lambda>part x. is_param part \<or> part = x) (splitPath p) (splitPath (rq_Path req))"
        "admitted (wb_csrf s) req" "h env req ps s = Some (s', r')"
proof (cases "rt_match (rq_Method req) (splitPath (rq_Path req)) (server_routes env)")
  case None
  then show thesis using assms same by (auto simp: serve_def ServeHTTP_def dest: static_keeps)
next
  case (Some hp)
  obtain h ps where hp: "hp = (h, ps)" by force
  obtain m p h0 where route: "(m, p, h0) \<in> set routes_table" "to_upper m = rq_Method req" "h = h0 env"
      "list_all2 (\<lambda>part x. is_param part \<or> part = x) (splitPath p) (splitPath (rq_Path req))"
    using rt_match_in [OF Some [unfolded hp]] by (auto simp: set_server_routes fits_def)
  have run: "securityHeadersMiddleware (localOnlyMiddleware (mutationGuardMiddleware (wb_csrf s) h)) req ps s = Some (s', r)"
    using assms Some hp by (simp add: serve_def ServeHTTP_def server_middleware_def)
  show thesis
  proof (cases "admitted (wb_csrf s) req")
    case True
    then have "\<exists>r'. h req ps s = Some (s', r')"
      using run by (auto simp: securityHeadersMiddleware_def passed)
    then show thesis using handled [OF route(1,2,4) True] route(3) by auto
  next
    case False
    then show thesis using refused [OF False, of h ps s] run same by auto
  qed
qed

section \<open>Reading changes nothing\<close>

text \<open>What an outsider must not change: everything but caches, counters and the list of streams.\<close>

definition control :: "Server \<Rightarrow> cfg_state \<times> Controller \<times> World \<times> AlertStore \<times> aiSuggestionStore" where
  "control s = (wb_conf s, wb_ctl s, wb_world s, wb_alerts s, wb_issued s)"

definition keeps :: "handler \<Rightarrow> bool" where
  "keeps h \<longleftrightarrow> (\<forall>env req ps s s' r. h env req ps s = Some (s', r) \<longrightarrow> control s' = control s)"

lemma upper_methods [simp]:
  "to_upper ''GET'' = ''GET''" "to_upper ''POST'' = ''POST''" "to_upper ''PUT'' = ''PUT''" "to_upper ''DELETE'' = ''DELETE''"
  by code_simp+

lemma keeps_machine:
  "keeps handleSystem" "keeps handleCPU" "keeps handleMemory" "keeps handleGPU" "keeps handleDisk" "keeps handleNetwork"
  "keeps handleHistory" "keeps handleInfo" "keeps handleHealth"
  by (auto simp: keeps_def handler_wrappers Let_def
      handleSystem_def handleCPU_def handleMemory_def handleGPU_def handleDisk_def handleNetwork_def handleHistory_def
      handleInfo_def handleHealth_def split: prod.splits)

lemma keeps_processes:
  "keeps handleProcesses" "keeps handleProcessTree" "keeps handleProcessByID" "keeps handleProcessHistory"
  "keeps handleProcessChildren" "keeps handleProcessConnections" "keeps handleListLimits" "keeps handlePorts"
  "keeps handleConnections"
  by (auto simp: keeps_def handler_wrappers Let_def
      handleProcesses_def handleProcessTree_def handleProcessByID_def handleProcessHistory_def handleProcessChildren_def
      handleProcessConnections_def handleListLimits_def handlePorts_def handleConnections_def split: sum.splits)

lemma keeps_views:
  "keeps handleAlerts" "keeps handleAlertHistory" "keeps handleConfigGet" "keeps handleAIStatus" "keeps handleAIWatch"
  "keeps handleAIConfigGet" "keeps handleAIPresets" "keeps handleAIModels" "keeps handleTelegramConfigGet"
  "keeps handleRulesGet" "keeps handleStream"
  by (auto simp: keeps_def control_def handler_wrappers Let_def
      handleAlerts_def handleAlertHistory_def handleConfigGet_def handleAIStatus_def handleAIWatch_def
      handleAIConfigGet_def handleAIPresets_def handleAIModels_def handleTelegramConfigGet_def handleRulesGet_def
      handleStream_def split: option.splits prod.splits)

lemmas keeps_all = keeps_machine keeps_processes keeps_views

lemma safe_routes: "list_all (\<lambda>(m, p, h). isSafeMethod (to_upper m) \<longrightarrow> keeps h) routes_table"
  by (simp add: routes_table_def isSafeMethod_def keeps_all)

section \<open>Which handler answers\<close>

text \<open>The table with numbers for handlers can be evaluated; a match in it is a match in the real one.\<close>

definition map_route :: "('a \<Rightarrow> 'b) \<Rightarrow> 'a route \<Rightarrow> 'b route" where
  "map_route f r = \<lparr>rt_method = rt_method r, rt_parts = rt_parts r, rt_handler = f (rt_handler r)\<rparr>"

lemma map_route_simps [simp]:
  "rt_method (map_route f r) = rt_method r" "rt_parts (map_route f r) = rt_parts r"
  "rt_handler (map_route f r) = f (rt_handler r)"
  by (simp_all add: map_route_def)

lemma match_loop_map:
  "match_loop meth parts (map (map_route f) rs) (map_option (\<lambda>(h, ps). (f h, ps)) best) k =
     map_option (\<lambda>(h, ps). (f h, ps)) (match_loop meth parts rs best k)"
proof (induction rs arbitrary: best k)
  case (Cons r rs)
  have "match_loop meth parts (map (map_route f) rs) (Some (f (rt_handler r), ps)) n =
      map_option (\<lambda>(h, ps). (f h, ps)) (match_loop meth parts rs (Some (rt_handler r, ps)) n)" for ps n
    using Cons.IH [of "Some (rt_handler r, ps)" n] by simp
  then show ?case
    by (simp add: match_loop.simps(2) Cons.IH split: option.splits)
qed simp

lemma rt_match_map: "rt_match meth parts (map (map_route f) rs) = map_option (\<lambda>(h, ps). (f h, ps)) (rt_match meth parts rs)"
  using match_loop_map [of meth parts f rs None "-1"] by (simp add: rt_match_def)

lemma route_paths:
  "map (\<lambda>(m, p, h). (to_upper m, splitPath p)) routes_table =
     [(''GET'', [''api'', ''v1'', ''system'']), (''GET'', [''api'', ''v1'', ''cpu'']),
      (''GET'', [''api'', ''v1'', ''memory'']), (''GET'', [''api'', ''v1'', ''gpu'']),
      (''GET'', [''api'', ''v1'', ''disk'']), (''GET'', [''api'', ''v1'', ''network'']),
      (''GET'', [''api'', ''v1'', ''history'']), (''GET'', [''api'', ''v1'', ''info'']),
      (''GET'', [''api'', ''v1'', ''health'']), (''GET'', [''api'', ''v1'', ''processes'']),
      (''GET'', [''api'', ''v1'', ''processes'', ''tree'']), (''GET'', [''api'', ''v1'', ''processes'', '':pid'']),
      (''GET'', [''api'', ''v1'', ''processes'', '':pid'', ''history'']),
      (''GET'', [''api'', ''v1'', ''processes'', '':pid'', ''children'']),
      (''GET'', [''api'', ''v1'', ''processes'', '':pid'', ''connections'']),
      (''POST'', [''api'', ''v1'', ''processes'', '':pid'', ''kill'']),
      (''POST'', [''api'', ''v1'', ''processes'', '':pid'', ''kill-tree'']),
      (''POST'', [''api'', ''v1'', ''processes'', '':pid'', ''suspend'']),
      (''POST'', [''api'', ''v1'', ''processes'', '':pid'', ''resume'']),
      (''POST'', [''api'', ''v1'', ''processes'', '':pid'', ''priority'']),
      (''POST'', [''api'', ''v1'', ''processes'', '':pid'', ''affinity'']),
      (''POST'', [''api'', ''v1'', ''processes'', '':pid'', ''limit'']),
      (''DELETE'', [''api'', ''v1'', ''processes'', '':pid'', ''limit'']),
      (''GET'', [''api'', ''v1'', ''processes'', ''limits'']), (''GET'', [''api'', ''v1'', ''ports'']),
      (''GET'', [''api'', ''v1'', ''connections'']), (''GET'', [''api'', ''v1'', ''alerts'']),
      (''GET'', [''api'', ''v1'', ''alerts'', ''history'']), (''POST'', [''api'', ''v1'', ''alerts'', ''clear'']),
      (''POST'', [''api'', ''v1'', ''alerts'', '':type'', ''dismiss'']),
      (''POST'', [''api'', ''v1'', ''alerts'', '':type'', '':pid'', ''dismiss'']),
      (''POST'', [''api'', ''v1'', ''alerts'', '':type'', ''snooze'']),
      (''POST'', [''api'', ''v1'', ''alerts'', '':type'', '':pid'', ''snooze'']),
      (''GET'', [''api'', ''v1'', ''config'']), (''PUT'', [''api'', ''v1'', ''config'']),
      (''GET'', [''api'', ''v1'', ''ai'', ''status'']), (''GET'', [''api'', ''v1'', ''ai'', ''watch'']),
      (''POST'', [''api'', ''v1'', ''ai'', ''analyze'']), (''POST'', [''api'', ''v1'', ''ai'', ''chat'']),
      (''POST'', [''api'', ''v1'', ''ai'', ''execute'']), (''GET'', [''api'', ''v1'', ''ai'', ''config'']),
      (''POST'', [''api'', ''v1'', ''ai'', ''config'']), (''GET'', [''api'', ''v1'', ''ai'', ''presets'']),
      (''GET'', [''api'', ''v1'', ''ai'', ''models'']), (''POST'', [''api'', ''v1'', ''ai'', ''test'']),
      (''GET'', [''api'', ''v1'', ''telegram'', ''config'']), (''POST'', [''api'', ''v1'', ''telegram'', ''config'']),
      (''POST'', [''api'', ''v1'', ''telegram'', ''test'']), (''GET'', [''api'', ''v1'', ''rules'']),
      (''POST'', [''api'', ''v1'', ''rules'']), (''POST'', [''api'', ''v1'', ''config'', ''protect'']),
      (''POST'', [''api'', ''v1'', ''config'', ''ignore'']), (''GET'', [''api'', ''v1'', ''stream''])]"
  by (simp add: routes_table_def splitPath_def trim_byte_def trim_right_byte_def Let_def)

definition numbered_routes :: "nat route list" where
  "numbered_routes =
     map (\<lambda>(i, m, parts). \<lparr>rt_method = m, rt_parts = parts, rt_handler = i\<rparr>)
       (enumerate 0 (map (\<lambda>(m, p, h). (to_upper m, splitPath p)) routes_table))"

lemma fold_Handle:
  "fold (\<lambda>(m, p, h). Handle m p (f h)) ts rs =
     rs @ map (\<lambda>(m, p, h). \<lparr>rt_method = to_upper m, rt_parts = splitPath p, rt_handler = f h\<rparr>) ts"
  by (induction ts arbitrary: rs) (auto simp: Handle_def)

lemma server_routes_numbered:
  "server_routes env = map (map_route (\<lambda>i. snd (snd (routes_table ! i)) env)) numbered_routes"
  by (rule nth_equalityI)
     (auto simp: server_routes_def fold_Handle numbered_routes_def nth_enumerate_eq map_route_def split: prod.splits)

lemma which_handler:
  assumes "rt_match meth parts numbered_routes = Some (i, ps)"
  shows "rt_match meth parts (server_routes env) = Some (snd (snd (routes_table ! i)) env, ps)"
  using assms by (simp add: server_routes_numbered rt_match_map)

lemma numbered_examples:
  "rt_match ''POST'' [''api'', ''v1'', ''processes'', ''8000'', ''kill''] numbered_routes = Some (15, [(''pid'', ''8000'')])"
  "rt_match ''GET'' [''api'', ''v1'', ''processes'', ''limits''] numbered_routes = Some (23, [])"
  by (simp_all add: rt_match_def numbered_routes_def route_paths match_loop.simps(2) is_param_def has_prefix_def)

lemma long_routes: "list_all (\<lambda>(m, parts). 3 \<le> length parts) (map (\<lambda>(m, p, h). (to_upper m, splitPath p)) routes_table)"
  by (simp add: route_paths)

text \<open>A server on a machine with one process, and a request that asks to end it.\<close>

definition no_body :: "'v decoder" where
  "no_body = (\<lambda>b strict. Inl (ErrNew ''EOF''))"

definition demo_web :: web_env where
  "demo_web =
     \<lparr>we_now = 50, we_os = demo_os [app_proc] [], we_load = calm_env, we_call = demo_call 0, we_sort = (\<lambda>_. id),
       we_static = Some (\<lambda>p. if p = ''index.html'' then Some \<lparr>sf_is_dir = Inr False, sf_content = Inr ''token: __WTM_CSRF_TOKEN__''\<rparr> else None),
       we_getMe = (\<lambda>_. GMTimeout), we_runtime = (''go1.23'', 8, 20, 1234),
       we_priority = no_body, we_affinity = no_body,
       we_limit = no_body, we_rules = no_body,
       we_settings = no_body, we_prompt = (\<lambda>b strict. Inr (b, False)),
       we_message = (\<lambda>b strict. Inr (b, False)),
       we_execute = (\<lambda>b strict. Inr (\<lparr>xr_ID = ''a1'', xr_Type = ''kill'', xr_PID = 77, xr_Confirm = (b = ''confirm''), xr_Name = ''x.exe'',
          xr_Rule = None, xr_Reason = [], xr_Policy = None\<rparr>, False)),
       we_ai = no_body, we_telegram = no_body,
       we_protect = no_body, we_ignore = no_body\<rparr>"

definition demo_server :: Server where
  "demo_server =
     \<lparr>wb_conf = fresh_cfg, wb_ctl = demo_controller, wb_world = world0, wb_alerts = NewAlertStore 200, wb_advisor = None,
      wb_bg = zero_tracker, wb_issued = newAISuggestionStore (15 * minute), wb_models = sharedModelsCache, wb_hub = NewSSEHub,
      wb_csrf = ''c0ffee'', wb_version = ''dev''\<rparr>"

definition kill_request :: "gostring \<Rightarrow> Request" where
  "kill_request peer =
     \<lparr>rq_Method = ''POST'', rq_Path = ''/api/v1/processes/8000/kill'', rq_RemoteAddr = peer, rq_Host = ''127.0.0.1:19876'',
      rq_header = (\<lambda>k. if k = ''Origin'' then ''http://127.0.0.1:19876'' else if k = ''X-WTM-CSRF'' then ''c0ffee'' else []),
      rq_query = (\<lambda>_. []), rq_Body = Some []\<rparr>"

text \<open>
  C2. Nobody changes anything by a link, from another machine or from another site. Whatever request the
  server answers, if the configuration, the limits, the processes, the alerts or the issued suggestions
  are not what they were before, then the request used a method that is not safe, came from a loopback
  address, named an origin on this machine and carried the token; and a request for a known route that
  is not admitted in this sense changes nothing and is answered with status 403.
\<close>

theorem mutation_guarded:
  assumes "serve env req s = Some (s', r)"
  shows "(control s' \<noteq> control s \<longrightarrow>
            \<not> isSafeMethod (rq_Method req) \<and> local_peer req \<and> validOrigin req \<and> rq_header req ''X-WTM-CSRF'' = wb_csrf s)
       \<and> ((\<exists>q\<in>set (server_routes env). fits (rq_Method req) (splitPath (rq_Path req)) q) \<and> \<not> admitted (wb_csrf s) req \<longrightarrow>
            s' = s \<and> rs_status r = 403)"
proof (intro conjI impI)
  assume changed: "control s' \<noteq> control s"
  from assms show "\<not> isSafeMethod (rq_Method req)"
  proof (cases rule: serve_cases)
    case (handled m p h ps r')
    then show ?thesis using safe_routes changed unfolding list_all_iff keeps_def by fastforce
  qed (use changed in simp)
  from assms have "admitted (wb_csrf s) req"
    by (cases rule: serve_cases) (use changed in auto)
  with \<open>\<not> isSafeMethod (rq_Method req)\<close>
  show "local_peer req" "validOrigin req" "rq_header req ''X-WTM-CSRF'' = wb_csrf s"
    by (simp_all add: admitted_def)
next
  assume "(\<exists>q\<in>set (server_routes env). fits (rq_Method req) (splitPath (rq_Path req)) q) \<and> \<not> admitted (wb_csrf s) req"
  then obtain q where q: "q \<in> set (server_routes env)" "fits (rq_Method req) (splitPath (rq_Path req)) q"
    and no: "\<not> admitted (wb_csrf s) req" by blast
  obtain h ps where "rt_match (rq_Method req) (splitPath (rq_Path req)) (server_routes env) = Some (h, ps)"
    using rt_match_some [OF q] by blast
  then show "s' = s" "rs_status r = 403"
    using assms refused [OF no, of h ps s] by (auto simp: serve_def ServeHTTP_def server_middleware_def)
qed


lemma kill_route:
  "\<exists>q\<in>set (server_routes env). fits (rq_Method (kill_request peer)) (splitPath (rq_Path (kill_request peer))) q"
  "rt_match (rq_Method (kill_request peer)) (splitPath (rq_Path (kill_request peer))) (server_routes env) =
     Some (handleKill env, [(''pid'', ''8000'')])"
proof -
  have path: "splitPath ''/api/v1/processes/8000/kill'' = [''api'', ''v1'', ''processes'', ''8000'', ''kill'']"
    by (simp add: splitPath_def trim_byte_def trim_right_byte_def Let_def)
  have table: "snd (snd (routes_table ! 15)) = handleKill" by (simp add: routes_table_def)
  show m: "rt_match (rq_Method (kill_request peer)) (splitPath (rq_Path (kill_request peer))) (server_routes env) =
     Some (handleKill env, [(''pid'', ''8000'')])"
    using which_handler [OF numbered_examples(1), of env] by (simp add: kill_request_def path table)
  show "\<exists>q\<in>set (server_routes env). fits (rq_Method (kill_request peer)) (splitPath (rq_Path (kill_request peer))) q"
    using rt_match_in [OF m] by auto
qed

theorem mutation_guarded_witness:
  "\<exists>r. serve demo_web (kill_request ''10.0.0.5:5000'') demo_server = Some (demo_server, r) \<and> rs_status r = 403"
proof -
  let ?q = "kill_request ''10.0.0.5:5000''"
  have "split_host_port ''10.0.0.5:5000'' = Some (''10.0.0.5'', ''5000'')" "\<not> loopback_host ''10.0.0.5''" by code_simp+
  then have no: "\<not> admitted (wb_csrf demo_server) ?q"
    by (simp add: admitted_def local_peer_def kill_request_def)
  obtain s' r where "serve demo_web ?q demo_server = Some (s', r)"
    using refused [OF no, of "handleKill demo_web" "[(''pid'', ''8000'')]" demo_server]
    by (auto simp: serve_def ServeHTTP_def kill_route server_middleware_def)
  then show ?thesis
    using mutation_guarded [of demo_web ?q demo_server s' r] kill_route(1) no by auto
qed

section \<open>The page is outside the guards\<close>

lemma split_root: "splitPath ''/'' = []" "splitPath ''/index.html'' = [''index.html'']"
  by (simp_all add: splitPath_def trim_byte_def trim_right_byte_def Let_def)

text \<open>
  C36. A path no route fits is served outside the middleware: neither the address of the peer nor the
  method is looked at and the security headers are not set. So the page with the token that the guarded
  requests need is handed, with status 200, to any peer that reaches the port, whatever its address.
\<close>

theorem page_unguarded:
  assumes "rq_Path req = ''/'' \<or> rq_Path req = ''/index.html''"
    and "we_static env = Some fetch" "fetch ''index.html'' = Some f" "sf_is_dir f = Inr False" "sf_content f = Inr page"
  shows "serve env req s =
    Some (s, \<lparr>rs_status = 200, rs_headers = [(''Content-Type'', ''text/html; charset=utf-8'')],
      rs_body = Plain (replace_all ''__WTM_CSRF_TOKEN__'' (wb_csrf s) 0 page)\<rparr>)"
proof -
  have "length (splitPath (rq_Path req)) < 3" using assms(1) by (auto simp: split_root)
  moreover have "3 \<le> length (rt_parts q)" if "q \<in> set (server_routes env)" for q
    using that long_routes by (auto simp: set_server_routes list_all_iff)
  ultimately have "rt_match (rq_Method req) (splitPath (rq_Path req)) (server_routes env) = None"
    by (intro rt_match_none) (fastforce simp: fits_def dest: list_all2_lengthD)
  moreover have "trim_prefix ''/'' ''/'' = []" "trim_prefix ''/index.html'' ''/'' = ''index.html''"
      "equal_fold ''index.html'' ''index.html''"
    by code_simp+
  ultimately show ?thesis
    using assms by (auto simp: serve_def ServeHTTP_def serveStatic_def serveIndexHTML_def answer_def Let_def)
qed

theorem page_unguarded_witness:
  "serve demo_web ((kill_request ''10.0.0.5:5000'')\<lparr>rq_Path := ''/''\<rparr>) demo_server =
    Some (demo_server, \<lparr>rs_status = 200, rs_headers = [(''Content-Type'', ''text/html; charset=utf-8'')],
      rs_body = Plain ''token: c0ffee''\<rparr>)"
proof -
  have "replace_all ''__WTM_CSRF_TOKEN__'' ''c0ffee'' 0 ''token: __WTM_CSRF_TOKEN__'' = ''token: c0ffee''" by code_simp
  then show ?thesis
    using page_unguarded [of "(kill_request ''10.0.0.5:5000'')\<lparr>rq_Path := ''/''\<rparr>" demo_web _ _ "''token: __WTM_CSRF_TOKEN__''" demo_server]
    by (simp add: demo_web_def demo_server_def)
qed

section \<open>What a request does to processes\<close>

lemma keeps_world: "keeps h \<Longrightarrow> h env req ps s = Some (s', r) \<Longrightarrow> wb_world s' = wb_world s"
  unfolding keeps_def control_def by blast

text \<open>The other requests that touch no process.\<close>

definition still :: "handler \<Rightarrow> bool" where
  "still h \<longleftrightarrow> (\<forall>env req ps s s' r. h env req ps s = Some (s', r) \<longrightarrow> wb_world s' = wb_world s)"

lemma still_keeps: "keeps h \<Longrightarrow> still h"
  unfolding still_def using keeps_world by blast

lemma still_config:
  "still handleConfigUpdate" "still handleRulesUpdate" "still handleTelegramConfigUpdate" "still handleTelegramTest"
  "still handleConfigProtectToggle" "still handleConfigIgnoreToggle" "still handleAIConfigUpdate"
  by (auto simp: still_def handler_wrappers Let_def replace_config_def toggled_def
      handleConfigUpdate_def handleRulesUpdate_def handleTelegramConfigUpdate_def handleTelegramTest_def
      handleConfigProtectToggle_def handleConfigIgnoreToggle_def handleAIConfigUpdate_def
      split: option.splits prod.splits sum.splits if_splits persist_error.splits get_me.splits)

lemma still_advice:
  "still handleAIAnalyze" "still handleAIChat" "still handleAITest"
  "still handleAlertsClear" "still handleAlertDismiss" "still handleAlertSnooze"
  by (auto simp: still_def handler_wrappers Let_def rememberAISuggestions_def
      handleAIAnalyze_def handleAIChat_def handleAITest_def handleAlertsClear_def handleAlertDismiss_def
      handleAlertSnooze_def split: option.splits prod.splits sum.splits if_splits)

definition watched :: "handler \<Rightarrow> bool" where
  "watched h \<longleftrightarrow> (\<forall>env req ps s s' r. h env req ps s = Some (s', r) \<longrightarrow>
     monitored (we_os env) (wb_ctl s) (confirmed req) (wb_world s) (wb_world s'))"

lemma watched_still: "still h \<Longrightarrow> watched h"
  unfolding watched_def still_def using monitored_refl by metis

lemma watched_acts:
  "watched handleKill" "watched handleSuspend" "watched handlePriority" "watched handleAffinity"
  "watched handleLimit" "watched handleClearLimit"
  using monitored_Kill monitored_Suspend monitored_SetPriority monitored_SetAffinity monitored_Limit monitored_ClearLimit
  by (auto simp: watched_def handler_wrappers monitored_refl handleKill_def handleSuspend_def handlePriority_def
      handleAffinity_def handleLimit_def handleClearLimit_def split: sum.splits prod.splits) (metis fst_conv snd_conv)+

lemma watched_KillTree: "watched handleKillTree"
  unfolding watched_def
proof (intro allI impI)
  fix env req ps s s' r
  assume "handleKillTree env req ps s = Some (s', r)"
  then have "s' = s \<or> (\<exists>p w n e. KillTree (we_os env) (wb_ctl s) p (confirmed req) (wb_world s) = Some (w, n, e) \<and> wb_world s' = w)"
    by (auto simp: handleKillTree_def handler_wrappers Let_def split: sum.splits option.splits if_splits)
  then show "monitored (we_os env) (wb_ctl s) (confirmed req) (wb_world s) (wb_world s')"
    using monitored_refl monitored_KillTree by blast
qed

lemmas watched_all =
  watched_acts watched_KillTree still_config [THEN watched_still] still_advice [THEN watched_still]
  keeps_all [THEN still_keeps, THEN watched_still]

lemma exec_config_world [simp]: "wb_world (fst (exec_config env change s)) = wb_world s"
  by (simp add: exec_config_def split: prod.splits)

lemma exec_input_simp [simp]: "exec_input msg s = (s, Some (ErrNew msg))"
  by (simp add: exec_input_def)

lemma watched_execution:
  "monitored (we_os env) (wb_ctl s) confirm (wb_world s) (wb_world (fst (fst (ExecuteAISuggestion env sug confirm s))))"
  using monitored_Kill [of "we_os env" "wb_ctl s" confirm "wb_world s" "sg_PID sug"]
    monitored_Suspend [of "we_os env" "wb_ctl s" confirm "wb_world s" "sg_PID sug"]
  by (auto simp: ExecuteAISuggestion_def Let_def monitored_refl split: prod.splits sum.splits)

lemma watched_execute:
  assumes "handleAIExecute env req ps s = Some (s', r)"
  shows "\<exists>b. monitored (we_os env) (wb_ctl s) b (wb_world s) (wb_world s')"
proof (cases "readJSON (we_execute env) req :: payload Response + aiExecuteRequest")
  case (Inr b)
  let ?sug = "\<lparr>sg_ID = xr_ID b, sg_Type = xr_Type b, sg_PID = xr_PID b, sg_Name = xr_Name b, sg_Reason = xr_Reason b,
                sg_Rule = xr_Rule b, sg_Policy = xr_Policy b\<rparr>"
  obtain st e where c: "consume (we_now env) ?sug (wb_issued s) = (st, e)" by force
  then show ?thesis
    using assms Inr watched_execution [of env "s\<lparr>wb_issued := st\<rparr>" "xr_Confirm b" ?sug] monitored_refl
    by (auto simp: handleAIExecute_def handler_wrappers Let_def split: option.splits prod.splits)
next
  case (Inl e)
  then show ?thesis using assms monitored_refl by (auto simp: handleAIExecute_def handler_wrappers)
qed

definition watched_route :: "gostring \<times> gostring \<times> handler \<Rightarrow> bool" where
  "watched_route = (\<lambda>(m, p, h). watched h \<or> p = ''/api/v1/ai/execute'' \<and> h = handleAIExecute \<or> p = ''/api/v1/processes/:pid/resume'')"

lemma watched_routes: "list_all watched_route routes_table"
  by (simp add: routes_table_def watched_route_def watched_all)

lemma split_resume:
  "splitPath ''/api/v1/processes/:pid/resume'' = [''api'', ''v1'', ''processes'', '':pid'', ''resume'']"
  "splitPath ''/api/v1/ai/execute'' = [''api'', ''v1'', ''ai'', ''execute'']"
  by (simp_all add: splitPath_def trim_byte_def trim_right_byte_def Let_def)

text \<open>
  C4. No request reaches a process past the safety policy, except to resume one. Whatever request the
  server answers, other than one to resume a process, every process and thread it opened was cleared by
  the policy at the look at the store just before, and it acted only on those. It counted as confirmed
  only if the query said so, or for a suggestion the body.
\<close>

theorem http_operations_guarded:
  assumes "serve env req s = Some (s', r)"
    and "\<forall>p. splitPath (rq_Path req) \<noteq> [''api'', ''v1'', ''processes'', p, ''resume'']"
  shows "\<exists>b. monitored (we_os env) (wb_ctl s) b (wb_world s) (wb_world s') \<and>
    (b \<longrightarrow> confirmed req \<or> splitPath (rq_Path req) = [''api'', ''v1'', ''ai'', ''execute''])"
  using assms(1)
proof (cases rule: serve_cases)
  case (handled m p h ps r')
  have "watched_route (m, p, h)" using watched_routes handled(1) by (auto simp: list_all_iff)
  then consider (watched) "watched h" | (execute) "p = ''/api/v1/ai/execute''" "h = handleAIExecute"
    | (resume) "p = ''/api/v1/processes/:pid/resume''"
    by (auto simp: watched_route_def)
  then show ?thesis
  proof cases
    case watched
    then show ?thesis using handled(5) unfolding watched_def by blast
  next
    case execute
    then have "splitPath (rq_Path req) = [''api'', ''v1'', ''ai'', ''execute'']"
      using handled(3) by (auto simp: split_resume is_param_def has_prefix_def list_all2_Cons1)
    then show ?thesis using watched_execute handled(5) execute(2) by blast
  next
    case resume
    then have "\<exists>q. splitPath (rq_Path req) = [''api'', ''v1'', ''processes'', q, ''resume'']"
      using handled(3) by (auto simp: split_resume is_param_def has_prefix_def list_all2_Cons1)
    then show ?thesis using assms(2) by blast
  qed
qed (use monitored_refl in blast)

lemma kill_admitted: "admitted (wb_csrf demo_server) (kill_request ''127.0.0.1:5000'')"
proof -
  have "split_host_port ''127.0.0.1:5000'' = Some (''127.0.0.1'', ''5000'')" "loopback_host ''127.0.0.1''"
    "validOrigin (kill_request ''127.0.0.1:5000'')"
    by code_simp+
  then show ?thesis by (simp add: admitted_def local_peer_def kill_request_def demo_server_def)
qed

theorem http_operations_guarded_witness:
  "\<exists>s' r b. serve demo_web (kill_request ''127.0.0.1:5000'') demo_server = Some (s', r) \<and>
     SysTerminate 101 1 \<in> set (w_trace (wb_world s')) \<and>
     monitored (demo_os [app_proc] []) demo_controller b world0 (wb_world s')"
proof -
  let ?q = "kill_request ''127.0.0.1:5000''"
  obtain w' e where k: "Kill (demo_os [app_proc] []) demo_controller 8000 False world0 = (w', e)" by fastforce
  have killed: "SysTerminate 101 1 \<in> set (w_trace w')"
    using k by (auto simp: Kill_def monitor_simps world0_def)
  have "digit_char 8 = CHR ''8''" "digit_char 0 = CHR ''0''" by code_simp+
  then have "nat_str 8000 = ''8000''" by (simp add: nat_str.simps)
  then have pid: "parsePIDParam [(''pid'', ''8000'')] = (Inr 8000 :: payload Response + pid)"
    using parsePIDParam_print [of 8000] by simp
  have server: "wb_ctl demo_server = demo_controller" "wb_world demo_server = world0" "we_os demo_web = demo_os [app_proc] []"
    by (simp_all add: demo_server_def demo_web_def)
  have "confirmed ?q = False" by (simp add: confirmed_def kill_request_def)
  then obtain s' r where h: "handleKill demo_web ?q [(''pid'', ''8000'')] demo_server = Some (s', r)" "wb_world s' = w'"
    by (auto simp: handleKill_def handler_wrappers pid server k)
  then obtain r' where run: "serve demo_web ?q demo_server = Some (s', r')"
    using passed [OF kill_admitted, of "handleKill demo_web" "[(''pid'', ''8000'')]" demo_server]
    by (auto simp: serve_def ServeHTTP_def kill_route server_middleware_def securityHeadersMiddleware_def)
  have "splitPath (rq_Path ?q) \<noteq> [''api'', ''v1'', ''processes'', p, ''resume'']" for p
    by (simp add: kill_request_def splitPath_def trim_byte_def trim_right_byte_def Let_def)
  then show ?thesis
    using http_operations_guarded [OF run] run h(2) killed server by auto
qed

section \<open>A suggestion is used up by the attempt\<close>

definition suggested :: "aiExecuteRequest \<Rightarrow> Suggestion" where
  "suggested b =
     \<lparr>sg_ID = xr_ID b, sg_Type = xr_Type b, sg_PID = xr_PID b, sg_Name = xr_Name b, sg_Reason = xr_Reason b,
      sg_Rule = xr_Rule b, sg_Policy = xr_Policy b\<rparr>"

text \<open>The body of a request is a request to execute.\<close>

definition asks :: "web_env \<Rightarrow> Request \<Rightarrow> aiExecuteRequest \<Rightarrow> bool" where
  "asks env req b \<longleftrightarrow> (readJSON (we_execute env) req :: payload Response + aiExecuteRequest) = Inr b"

lemma exec_issued [simp]: "wb_issued (fst (fst (ExecuteAISuggestion env sug confirm s))) = wb_issued s"
  by (auto simp: ExecuteAISuggestion_def exec_config_def Let_def split: prod.splits sum.splits)

lemma execute_issued:
  assumes "handleAIExecute env req ps s = Some (s', r)" and "asks env req b"
  shows "wb_issued s' = fst (consume (we_now env) (suggested b) (wb_issued s))"
proof -
  obtain st e where c: "consume (we_now env) (suggested b) (wb_issued s) = (st, e)" by force
  obtain s1 e1 input where x: "ExecuteAISuggestion env (suggested b) (xr_Confirm b) (s\<lparr>wb_issued := st\<rparr>) = ((s1, e1), input)"
    by (metis prod.collapse)
  then have "wb_issued s1 = st" using exec_issued [of env "suggested b" "xr_Confirm b" "s\<lparr>wb_issued := st\<rparr>"] by simp
  then show ?thesis
    using assms c x by (auto simp: handleAIExecute_def handler_wrappers suggested_def asks_def split: option.splits)
qed

lemma consumed_is_gone:
  assumes "wf_map (xs_items st)" and "consume now e st = (st', None)" and "trim_space (sg_ID e') = trim_space (sg_ID e)"
  shows "consume later e' st' = (pruneLocked later st', Some (ErrNew ''suggestion not found or expired''))"
proof -
  have "mget (xs_items st') (trim_space (sg_ID e)) = None" "trim_space (sg_ID e) \<noteq> []"
    using assms(1,2) by (auto simp: consume_def Let_def split: option.splits if_splits)
  moreover have "wf_map (xs_items st')"
    using assms(1,2) by (auto simp: consume_def pruneLocked_def Let_def split: option.splits if_splits)
  ultimately show ?thesis
    using assms(3) by (simp add: consume_def pruneLocked_def mget_prune Let_def)
qed

text \<open>
  Executing a suggestion uses it up, also when nothing comes of it. Once the server has matched a
  request to a suggestion it issued, any later request for the same suggestion is answered that it is not
  found and changes neither a process nor the configuration, until the advisor issues it again. So a kill
  that is refused because it needs to be confirmed, with status 409, cannot be repeated with the
  confirmation the answer asks for.
\<close>

theorem execution_uses_up:
  assumes "wf_map (xs_items (wb_issued s))"
    and "asks env req b" and "consume (we_now env) (suggested b) (wb_issued s) = (st, None)"
    and "handleAIExecute env req ps s = Some (s', r)"
    and "asks env2 req2 b2" and "trim_space (xr_ID b2) = trim_space (xr_ID b)"
  shows "handleAIExecute env2 req2 ps2 s' =
    Some (s'\<lparr>wb_issued := pruneLocked (we_now env2) (wb_issued s')\<rparr>,
      writeError 400 ''bad_request'' ''suggestion not found or expired'')"
proof -
  have "wb_issued s' = st" using execute_issued [OF assms(4,2)] assms(3) by simp
  moreover have "trim_space (sg_ID (suggested b2)) = trim_space (sg_ID (suggested b))"
    using assms(6) by (simp add: suggested_def)
  ultimately have "consume (we_now env2) (suggested b2) (wb_issued s') =
      (pruneLocked (we_now env2) (wb_issued s'), Some (ErrNew ''suggestion not found or expired''))"
    using consumed_is_gone [OF assms(1,3)] by simp
  then show ?thesis
    using assms(5) by (simp add: handleAIExecute_def handler_wrappers suggested_def asks_def)
qed

text \<open>The program the suggestion names lies in the Windows directory, so ending it needs a confirmation.\<close>

definition system_proc :: ProcessInfo where
  "system_proc = zero_proc\<lparr>p_PID := 77, p_Name := ''x.exe'', p_ExePath := ''C:/Windows/x.exe''\<rparr>"

definition asking_web :: web_env where
  "asking_web = demo_web\<lparr>we_os := demo_os [system_proc] [],
     we_execute := (\<lambda>b strict. Inr (\<lparr>xr_ID = ''a1'', xr_Type = ''kill'', xr_PID = 77, xr_Confirm = (b = ''confirm''), xr_Name = ''x.exe'',
          xr_Rule = None, xr_Reason = [], xr_Policy = None\<rparr>, True))\<rparr>"

definition asking_server :: Server where
  "asking_server = demo_server\<lparr>wb_issued := \<lparr>xs_ttl = 100, xs_items = [(''a1'', \<lparr>is_suggestion = demo_sug, is_expiresAt = 105\<rparr>)]\<rparr>\<rparr>"

definition execute_request :: "gostring \<Rightarrow> Request" where
  "execute_request body = (kill_request ''127.0.0.1:5000'')\<lparr>rq_Path := ''/api/v1/ai/execute'', rq_Body := Some body\<rparr>"

theorem execution_uses_up_witness:
  "\<exists>s' r. handleAIExecute asking_web (execute_request []) [] asking_server = Some (s', r) \<and> rs_status r = 409 \<and>
     handleAIExecute asking_web (execute_request ''confirm'') [] s' =
       Some (s'\<lparr>wb_issued := pruneLocked 50 (wb_issued s')\<rparr>, writeError 400 ''bad_request'' ''suggestion not found or expired'')"
proof -
  let ?b = "\<lambda>c. \<lparr>xr_ID = ''a1'', xr_Type = ''kill'', xr_PID = 77, xr_Confirm = c, xr_Name = ''x.exe'', xr_Rule = None,
      xr_Reason = [], xr_Policy = None\<rparr> :: aiExecuteRequest"
  have b0: "asks asking_web (execute_request []) (?b False)" and b1: "asks asking_web (execute_request ''confirm'') (?b True)"
    by (simp_all add: asks_def readJSON_def execute_request_def asking_web_def maxJSONBodyBytes_def Let_def)
  have sug: "suggested (?b c) = demo_sug" for c by (simp add: suggested_def demo_sug_def)
  have now: "we_now asking_web = 50" by (simp add: asking_web_def demo_web_def)
  have c: "consume (we_now asking_web) (suggested (?b False)) (wb_issued asking_server) = (\<lparr>xs_ttl = 100, xs_items = []\<rparr>, None)"
    using demo_issue(2) by (simp add: now sug asking_server_def)
  have wf: "wf_map (xs_items (wb_issued asking_server))"
    by (simp add: asking_server_def wf_map_def)
  have sys: "isSystemPath [] ''C:/Windows/x.exe''" by code_simp
  have ask: "Check [] (ct_safety demo_controller) system_proc False = Some ErrConfirmNeeded"
    using sys by (simp add: demo_controller_def NewController_def newSafetyWithPID_def Check_def is_protected_name_def
        system_proc_def default_controller_def zero_proc_def)
  have "snd (Kill (demo_os [system_proc] []) demo_controller 77 False world0) = Some ErrConfirmNeeded"
    using ask by (simp add: Kill_def monitor_simps world0_def system_proc_def)
  then obtain w where k: "Kill (demo_os [system_proc] []) demo_controller 77 False world0 = (w, Some ErrConfirmNeeded)"
    by (metis prod.collapse)
  have "trim_space ''kill'' = ''kill''" "to_lower ''kill'' = ''kill''" by code_simp+
  then obtain s' r where h: "handleAIExecute asking_web (execute_request []) [] asking_server = Some (s', r)" "rs_status r = 409"
    using b0 c k sug [of False] by (auto simp: handleAIExecute_def handler_wrappers suggested_def ExecuteAISuggestion_def asking_web_def asking_server_def
        demo_server_def asks_def from_controller_def controllerError_def writeError_def controller_errors errors_Is_def demo_sug_def)
  then show ?thesis
    using execution_uses_up [OF wf b0 c h(1) b1, of "[]"] now by auto
qed
end
