(* ===== verification/BotText.thy ===== *)
theory BotText
  imports Advice Config Alerts
begin

text \<open>
  The pure part of \<^verbatim>\<open>internal/telegram/bot.go\<close>: how a message is read as a command, how processes,
  sizes and times are written, which alerts are worth a message, and the codes that confirm an action.
  Sizes are lengths in bytes.
\<close>

section \<open>Reading a message\<close>

definition parseCommand :: "gostring \<Rightarrow> gostring \<times> gostring list" where
  "parseCommand text =
     (case str_fields (trim_space text) of
        [] \<Rightarrow> ([], [])
      | w # args \<Rightarrow>
          (let cmd = trim_prefix w ''/'';
               cmd = (case index_byte cmd (CHR 0x40) of Some i \<Rightarrow> take i cmd | None \<Rightarrow> cmd)
           in (to_lower cmd, args)))"

definition is_force :: "gostring \<Rightarrow> bool" where
  "is_force arg \<longleftrightarrow> (let u = to_upper arg in u = ''/F'' \<or> u = ''-F'' \<or> u = ''--FORCE'')"

definition parseTaskkillArgs :: "gostring list \<Rightarrow> gostring \<times> bool" where
  "parseTaskkillArgs args =
     (let filtered = filter (\<lambda>arg. \<not> is_force arg \<and> \<not> (to_upper arg = ''/IM'' \<and> 1 < length args)) args;
          force = list_ex is_force args
      in if filtered = [] then ([], force) else (last filtered, force))"

definition normalizeConfirmCode :: "gostring list \<Rightarrow> gostring" where
  "normalizeConfirmCode args = (case args of [] \<Rightarrow> [] | a # _ \<Rightarrow> to_upper (trim_space a))"

definition isAllowedChat :: "int list \<Rightarrow> int \<Rightarrow> bool" where
  "isAllowedChat allowed chatID \<longleftrightarrow> chatID \<in> set allowed"

definition isProtectedProcess :: "Config option \<Rightarrow> gostring \<Rightarrow> bool" where
  "isProtectedProcess cfg name \<longleftrightarrow>
     (case cfg of
        None \<Rightarrow> False
      | Some c \<Rightarrow> name \<noteq> [] \<and>
          list_ex (\<lambda>item. equal_fold (trim_space item) (trim_space name)) (co_ProtectedProcesses (c_Controller c)))"

section \<open>Writing\<close>

definition describeProcess :: "gostring \<Rightarrow> pid \<Rightarrow> gostring" where
  "describeProcess name p =
     (if name \<noteq> [] then sprintf ''%s (PID %d)'' [FStr name, FInt (uint p)] else sprintf ''PID %d'' [FInt (uint p)])"

text \<open>\<^verbatim>\<open>Duration.Round\<close> to seconds, for durations that are not negative.\<close>

definition round_second :: "duration \<Rightarrow> duration" where
  "round_second d =
     (let r = d mod second in
      if r + r < second then d - r else if d + second - r \<le> i64_max then d + second - r else i64_max)"

definition formatConfirmTTL :: "duration \<Rightarrow> gostring" where
  "formatConfirmTTL ttl =
     (if ttl < minute then sprintf ''%ds'' [FInt (go_div ttl second)]
      else if go_rem ttl minute = 0 then sprintf ''%dm'' [FInt (go_div ttl minute)]
      else dur_string (round_second ttl))"

definition tg_truncate :: "gostring \<Rightarrow> nat \<Rightarrow> gostring" where
  "tg_truncate s n = (if length s \<le> n then s else if n \<le> 1 then take n s else take (n - 1) s @ ellipsis)"

definition titleWord :: "gostring \<Rightarrow> gostring" where
  "titleWord s = (if s = [] then [] else to_upper (take 1 s) @ drop 1 s)"

fun bytes_loop :: "nat \<Rightarrow> u64 \<Rightarrow> u64 \<Rightarrow> nat \<Rightarrow> u64 \<times> nat" where
  "bytes_loop 0 n dv ex = (dv, ex)"
| "bytes_loop (Suc k) n dv ex = (if 1024 \<le> n div dv then bytes_loop k n (dv * 1024) (ex + 1) else (dv, ex))"

definition formatBytes :: "u64 \<Rightarrow> gostring" where
  "formatBytes n =
     (if n < 1024 then sprintf ''%dB'' [FInt (uint n)]
      else
        (let (dv, ex) = bytes_loop 4 n 1024 0
         in sprintf ''%.1f%s'' [FF64 (fdiv (f64_of_u64 n) (f64_of_u64 dv)), FStr [''KMGTP'' ! ex]]))"

definition helpText :: gostring where
  "helpText = str_join nl
    [''WTM rescue bot commands:'',
     ''/status - CPU, memory, and top processes'',
     ''/topcpu - highest CPU processes'',
     ''/alerts - active anomaly alerts'',
     ''/ask <question> - chat with the AI advisor'',
     ''/analyze <question> - analyze current state and queue AI actions'',
     ''/kill <pid> - kill a process by PID'',
     ''/taskkill [/F] [/IM] <name> - kill by process name (like Windows taskkill)'',
     ''/suspend <pid> - suspend a process'',
     ''/resume <pid> - resume a process'',
     ''/killtop - kill the highest CPU non-protected process'',
     ''/suspendtop - suspend the highest CPU non-protected process'',
     ''/confirm <code> - confirm a pending kill/suspend action'',
     ''/cancel <code> - cancel a pending kill/suspend action'',
     [],
     ''Name matching: /taskkill notepad matches notepad.exe (extension optional)'',
     ''Force flag: /taskkill /F notepad skips confirmation'']"

definition describeAISuggestion :: "Suggestion \<Rightarrow> gostring \<times> gostring" where
  "describeAISuggestion sug =
     (let t = to_lower (trim_space (sg_Type sug)); target = describeProcess (sg_Name sug) (sg_PID sug);
          name = trim_space (sg_Name sug)
      in if t = ''kill'' then (''AI: kill '' @ target, ''AI action executed: killed '' @ target)
         else if t = ''suspend'' then (''AI: suspend '' @ target, ''AI action executed: suspended '' @ target)
         else if t = ''protect'' then (''AI: protect '' @ name, ''AI action executed: protected '' @ name)
         else if t = ''ignore'' then (''AI: ignore '' @ name, ''AI action executed: ignored '' @ name)
         else if t = ''add_rule'' then
           (let rule = (case sg_Rule sug of None \<Rightarrow> [] | Some r \<Rightarrow> trim_space (rsg_Name r))
            in (''AI: add rule '' @ rule, ''AI action executed: rule added '' @ rule))
         else (''AI action'', ''AI action executed''))"

section \<open>Which alerts are sent\<close>

definition type_matches :: "gostring \<Rightarrow> gostring \<Rightarrow> bool" where
  "type_matches alertType item \<longleftrightarrow>
     (let token = to_lower (trim_space item) in
      token \<noteq> [] \<and>
      (token = ''*'' \<or> token = to_lower alertType \<or>
       has_suffix token ''*'' \<and> has_prefix (to_lower alertType) (trim_suffix token ''*'')))"

definition matchesTelegramTypeAllowlist :: "gostring list \<Rightarrow> gostring \<Rightarrow> bool" where
  "matchesTelegramTypeAllowlist allowlist alertType \<longleftrightarrow> list_ex (type_matches alertType) allowlist"

definition high_value_types :: "gostring list" where
  "high_value_types = [''runaway_cpu'', ''memory_leak'', ''port_conflict'', ''new_process'', ''network_anomaly'', ''network_anomaly_system'']"

definition isHighValueTelegramAlert :: "Config \<Rightarrow> Alert \<Rightarrow> bool" where
  "isHighValueTelegramAlert cfg a \<longleftrightarrow>
     (if has_prefix (al_Type a) ''rule:'' then
        al_Action a = ''kill'' \<or> al_Action a = ''suspend'' \<or>
        matchesTelegramTypeAllowlist (tg_NotificationTypes (c_Telegram cfg)) ''rule:*''
      else al_Type a \<in> set high_value_types \<and>
        matchesTelegramTypeAllowlist (tg_NotificationTypes (c_Telegram cfg)) (al_Type a))"

definition shouldNotifyTelegramAlert :: "Config option \<Rightarrow> Alert \<Rightarrow> bool" where
  "shouldNotifyTelegramAlert cfg a \<longleftrightarrow>
     (case cfg of
        None \<Rightarrow> False
      | Some c \<Rightarrow>
          (let tg = c_Telegram c in
           if \<not> tg_Enabled tg \<or> \<not> tg_NotifyOnCritical tg \<or> tg_BotToken tg = [] then False
           else if al_Severity a \<noteq> ''critical'' then False
           else if to_lower (trim_space (tg_NotificationMode tg)) = ''all_critical'' then True
           else isHighValueTelegramAlert c a))"

section \<open>Confirmation codes\<close>

definition base32_alphabet :: gostring where "base32_alphabet = ''ABCDEFGHIJKLMNOPQRSTUVWXYZ234567''"

text \<open>Five bytes are forty bits, written as eight digits of five bits; then there is no padding.\<close>

definition base32_encode :: "gostring \<Rightarrow> gostring" where
  "base32_encode raw =
     (let n = foldl (\<lambda>n c. 256 * n + byte_val c) 0 raw
      in map (\<lambda>i. base32_alphabet ! (n div 32 ^ (7 - i) mod 32)) [0..<8])"

definition newConfirmCode :: "goerror + gostring \<Rightarrow> goerror + gostring" where
  "newConfirmCode random = map_sum id base32_encode random"

lemma base32_length [simp]: "length (base32_encode raw) = 8"
  by (simp add: base32_encode_def Let_def)

lemma alphabet_digit: "k < 32 \<Longrightarrow> base32_alphabet ! k \<in> set base32_alphabet"
  by (rule nth_mem) (simp add: base32_alphabet_def)

lemma base32_chars: "set (base32_encode raw) \<subseteq> set base32_alphabet"
proof -
  have "(n :: nat) mod 32 < 32" for n by simp
  then show ?thesis using alphabet_digit by (auto simp: base32_encode_def Let_def)
qed

lemma alphabet_stable:
  "c \<in> set base32_alphabet \<Longrightarrow> upper_byte c = c \<and> 32 < byte_val c \<and> byte_val c < 128"
proof -
  have "list_all (\<lambda>c. upper_byte c = c \<and> 32 < byte_val c \<and> byte_val c < 128) base32_alphabet" by code_simp
  then show "c \<in> set base32_alphabet \<Longrightarrow> ?thesis" by (auto simp: list_all_iff)
qed

text \<open>Digits in base 32, most significant first, determine a number below \<open>32 ^ 8\<close>.\<close>

lemma digits_inj:
  fixes m n :: nat
  assumes "m < b ^ k" "n < b ^ k" "0 < b"
    and "\<forall>i<k. m div b ^ (k - 1 - i) mod b = n div b ^ (k - 1 - i) mod b"
  shows "m = n"
  using assms(1,2,4)
proof (induction k arbitrary: m n)
  case (Suc k)
  have "m div b < b ^ k" "n div b < b ^ k"
    using Suc.prems assms(3) by (auto simp: less_mult_imp_div_less mult.commute)
  moreover have "m div b div b ^ (k - 1 - i) mod b = n div b div b ^ (k - 1 - i) mod b" if "i < k" for i
  proof -
    have "Suc k - 1 - i = Suc (k - 1 - i)" using that by simp
    then show ?thesis using Suc.prems(3) [rule_format, of i] that by (simp only: power_Suc div_mult2_eq)
  qed
  ultimately have "m div b = n div b" using Suc.IH by blast
  moreover have "m mod b = n mod b" using Suc.prems(3) [rule_format, of k] by simp
  ultimately show ?case by (metis div_mult_mod_eq)
qed simp

lemma byte_val_less: "byte_val c < 256"
  using nat_of_char_less_256 [of c] by simp

lemma byte_digit:
  fixes d e m n :: nat
  assumes "d < 256"
  shows "e < 256 \<Longrightarrow> 256 * m + d = 256 * n + e \<Longrightarrow> d = e \<and> m = n"
    and "256 * m + d + 1 \<le> (m + 1) * 256"
proof -
  show "d = e \<and> m = n" if "e < 256" "256 * m + d = 256 * n + e"
  proof -
    have "(256 * m + d) mod 256 = d" "(256 * n + e) mod 256 = e" using assms that(1) by simp_all
    then have "d = e" using that(2) by simp
    then show ?thesis using that(2) by simp
  qed
  show "256 * m + d + 1 \<le> (m + 1) * 256" using assms by simp
qed

lemma foldl_bytes_bound: "foldl (\<lambda>n c. 256 * n + byte_val c) a s < (a + 1) * 256 ^ length s"
proof (induction s arbitrary: a)
  case (Cons c s)
  have "(256 * a + byte_val c + 1) * 256 ^ length s \<le> (a + 1) * 256 ^ length (c # s)"
  proof -
    have "256 * a + byte_val c + 1 \<le> (a + 1) * 256" by (rule byte_digit(2) [OF byte_val_less])
    then have "(256 * a + byte_val c + 1) * 256 ^ length s \<le> ((a + 1) * 256) * 256 ^ length s"
      by (rule mult_le_mono1)
    then show ?thesis by (simp only: mult.assoc power_Suc list.size add_0_right add_Suc_right One_nat_def)
  qed
  then show ?case using Cons [of "256 * a + byte_val c"] by simp
qed simp

lemma foldl_bytes_inj:
  "length s = length t \<Longrightarrow> foldl (\<lambda>n c. 256 * n + byte_val c) 0 s = foldl (\<lambda>n c. 256 * n + byte_val c) 0 t \<Longrightarrow> s = t"
proof (induction s arbitrary: t rule: rev_induct)
  case (snoc c s)
  obtain t' d where t: "t = t' @ [d]" using snoc.prems(1) by (cases t rule: rev_cases) auto
  have "byte_val c = byte_val d \<and> foldl (\<lambda>n c. 256 * n + byte_val c) 0 s = foldl (\<lambda>n c. 256 * n + byte_val c) 0 t'"
    using snoc.prems(2) byte_digit(1) [OF byte_val_less byte_val_less] unfolding t foldl_append foldl_Cons foldl_Nil
    by blast
  then show ?case using snoc.IH [of t'] snoc.prems(1) by (auto simp: t of_char_eq_iff)
qed simp

lemma normalize_code [simp]: "normalizeConfirmCode [base32_encode raw] = base32_encode raw"
proof -
  let ?c = "base32_encode raw"
  have stable: "upper_byte c = c \<and> 32 < byte_val c \<and> byte_val c < 128" if "c \<in> set ?c" for c
    using base32_chars alphabet_stable that by blast
  have ne: "?c \<noteq> []" by (metis base32_length list.size(3) zero_neq_numeral)
  then have "trim_space ?c = ?c"
    using stable [OF hd_in_set] stable [OF last_in_set] by (intro trim_space_printable) auto
  moreover have "all_ascii ?c" using stable by (simp add: all_ascii_def list_all_iff ascii_byte_def)
  moreover have "map upper_byte ?c = ?c" using stable by (simp add: map_idI)
  ultimately show ?thesis by (simp add: normalizeConfirmCode_def to_upper_def)
qed

lemma base32_inj:
  assumes "length a = 5" "length b = 5" "base32_encode a = base32_encode b"
  shows "a = b"
proof -
  let ?n = "\<lambda>s. foldl (\<lambda>n c. 256 * n + byte_val c) 0 s"
  have bound: "?n s < 32 ^ 8" if "length s = 5" for s using foldl_bytes_bound [of 0 s] that by simp
  have "\<forall>i<8. ?n a div 32 ^ (8 - 1 - i) mod 32 = ?n b div 32 ^ (8 - 1 - i) mod 32"
  proof (intro allI impI)
    fix i :: nat assume i: "i < 8"
    have d: "distinct base32_alphabet" and l: "length base32_alphabet = 32" by code_simp+
    have "base32_encode a ! i = base32_encode b ! i" using assms(3) by simp
    then have "base32_alphabet ! (?n a div 32 ^ (7 - i) mod 32) = base32_alphabet ! (?n b div 32 ^ (7 - i) mod 32)"
      using i by (simp add: base32_encode_def Let_def)
    then show "?n a div 32 ^ (8 - 1 - i) mod 32 = ?n b div 32 ^ (8 - 1 - i) mod 32"
      using nth_eq_iff_index_eq [OF d] l by simp
  qed
  then have "?n a = ?n b" using digits_inj [of "?n a" 32 8 "?n b"] bound assms(1,2) by simp
  then show ?thesis using foldl_bytes_inj assms(1,2) by simp
qed

end
