(* ===== verification/Telegram.thy ===== *)
theory Telegram
  imports BotText Server
begin

text \<open>
  \<^verbatim>\<open>internal/telegram/bot.go\<close>: the bot that polls for messages of the allowed chats and acts on the
  processes. It works on the controller, the alerts and the advisor the server also works on, so its
  steps change a bot and a server. A pending action holds a closure in the code and here the operation
  the closure calls. Each look at the store is a call the oracle of the system answers anew. The
  exchange with Telegram, its decoding and the random bytes are arguments; what was sent is recorded.
\<close>

section \<open>The bot\<close>

datatype bot_act = BKill | BSuspend | BResume

datatype pending_run = RunAct bot_act pid | RunAI Suggestion

record pendingAction =
  pa_ChatID :: int
  pa_Description :: gostring
  pa_SuccessText :: gostring
  pa_ExpiresAt :: gotime
  pa_Run :: pending_run

datatype tg_body = GetUpdates int int | SendMessage int gostring

record Bot =
  tb_cfg :: "Config option"
  tb_executeAI :: bool
  tb_offset :: int
  tb_lastToken :: gostring
  tb_pending :: "(gostring, pendingAction) gomap"
  tb_draws :: nat
  tb_calls :: "(gostring \<times> tg_body) list"

record tgMessage =
  mg_MessageID :: int
  mg_Text :: gostring
  mg_Chat :: int

record tgUpdate =
  up_UpdateID :: int
  up_Message :: "tgMessage option"

record updateResp =
  ur_OK :: bool
  ur_Result :: "tgUpdate list"
  ur_Description :: gostring
  ur_ErrorCode :: int

record bot_env =
  be_web :: web_env
  be_random :: "nat \<Rightarrow> goerror + gostring"
  be_request :: "gostring \<Rightarrow> goerror option"
  be_exchange :: "(gostring \<times> tg_body) list \<Rightarrow> goerror + goerror + gostring"
  be_updates :: "gostring \<Rightarrow> goerror + updateResp"
  be_sent :: "gostring \<Rightarrow> goerror + updateResp"

type_synonym bot_state = "Bot \<times> Server"

definition NewBot :: "Config option \<Rightarrow> bool \<Rightarrow> Bot" where
  "NewBot cfg executeAI =
     \<lparr>tb_cfg = cfg, tb_executeAI = executeAI, tb_offset = 0, tb_lastToken = [], tb_pending = [], tb_draws = 0, tb_calls = []\<rparr>"

definition Bot_SetConfig :: "Config option \<Rightarrow> Bot \<Rightarrow> Bot" where
  "Bot_SetConfig cfg b = b\<lparr>tb_cfg := cfg\<rparr>"

section \<open>Talking to Telegram\<close>

definition maxTelegramResponseBytes :: nat where "maxTelegramResponseBytes = 1048576"

definition apiCall ::
  "bot_env \<Rightarrow> Config \<Rightarrow> gostring \<Rightarrow> tg_body \<Rightarrow> (gostring \<Rightarrow> goerror + 'r) \<Rightarrow> Bot \<Rightarrow> Bot \<times> (goerror + 'r)" where
  "apiCall env cfg meth body decode b =
     (let tg = c_Telegram cfg;
          url = sprintf ''%s/bot%s/%s'' [FStr (trim_right_byte (CHR ''/'') (tg_APIBaseURL tg)), FStr (tg_BotToken tg), FStr meth]
      in case be_request env url of
           Some e \<Rightarrow> (b, Inl e)
         | None \<Rightarrow>
             (let calls = tb_calls b @ [(url, body)]; b = b\<lparr>tb_calls := calls\<rparr> in
              case be_exchange env calls of
                Inl e \<Rightarrow> (b, Inl e)
              | Inr (Inl e) \<Rightarrow> (b, Inl e)
              | Inr (Inr raw) \<Rightarrow>
                  (if maxTelegramResponseBytes < length raw
                   then (b, Inl (Errorf ''telegram response exceeds %d bytes'' [FInt (int maxTelegramResponseBytes)]))
                   else (case decode raw of
                           Inl e \<Rightarrow> (b, Inl (Errorf ''decode telegram response: %w'' [FWrap e]))
                         | Inr r \<Rightarrow> (b, Inr r)))))"

definition refused_by :: "updateResp \<Rightarrow> goerror" where
  "refused_by r = Errorf ''telegram %d: %s'' [FInt (ur_ErrorCode r), FStr (ur_Description r)]"

definition getUpdates :: "bot_env \<Rightarrow> Config \<Rightarrow> Bot \<Rightarrow> Bot \<times> (goerror + tgUpdate list)" where
  "getUpdates env cfg b =
     (let t = go_div (tg_PollTimeout (c_Telegram cfg)) second; t = (if t < 1 then 25 else t) in
      case apiCall env cfg ''getUpdates'' (GetUpdates (tb_offset b) t) (be_updates env) b of
        (b, Inl e) \<Rightarrow> (b, Inl e)
      | (b, Inr r) \<Rightarrow> (b, if ur_OK r then Inr (ur_Result r) else Inl (refused_by r)))"

definition sendMessage :: "bot_env \<Rightarrow> Config \<Rightarrow> int \<Rightarrow> gostring \<Rightarrow> Bot \<Rightarrow> Bot \<times> goerror option" where
  "sendMessage env cfg chatID text b =
     (case apiCall env cfg ''sendMessage'' (SendMessage chatID (tg_truncate text 4000)) (be_sent env) b of
        (b, Inl e) \<Rightarrow> (b, Some e)
      | (b, Inr r) \<Rightarrow> (b, if ur_OK r then None else Some (refused_by r)))"

definition alert_message :: "Alert \<Rightarrow> gostring" where
  "alert_message a =
     sprintf (''[CRITICAL] %s'' @ nl @ ''%s'') [FStr (al_Title a), FStr (al_Description a)] @
     (if al_ProcessName a \<noteq> [] then sprintf (nl @ ''Process: %s'') [FStr (al_ProcessName a)] else []) @
     (if al_PID a \<noteq> 0 then sprintf (nl @ ''PID: %d'') [FInt (uint (al_PID a))] else [])"

text \<open>A failed delivery to one chat is logged and does not keep the others from theirs.\<close>

definition handleAlertRaised :: "bot_env \<Rightarrow> Alert \<Rightarrow> Bot \<Rightarrow> Bot" where
  "handleAlertRaised env a b =
     (case tb_cfg b of
        None \<Rightarrow> b
      | Some cfg \<Rightarrow>
          if \<not> shouldNotifyTelegramAlert (Some cfg) a then b
          else fold (\<lambda>chatID b. fst (sendMessage env cfg chatID (alert_message a) b)) (tg_AllowedChatIDs (c_Telegram cfg)) b)"

section \<open>Pending actions\<close>

definition cleanupPendingLocked :: "gotime \<Rightarrow> Bot \<Rightarrow> Bot" where
  "cleanupPendingLocked now b = b\<lparr>tb_pending := prune_map pa_ExpiresAt now (tb_pending b)\<rparr>"

definition storePendingAction ::
  "bot_env \<Rightarrow> int \<Rightarrow> duration \<Rightarrow> gostring \<Rightarrow> gostring \<Rightarrow> pending_run \<Rightarrow> Bot \<Rightarrow> Bot \<times> (goerror + gostring)" where
  "storePendingAction env chatID ttl description success run b =
     (let ttl = (if ttl \<le> 0 then 90 * second else ttl);
          random = be_random env (tb_draws b); b = b\<lparr>tb_draws := tb_draws b + 1\<rparr>
      in case newConfirmCode random of
           Inl e \<Rightarrow> (b, Inl e)
         | Inr code \<Rightarrow>
             (let now = we_now (be_web env); b = cleanupPendingLocked now b in
              (b\<lparr>tb_pending := mput code
                   \<lparr>pa_ChatID = chatID, pa_Description = description, pa_SuccessText = success,
                    pa_ExpiresAt = t_add now ttl, pa_Run = run\<rparr> (tb_pending b)\<rparr>, Inr code)))"

definition queueConfirmation ::
  "bot_env \<Rightarrow> int \<Rightarrow> duration \<Rightarrow> gostring \<Rightarrow> gostring \<Rightarrow> pending_run \<Rightarrow> Bot \<Rightarrow> Bot \<times> gostring" where
  "queueConfirmation env chatID ttl description success run b =
     (case storePendingAction env chatID ttl description success run b of
        (b, Inl e) \<Rightarrow> (b, ''Failed to create confirmation code; action was not executed.'')
      | (b, Inr code) \<Rightarrow>
          (b, sprintf ''Pending %s. Confirm with /confirm %s within %s, or /cancel %s.''
                [FStr description, FStr code, FStr (formatConfirmTTL ttl), FStr code]))"

definition bot_act :: "bot_env \<Rightarrow> bot_act \<Rightarrow> pid \<Rightarrow> Server \<Rightarrow> Server \<times> goerror option" where
  "bot_act env a p s =
     (let os = we_os (be_web env);
          (w, e) = (case a of
                      BKill \<Rightarrow> Kill os (wb_ctl s) p True (wb_world s)
                    | BSuspend \<Rightarrow> Suspend os (wb_ctl s) p True (wb_world s)
                    | BResume \<Rightarrow> Resume os (wb_ctl s) p (wb_world s))
      in (s\<lparr>wb_world := w\<rparr>, e))"

definition run_pending :: "bot_env \<Rightarrow> pending_run \<Rightarrow> Server \<Rightarrow> Server \<times> goerror option" where
  "run_pending env r s =
     (case r of
        RunAct a p \<Rightarrow> bot_act env a p s
      | RunAI sug \<Rightarrow> fst (ExecuteAISuggestion (be_web env) sug True s))"

definition action_failed :: "goerror \<Rightarrow> gostring" where
  "action_failed e = sprintf ''Action failed: %v'' [FErr e]"

definition confirmAction :: "bot_env \<Rightarrow> gostring list \<Rightarrow> int \<Rightarrow> bot_state \<Rightarrow> bot_state \<times> gostring" where
  "confirmAction env args chatID bs =
     (let (b, s) = bs; code = normalizeConfirmCode args in
      if code = [] then (bs, ''Confirmation code required.'')
      else
        (let b = cleanupPendingLocked (we_now (be_web env)) b in
         case mget (tb_pending b) code of
           None \<Rightarrow> ((b, s), ''Confirmation code not found or expired.'')
         | Some a \<Rightarrow>
             if pa_ChatID a \<noteq> chatID then ((b, s), ''Confirmation code belongs to another chat.'')
             else
               (let b = b\<lparr>tb_pending := mdel code (tb_pending b)\<rparr> in
                case run_pending env (pa_Run a) s of
                  (s, Some e) \<Rightarrow> ((b, s), action_failed e)
                | (s, None) \<Rightarrow> ((b, s), pa_SuccessText a))))"

definition cancelAction :: "bot_env \<Rightarrow> gostring list \<Rightarrow> int \<Rightarrow> bot_state \<Rightarrow> bot_state \<times> gostring" where
  "cancelAction env args chatID bs =
     (let (b, s) = bs; code = normalizeConfirmCode args in
      if code = [] then (bs, ''Confirmation code required.'')
      else
        (let b = cleanupPendingLocked (we_now (be_web env)) b in
         case mget (tb_pending b) code of
           None \<Rightarrow> ((b, s), ''Confirmation code not found or expired.'')
         | Some a \<Rightarrow>
             if pa_ChatID a \<noteq> chatID then ((b, s), ''Confirmation code belongs to another chat.'')
             else ((b\<lparr>tb_pending := mdel code (tb_pending b)\<rparr>, s), sprintf ''Cancelled %s'' [FStr (pa_Description a)])))"

section \<open>Commands on processes\<close>

definition bot_latest :: "bot_env \<Rightarrow> Server \<Rightarrow> Server \<times> SystemSnapshot option" where
  "bot_latest env s = (case read_latest (we_os (be_web env)) (wb_world s) of (w, snap) \<Rightarrow> (s\<lparr>wb_world := w\<rparr>, snap))"

text \<open>The words for an action: what it is called and what has been done.\<close>

fun act_label :: "bot_act \<Rightarrow> gostring" where
  "act_label BKill = ''kill''" | "act_label BSuspend = ''suspend''" | "act_label BResume = ''resume''"

fun act_verb :: "bot_act \<Rightarrow> gostring" where
  "act_verb BKill = ''killed''" | "act_verb BSuspend = ''suspended''" | "act_verb BResume = ''resumed''"

text \<open>Resuming is the one action that never asks for a confirmation.\<close>

fun needs_confirm :: "bot_act \<Rightarrow> bool" where
  "needs_confirm BResume = False" | "needs_confirm _ = True"

definition target_of :: "bot_env \<Rightarrow> pid \<Rightarrow> Server \<Rightarrow> Server \<times> gostring" where
  "target_of env p s =
     (case bot_latest env s of
        (s, None) \<Rightarrow> (s, describeProcess [] p)
      | (s, Some snap) \<Rightarrow> (s, describeProcess (ProcessName snap p) p))"

definition pidActionTexts :: "bot_env \<Rightarrow> pid \<Rightarrow> bot_act \<Rightarrow> Server \<Rightarrow> Server \<times> gostring \<times> gostring" where
  "pidActionTexts env p a s =
     (case target_of env p s of
        (s, target) \<Rightarrow> (s, sprintf ''%s %s'' [FStr (act_label a), FStr target],
          sprintf ''%s %s'' [FStr (titleWord (act_verb a)), FStr target]))"

definition asks_first :: "Config \<Rightarrow> bot_act \<Rightarrow> bool" where
  "asks_first cfg a \<longleftrightarrow> needs_confirm a \<and> tg_RequireConfirm (c_Telegram cfg)"

definition pidAction :: "bot_env \<Rightarrow> Config \<Rightarrow> int \<Rightarrow> gostring list \<Rightarrow> bot_act \<Rightarrow> bot_state \<Rightarrow> bot_state \<times> gostring" where
  "pidAction env cfg chatID args a bs =
     (let (b, s) = bs in
      if args = [] then (bs, ''PID required.'')
      else
        (case parse_uint 32 (hd args) of
           (n, Some e) \<Rightarrow> (bs, ''PID must be a positive integer.'')
         | (n, None) \<Rightarrow>
             (let p = of_nat n in
              if asks_first cfg a then
                (case pidActionTexts env p a s of
                   (s, description, success) \<Rightarrow>
                     (case queueConfirmation env chatID (tg_ConfirmTTL (c_Telegram cfg)) description success (RunAct a p) b of
                        (b, reply) \<Rightarrow> ((b, s), reply)))
              else
                (case bot_act env a p s of
                   (s, Some e) \<Rightarrow> ((b, s), action_failed e)
                 | (s, None) \<Rightarrow>
                     (case pidActionTexts env p a s of (s, description, success) \<Rightarrow> ((b, s), success))))))"

definition strip_exe :: "gostring \<Rightarrow> gostring" where
  "strip_exe name = trim_suffix (to_lower name) ''.exe''"

definition by_cpu :: "ProcessInfo \<Rightarrow> ProcessInfo \<Rightarrow> bool" where
  "by_cpu p q = flt (p_CPUPercent q) (p_CPUPercent p)"

definition findProcessByName :: "bot_env \<Rightarrow> Config \<Rightarrow> gostring \<Rightarrow> Server \<Rightarrow> Server \<times> pid \<times> gostring" where
  "findProcessByName env cfg name s =
     (case bot_latest env s of
        (s, None) \<Rightarrow> (s, 0, ''No snapshot yet.'')
      | (s, Some snap) \<Rightarrow>
          (let candidates = filter (\<lambda>p. strip_exe (p_Name p) = strip_exe name) (ss_Processes snap) in
           if candidates = [] then (s, 0, sprintf ''No process found matching %q.'' [FStr name])
           else
             (let best = hd (we_sort (be_web env) by_cpu candidates) in
              if p_PID best = 0 \<or> p_IsCritical best \<or> isProtectedProcess (Some cfg) (p_Name best)
              then (s, 0, sprintf ''Process %q is protected or critical; use /kill %d directly to force.''
                            [FStr name, FInt (uint (p_PID best))])
              else (s, p_PID best, []))))"

definition nameAction :: "bot_env \<Rightarrow> Config \<Rightarrow> int \<Rightarrow> gostring list \<Rightarrow> bot_act \<Rightarrow> bot_state \<Rightarrow> bot_state \<times> gostring" where
  "nameAction env cfg chatID args a bs =
     (let (b, s) = bs; (name, force) = parseTaskkillArgs args in
      if name = [] then (bs, ''Process name required. Usage: /taskkill [/F] [/IM] <name>'')
      else
        (let (s, p, failText) = findProcessByName env cfg name s in
         if p = 0 then ((b, s), failText)
         else
           (let (s, target) = target_of env p s;
                success = sprintf ''%s %s'' [FStr (titleWord (act_verb a)), FStr target]
            in
            if asks_first cfg a \<and> \<not> force then
              (case queueConfirmation env chatID (tg_ConfirmTTL (c_Telegram cfg))
                   (sprintf ''%s %s'' [FStr (act_label a), FStr target]) success (RunAct a p) b of
                 (b, reply) \<Rightarrow> ((b, s), reply))
            else
              (case bot_act env a p s of
                 (s, Some e) \<Rightarrow> ((b, s), action_failed e)
               | (s, None) \<Rightarrow> ((b, s), success)))))"

definition topProcessesByCPU :: "bot_env \<Rightarrow> ProcessInfo list \<Rightarrow> int \<Rightarrow> ProcessInfo list" where
  "topProcessesByCPU env procs limit =
     (let out = we_sort (be_web env)
                  (\<lambda>p q. if feq (p_CPUPercent p) (p_CPUPercent q) then p_PID p < p_PID q else by_cpu p q) procs
      in if 0 < limit \<and> limit < int (length out) then take (nat limit) out else out)"

definition selectTopProcess :: "bot_env \<Rightarrow> Config \<Rightarrow> Server \<Rightarrow> Server \<times> (gostring + ProcessInfo)" where
  "selectTopProcess env cfg s =
     (case bot_latest env s of
        (s, None) \<Rightarrow> (s, Inl ''No snapshot yet.'')
      | (s, Some snap) \<Rightarrow>
          (s, case find (\<lambda>p. \<not> (p_PID p = 0 \<or> p_IsCritical p \<or> isProtectedProcess (Some cfg) (p_Name p)))
                (topProcessesByCPU env (ss_Processes snap) (int (length (ss_Processes snap)))) of
                Some p \<Rightarrow> Inr p
              | None \<Rightarrow> Inl ''No safe top process found.''))"

definition topProcessAction :: "bot_env \<Rightarrow> Config \<Rightarrow> int \<Rightarrow> bot_act \<Rightarrow> bot_state \<Rightarrow> bot_state \<times> gostring" where
  "topProcessAction env cfg chatID a bs =
     (let (b, s) = bs in
      case selectTopProcess env cfg s of
        (s, Inl failText) \<Rightarrow> ((b, s), failText)
      | (s, Inr p) \<Rightarrow>
          (let target = describeProcess (p_Name p) (p_PID p);
               success = sprintf ''%s %s'' [FStr (titleWord (act_verb a)), FStr target]
           in
           if asks_first cfg a then
             (case queueConfirmation env chatID (tg_ConfirmTTL (c_Telegram cfg))
                  (sprintf ''%s %s (CPU %.1f%%)'' [FStr (act_label a), FStr target, FF64 (p_CPUPercent p)]) success
                  (RunAct a (p_PID p)) b of
                (b, reply) \<Rightarrow> ((b, s), reply))
           else
             (case bot_act env a (p_PID p) s of
                (s, Some e) \<Rightarrow> ((b, s), action_failed e)
              | (s, None) \<Rightarrow> ((b, s), sprintf ''%s (CPU %.1f%%)'' [FStr success, FF64 (p_CPUPercent p)]))))"

section \<open>Commands that report\<close>

definition arrow_down :: gostring where "arrow_down = [CHR 0xE2, CHR 0x86, CHR 0x93]"
definition arrow_up :: gostring where "arrow_up = [CHR 0xE2, CHR 0x86, CHR 0x91]"

definition statusText :: "bot_env \<Rightarrow> Server \<Rightarrow> Server \<times> gostring" where
  "statusText env s =
     (case bot_latest env s of
        (s, None) \<Rightarrow> (s, ''No snapshot yet.'')
      | (s, Some snap) \<Rightarrow>
          (let cpu = ss_CPU snap; mem = ss_Memory snap; net = ss_Network snap in
           (s, str_join nl
             ([sprintf ''CPU %.1f%% (%d cores)'' [FF64 (cpu_TotalPercent cpu), FInt (cpu_NumLogical cpu)],
               sprintf ''Memory %.1f%% (%s / %s)''
                 [FF64 (mem_UsedPercent mem), FStr (formatBytes (mem_UsedPhys mem)), FStr (formatBytes (mem_TotalPhys mem))],
               sprintf (''Network '' @ arrow_down @ '' %s/s '' @ arrow_up @ '' %s/s'')
                 [FStr (formatBytes (net_TotalDownBPS net)), FStr (formatBytes (net_TotalUpBPS net))],
               ''Top CPU:''] @
              map (\<lambda>p. sprintf ''- %s PID %d CPU %.1f%% MEM %s''
                     [FStr (p_Name p), FInt (uint (p_PID p)), FF64 (p_CPUPercent p), FStr (formatBytes (p_WorkingSet p))])
                (topProcessesByCPU env (ss_Processes snap) 3)))))"

definition topCPUText :: "bot_env \<Rightarrow> Server \<Rightarrow> Server \<times> gostring" where
  "topCPUText env s =
     (case bot_latest env s of
        (s, None) \<Rightarrow> (s, ''No snapshot yet.'')
      | (s, Some snap) \<Rightarrow>
          (let top8 = topProcessesByCPU env (ss_Processes snap) 8 in
           (s, if top8 = [] then ''No processes found.''
               else str_join nl (''Top CPU processes:'' #
                 map (\<lambda>p. sprintf ''- %s PID %d CPU %.1f%% MEM %s Threads %d''
                     [FStr (p_Name p), FInt (uint (p_PID p)), FF64 (p_CPUPercent p), FStr (formatBytes (p_WorkingSet p)),
                      FInt (uint (p_ThreadCount p))]) top8))))"

definition alertsText :: "Server \<Rightarrow> gostring" where
  "alertsText s =
     (let items = Active (wb_alerts s) in
      if items = [] then ''No active alerts.''
      else str_join nl (''Active alerts:'' #
        map (\<lambda>a. sprintf ''- [%s] %s%s''
              [FStr (to_upper (al_Severity a)), FStr (al_Title a),
               FStr (if al_ProcessName a \<noteq> [] then '' '' @ al_ProcessName a
                     else if al_PID a \<noteq> 0 then '' PID '' @ nat_str (unat (al_PID a)) else [])])
          (take 8 items)))"

section \<open>The advisor in the chat\<close>

definition queueAISuggestion :: "bot_env \<Rightarrow> int \<Rightarrow> duration \<Rightarrow> Suggestion \<Rightarrow> Bot \<Rightarrow> Bot \<times> gostring" where
  "queueAISuggestion env chatID ttl sug b =
     (let (description, success) = describeAISuggestion sug in
      if \<not> tb_executeAI b then (b, description @ '' (execution unavailable)'')
      else
        (case storePendingAction env chatID ttl description success (RunAI sug) b of
           (b, Inl e) \<Rightarrow> (b, description @ '' (failed to queue confirmation)'')
         | (b, Inr code) \<Rightarrow> (b, sprintf ''%s -> /confirm %s'' [FStr description, FStr code])))"

fun queue_all :: "bot_env \<Rightarrow> int \<Rightarrow> duration \<Rightarrow> Suggestion list \<Rightarrow> Bot \<Rightarrow> Bot \<times> gostring list" where
  "queue_all env chatID ttl [] b = (b, [])"
| "queue_all env chatID ttl (x # xs) b =
     (let (b, line) = queueAISuggestion env chatID ttl x b; (b, ls) = queue_all env chatID ttl xs b
      in (b, (''- '' @ line) # ls))"

definition aiReply :: "bot_env \<Rightarrow> Config \<Rightarrow> int \<Rightarrow> gostring \<Rightarrow> bool \<Rightarrow> bot_state \<Rightarrow> bot_state \<times> gostring" where
  "aiReply env cfg chatID prompt chatMode bs =
     (let (b, s) = bs in
      if trim_space prompt = [] then
        (bs, if chatMode then ''Prompt required. Example: /ask what should I investigate first?''
             else ''Prompt required. Example: /analyze summarize the biggest risks right now'')
      else
        (case wb_advisor s of
           None \<Rightarrow> (bs, ''AI advisor not configured.'')
         | Some ad \<Rightarrow>
             if \<not> Advisor_Enabled ad then (bs, ''AI advisor not configured.'')
             else
               (let call = advisor_call (be_web env) s;
                    (ad, resp, asked) = (if chatMode then Chat call prompt ad else Analyze call prompt ad);
                    s = s\<lparr>wb_advisor := Some ad\<rparr>
                in case resp of
                     Inl e \<Rightarrow> ((b, s), sprintf ''AI error: %v'' [FErr e])
                   | Inr r \<Rightarrow>
                       (let acts = ar_Actions r;
                            (b, queued) = queue_all env chatID (tg_ConfirmTTL (c_Telegram cfg)) (take 4 acts) b;
                            body = (if acts = [] then [] else [[], ''Queued AI actions:''] @ queued @
                              (if 4 < length acts then [sprintf ''- %d more action(s) omitted'' [FInt (int (length acts) - 4)]] else []))
                        in ((b, s), tg_truncate (str_join nl (trim_space (ar_Answer r) # body)) 4000)))))"

section \<open>Messages and the polling loop\<close>

definition reply_to :: "bot_env \<Rightarrow> Config \<Rightarrow> gostring \<Rightarrow> gostring list \<Rightarrow> int \<Rightarrow> bot_state \<Rightarrow> bot_state \<times> gostring" where
  "reply_to env cfg cmd args chat bs =
     (let (b, s) = bs in
      if cmd = ''start'' \<or> cmd = ''help'' then (bs, helpText)
      else if cmd = ''status'' then (case statusText env s of (s, r) \<Rightarrow> ((b, s), r))
      else if cmd = ''topcpu'' then (case topCPUText env s of (s, r) \<Rightarrow> ((b, s), r))
      else if cmd = ''alerts'' then (bs, alertsText s)
      else if cmd = ''ask'' \<or> cmd = ''ai'' then aiReply env cfg chat (str_join '' '' args) True bs
      else if cmd = ''analyze'' then aiReply env cfg chat (str_join '' '' args) False bs
      else if cmd = ''kill'' then pidAction env cfg chat args BKill bs
      else if cmd = ''taskkill'' then nameAction env cfg chat args BKill bs
      else if cmd = ''suspend'' then pidAction env cfg chat args BSuspend bs
      else if cmd = ''resume'' then pidAction env cfg chat args BResume bs
      else if cmd = ''killtop'' then topProcessAction env cfg chat BKill bs
      else if cmd = ''suspendtop'' then topProcessAction env cfg chat BSuspend bs
      else if cmd = ''confirm'' then confirmAction env args chat bs
      else if cmd = ''cancel'' then cancelAction env args chat bs
      else (bs, ''Unknown command. Send /help.''))"

definition handleMessage :: "bot_env \<Rightarrow> Config \<Rightarrow> tgMessage \<Rightarrow> bot_state \<Rightarrow> bot_state" where
  "handleMessage env cfg msg bs =
     (let (cmd, args) = parseCommand (mg_Text msg) in
      if cmd = [] then bs
      else
        (case reply_to env cfg cmd args (mg_Chat msg) bs of
           ((b, s), reply) \<Rightarrow> (fst (sendMessage env cfg (mg_Chat msg) reply b), s)))"

definition handle_update :: "bot_env \<Rightarrow> Config \<Rightarrow> tgUpdate \<Rightarrow> bot_state \<Rightarrow> bot_state" where
  "handle_update env cfg upd bs =
     (let (b, s) = bs; bs = (b\<lparr>tb_offset := wrap64 (up_UpdateID upd + 1)\<rparr>, s) in
      case up_Message upd of
        None \<Rightarrow> bs
      | Some msg \<Rightarrow>
          if trim_space (mg_Text msg) = [] then bs
          else if \<not> isAllowedChat (tg_AllowedChatIDs (c_Telegram cfg)) (mg_Chat msg) then bs
          else handleMessage env cfg msg bs)"

definition polls :: "Config option \<Rightarrow> bool" where
  "polls cfg \<longleftrightarrow> (case cfg of
     None \<Rightarrow> False
   | Some c \<Rightarrow> tg_Enabled (c_Telegram c) \<and> tg_BotToken (c_Telegram c) \<noteq> [] \<and> tg_AllowedChatIDs (c_Telegram c) \<noteq> [])"

text \<open>
  One turn of \<^verbatim>\<open>loop\<close>. The configuration is read before the poll and serves for all of its messages.
  \<open>envs\<close> gives the environment in which each message is handled, since time passes between them.
\<close>

definition bot_turn :: "bot_env \<Rightarrow> (nat \<Rightarrow> bot_env) \<Rightarrow> bot_state \<Rightarrow> bot_state" where
  "bot_turn env envs bs =
     (let (b, s) = bs in
      case tb_cfg b of
        None \<Rightarrow> bs
      | Some cfg \<Rightarrow>
          if \<not> polls (Some cfg) then bs
          else
            (let token = tg_BotToken (c_Telegram cfg);
                 b = (if token \<noteq> tb_lastToken b then b\<lparr>tb_offset := 0, tb_lastToken := token\<rparr> else b)
             in case getUpdates env cfg b of
                  (b, Inl e) \<Rightarrow> (b, s)
                | (b, Inr updates) \<Rightarrow>
                    fold (\<lambda>(i, upd). handle_update (envs i) cfg upd) (enumerate 0 updates) (b, s)))"

end
