(* ===== verification/BotGuarded.thy ===== *)
theory BotGuarded
  imports Telegram Guarded Ttl
begin

text \<open>
  What the Telegram bot guarantees: who can have it do something, when it only queues an action, and
  that an action is confirmed in the chat it was queued for, in time and once.
\<close>

section \<open>Pending actions are a store with expiry\<close>

definition put_pending :: "gotime \<Rightarrow> gostring \<Rightarrow> pendingAction \<Rightarrow> (gostring, pendingAction) gomap \<Rightarrow> (gostring, pendingAction) gomap" where
  "put_pending now code a m = mput code a (prune_map pa_ExpiresAt now m)"

definition take_pending ::
  "gotime \<Rightarrow> gostring \<Rightarrow> (pendingAction \<Rightarrow> bool) \<Rightarrow> (gostring, pendingAction) gomap \<Rightarrow> (gostring, pendingAction) gomap \<times> pendingAction option" where
  "take_pending now code ok m =
     (let m = prune_map pa_ExpiresAt now m in
      case mget m code of None \<Rightarrow> (m, None) | Some a \<Rightarrow> if ok a then (mdel code m, Some a) else (m, None))"

interpretation pend: ttl_store wf_map mget pa_ExpiresAt put_pending take_pending
  by unfold_locales
     (auto simp: put_pending_def take_pending_def mget_prune Let_def live_at_def split: option.splits)

text \<open>What one message can do to the pending actions.\<close>

definition resumes :: "pending_run \<Rightarrow> bool" where
  "resumes r \<longleftrightarrow> (\<exists>p. r = RunAct BResume p)"

definition own_put :: "bot_env \<Rightarrow> int \<Rightarrow> nat \<Rightarrow> (gostring, pendingAction) ttl_op \<Rightarrow> bool" where
  "own_put env chat draws c \<longleftrightarrow>
     (\<exists>k a n. c = Put (we_now (be_web env)) k a \<and> pa_ChatID a = chat \<and> \<not> resumes (pa_Run a) \<and> draws \<le> n \<and>
        newConfirmCode (be_random env n) = Inr k \<and> (\<exists>d>0. pa_ExpiresAt a = t_add (we_now (be_web env)) d))"

definition own_take :: "bot_env \<Rightarrow> int \<Rightarrow> gostring list \<Rightarrow> (gostring, pendingAction) ttl_op \<Rightarrow> bool" where
  "own_take env chat args c \<longleftrightarrow>
     c = Take (we_now (be_web env)) (normalizeConfirmCode args) (\<lambda>a. pa_ChatID a = chat) \<and> normalizeConfirmCode args \<noteq> []"

lemma own_put_mono: "own_put env chat n c \<Longrightarrow> m \<le> n \<Longrightarrow> own_put env chat m c"
  unfolding own_put_def using le_trans [of m n] by blast

text \<open>A step that only queues: its changes are puts for the chat, drawn from the random source in order.\<close>

definition queues_only :: "bot_env \<Rightarrow> int \<Rightarrow> Bot \<Rightarrow> Bot \<Rightarrow> bool" where
  "queues_only env chat b b' \<longleftrightarrow> tb_draws b \<le> tb_draws b' \<and>
     (\<exists>cs. (\<forall>c\<in>set cs. own_put env chat (tb_draws b) c) \<and> tb_pending b' = fst (pend.run cs (tb_pending b)))"

lemma queues_refl: "tb_pending b' = tb_pending b \<Longrightarrow> tb_draws b' = tb_draws b \<Longrightarrow> queues_only env chat b b'"
  unfolding queues_only_def by (auto intro: exI [of _ "[]"])

lemma queues_trans:
  assumes "queues_only env chat a b" "queues_only env chat b c"
  shows "queues_only env chat a c"
proof -
  obtain xs ys where "\<forall>x\<in>set xs. own_put env chat (tb_draws a) x" "tb_pending b = fst (pend.run xs (tb_pending a))"
    "\<forall>y\<in>set ys. own_put env chat (tb_draws b) y" "tb_pending c = fst (pend.run ys (tb_pending b))"
    "tb_draws a \<le> tb_draws b" "tb_draws b \<le> tb_draws c"
    using assms unfolding queues_only_def by blast
  then show ?thesis unfolding queues_only_def
    by (intro conjI exI [of _ "xs @ ys"]) (auto simp: pend.run_append intro: own_put_mono)
qed

lemma store_queues: "\<not> resumes r \<Longrightarrow> storePendingAction env chat ttl d su r b = (b', res) \<Longrightarrow> queues_only env chat b b'"
proof (cases "newConfirmCode (be_random env (tb_draws b))")
  case (Inr code)
  let ?now = "we_now (be_web env)" and ?ttl = "if ttl \<le> 0 then 90 * second else ttl"
  let ?a = "\<lparr>pa_ChatID = chat, pa_Description = d, pa_SuccessText = su, pa_ExpiresAt = t_add ?now ?ttl, pa_Run = r\<rparr>"
  assume nr: "\<not> resumes r" and s: "storePendingAction env chat ttl d su r b = (b', res)"
  have "0 < ?ttl" by (simp add: second_def)
  then have "own_put env chat (tb_draws b) (Put ?now code ?a)"
    using Inr nr unfolding own_put_def by (metis order_refl pendingAction.select_convs(1,4,5))
  moreover have "tb_pending b' = fst (pend.run [Put ?now code ?a] (tb_pending b))" "tb_draws b' = tb_draws b + 1"
    using s Inr by (auto simp: storePendingAction_def put_pending_def cleanupPendingLocked_def Let_def)
  ultimately show ?thesis unfolding queues_only_def by (intro conjI exI [of _ "[Put ?now code ?a]"]) simp_all
qed (auto simp: storePendingAction_def queues_only_def Let_def intro: exI [of _ "[]"])

lemma queueConfirmation_queues: "\<not> resumes r \<Longrightarrow> queueConfirmation env chat ttl d su r b = (b', reply) \<Longrightarrow> queues_only env chat b b'"
  using store_queues by (auto simp: queueConfirmation_def split: prod.splits sum.splits)

lemma ai_not_resumed: "\<not> resumes (RunAI sug)"
  by (simp add: resumes_def)

lemma queue_asked:
  "queueConfirmation env chat ttl d su (RunAct a p) b = (b', reply) \<Longrightarrow> asks_first cfg a \<Longrightarrow> queues_only env chat b b'"
  by (rule queueConfirmation_queues [of "RunAct a p"]) (cases a, auto simp: asks_first_def resumes_def)

lemma queueAI_queues: "queueAISuggestion env chat ttl sug b = (b', line) \<Longrightarrow> queues_only env chat b b'"
  by (auto simp: queueAISuggestion_def Let_def queues_refl dest: store_queues [OF ai_not_resumed]
      split: prod.splits sum.splits if_splits)

lemma queue_all_queues: "queue_all env chat ttl xs b = (b', ls) \<Longrightarrow> queues_only env chat b b'"
proof (induction xs arbitrary: b b' ls)
  case (Cons x xs)
  obtain b1 line where 1: "queueAISuggestion env chat ttl x b = (b1, line)" by force
  obtain b2 ls2 where 2: "queue_all env chat ttl xs b1 = (b2, ls2)" by force
  show ?case
    using queues_trans [OF queueAI_queues [OF 1] Cons.IH [OF 2]] Cons.prems 1 2 by simp
qed (simp add: queues_refl)


section \<open>Looking is not acting\<close>

text \<open>Nothing but looks at the store, which close no handle and emit nothing.\<close>

definition quiet :: "Server \<Rightarrow> Server \<Rightarrow> bool" where
  "quiet s s' \<longleftrightarrow>
     (\<exists>n. w_trace (wb_world s') = w_trace (wb_world s) @ replicate n SysLatest) \<and>
     w_open (wb_world s') = w_open (wb_world s) \<and> w_events (wb_world s') = w_events (wb_world s) \<and>
     wb_conf s' = wb_conf s \<and> wb_ctl s' = wb_ctl s \<and> wb_alerts s' = wb_alerts s \<and> wb_issued s' = wb_issued s"

lemma quiet_refl [simp]: "quiet s s"
  by (auto simp: quiet_def intro: exI [of _ 0])

lemma quiet_trans:
  assumes "quiet s t" "quiet t u"
  shows "quiet s u"
proof -
  obtain m n where "w_trace (wb_world t) = w_trace (wb_world s) @ replicate m SysLatest"
    "w_trace (wb_world u) = w_trace (wb_world t) @ replicate n SysLatest"
    using assms unfolding quiet_def by blast
  then have "w_trace (wb_world u) = w_trace (wb_world s) @ replicate (m + n) SysLatest"
    by (simp add: replicate_add)
  then show ?thesis using assms unfolding quiet_def by auto
qed

lemma latest_quiet: "bot_latest env s = (s', snap) \<Longrightarrow> quiet s s'"
  by (auto simp: bot_latest_def read_latest_def log_call_def quiet_def intro: exI [of _ 1])

lemma target_quiet: "target_of env p s = (s', target) \<Longrightarrow> quiet s s'"
  using latest_quiet by (auto simp: target_of_def split: prod.splits option.splits)

lemma texts_quiet: "pidActionTexts env p a s = (s', d, su) \<Longrightarrow> quiet s s'"
  using target_quiet by (auto simp: pidActionTexts_def split: prod.splits)

lemma find_quiet: "findProcessByName env cfg name s = (s', p, t) \<Longrightarrow> quiet s s'"
  using latest_quiet by (auto simp: findProcessByName_def Let_def split: prod.splits option.splits if_splits)

lemma select_quiet: "selectTopProcess env cfg s = (s', r) \<Longrightarrow> quiet s s'"
  using latest_quiet by (auto simp: selectTopProcess_def split: prod.splits option.splits)

lemma report_quiet:
  "statusText env s = (s', r) \<Longrightarrow> quiet s s'" "topCPUText env s = (s', r) \<Longrightarrow> quiet s s'"
  using latest_quiet by (auto simp: statusText_def topCPUText_def Let_def split: prod.splits option.splits)

text \<open>A command that only queues and looks.\<close>

definition harmless :: "bot_env \<Rightarrow> int \<Rightarrow> bot_state \<Rightarrow> bot_state \<Rightarrow> bool" where
  "harmless env chat bs bs' \<longleftrightarrow> quiet (snd bs) (snd bs') \<and> queues_only env chat (fst bs) (fst bs')"

lemma harmless_refl [simp]: "harmless env chat bs bs"
  by (simp add: harmless_def queues_refl)

lemma harmless_look: "quiet s s' \<Longrightarrow> harmless env chat (b, s) (b, s')"
  by (simp add: harmless_def queues_refl)

lemma pidAction_harmless:
  assumes "asks_first cfg a" "pidAction env cfg chat args a bs = (bs', reply)"
  shows "harmless env chat bs bs'"
  using assms
  by (cases bs) (auto simp: pidAction_def harmless_def queues_refl Let_def dest: texts_quiet queue_asked split: prod.splits option.splits if_splits)

lemma nameAction_harmless:
  assumes "asks_first cfg a" "\<not> snd (parseTaskkillArgs args)" "nameAction env cfg chat args a bs = (bs', reply)"
  shows "harmless env chat bs bs'"
proof -
  obtain b s where bs: "bs = (b, s)" by force
  obtain name where pa: "parseTaskkillArgs args = (name, False)" using assms(2) by (cases "parseTaskkillArgs args") auto
  obtain s1 p t where f: "findProcessByName env cfg name s = (s1, p, t)" by (metis prod_cases3)
  obtain s2 target where t: "target_of env p s1 = (s2, target)" by force
  have q: "quiet s s1" "quiet s s2"
    using find_quiet [OF f] quiet_trans [OF find_quiet [OF f] target_quiet [OF t]] by simp_all
  show ?thesis
    using assms(1,3) q
    by (auto simp: nameAction_def bs pa f t harmless_def queues_refl Let_def dest: queue_asked split: prod.splits if_splits)
qed

lemma topAction_harmless:
  assumes "asks_first cfg a" "topProcessAction env cfg chat a bs = (bs', reply)"
  shows "harmless env chat bs bs'"
  using assms
  by (cases bs) (auto simp: topProcessAction_def harmless_def queues_refl Let_def dest: select_quiet queue_asked split: prod.splits sum.splits)

lemma aiReply_harmless:
  assumes "aiReply env cfg chat prompt m bs = (bs', reply)"
  shows "harmless env chat bs bs'"
proof -
  have q: "quiet s (s\<lparr>wb_advisor := x\<rparr>)" for s x by (auto simp: quiet_def intro: exI [of _ 0])
  obtain b s where bs: "bs = (b, s)" by force
  show ?thesis
    using assms q queue_all_queues
    by (auto simp: aiReply_def bs harmless_def queues_refl Let_def split: option.splits if_splits prod.splits sum.splits)
qed


section \<open>Who can have the bot act\<close>

text \<open>The commands that may do more than look and queue.\<close>

definition orders :: "Config \<Rightarrow> gostring \<Rightarrow> gostring list \<Rightarrow> bool" where
  "orders cfg cmd args \<longleftrightarrow>
     cmd = ''confirm'' \<or> cmd = ''resume'' \<or> cmd = ''taskkill'' \<and> snd (parseTaskkillArgs args) \<or>
     \<not> tg_RequireConfirm (c_Telegram cfg) \<and> cmd \<in> set [''kill'', ''taskkill'', ''suspend'', ''killtop'', ''suspendtop'']"

lemma api_keeps:
  "apiCall env cfg meth body decode b = (b', r) \<Longrightarrow>
     tb_pending b' = tb_pending b \<and> tb_draws b' = tb_draws b \<and> tb_cfg b' = tb_cfg b \<and> tb_offset b' = tb_offset b"
  by (auto simp: apiCall_def Let_def split: option.splits sum.splits if_splits)

lemma send_keeps:
  "tb_pending (fst (sendMessage env cfg chat text b)) = tb_pending b"
  "tb_draws (fst (sendMessage env cfg chat text b)) = tb_draws b"
  by (auto simp: sendMessage_def split: prod.splits sum.splits dest!: api_keeps)

lemma reply_harmless:
  assumes "\<not> orders cfg cmd args" "cmd \<noteq> ''cancel''" "reply_to env cfg cmd args chat bs = (bs', r)"
  shows "harmless env chat bs bs'"
proof -
  obtain b s where bs: "bs = (b, s)" by force
  have ask: "asks_first cfg a" if "cmd \<in> set [''kill'', ''taskkill'', ''suspend'', ''killtop'', ''suspendtop'']" "a \<noteq> BResume" for a
    using assms(1) that by (cases a) (auto simp: orders_def asks_first_def)
  consider (plain) "cmd \<in> {''start'', ''help'', ''alerts''}" | (status) "cmd = ''status''" | (top) "cmd = ''topcpu''"
    | (ai) "cmd \<in> {''ask'', ''ai'', ''analyze''}"
    | (kill) "cmd = ''kill''" | (task) "cmd = ''taskkill''" | (suspend) "cmd = ''suspend''"
    | (ktop) "cmd = ''killtop''" | (stop) "cmd = ''suspendtop''"
    | (none) "cmd \<notin> {''start'', ''help'', ''status'', ''topcpu'', ''alerts'', ''ask'', ''ai'', ''analyze'', ''kill'', ''taskkill'',
        ''suspend'', ''resume'', ''killtop'', ''suspendtop'', ''confirm'', ''cancel''}"
    using assms(1,2) by (auto simp: orders_def)
  then show ?thesis
  proof cases
    case plain
    then show ?thesis using assms(3) by (auto simp: reply_to_def bs)
  next
    case status
    obtain s1 t where st: "statusText env s = (s1, t)" by force
    then show ?thesis
      using status assms(3) harmless_look [OF report_quiet(1) [OF st]] by (auto simp: reply_to_def bs)
  next
    case top
    obtain s1 t where st: "topCPUText env s = (s1, t)" by force
    then show ?thesis
      using top assms(3) harmless_look [OF report_quiet(2) [OF st]] by (auto simp: reply_to_def bs)
  next
    case ai
    then show ?thesis using assms(3) by (auto simp: reply_to_def bs dest: aiReply_harmless)
  next
    case kill
    then have "asks_first cfg BKill" "pidAction env cfg chat args BKill bs = (bs', r)" using ask [of BKill] assms(3) by (simp_all add: reply_to_def bs)
    then show ?thesis by (rule pidAction_harmless)
  next
    case task
    then have "\<not> snd (parseTaskkillArgs args)" using assms(1) by (simp add: orders_def)
    moreover have "asks_first cfg BKill" "nameAction env cfg chat args BKill bs = (bs', r)" using ask [of BKill] assms(3) task by (simp_all add: reply_to_def bs)
    ultimately show ?thesis using nameAction_harmless by blast
  next
    case suspend
    then have "asks_first cfg BSuspend" "pidAction env cfg chat args BSuspend bs = (bs', r)" using ask [of BSuspend] assms(3) by (simp_all add: reply_to_def bs)
    then show ?thesis by (rule pidAction_harmless)
  next
    case ktop
    then have "asks_first cfg BKill" "topProcessAction env cfg chat BKill bs = (bs', r)" using ask [of BKill] assms(3) by (simp_all add: reply_to_def bs)
    then show ?thesis by (rule topAction_harmless)
  next
    case stop
    then have "asks_first cfg BSuspend" "topProcessAction env cfg chat BSuspend bs = (bs', r)" using ask [of BSuspend] assms(3) by (simp_all add: reply_to_def bs)
    then show ?thesis by (rule topAction_harmless)
  next
    case none
    then show ?thesis using assms(3) by (auto simp: reply_to_def Let_def bs)
  qed
qed

lemma cancel_quiet: "cancelAction env args chat (b, s) = ((b', s'), r) \<Longrightarrow> s' = s"
  by (auto simp: cancelAction_def Let_def split: option.splits if_splits)

lemma message_quiet:
  assumes "\<not> orders cfg (fst (parseCommand (mg_Text msg))) (snd (parseCommand (mg_Text msg)))"
  shows "quiet (snd bs) (snd (handleMessage env cfg msg bs))"
proof -
  obtain cmd args where c: "parseCommand (mg_Text msg) = (cmd, args)" by force
  obtain b' s' r where rr: "reply_to env cfg cmd args (mg_Chat msg) bs = ((b', s'), r)" by (metis prod_cases3 surj_pair)
  have "quiet (snd bs) s'"
  proof (cases "cmd = ''cancel''")
    case True
    then show ?thesis using rr by (cases bs) (auto simp: reply_to_def dest: cancel_quiet)
  next
    case False
    then show ?thesis using reply_harmless [OF _ False rr] assms c by (simp add: harmless_def)
  qed
  then show ?thesis using c rr by (simp add: handleMessage_def)
qed

text \<open>An update that may act: a command that orders something, from a chat on the list.\<close>

definition commands :: "Config \<Rightarrow> tgUpdate \<Rightarrow> bool" where
  "commands cfg upd \<longleftrightarrow>
     (case up_Message upd of
        None \<Rightarrow> False
      | Some msg \<Rightarrow> isAllowedChat (tg_AllowedChatIDs (c_Telegram cfg)) (mg_Chat msg) \<and>
          orders cfg (fst (parseCommand (mg_Text msg))) (snd (parseCommand (mg_Text msg))))"

lemma update_quiet: "\<not> commands cfg upd \<Longrightarrow> quiet (snd bs) (snd (handle_update env cfg upd bs))"
  using message_quiet by (cases bs) (auto simp: handle_update_def commands_def Let_def split: option.splits)

lemma updates_quiet:
  "\<forall>(i, upd)\<in>set xs. \<not> commands cfg upd \<Longrightarrow>
     quiet (snd bs) (snd (fold (\<lambda>(i, upd). handle_update (envs i) cfg upd) xs bs))"
proof (induction xs arbitrary: bs)
  case (Cons x xs)
  obtain i upd where x: "x = (i, upd)" by force
  have "quiet (snd bs) (snd (handle_update (envs i) cfg upd bs))" using update_quiet Cons.prems x by auto
  then show ?case
    using Cons.IH [of "handle_update (envs i) cfg upd bs"] Cons.prems x quiet_trans by auto
qed simp

text \<open>
  C3. The bot acts only when an allowed chat tells it to. If a turn of the polling loop does anything but
  look at the store, be it to a process, the configuration, the limits, the alerts or the issued
  suggestions, then among the updates that Telegram delivered there is a message from a chat on the list
  of allowed chats that confirms or resumes, or forces a kill, or orders a kill or suspension while no
  confirmation is required. In particular the messages of other chats have no effect, and where
  confirmations are required a kill or suspension by number, name or load is at most queued.
\<close>

theorem bot_acts_when_told:
  assumes "bot_turn env envs (b, s) = (b', s')" and "\<not> quiet s s'"
  shows "\<exists>cfg b1 b2 updates upd. tb_cfg b = Some cfg \<and> polls (tb_cfg b) \<and>
    getUpdates env cfg b1 = (b2, Inr updates) \<and> upd \<in> set updates \<and> commands cfg upd"
proof (cases "tb_cfg b")
  case (Some cfg)
  let ?token = "tg_BotToken (c_Telegram cfg)"
  let ?b = "if ?token \<noteq> tb_lastToken b then b\<lparr>tb_offset := 0, tb_lastToken := ?token\<rparr> else b"
  obtain b2 r where g: "getUpdates env cfg ?b = (b2, r)" by force
  have on: "polls (Some cfg)" using assms Some by (auto simp: bot_turn_def split: if_splits)
  then obtain updates where u: "r = Inr updates"
    using assms Some g by (cases r) (auto simp: bot_turn_def Let_def split: if_splits)
  have turn: "(b', s') = fold (\<lambda>(i, upd). handle_update (envs i) cfg upd) (enumerate 0 updates) (b2, s)"
    using assms(1) Some on g u by (simp add: bot_turn_def Let_def split: if_splits)
  have "\<exists>upd\<in>set updates. commands cfg upd"
  proof (rule ccontr)
    assume "\<not> (\<exists>upd\<in>set updates. commands cfg upd)"
    then have "\<forall>(i, upd)\<in>set (enumerate 0 updates). \<not> commands cfg upd"
      by (auto simp: in_set_enumerate_eq)
    from updates_quiet [OF this, of "(b2, s)" envs] show False
      using turn assms(2) by (metis snd_conv)
  qed
  then obtain upd where upd: "upd \<in> set updates" "commands cfg upd" by blast
  have "getUpdates env cfg ?b = (b2, Inr updates)" using g u by simp
  with upd Some on show ?thesis
    by (intro exI [of _ cfg] exI [of _ ?b] exI [of _ b2] exI [of _ updates] exI [of _ upd]) simp
qed (use assms in \<open>simp add: bot_turn_def\<close>)


section \<open>What becomes of a pending action\<close>

definition bot_run :: "(bot_env \<times> Config \<times> tgMessage) list \<Rightarrow> bot_state \<Rightarrow> bot_state" where
  "bot_run ms bs = fold (\<lambda>(env, cfg, msg). handleMessage env cfg msg) ms bs"

lemma bot_run_append: "bot_run (xs @ ys) bs = bot_run ys (bot_run xs bs)"
  by (simp add: bot_run_def)

lemma bot_run_Nil [simp]: "bot_run [] bs = bs"
  by (simp add: bot_run_def)

text \<open>What the bot would confirm for a message in a state, and whether it would.\<close>

definition confirms :: "bot_env \<Rightarrow> tgMessage \<Rightarrow> Bot \<Rightarrow> gostring \<Rightarrow> pendingAction \<Rightarrow> bool" where
  "confirms env msg b code a \<longleftrightarrow>
     fst (parseCommand (mg_Text msg)) = ''confirm'' \<and> code = normalizeConfirmCode (snd (parseCommand (mg_Text msg))) \<and>
     code \<noteq> [] \<and> snd (take_pending (we_now (be_web env)) code (\<lambda>a. pa_ChatID a = mg_Chat msg) (tb_pending b)) = Some a"

text \<open>A message whose handling may take an action out: it confirms or cancels that code in that chat.\<close>

definition claims_code :: "tgMessage \<Rightarrow> gostring \<Rightarrow> bool" where
  "claims_code msg code \<longleftrightarrow>
     fst (parseCommand (mg_Text msg)) \<in> {''confirm'', ''cancel''} \<and>
     normalizeConfirmCode (snd (parseCommand (mg_Text msg))) = code"

lemma confirm_takes:
  "confirmAction env args chat (b, s) = ((b', s'), r) \<Longrightarrow> tb_draws b' = tb_draws b \<and>
     tb_pending b' = (if normalizeConfirmCode args = [] then tb_pending b
       else fst (take_pending (we_now (be_web env)) (normalizeConfirmCode args) (\<lambda>a. pa_ChatID a = chat) (tb_pending b)))"
  by (auto simp: confirmAction_def take_pending_def cleanupPendingLocked_def Let_def split: option.splits if_splits prod.splits)

lemma cancel_takes:
  "cancelAction env args chat (b, s) = ((b', s'), r) \<Longrightarrow> tb_draws b' = tb_draws b \<and>
     tb_pending b' = (if normalizeConfirmCode args = [] then tb_pending b
       else fst (take_pending (we_now (be_web env)) (normalizeConfirmCode args) (\<lambda>a. pa_ChatID a = chat) (tb_pending b)))"
  by (auto simp: cancelAction_def take_pending_def cleanupPendingLocked_def Let_def split: option.splits if_splits)

lemma act_queues: "tb_pending b' = tb_pending b \<Longrightarrow> tb_draws b' = tb_draws b \<Longrightarrow> queues_only env chat b b'"
  by (rule queues_refl)

lemma pidAction_queues: "pidAction env cfg chat args a (b, s) = ((b', s'), r) \<Longrightarrow> queues_only env chat b b'"
  by (auto simp: pidAction_def Let_def queues_refl dest: queue_asked split: prod.splits option.splits if_splits)

lemma nameAction_queues: "nameAction env cfg chat args a (b, s) = ((b', s'), r) \<Longrightarrow> queues_only env chat b b'"
  by (auto simp: nameAction_def Let_def queues_refl dest: queue_asked split: prod.splits option.splits if_splits)

lemma topAction_queues: "topProcessAction env cfg chat a (b, s) = ((b', s'), r) \<Longrightarrow> queues_only env chat b b'"
  by (auto simp: topProcessAction_def Let_def queues_refl dest: queue_asked
      split: prod.splits option.splits sum.splits if_splits)

lemma aiReply_queues: "aiReply env cfg chat p m (b, s) = ((b', s'), r) \<Longrightarrow> queues_only env chat b b'"
  using aiReply_harmless by (fastforce simp: harmless_def)

lemmas command_queues = pidAction_queues nameAction_queues topAction_queues aiReply_queues

text \<open>The commands by what they do to the bot, one case each.\<close>

lemma reply_queues:
  assumes "cmd \<notin> {''confirm'', ''cancel''}" "reply_to env cfg cmd args chat (b, s) = ((b', s'), r)"
  shows "queues_only env chat b b'"
proof -
  consider (report) "cmd \<in> {''start'', ''help'', ''status'', ''topcpu'', ''alerts''}" | (ask) "cmd \<in> {''ask'', ''ai''}"
    | (analyze) "cmd = ''analyze''" | (kill) "cmd = ''kill''" | (task) "cmd = ''taskkill''" | (suspend) "cmd = ''suspend''"
    | (resume) "cmd = ''resume''" | (ktop) "cmd = ''killtop''" | (stop) "cmd = ''suspendtop''"
    | (none) "cmd \<notin> {''start'', ''help'', ''status'', ''topcpu'', ''alerts'', ''ask'', ''ai'', ''analyze'', ''kill'', ''taskkill'',
        ''suspend'', ''resume'', ''killtop'', ''suspendtop'', ''confirm'', ''cancel''}"
    using assms(1) by auto
  then show ?thesis
  proof cases
    case report
    then show ?thesis using assms(2) by (auto simp: reply_to_def queues_refl split: prod.splits)
  next
    case ask
    then have "aiReply env cfg chat (str_join '' '' args) True (b, s) = ((b', s'), r)" using assms(2) by (auto simp: reply_to_def)
    then show ?thesis by (rule aiReply_queues)
  next
    case analyze
    then have "aiReply env cfg chat (str_join '' '' args) False (b, s) = ((b', s'), r)" using assms(2) by (simp add: reply_to_def)
    then show ?thesis by (rule aiReply_queues)
  next
    case kill
    then have "pidAction env cfg chat args BKill (b, s) = ((b', s'), r)" using assms(2) by (simp add: reply_to_def)
    then show ?thesis by (rule pidAction_queues)
  next
    case task
    then have "nameAction env cfg chat args BKill (b, s) = ((b', s'), r)" using assms(2) by (simp add: reply_to_def)
    then show ?thesis by (rule nameAction_queues)
  next
    case suspend
    then have "pidAction env cfg chat args BSuspend (b, s) = ((b', s'), r)" using assms(2) by (simp add: reply_to_def)
    then show ?thesis by (rule pidAction_queues)
  next
    case resume
    then have "pidAction env cfg chat args BResume (b, s) = ((b', s'), r)" using assms(2) by (simp add: reply_to_def)
    then show ?thesis by (rule pidAction_queues)
  next
    case ktop
    then have "topProcessAction env cfg chat BKill (b, s) = ((b', s'), r)" using assms(2) by (simp add: reply_to_def)
    then show ?thesis by (rule topAction_queues)
  next
    case stop
    then have "topProcessAction env cfg chat BSuspend (b, s) = ((b', s'), r)" using assms(2) by (simp add: reply_to_def)
    then show ?thesis by (rule topAction_queues)
  next
    case none
    then show ?thesis using assms(2) by (simp add: reply_to_def queues_refl)
  qed
qed

text \<open>A message queues for its own chat, or takes one code out, or leaves the pending actions alone.\<close>

lemma message_pending:
  assumes "handleMessage env cfg msg (b, s) = (b', s')"
  shows "queues_only env (mg_Chat msg) b b' \<or>
    (\<exists>code. claims_code msg code \<and> code \<noteq> [] \<and> tb_draws b' = tb_draws b \<and>
       tb_pending b' = fst (take_pending (we_now (be_web env)) code (\<lambda>a. pa_ChatID a = mg_Chat msg) (tb_pending b)))"
proof -
  obtain cmd args where c: "parseCommand (mg_Text msg) = (cmd, args)" by force
  obtain b1 s1 r where rr: "reply_to env cfg cmd args (mg_Chat msg) (b, s) = ((b1, s1), r)" by (metis prod_cases3 surj_pair)
  have sent: "cmd \<noteq> [] \<Longrightarrow> tb_pending b' = tb_pending b1 \<and> tb_draws b' = tb_draws b1"
    using assms c rr send_keeps by (auto simp: handleMessage_def)
  show ?thesis
  proof (cases "cmd \<in> {''confirm'', ''cancel''}")
    case True
    then consider "confirmAction env args (mg_Chat msg) (b, s) = ((b1, s1), r)" | "cancelAction env args (mg_Chat msg) (b, s) = ((b1, s1), r)"
      using rr by (auto simp: reply_to_def)
    then have "tb_draws b1 = tb_draws b \<and> tb_pending b1 = (if normalizeConfirmCode args = [] then tb_pending b
       else fst (take_pending (we_now (be_web env)) (normalizeConfirmCode args) (\<lambda>a. pa_ChatID a = mg_Chat msg) (tb_pending b)))"
      by cases (drule confirm_takes cancel_takes, assumption)+
    then show ?thesis
      using True sent c queues_refl by (cases "normalizeConfirmCode args = []") (auto simp: claims_code_def)
  next
    case False
    then have "queues_only env (mg_Chat msg) b b1" using rr by (rule reply_queues)
    then have "cmd \<noteq> [] \<Longrightarrow> queues_only env (mg_Chat msg) b b'" using sent by (simp add: queues_only_def)
    moreover have "cmd = [] \<Longrightarrow> b' = b" using assms c by (simp add: handleMessage_def)
    ultimately show ?thesis using queues_refl by blast
  qed
qed


lemma run_origin:
  "wf_map m \<Longrightarrow> mget (fst (pend.run cs m)) code = Some a \<Longrightarrow>
     (\<exists>t. Put t code a \<in> set cs) \<or> mget m code = Some a"
proof (induction cs arbitrary: m)
  case (Cons c cs)
  let ?m = "fst (pend.exec c m)"
  have "wf_map ?m" using pend.good_exec Cons.prems(1) .
  moreover have "mget (fst (pend.run cs ?m)) code = Some a" using Cons.prems(2) by (simp add: Let_def split_beta)
  ultimately show ?case using Cons.IH [of ?m] pend.exec_view [OF Cons.prems(1), of c code a] by auto
qed simp

lemma run_wf: "wf_map m \<Longrightarrow> wf_map (fst (pend.run cs m))"
proof (induction cs arbitrary: m)
  case (Cons c cs)
  then show ?case using pend.good_exec [of m c] by (simp add: Let_def split_beta)
qed simp

lemma message_wf:
  assumes "wf_map (tb_pending (fst bs))"
  shows "wf_map (tb_pending (fst (handleMessage env cfg msg bs)))"
proof -
  obtain b s b' s' where bs: "bs = (b, s)" "handleMessage env cfg msg (b, s) = (b', s')" by (metis prod.collapse)
  then show ?thesis
    using message_pending [OF bs(2)] assms run_wf pend.good_take by (auto simp: queues_only_def)
qed

lemma bot_run_wf: "wf_map (tb_pending (fst bs)) \<Longrightarrow> wf_map (tb_pending (fst (bot_run ms bs)))"
proof (induction ms arbitrary: bs)
  case (Cons m ms)
  then show ?case using message_wf by (cases m) (simp add: bot_run_def)
qed simp

text \<open>An action that is pending after a message was so before, or the message queued it for its chat.\<close>

lemma message_origin:
  assumes "wf_map (tb_pending (fst bs))" and "mget (tb_pending (fst (handleMessage env cfg msg bs))) code = Some a"
  shows "mget (tb_pending (fst bs)) code = Some a \<or>
    (pa_ChatID a = mg_Chat msg \<and> (\<exists>d>0. pa_ExpiresAt a = t_add (we_now (be_web env)) d))"
proof -
  obtain b s b' s' where bs: "bs = (b, s)" "handleMessage env cfg msg (b, s) = (b', s')" by (metis prod.collapse)
  from message_pending [OF bs(2)] show ?thesis
  proof (elim disjE exE conjE)
    assume "queues_only env (mg_Chat msg) b b'"
    then obtain cs where cs: "\<forall>c\<in>set cs. own_put env (mg_Chat msg) (tb_draws b) c" "tb_pending b' = fst (pend.run cs (tb_pending b))"
      unfolding queues_only_def by blast
    consider t where "Put t code a \<in> set cs" | "mget (tb_pending b) code = Some a"
      using run_origin [of "tb_pending b" cs code a] assms bs cs(2) by auto
    then show ?thesis using cs(1) bs(1) by cases (force simp: own_put_def)+
  next
    fix k assume "tb_pending b' = fst (take_pending (we_now (be_web env)) k (\<lambda>a. pa_ChatID a = mg_Chat msg) (tb_pending b))"
    then show ?thesis using assms bs pend.view_take [of "tb_pending b"] by (auto split: if_splits)
  qed
qed

lemma pending_origin:
  assumes "wf_map (tb_pending (fst bs))" "tb_pending (fst bs) = []" and "mget (tb_pending (fst (bot_run ms bs))) code = Some a"
  shows "\<exists>before env cfg m after. ms = before @ (env, cfg, m) # after \<and> pa_ChatID a = mg_Chat m \<and>
    (\<exists>d>0. pa_ExpiresAt a = t_add (we_now (be_web env)) d) \<and>
    (\<forall>n\<le>length after. mget (tb_pending (fst (bot_run (before @ (env, cfg, m) # take n after) bs))) code = Some a)"
  using assms(3)
proof (induction ms rule: rev_induct)
  case (snoc x ms)
  obtain env cfg m where x: "x = (env, cfg, m)" by (metis prod_cases3)
  let ?b = "bot_run ms bs"
  have step: "bot_run (ms @ [x]) bs = handleMessage env cfg m ?b" by (simp add: bot_run_append) (simp add: bot_run_def x)
  from message_origin [OF bot_run_wf [OF assms(1)], where ms1 = ms] snoc.prems step
  consider (before) "mget (tb_pending (fst ?b)) code = Some a"
    | (now) "pa_ChatID a = mg_Chat m" "\<exists>d>0. pa_ExpiresAt a = t_add (we_now (be_web env)) d" by metis
  then show ?case
  proof cases
    case before
    from snoc.IH [OF before] obtain pre e c m' post where ih: "ms = pre @ (e, c, m') # post" "pa_ChatID a = mg_Chat m'"
      "\<exists>d>0. pa_ExpiresAt a = t_add (we_now (be_web e)) d"
      "\<forall>n\<le>length post. mget (tb_pending (fst (bot_run (pre @ (e, c, m') # take n post) bs))) code = Some a" by blast
    have "mget (tb_pending (fst (bot_run (pre @ (e, c, m') # take n (post @ [x])) bs))) code = Some a" if "n \<le> length (post @ [x])" for n
      using ih(1,4) snoc.prems that by (cases "n \<le> length post") (auto simp: not_le le_Suc_eq)
    then show ?thesis using ih(1-3)
      by (intro exI [of _ pre] exI [of _ e] exI [of _ c] exI [of _ m'] exI [of _ "post @ [x]"]) simp
  next
    case now
    then show ?thesis using snoc.prems x
      by (intro exI [of _ ms] exI [of _ env] exI [of _ cfg] exI [of _ m] exI [of _ "[]"]) simp
  qed
qed (simp add: assms(2))

lemma confirm_effect:
  assumes "confirms env msg b code a"
  shows "snd (handleMessage env cfg msg (b, s)) = fst (run_pending env (pa_Run a) s) \<and>
    tb_pending (fst (handleMessage env cfg msg (b, s))) =
      fst (take_pending (we_now (be_web env)) code (\<lambda>a. pa_ChatID a = mg_Chat msg) (tb_pending b))"
proof -
  obtain args where c: "parseCommand (mg_Text msg) = (''confirm'', args)"
    using assms by (cases "parseCommand (mg_Text msg)") (auto simp: confirms_def)
  obtain s' e where r: "run_pending env (pa_Run a) s = (s', e)" by force
  have "mget (prune_map pa_ExpiresAt (we_now (be_web env)) (tb_pending b)) code = Some a" "pa_ChatID a = mg_Chat msg"
    using assms by (auto simp: confirms_def take_pending_def Let_def split: option.splits if_splits)
  then show ?thesis
    using assms c r send_keeps(1)
    by (cases e) (auto simp: handleMessage_def reply_to_def confirmAction_def cleanupPendingLocked_def take_pending_def
        confirms_def Let_def)
qed



lemma run_stays:
  "wf_map m \<Longrightarrow> mget m code = Some a \<Longrightarrow> \<forall>c\<in>set cs. \<exists>t k v. c = Put t k v \<and> k \<noteq> code \<and> t < pa_ExpiresAt a \<Longrightarrow>
     mget (fst (pend.run cs m)) code = Some a"
proof (induction cs arbitrary: m)
  case (Cons c cs)
  then obtain t k v where c: "c = Put t k v" "k \<noteq> code" "t < pa_ExpiresAt a" by auto
  then have "mget (put_pending t k v m) code = Some a" using Cons.prems(1,2) pend.view_put by simp
  then show ?case using Cons c pend.good_put by (simp add: Let_def split_beta)
qed simp

text \<open>A message that leaves a code alone: in time, not asking for it in its chat, and drawing no equal code.\<close>

definition spares :: "bot_env \<times> Config \<times> tgMessage \<Rightarrow> nat \<Rightarrow> gostring \<Rightarrow> pendingAction \<Rightarrow> bool" where
  "spares x draws code a \<longleftrightarrow> (case x of (env, cfg, m) \<Rightarrow>
     we_now (be_web env) < pa_ExpiresAt a \<and> \<not> (claims_code m code \<and> mg_Chat m = pa_ChatID a) \<and>
     (\<forall>n\<ge>draws. newConfirmCode (be_random env n) \<noteq> Inr code))"

lemma message_spares:
  assumes "wf_map (tb_pending b)" "mget (tb_pending b) code = Some a" "spares (env, cfg, m) (tb_draws b) code a"
    and "handleMessage env cfg m (b, s) = (b', s')"
  shows "mget (tb_pending b') code = Some a \<and> tb_draws b \<le> tb_draws b'"
  using message_pending [OF assms(4)]
proof (elim disjE exE conjE)
  assume "queues_only env (mg_Chat m) b b'"
  then obtain cs where cs: "tb_draws b \<le> tb_draws b'" "\<forall>c\<in>set cs. own_put env (mg_Chat m) (tb_draws b) c"
    "tb_pending b' = fst (pend.run cs (tb_pending b))"
    unfolding queues_only_def by blast
  have "\<exists>t k v. c = Put t k v \<and> k \<noteq> code \<and> t < pa_ExpiresAt a" if "c \<in> set cs" for c
    using cs(2) that assms(3) unfolding own_put_def spares_def by fastforce
  then show ?thesis using run_stays [OF assms(1,2)] cs by auto
next
  fix k assume k: "claims_code m k" "tb_draws b' = tb_draws b"
    "tb_pending b' = fst (take_pending (we_now (be_web env)) k (\<lambda>a. pa_ChatID a = mg_Chat m) (tb_pending b))"
  have "\<not> (k = code \<and> pa_ChatID a = mg_Chat m)" using k(1) assms(3) by (auto simp: spares_def)
  then show ?thesis
    using k assms(1-3) pend.view_take [OF assms(1)] pend.take_result [OF assms(1)]
    by (auto simp: spares_def live_at_def)
qed

lemma bot_run_spares:
  "wf_map (tb_pending b) \<Longrightarrow> mget (tb_pending b) code = Some a \<Longrightarrow> \<forall>x\<in>set ms. spares x (tb_draws b) code a \<Longrightarrow>
     mget (tb_pending (fst (bot_run ms (b, s)))) code = Some a"
proof (induction ms arbitrary: b s)
  case (Cons x ms)
  obtain env cfg m where x: "x = (env, cfg, m)" by (metis prod_cases3)
  obtain b1 s1 where h: "handleMessage env cfg m (b, s) = (b1, s1)" by force
  have st: "mget (tb_pending b1) code = Some a" "tb_draws b \<le> tb_draws b1"
    using message_spares [OF Cons.prems(1,2) _ h] Cons.prems(3) x by auto
  have "\<forall>y\<in>set ms. spares y (tb_draws b1) code a"
    using Cons.prems(3) st(2) by (fastforce simp: spares_def)
  then show ?case
    using Cons.IH [OF _ st(1)] message_wf [of "(b, s)" env cfg m] Cons.prems(1) h x by (simp add: bot_run_def)
qed simp

text \<open>
  C22. An action that was queued can be confirmed. Once an action is stored under a code that was sent to a
  chat, then whatever other messages come in, as long as none of them asks for that code in that chat and
  no equal code is drawn, the message that confirms the code in that chat before its time is over has the
  bot carry out the action, and the action was stored with the time to live asked for, or ninety seconds.
\<close>

theorem queued_can_be_confirmed:
  assumes "wf_map (tb_pending b0)" and "storePendingAction env0 chat ttl d su r b0 = (b, Inr code)"
    and "\<forall>x\<in>set ms. spares x (tb_draws b) code (the (mget (tb_pending b) code))"
    and "bot_run ms (b, s) = (b1, s1)"
    and "parseCommand (mg_Text msg) = (''confirm'', [code])" and "mg_Chat msg = chat"
    and "we_now (be_web env) < t_add (we_now (be_web env0)) (if ttl \<le> 0 then 90 * second else ttl)"
  shows "snd (handleMessage env cfg msg (b1, s1)) = fst (run_pending env r s1)"
proof -
  let ?a = "\<lparr>pa_ChatID = chat, pa_Description = d, pa_SuccessText = su,
     pa_ExpiresAt = t_add (we_now (be_web env0)) (if ttl \<le> 0 then 90 * second else ttl), pa_Run = r\<rparr>"
  obtain raw where raw: "be_random env0 (tb_draws b0) = Inr raw" "code = base32_encode raw"
    using assms(2) by (cases "be_random env0 (tb_draws b0)") (auto simp: storePendingAction_def newConfirmCode_def Let_def)
  have a: "mget (tb_pending b) code = Some ?a" and wf: "wf_map (tb_pending b)"
    using assms(1,2) raw by (auto simp: storePendingAction_def newConfirmCode_def cleanupPendingLocked_def Let_def)
  have "mget (tb_pending b1) code = Some ?a"
    using bot_run_spares [OF wf a, of ms s] assms(3,4) a by simp
  moreover have "wf_map (tb_pending b1)" using bot_run_wf [of "(b, s)" ms] wf assms(4) by simp
  ultimately have "snd (take_pending (we_now (be_web env)) code (\<lambda>a. pa_ChatID a = mg_Chat msg) (tb_pending b1)) = Some ?a"
    using pend.take_result assms(6,7) by (simp add: live_at_def)
  moreover have "code \<noteq> []" using raw(2) base32_length by (metis list.size(3) zero_neq_numeral)
  ultimately have "confirms env msg b1 code ?a"
    using assms(5) raw(2) by (simp add: confirms_def)
  then show ?thesis using confirm_effect by fastforce
qed


section \<open>What the bot does to processes\<close>

lemma monitored_looks:
  "w_trace w' = w_trace w @ replicate n SysLatest \<Longrightarrow> monitored os c b w w'"
proof (induction n arbitrary: w')
  case 0
  then show ?case using monitored_refl monitored_world [of w' w] by simp
next
  case (Suc n)
  let ?w = "w\<lparr>w_trace := w_trace w @ replicate n SysLatest\<rparr>"
  have "monitored os c b w ?w" using Suc.IH [of ?w] by simp
  moreover have "w_trace w' = w_trace (log_call SysLatest ?w)" using Suc.prems by (simp add: replicate_append_same)
  ultimately show ?case
    using monitored_trans monitored_latest [of os c b ?w] monitored_world by blast
qed

definition bot_watched :: "bot_env \<Rightarrow> Server \<Rightarrow> Server \<Rightarrow> bool" where
  "bot_watched env s s' \<longleftrightarrow> wb_ctl s' = wb_ctl s \<and> monitored (we_os (be_web env)) (wb_ctl s) True (wb_world s) (wb_world s')"

lemma quiet_watched: "quiet s s' \<Longrightarrow> bot_watched env s s'"
  using monitored_looks by (auto simp: quiet_def bot_watched_def)

lemma watched_trans: "bot_watched env s t \<Longrightarrow> bot_watched env t u \<Longrightarrow> bot_watched env s u"
  using monitored_trans unfolding bot_watched_def by metis

lemma act_watched: "a \<noteq> BResume \<Longrightarrow> bot_act env a p s = (s', e) \<Longrightarrow> bot_watched env s s'"
  using monitored_Kill [of "we_os (be_web env)" "wb_ctl s" True "wb_world s" p]
    monitored_Suspend [of "we_os (be_web env)" "wb_ctl s" True "wb_world s" p]
  by (cases a) (auto simp: bot_act_def bot_watched_def Let_def split: prod.splits)

lemma exec_ctl: "wb_ctl (fst (fst (ExecuteAISuggestion env sug c s))) = wb_ctl s"
  by (auto simp: ExecuteAISuggestion_def exec_config_def Let_def split: prod.splits sum.splits)

lemma run_watched:
  assumes "\<not> resumes r" "run_pending env r s = (s', e)"
  shows "bot_watched env s s'"
proof (cases r)
  case (RunAct a p)
  then have "a \<noteq> BResume" using assms(1) by (auto simp: resumes_def)
  then show ?thesis using act_watched assms(2) RunAct by (simp add: run_pending_def)
next
  case (RunAI sug)
  then have "s' = fst (fst (ExecuteAISuggestion (be_web env) sug True s))" using assms(2) by (simp add: run_pending_def)
  then show ?thesis
    using watched_execution [of "be_web env" s True sug] exec_ctl [of "be_web env" sug True s] by (simp add: bot_watched_def)
qed

lemma texts_watched: "pidActionTexts env p a s = (s', d, su) \<Longrightarrow> bot_watched env s s'"
  by (rule quiet_watched, erule texts_quiet)

lemma pidAction_watched:
  assumes "a \<noteq> BResume" "pidAction env cfg chat args a (b, s) = ((b', s'), r)"
  shows "bot_watched env s s'"
  using assms quiet_watched [OF quiet_refl]
  by (auto simp: pidAction_def Let_def dest: texts_watched act_watched [OF assms(1)]
      dest: watched_trans [OF act_watched [OF assms(1)] texts_watched]
      split: prod.splits option.splits if_splits)

lemma nameAction_watched:
  assumes "a \<noteq> BResume" "nameAction env cfg chat args a (b, s) = ((b', s'), r)"
  shows "bot_watched env s s'"
proof -
  obtain name force where pa: "parseTaskkillArgs args = (name, force)" by force
  obtain s1 p t where f: "findProcessByName env cfg name s = (s1, p, t)" by (metis prod_cases3)
  obtain s2 target where t: "target_of env p s1 = (s2, target)" by force
  obtain s3 e where x: "bot_act env a p s2 = (s3, e)" by force
  have q: "quiet s s1" "quiet s s2"
    using find_quiet [OF f] quiet_trans [OF find_quiet [OF f] target_quiet [OF t]] by simp_all
  have "s' \<in> {s, s1, s2, s3}"
    using assms(2) by (auto simp: nameAction_def pa f t x Let_def split: prod.splits option.splits if_splits)
  then show ?thesis
    using quiet_watched [OF quiet_refl] quiet_watched [OF q(1)] quiet_watched [OF q(2)]
      watched_trans [OF quiet_watched [OF q(2)] act_watched [OF assms(1) x]] by blast
qed

lemma topAction_watched:
  assumes "a \<noteq> BResume" "topProcessAction env cfg chat a (b, s) = ((b', s'), r)"
  shows "bot_watched env s s'"
proof -
  obtain s1 x where f: "selectTopProcess env cfg s = (s1, x)" by force
  have q: "bot_watched env s s1" using quiet_watched select_quiet [OF f] by blast
  show ?thesis
    using assms(2) q by (auto simp: topProcessAction_def f Let_def dest: watched_trans [OF q act_watched [OF assms(1)]]
        split: prod.splits option.splits sum.splits if_splits)
qed

lemma confirm_watched:
  assumes "\<forall>code a. mget (tb_pending b) code = Some a \<longrightarrow> \<not> resumes (pa_Run a)" "wf_map (tb_pending b)"
    and "confirmAction env args chat (b, s) = ((b', s'), r)"
  shows "bot_watched env s s'"
proof -
  have "s' = s \<or> (\<exists>code a e. mget (tb_pending b) code = Some a \<and> run_pending env (pa_Run a) s = (s', e))"
    using assms(3) by (auto simp: confirmAction_def cleanupPendingLocked_def mget_prune [OF assms(2)] Let_def
      split: prod.splits option.splits if_splits)
  then show ?thesis using assms(1) run_watched quiet_watched [OF quiet_refl] by blast
qed

lemma reply_watched:
  assumes "\<forall>code a. mget (tb_pending b) code = Some a \<longrightarrow> \<not> resumes (pa_Run a)" "wf_map (tb_pending b)"
    and "cmd \<noteq> ''resume''" "reply_to env cfg cmd args chat (b, s) = ((b', s'), r)"
  shows "bot_watched env s s'"
proof (cases "orders cfg cmd args \<or> cmd = ''cancel''")
  case True
  then have "cmd = ''cancel'' \<or> cmd = ''confirm'' \<or> cmd = ''taskkill'' \<or> cmd = ''kill'' \<or> cmd = ''suspend'' \<or>
      cmd = ''killtop'' \<or> cmd = ''suspendtop''"
    using assms(3) unfolding orders_def by (elim disjE conjE) (simp_all, (elim disjE; simp))
  then show ?thesis
  proof (elim disjE)
    assume "cmd = ''cancel''"
    then show ?thesis using assms(4) quiet_watched [OF quiet_refl] by (auto simp: reply_to_def dest: cancel_quiet)
  next
    assume "cmd = ''confirm''"
    then show ?thesis using assms(4) confirm_watched [OF assms(1,2)] by (simp add: reply_to_def)
  next
    assume "cmd = ''taskkill''"
    then show ?thesis using assms(4) nameAction_watched [of BKill] by (simp add: reply_to_def)
  next
    assume "cmd = ''kill''"
    then show ?thesis using assms(4) pidAction_watched [of BKill] by (simp add: reply_to_def)
  next
    assume "cmd = ''suspend''"
    then show ?thesis using assms(4) pidAction_watched [of BSuspend] by (simp add: reply_to_def)
  next
    assume "cmd = ''killtop''"
    then show ?thesis using assms(4) topAction_watched [of BKill] by (simp add: reply_to_def)
  next
    assume "cmd = ''suspendtop''"
    then show ?thesis using assms(4) topAction_watched [of BSuspend] by (simp add: reply_to_def)
  qed
next
  case False
  then show ?thesis using reply_harmless [OF _ _ assms(4)] quiet_watched by (simp add: harmless_def)
qed


lemma pending_never_resumes:
  assumes "wf_map (tb_pending (fst bs))" "\<forall>code a. mget (tb_pending (fst bs)) code = Some a \<longrightarrow> \<not> resumes (pa_Run a)"
  shows "\<forall>code a. mget (tb_pending (fst (handleMessage env cfg msg bs))) code = Some a \<longrightarrow> \<not> resumes (pa_Run a)"
proof (intro allI impI)
  fix code a assume now: "mget (tb_pending (fst (handleMessage env cfg msg bs))) code = Some a"
  obtain b s b' s' where bs: "bs = (b, s)" "handleMessage env cfg msg (b, s) = (b', s')" by (metis prod.collapse)
  from message_pending [OF bs(2)] show "\<not> resumes (pa_Run a)"
  proof (elim disjE exE conjE)
    assume "queues_only env (mg_Chat msg) b b'"
    then obtain cs where "\<forall>c\<in>set cs. own_put env (mg_Chat msg) (tb_draws b) c" "tb_pending b' = fst (pend.run cs (tb_pending b))"
      unfolding queues_only_def by blast
    then show ?thesis
      using run_origin [of "tb_pending b" cs code a] assms bs now by (force simp: own_put_def)
  next
    fix k assume "tb_pending b' = fst (take_pending (we_now (be_web env)) k (\<lambda>a. pa_ChatID a = mg_Chat msg) (tb_pending b))"
    then show ?thesis using assms bs now pend.view_take [of "tb_pending b"] by (auto split: if_splits)
  qed
qed

lemma run_never_resumes:
  "wf_map (tb_pending (fst bs)) \<Longrightarrow> \<forall>code a. mget (tb_pending (fst bs)) code = Some a \<longrightarrow> \<not> resumes (pa_Run a) \<Longrightarrow>
     \<forall>code a. mget (tb_pending (fst (bot_run ms bs))) code = Some a \<longrightarrow> \<not> resumes (pa_Run a)"
proof (induction ms arbitrary: bs)
  case (Cons m ms)
  obtain env cfg msg where m: "m = (env, cfg, msg)" by (metis prod_cases3)
  show ?case
    using Cons.IH [OF message_wf [OF Cons.prems(1)] pending_never_resumes [OF Cons.prems]] m by (simp add: bot_run_def)
qed simp

text \<open>
  C7. No message reaches a process past the safety policy, except to resume one. Whatever messages the
  bot has handled since it was made, in handling the next, confirmed actions and those the advisor
  suggested included, every process and thread it opens was cleared by the policy at the look at the
  store just before, as a confirmed operation; only a message that resumes a process is not held to it.
\<close>

theorem bot_operations_guarded:
  assumes "bot_run ms (NewBot cfg0 x, s0) = (b, s)" and "handleMessage env cfg msg (b, s) = (b', s')"
    and "fst (parseCommand (mg_Text msg)) \<noteq> ''resume''"
  shows "monitored (we_os (be_web env)) (wb_ctl s) True (wb_world s) (wb_world s')"
proof -
  have new: "wf_map (tb_pending (fst (NewBot cfg0 x, s0)))" "tb_pending (NewBot cfg0 x) = []"
    by (simp_all add: NewBot_def wf_map_def)
  have inv: "wf_map (tb_pending b)" "\<forall>code a. mget (tb_pending b) code = Some a \<longrightarrow> \<not> resumes (pa_Run a)"
    using bot_run_wf [OF new(1), of ms] run_never_resumes [OF new(1), of ms] new(2) assms(1) by simp_all
  obtain cmd args where c: "parseCommand (mg_Text msg) = (cmd, args)" by force
  obtain b1 s1 r where rr: "reply_to env cfg cmd args (mg_Chat msg) (b, s) = ((b1, s1), r)" by (metis prod_cases3 surj_pair)
  have "s' = s \<or> s' = s1" using assms(2) c rr by (auto simp: handleMessage_def split: if_splits)
  then show ?thesis
    using reply_watched [OF inv(2,1) _ rr] assms(3) c quiet_watched [OF quiet_refl] by (auto simp: bot_watched_def)
qed


section \<open>A chat\<close>

definition demo_tg :: Config where
  "demo_tg = DefaultConfig\<lparr>c_Telegram := default_telegram\<lparr>tg_Enabled := True, tg_BotToken := ''t'',
     tg_AllowedChatIDs := [7], tg_RequireConfirm := True, tg_ConfirmTTL := 90 * second\<rparr>\<rparr>"

definition chat_message :: "gostring \<Rightarrow> tgMessage" where
  "chat_message text = \<lparr>mg_MessageID = 1, mg_Text = text, mg_Chat = 7\<rparr>"

text \<open>Telegram delivers one message, and accepts every answer; the random bytes are zero.\<close>

definition demo_bot :: "gostring \<Rightarrow> bot_env" where
  "demo_bot text =
     \<lparr>be_web = demo_web, be_random = (\<lambda>n. Inr (replicate 5 (CHR 0x00))), be_request = (\<lambda>url. None),
      be_exchange = (\<lambda>calls. Inr (Inr [])),
      be_updates = (\<lambda>raw. Inr \<lparr>ur_OK = True, ur_Result = [\<lparr>up_UpdateID = 5, up_Message = Some (chat_message text)\<rparr>],
        ur_Description = [], ur_ErrorCode = 0\<rparr>),
      be_sent = (\<lambda>raw. Inr \<lparr>ur_OK = True, ur_Result = [], ur_Description = [], ur_ErrorCode = 0\<rparr>)\<rparr>"

lemma demo_code: "base32_encode (replicate 5 (CHR 0x00)) = ''AAAAAAAA''"
proof -
  have "foldl (\<lambda>n c. 256 * n + byte_val c) 0 (replicate k (CHR 0x00)) = 0" for k by (induction k) simp_all
  then have "base32_encode (replicate 5 (CHR 0x00)) = replicate 8 (base32_alphabet ! 0)"
    by (simp add: base32_encode_def Let_def map_replicate_const)
  also have "\<dots> = ''AAAAAAAA''" by code_simp
  finally show ?thesis .
qed

lemma demo_commands:
  "parseCommand ''/kill 8000'' = (''kill'', [''8000''])" "parseCommand ''/confirm AAAAAAAA'' = (''confirm'', [''AAAAAAAA''])"
  "parseCommand ''/resume 8000'' = (''resume'', [''8000''])"
  by code_simp+

lemma parse_8000: "parse_uint 32 ''8000'' = (8000, None)"
proof -
  have "digit_char 8 = CHR ''8''" "digit_char 0 = CHR ''0''" by code_simp+
  then have "nat_str 8000 = ''8000''" by (simp add: nat_str.simps)
  then show ?thesis using parse_uint_nat_str [of 8000 32] by simp
qed

lemma demo_asks: "asks_first demo_tg BKill"
  by (simp add: asks_first_def demo_tg_def)

lemma demo_normal: "normalizeConfirmCode [''AAAAAAAA''] = ''AAAAAAAA''"
  using normalize_code [of "replicate 5 (CHR 0x00)"] unfolding demo_code .

text \<open>The kill is queued under the code, for the chat.\<close>

lemma demo_kill:
  obtains b s d su where "handleMessage (demo_bot t) demo_tg (chat_message ''/kill 8000'') (NewBot None True, demo_server) = (b, s)"
    "tb_pending b = [(''AAAAAAAA'', \<lparr>pa_ChatID = 7, pa_Description = d, pa_SuccessText = su,
       pa_ExpiresAt = t_add 50 (90 * second), pa_Run = RunAct BKill 8000\<rparr>)]"
    "quiet demo_server s"
proof -
  obtain s1 d su where x: "pidActionTexts (demo_bot t) 8000 BKill demo_server = (s1, d, su)" by (metis prod_cases3)
  obtain b1 r where q: "queueConfirmation (demo_bot t) 7 (90 * second) d su (RunAct BKill 8000) (NewBot None True) = (b1, r)" by force
  have p: "tb_pending b1 = [(''AAAAAAAA'', \<lparr>pa_ChatID = 7, pa_Description = d, pa_SuccessText = su,
       pa_ExpiresAt = t_add 50 (90 * second), pa_Run = RunAct BKill 8000\<rparr>)]"
    using q by (auto simp: queueConfirmation_def storePendingAction_def newConfirmCode_def demo_bot_def demo_code NewBot_def
        cleanupPendingLocked_def prune_map_def mfilter_def demo_web_def second_def Let_def)
  have "reply_to (demo_bot t) demo_tg ''kill'' [''8000''] 7 (NewBot None True, demo_server) = ((b1, s1), r)"
    using x q demo_asks by (simp add: reply_to_def pidAction_def parse_8000 Let_def) (simp add: demo_tg_def)
  then have "handleMessage (demo_bot t) demo_tg (chat_message ''/kill 8000'') (NewBot None True, demo_server) =
      (fst (sendMessage (demo_bot t) demo_tg 7 r b1), s1)"
    by (simp add: handleMessage_def chat_message_def demo_commands)
  then show thesis using that p send_keeps(1) texts_quiet [OF x] by metis
qed



theorem queued_can_be_confirmed_witness:
  "\<exists>b. storePendingAction (demo_bot []) 7 0 ''kill PID 8000'' ''Killed PID 8000'' (RunAct BKill 8000) (NewBot None True) =
       (b, Inr ''AAAAAAAA'') \<and>
     snd (handleMessage (demo_bot []) demo_tg (chat_message ''/confirm AAAAAAAA'') (b, demo_server)) =
       fst (run_pending (demo_bot []) (RunAct BKill 8000) demo_server)"
proof -
  obtain b where b: "storePendingAction (demo_bot []) 7 0 ''kill PID 8000'' ''Killed PID 8000'' (RunAct BKill 8000) (NewBot None True) =
       (b, Inr ''AAAAAAAA'')"
    by (simp add: storePendingAction_def newConfirmCode_def demo_bot_def demo_code Let_def)
  have wf: "wf_map (tb_pending (NewBot None True))" by (simp add: NewBot_def wf_map_def)
  have "snd (handleMessage (demo_bot []) demo_tg (chat_message ''/confirm AAAAAAAA'') (b, demo_server)) =
      fst (run_pending (demo_bot []) (RunAct BKill 8000) demo_server)"
    by (rule queued_can_be_confirmed [OF wf b, of "[]"])
       (simp_all add: bot_run_def chat_message_def demo_commands demo_bot_def demo_web_def t_add_def second_def)
  then show ?thesis using b by blast
qed

text \<open>A process without threads cannot be resumed, but looking for them is not just a look at the store.\<close>

lemma demo_resume:
  obtains s' e where "bot_act (demo_bot t) BResume p demo_server = (s', Some e)" "\<not> quiet demo_server s'"
proof -
  obtain s' where a: "bot_act (demo_bot t) BResume p demo_server = (s', Some ERROR_NO_MORE_FILES)"
      "w_trace (wb_world s') = [SysSnapshot 4, SysThreadFirst 100, SysClose 100]"
    by (simp add: bot_act_def Resume_def suspendOrResumeThreads_def sys_open_def sys_close_def log_call_def demo_bot_def
        demo_web_def demo_server_def world0_def Let_def)
  have "\<not> quiet demo_server s'"
  proof
    assume "quiet demo_server s'"
    then obtain n where "w_trace (wb_world s') = w_trace (wb_world demo_server) @ replicate n SysLatest"
      unfolding quiet_def by blast
    then have "[SysSnapshot 4, SysThreadFirst 100, SysClose 100] = replicate n SysLatest"
      using a(2) by (simp add: demo_server_def world0_def)
    then show False by (cases n) simp_all
  qed
  then show thesis using that a(1) by blast
qed

theorem bot_acts_when_told_witness:
  "\<exists>b' s' upd. bot_turn (demo_bot ''/resume 8000'') (\<lambda>i. demo_bot []) (NewBot (Some demo_tg) True, demo_server) = (b', s') \<and>
     commands demo_tg upd"
proof -
  let ?env = "demo_bot ''/resume 8000''" and ?b = "NewBot (Some demo_tg) True"
  let ?upd = "\<lparr>up_UpdateID = 5, up_Message = Some (chat_message ''/resume 8000'')\<rparr>"
  obtain b' s' where t: "bot_turn ?env (\<lambda>i. demo_bot []) (?b, demo_server) = (b', s')" by force
  obtain s1 e where a: "bot_act (demo_bot []) BResume 8000 demo_server = (s1, Some e)" "\<not> quiet demo_server s1"
    by (rule demo_resume)
  have trim: "trim_space ''/resume 8000'' \<noteq> []" by code_simp
  have tg: "polls (Some demo_tg)" "\<not> asks_first demo_tg BResume" "isAllowedChat (tg_AllowedChatIDs (c_Telegram demo_tg)) 7"
    "tg_BotToken (c_Telegram demo_tg) = ''t''"
    by (simp_all add: polls_def asks_first_def isAllowedChat_def demo_tg_def)
  obtain b1 where g: "getUpdates ?env demo_tg (?b\<lparr>tb_offset := 0, tb_lastToken := ''t''\<rparr>) = (b1, Inr [?upd])"
    by (simp add: getUpdates_def apiCall_def demo_bot_def maxTelegramResponseBytes_def Let_def)
  have "(b', s') = handle_update (demo_bot []) demo_tg ?upd (b1, demo_server)"
    using t g tg(1,4) by (simp add: bot_turn_def NewBot_def Let_def)
  also have "\<dots> = handleMessage (demo_bot []) demo_tg (chat_message ''/resume 8000'') (b1\<lparr>tb_offset := wrap64 6\<rparr>, demo_server)"
    using trim tg(3) by (simp add: handle_update_def chat_message_def Let_def)
  finally have "s' = s1"
    using a(1) tg(2) by (simp add: handleMessage_def chat_message_def demo_commands reply_to_def pidAction_def parse_8000 Let_def)
  then show ?thesis
    using bot_acts_when_told [OF t] a(2) t by (auto simp: NewBot_def)
qed

theorem bot_operations_guarded_witness:
  "\<exists>b' s'. handleMessage (demo_bot []) demo_tg (chat_message ''/kill 8000'') (NewBot None True, demo_server) = (b', s') \<and>
     monitored (demo_os [app_proc] []) demo_controller True world0 (wb_world s')"
proof -
  obtain b' s' where h: "handleMessage (demo_bot []) demo_tg (chat_message ''/kill 8000'') (NewBot None True, demo_server) = (b', s')"
    by force
  have "bot_run [] (NewBot None True, demo_server) = (NewBot None True, demo_server)" by simp
  from bot_operations_guarded [OF this h] show ?thesis
    using h by (auto simp: chat_message_def demo_commands demo_bot_def demo_web_def demo_server_def)
qed

end
