(* ===== verification/ProcTree.thy ===== *)
theory ProcTree
  imports Metrics Prelude "HOL-Library.Multiset"
begin

text \<open>
  \<^verbatim>\<open>internal/collector/tree.go\<close>: the forest of processes. The code links nodes by pointer; a
  node is named here by the PID it is filed under, and the linked nodes are a map from PIDs. The order
  in which the map is visited and the sorting routine are arguments, of which only that they permute is
  ever used. Writing the depths follows the links down from the roots; the recursion is given as
  many steps as there are nodes and \<open>process_tree_exact\<close> shows that they are enough.
\<close>

section \<open>Building the forest\<close>

record tnode =
  tn_Process :: ProcessInfo
  tn_Children :: "pid list"
  tn_IsOrphan :: bool

type_synonym nodes = "(pid, tnode) gomap"

definition node_of :: "ProcessInfo \<Rightarrow> tnode" where
  "node_of p = \<lparr>tn_Process = p, tn_Children = [], tn_IsOrphan = False\<rparr>"

definition by_pid :: "ProcessInfo list \<Rightarrow> nodes" where
  "by_pid procs = fold (\<lambda>p m. mput (p_PID p) (node_of p) m) procs []"

text \<open>A parent that was created after the child is another process that got the PID later.\<close>

definition reused :: "ProcessInfo \<Rightarrow> ProcessInfo \<Rightarrow> bool" where
  "reused parent p \<longleftrightarrow> p_CreateTime p < p_CreateTime parent \<and> 0 < p_CreateTime parent \<and> 0 < p_CreateTime p"

definition link_node :: "pid \<Rightarrow> pid list \<times> nodes \<Rightarrow> pid list \<times> nodes" where
  "link_node k st =
     (let (roots, m) = st in
      case mget m k of
        None \<Rightarrow> st
      | Some n \<Rightarrow>
          (let pp = p_ParentPID (tn_Process n) in
           case mget m pp of
             None \<Rightarrow> (roots @ [k], m)
           | Some parent \<Rightarrow>
               if pp = 0 then (roots @ [k], m)
               else if reused (tn_Process parent) (tn_Process n)
                    then (roots @ [k], mput k (n\<lparr>tn_IsOrphan := True\<rparr>) m)
               else (roots, mput pp (parent\<lparr>tn_Children := tn_Children parent @ [k]\<rparr>) m)))"

definition cpu_first :: "nodes \<Rightarrow> pid \<Rightarrow> pid \<Rightarrow> bool" where
  "cpu_first m a b =
     (case (mget m a, mget m b) of
        (Some x, Some y) \<Rightarrow> flt (p_CPUPercent (tn_Process y)) (p_CPUPercent (tn_Process x))
      | _ \<Rightarrow> False)"

type_synonym pid_sort = "(pid \<Rightarrow> pid \<Rightarrow> bool) \<Rightarrow> pid list \<Rightarrow> pid list"

definition sort_children :: "pid_sort \<Rightarrow> nodes \<Rightarrow> nodes" where
  "sort_children srt m = map (\<lambda>(k, n). (k, n\<lparr>tn_Children := srt (cpu_first m) (tn_Children n)\<rparr>)) m"

fun assignDepth :: "nat \<Rightarrow> nodes \<Rightarrow> int \<Rightarrow> pid \<Rightarrow> ProcessNode option" where
  "assignDepth 0 m d k = None"
| "assignDepth (Suc steps) m d k =
     (case mget m k of
        None \<Rightarrow> None
      | Some n \<Rightarrow>
          map_option (\<lambda>cs. ProcessNode (tn_Process n) cs d (tn_IsOrphan n))
            (those (map (assignDepth steps m (d + 1)) (tn_Children n))))"

definition BuildProcessTree :: "(pid list \<Rightarrow> pid list) \<Rightarrow> pid_sort \<Rightarrow> ProcessInfo list \<Rightarrow> ProcessNode list option" where
  "BuildProcessTree visit srt procs =
     (let byPID = by_pid procs;
          (roots, m) = fold link_node (visit (mkeys byPID)) ([], byPID);
          m = sort_children srt m;
          roots = srt (cpu_first m) roots
      in those (map (assignDepth (length m) m 0) roots))"

section \<open>What the forest should hold\<close>

text \<open>Of several entries with one PID the last is the process; its parent is in the list, is not PID 0 and is not younger.\<close>

definition listed :: "ProcessInfo list \<Rightarrow> pid \<Rightarrow> ProcessInfo option" where
  "listed procs k = find (\<lambda>p. p_PID p = k) (rev procs)"

definition parent_in :: "ProcessInfo list \<Rightarrow> pid \<Rightarrow> pid option" where
  "parent_in procs k =
     (case listed procs k of
        None \<Rightarrow> None
      | Some p \<Rightarrow>
          (case listed procs (p_ParentPID p) of
             None \<Rightarrow> None
           | Some q \<Rightarrow> if p_ParentPID p = 0 \<or> reused q p then None else Some (p_ParentPID p)))"

text \<open>\<open>generation procs n k\<close>: going up \<open>n\<close> times from \<open>k\<close> ends at a process without a parent.\<close>

fun generation :: "ProcessInfo list \<Rightarrow> nat \<Rightarrow> pid \<Rightarrow> bool" where
  "generation procs 0 k \<longleftrightarrow> listed procs k \<noteq> None \<and> parent_in procs k = None"
| "generation procs (Suc n) k \<longleftrightarrow> (case parent_in procs k of None \<Rightarrow> False | Some pp \<Rightarrow> generation procs n pp)"

definition orphan_in :: "ProcessInfo list \<Rightarrow> ProcessInfo \<Rightarrow> bool" where
  "orphan_in procs p \<longleftrightarrow>
     p_ParentPID p \<noteq> 0 \<and> (case listed procs (p_ParentPID p) of None \<Rightarrow> False | Some q \<Rightarrow> reused q p)"

fun nodes_of :: "ProcessNode \<Rightarrow> ProcessNode list" where
  "nodes_of (ProcessNode p cs d r) = ProcessNode p cs d r # concat (map nodes_of cs)"

abbreviation forest_nodes :: "ProcessNode list \<Rightarrow> ProcessNode list" where
  "forest_nodes f \<equiv> concat (map nodes_of f)"

abbreviation pn_PID :: "ProcessNode \<Rightarrow> pid" where
  "pn_PID t \<equiv> p_PID (pn_Process t)"

section \<open>The linked nodes\<close>

lemma by_pid_get:
  "mget (by_pid procs) = (\<lambda>k. map_option node_of (listed procs k))"
  by (induction procs rule: rev_induct) (auto simp: by_pid_def listed_def fun_eq_iff)

lemma by_pid_wf [simp]: "wf_map (by_pid procs)"
proof -
  have "wf_map m \<Longrightarrow> wf_map (fold (\<lambda>p m. mput (p_PID p) (node_of p) m) procs m)" for m :: nodes
    by (induction procs arbitrary: m) auto
  then show ?thesis by (simp add: by_pid_def)
qed

lemma by_pid_keys: "set (mkeys (by_pid procs)) = {k. listed procs k \<noteq> None}"
proof -
  have "k \<in> set (mkeys (by_pid procs)) \<longleftrightarrow> mget (by_pid procs) k \<noteq> None" for k by (simp add: map_of_eq_None_iff)
  then show ?thesis by (auto simp: by_pid_get)
qed

lemma listed_PID: "listed procs k = Some p \<Longrightarrow> p_PID p = k \<and> p \<in> set procs"
  by (auto simp: listed_def dest!: first_with_pid_Some)

lemma parent_listed: "parent_in procs k = Some pp \<Longrightarrow> listed procs k \<noteq> None \<and> listed procs pp \<noteq> None"
  by (auto simp: parent_in_def split: option.splits if_splits)

text \<open>What the loop has done after the keys \<open>ks\<close>: the roots among them, and every node with its children among them.\<close>

definition linked :: "ProcessInfo list \<Rightarrow> pid list \<Rightarrow> nodes \<Rightarrow> bool" where
  "linked procs ks m \<longleftrightarrow>
     wf_map m \<and>
     (\<forall>k. mget m k = map_option (\<lambda>p. \<lparr>tn_Process = p, tn_Children = filter (\<lambda>c. parent_in procs c = Some k) ks,
                                  tn_IsOrphan = (k \<in> set ks \<and> orphan_in procs p)\<rparr>) (listed procs k))"

lemma linked_step:
  assumes m: "linked procs ks m" and k: "listed procs k \<noteq> None" "k \<notin> set ks"
  shows "linked procs (ks @ [k]) (snd (link_node k (roots, m)))
       \<and> fst (link_node k (roots, m)) = roots @ (if parent_in procs k = None then [k] else [])"
proof -
  from k obtain p where p: "listed procs k = Some p" by auto
  have pk: "p_PID p = k" using listed_PID [OF p] by simp
  let ?n = "\<lparr>tn_Process = p, tn_Children = filter (\<lambda>c. parent_in procs c = Some k) ks, tn_IsOrphan = False\<rparr>"
  have n: "mget m k = Some ?n" using m p k(2) by (simp add: linked_def)
  show ?thesis
  proof (cases "listed procs (p_ParentPID p)")
    case None
    then have "parent_in procs k = None" "\<not> orphan_in procs p" using p by (simp_all add: parent_in_def orphan_in_def)
    moreover have "mget m (p_ParentPID p) = None" using m None by (simp add: linked_def)
    ultimately show ?thesis using m n p by (auto simp: linked_def link_node_def map_option_case split: option.splits)
  next
    case (Some q)
    then obtain pa where pa: "mget m (p_ParentPID p) = Some pa" and
      pa': "pa = \<lparr>tn_Process = q, tn_Children = filter (\<lambda>c. parent_in procs c = Some (p_ParentPID p)) ks,
              tn_IsOrphan = (p_ParentPID p \<in> set ks \<and> orphan_in procs q)\<rparr>"
      using m by (simp add: linked_def)
    consider (zero) "p_ParentPID p = 0" | (young) "p_ParentPID p \<noteq> 0" "reused q p" | (child) "p_ParentPID p \<noteq> 0" "\<not> reused q p"
      by blast
    then show ?thesis
    proof cases
      case zero
      then have "parent_in procs k = None" "\<not> orphan_in procs p" using p Some by (simp_all add: parent_in_def orphan_in_def)
      then show ?thesis using m n p pa zero by (auto simp: linked_def link_node_def map_option_case split: option.splits)
    next
      case young
      then have r: "parent_in procs k = None" "orphan_in procs p" using p Some by (simp_all add: parent_in_def orphan_in_def)
      have "link_node k (roots, m) = (roots @ [k], mput k (?n\<lparr>tn_IsOrphan := True\<rparr>) m)"
        using n pa pa' young by (simp add: link_node_def Let_def)
      then show ?thesis using m p r by (auto simp: linked_def fun_eq_iff map_option_case split: option.splits)
    next
      case child
      then have r: "parent_in procs k = Some (p_ParentPID p)" "\<not> orphan_in procs p"
        using p Some by (simp_all add: parent_in_def orphan_in_def)
      have "link_node k (roots, m) = (roots, mput (p_ParentPID p) (pa\<lparr>tn_Children := tn_Children pa @ [k]\<rparr>) m)"
        using n pa pa' child by (simp add: link_node_def Let_def)
      then show ?thesis using m p r pa' Some by (auto simp: linked_def fun_eq_iff map_option_case split: option.splits)
    qed
  qed
qed

lemma linked_fold:
  "linked procs ks m \<Longrightarrow> set ks' \<subseteq> {k. listed procs k \<noteq> None} \<Longrightarrow> distinct (ks @ ks') \<Longrightarrow>
   \<exists>m'. fold link_node ks' (roots, m) = (roots @ filter (\<lambda>k. parent_in procs k = None) ks', m')
      \<and> linked procs (ks @ ks') m'"
proof (induction ks' arbitrary: ks m roots)
  case (Cons k ks')
  obtain r1 m1 where s: "link_node k (roots, m) = (r1, m1)" by (cases "link_node k (roots, m)")
  have "linked procs (ks @ [k]) m1 \<and> r1 = roots @ (if parent_in procs k = None then [k] else [])"
    using linked_step [of procs ks m k roots] Cons.prems s by auto
  then show ?case using Cons.IH [of "ks @ [k]" m1 r1] Cons.prems s by auto
qed auto

lemma by_pid_linked: "linked procs [] (by_pid procs)"
  by (auto simp: linked_def by_pid_get node_of_def fun_eq_iff map_option_case split: option.splits)

text \<open>After sorting, a child list holds the children once each, in some order.\<close>

definition wired :: "ProcessInfo list \<Rightarrow> nodes \<Rightarrow> bool" where
  "wired procs m \<longleftrightarrow>
     (\<forall>k. case listed procs k of
        None \<Rightarrow> mget m k = None
      | Some p \<Rightarrow> \<exists>cs. mget m k = Some \<lparr>tn_Process = p, tn_Children = cs, tn_IsOrphan = orphan_in procs p\<rparr>
                  \<and> distinct cs \<and> set cs = {c. parent_in procs c = Some k})"

lemma sort_children_get:
  "mget (sort_children srt m) k = map_option (\<lambda>n. n\<lparr>tn_Children := srt (cpu_first m) (tn_Children n)\<rparr>) (mget m k)"
  by (simp add: sort_children_def map_of_map)

lemma sorted_wired:
  assumes "linked procs ks m" "distinct ks" "set ks = {k. listed procs k \<noteq> None}"
    "\<And>le xs. mset (srt le xs) = mset (xs :: pid list)"
  shows "wired procs (sort_children srt m)"
proof -
  have s: "set (srt le xs) = set xs" "distinct (srt le xs) = distinct xs" for le xs
    using assms(4) [of le xs] by (metis set_mset_mset, metis mset_eq_imp_distinct_iff)
  have kids: "set (filter (\<lambda>c. parent_in procs c = Some k) ks) = {c. parent_in procs c = Some k}" for k
    using assms(3) parent_listed by auto
  show ?thesis unfolding wired_def
  proof
    fix k
    show "case listed procs k of None \<Rightarrow> mget (sort_children srt m) k = None
      | Some p \<Rightarrow> \<exists>cs. mget (sort_children srt m) k = Some \<lparr>tn_Process = p, tn_Children = cs, tn_IsOrphan = orphan_in procs p\<rparr>
                  \<and> distinct cs \<and> set cs = {c. parent_in procs c = Some k}"
    proof (cases "listed procs k")
      case (Some p)
      then have "k \<in> set ks" using assms(3) by simp
      then have "mget (sort_children srt m) k =
        Some \<lparr>tn_Process = p, tn_Children = srt (cpu_first m) (filter (\<lambda>c. parent_in procs c = Some k) ks),
              tn_IsOrphan = orphan_in procs p\<rparr>"
        using assms(1) Some by (simp add: sort_children_get linked_def)
      then show ?thesis using Some s kids assms(2) by simp
    qed (use assms(1) in \<open>simp add: sort_children_get linked_def\<close>)
  qed
qed

section \<open>Generations\<close>

fun up :: "ProcessInfo list \<Rightarrow> nat \<Rightarrow> pid \<Rightarrow> pid option" where
  "up procs 0 k = Some k"
| "up procs (Suc j) k = (case parent_in procs k of None \<Rightarrow> None | Some pp \<Rightarrow> up procs j pp)"

lemma up_generation: "up procs j c = Some k \<Longrightarrow> generation procs n k \<Longrightarrow> generation procs (n + j) c"
  by (induction j arbitrary: c) (auto split: option.splits)

lemma generation_up: "generation procs n c \<Longrightarrow> \<exists>r. generation procs 0 r \<and> up procs n c = Some r"
  by (induction n arbitrary: c) (auto split: option.splits)

lemma rooted: "{x. \<exists>n. generation procs n x} = (\<Union>r\<in>{k. generation procs 0 k}. {x. \<exists>j. up procs j x = Some r})"
proof (rule set_eqI, rule iffI)
  fix x assume "x \<in> {x. \<exists>n. generation procs n x}"
  then obtain n where "generation procs n x" by (simp only: mem_Collect_eq) (erule exE)
  from generation_up [OF this] obtain r where "generation procs 0 r" "up procs n x = Some r" by (elim exE conjE)
  then show "x \<in> (\<Union>r\<in>{k. generation procs 0 k}. {x. \<exists>j. up procs j x = Some r})"
    by (intro UN_I [of r]) (simp_all only: mem_Collect_eq, rule exI)
next
  fix x assume "x \<in> (\<Union>r\<in>{k. generation procs 0 k}. {x. \<exists>j. up procs j x = Some r})"
  then obtain r j where "generation procs 0 r" "up procs j x = Some r" by (elim UN_E) (simp only: mem_Collect_eq, elim exE)
  then have "generation procs (0 + j) x" by (intro up_generation)
  then show "x \<in> {x. \<exists>n. generation procs n x}" by (simp only: mem_Collect_eq) (rule exI)
qed

lemma up_snoc: "up procs (Suc j) c = Some k \<longleftrightarrow> (\<exists>a. up procs j c = Some a \<and> parent_in procs a = Some k)"
  by (induction j arbitrary: c) (auto split: option.splits)

lemma generation_unique: "generation procs m k \<Longrightarrow> generation procs n k \<Longrightarrow> m = n"
proof (induction m arbitrary: n k)
  case 0
  then show ?case by (cases n) auto
next
  case (Suc m)
  then obtain n' where "n = Suc n'" by (cases n) (auto split: option.splits)
  then show ?case using Suc by (auto split: option.splits)
qed

lemma generation_listed: "generation procs n k \<Longrightarrow> listed procs k \<noteq> None"
  using parent_listed by (cases n) (auto split: option.splits)

lemma generation_chain:
  "generation procs n k \<Longrightarrow>
   \<exists>ks. length ks = Suc n \<and> distinct ks \<and> (\<forall>x\<in>set ks. \<exists>m\<le>n. generation procs m x)"
proof (induction n arbitrary: k)
  case 0
  then show ?case by (intro exI [of _ "[k]"]) auto
next
  case (Suc n)
  then obtain pp where "generation procs n pp" by (auto split: option.splits)
  then obtain ks where ks: "length ks = Suc n" "distinct ks" "\<forall>x\<in>set ks. \<exists>m\<le>n. generation procs m x"
    using Suc.IH by blast
  have "k \<notin> set ks"
  proof
    assume "k \<in> set ks"
    then obtain m where "m \<le> n" "generation procs m k" using ks(3) by blast
    then show False using generation_unique [OF Suc.prems] by force
  qed
  moreover have "\<exists>m\<le>Suc n. generation procs m x" if "x \<in> set ks" for x
    using ks(3) that le_SucI by blast
  ultimately show ?case using ks(1,2) Suc.prems by (intro exI [of _ "k # ks"]) auto
qed

lemma generation_bound:
  assumes "generation procs n k" shows "n < card {k. listed procs k \<noteq> None}"
proof -
  obtain ks where ks: "length ks = Suc n" "distinct ks" "\<forall>x\<in>set ks. \<exists>m\<le>n. generation procs m x"
    using generation_chain [OF assms] by blast
  have "set ks \<subseteq> {k. listed procs k \<noteq> None}" using ks(3) generation_listed by blast
  then have "card (set ks) \<le> card {k. listed procs k \<noteq> None}"
    by (rule card_mono [rotated]) (simp flip: by_pid_keys)
  then show ?thesis using ks(1,2) by (simp add: distinct_card)
qed

section \<open>What the recursion yields\<close>

definition node_good :: "ProcessInfo list \<Rightarrow> ProcessNode \<Rightarrow> bool" where
  "node_good procs t \<longleftrightarrow>
     (\<exists>n. pn_Depth t = int n \<and> generation procs n (pn_PID t)) \<and>
     listed procs (pn_PID t) = Some (pn_Process t) \<and>
     pn_IsOrphan t = orphan_in procs (pn_Process t) \<and>
     (\<forall>c\<in>set (pn_Children t). parent_in procs (pn_PID c) = Some (pn_PID t))"

abbreviation pids_of :: "ProcessNode \<Rightarrow> pid list" where
  "pids_of t \<equiv> map pn_PID (nodes_of t)"

lemma those_forest:
  assumes "\<forall>c\<in>set cs. \<exists>t. f c = Some t \<and> pn_PID t = c \<and> distinct (pids_of t) \<and> set (pids_of t) = S c
                              \<and> (\<forall>s\<in>set (nodes_of t). G s)"
    and "distinct cs" "\<forall>a\<in>set cs. \<forall>b\<in>set cs. \<forall>x. x \<in> S a \<and> x \<in> S b \<longrightarrow> a = b"
  shows "\<exists>ts. those (map f cs) = Some ts \<and> map pn_PID ts = cs \<and> distinct (map pn_PID (forest_nodes ts)) \<and>
           set (map pn_PID (forest_nodes ts)) = (\<Union>c\<in>set cs. S c) \<and> (\<forall>s\<in>set (forest_nodes ts). G s)"
  using assms
proof (induction cs)
  case (Cons c cs)
  obtain t where t: "f c = Some t" "pn_PID t = c" "distinct (pids_of t)" "set (pids_of t) = S c" "\<forall>s\<in>set (nodes_of t). G s"
    using bspec [OF Cons.prems(1), of c] by auto
  have "\<forall>c\<in>set cs. \<exists>t. f c = Some t \<and> pn_PID t = c \<and> distinct (pids_of t) \<and> set (pids_of t) = S c
                              \<and> (\<forall>s\<in>set (nodes_of t). G s)"
    using Cons.prems(1) by (intro ballI, elim ballE) auto
  moreover have "distinct cs" "\<forall>a\<in>set cs. \<forall>b\<in>set cs. \<forall>x. x \<in> S a \<and> x \<in> S b \<longrightarrow> a = b"
    using Cons.prems(2,3) by auto
  ultimately obtain ts where ts: "those (map f cs) = Some ts" "map pn_PID ts = cs" "distinct (map pn_PID (forest_nodes ts))"
     "set (map pn_PID (forest_nodes ts)) = (\<Union>c\<in>set cs. S c)" "\<forall>s\<in>set (forest_nodes ts). G s"
    using Cons.IH by blast
  have "S c \<inter> (\<Union>c\<in>set cs. S c) = {}" using Cons.prems(2,3) by fastforce
  then show ?case using t ts by (intro exI [of _ "t # ts"]) (simp add: Int_commute ball_Un)
qed simp

lemma assign_good:
  assumes m: "wired procs m" and "generation procs n k" "card {k. listed procs k \<noteq> None} \<le> steps + n"
  shows "\<exists>t. assignDepth steps m (int n) k = Some t \<and> pn_PID t = k \<and> distinct (pids_of t) \<and>
           set (pids_of t) = {c. \<exists>j. up procs j c = Some k} \<and> (\<forall>s\<in>set (nodes_of t). node_good procs s)"
  using assms(2,3)
proof (induction steps arbitrary: n k)
  case 0
  then show ?case using generation_bound by fastforce
next
  case (Suc steps)
  obtain p where p: "listed procs k = Some p" using generation_listed [OF Suc.prems(1)] by blast
  have pk: "p_PID p = k" using listed_PID [OF p] by simp
  obtain cs where cs: "mget m k = Some \<lparr>tn_Process = p, tn_Children = cs, tn_IsOrphan = orphan_in procs p\<rparr>"
    "distinct cs" "set cs = {c. parent_in procs c = Some k}"
    using m [unfolded wired_def, rule_format, of k] p by auto
  have gen: "generation procs (Suc n) c" if "c \<in> set cs" for c using that cs(3) Suc.prems(1) by simp
  let ?S = "\<lambda>k. {c. \<exists>j. up procs j c = Some k}"
  have "\<exists>ts. those (map (assignDepth steps m (int n + 1)) cs) = Some ts \<and> map pn_PID ts = cs \<and>
      distinct (map pn_PID (forest_nodes ts)) \<and> set (map pn_PID (forest_nodes ts)) = (\<Union>c\<in>set cs. ?S c) \<and>
      (\<forall>s\<in>set (forest_nodes ts). node_good procs s)"
  proof (rule those_forest)
    show "\<forall>c\<in>set cs. \<exists>t. assignDepth steps m (int n + 1) c = Some t \<and> pn_PID t = c \<and> distinct (pids_of t) \<and>
        set (pids_of t) = ?S c \<and> (\<forall>s\<in>set (nodes_of t). node_good procs s)"
      using Suc.IH [OF gen] Suc.prems(2) by (simp add: add.commute)
    show "\<forall>a\<in>set cs. \<forall>b\<in>set cs. \<forall>x. x \<in> ?S a \<and> x \<in> ?S b \<longrightarrow> a = b"
    proof (intro ballI allI impI)
      fix a b x assume h: "a \<in> set cs" "b \<in> set cs" "x \<in> ?S a \<and> x \<in> ?S b"
      obtain i j where ij: "up procs i x = Some a" "up procs j x = Some b" using h by blast
      then have "generation procs (Suc n + i) x" "generation procs (Suc n + j) x"
        using gen h up_generation by blast+
      then have "i = j" using generation_unique by fastforce
      then show "a = b" using ij by simp
    qed
  qed (rule cs(2))
  then obtain ts where ts: "those (map (assignDepth steps m (int n + 1)) cs) = Some ts" "map pn_PID ts = cs"
      "distinct (map pn_PID (forest_nodes ts))" "set (map pn_PID (forest_nodes ts)) = (\<Union>c\<in>set cs. ?S c)"
      "\<forall>s\<in>set (forest_nodes ts). node_good procs s" by blast
  let ?t = "ProcessNode p ts (int n) (orphan_in procs p)"
  have "k \<notin> (\<Union>c\<in>set cs. ?S c)"
  proof
    assume "k \<in> (\<Union>c\<in>set cs. ?S c)"
    then obtain c j where "c \<in> set cs" "up procs j k = Some c" by blast
    then have "generation procs (Suc n + j) k" using gen up_generation by blast
    then show False using generation_unique [OF Suc.prems(1)] by fastforce
  qed
  moreover have "?S k = insert k (\<Union>c\<in>set cs. ?S c)"
  proof -
    have "(\<exists>j. up procs j x = Some k) \<longleftrightarrow> x = k \<or> (\<exists>c\<in>set cs. \<exists>j. up procs j x = Some c)" for x
    proof -
      have "(\<exists>j. up procs j x = Some k) \<longleftrightarrow> up procs 0 x = Some k \<or> (\<exists>j. up procs (Suc j) x = Some k)"
        by (metis not0_implies_Suc)
      also have "\<dots> \<longleftrightarrow> x = k \<or> (\<exists>c\<in>set cs. \<exists>j. up procs j x = Some c)"
        unfolding up_snoc using cs(3) by auto
      finally show ?thesis .
    qed
    then show ?thesis by blast
  qed
  moreover have "node_good procs ?t"
  proof -
    have "\<forall>c\<in>set ts. parent_in procs (pn_PID c) = Some k"
      using cs(3) unfolding ts(2) [symmetric] by auto
    then show ?thesis using Suc.prems(1) p pk by (auto simp: node_good_def)
  qed
  ultimately show ?case using ts pk cs(1) by (intro exI [of _ ?t]) (auto simp: map_concat)
qed


text \<open>A process whose chain of parents runs in a circle has no generation.\<close>

lemma circle_lost:
  assumes "up procs (Suc j) k = Some k" shows "\<not> generation procs n k"
proof
  assume "generation procs n k"
  then have "generation procs (n + Suc j) k" using up_generation assms by blast
  then show False using generation_unique [OF \<open>generation procs n k\<close>] by fastforce
qed

text \<open>Creation times that could all be read, and differ, leave no room for a circle.\<close>

lemma times_acyclic:
  assumes read: "\<And>p. p \<in> set procs \<Longrightarrow> 0 < p_CreateTime p \<and> p_ParentPID p \<noteq> p_PID p"
    and differ: "\<And>p q. p \<in> set procs \<Longrightarrow> q \<in> set procs \<Longrightarrow> p_CreateTime p = p_CreateTime q \<Longrightarrow> p_PID p = p_PID q"
    and "listed procs k = Some p"
  shows "\<exists>n. generation procs n k"
  using assms(3)
proof (induction "nat (p_CreateTime p)" arbitrary: k p rule: less_induct)
  case less
  note pk = listed_PID [OF less.prems]
  show ?case
  proof (cases "parent_in procs k")
    case None
    then show ?thesis using less.prems by (intro exI [of _ 0]) simp
  next
    case (Some pp)
    then obtain q where q: "listed procs pp = Some q" "\<not> reused q p" "pp = p_ParentPID p"
      using less.prems by (auto simp: parent_in_def split: option.splits if_splits)
    have pq: "p_PID q = pp" "q \<in> set procs" using listed_PID [OF q(1)] by auto
    have "p_CreateTime q \<noteq> p_CreateTime p" using differ [of q p] read [of p] pk pq q(3) by auto
    then have "nat (p_CreateTime q) < nat (p_CreateTime p)"
      using q(2) read [of p] read [of q] pk pq by (auto simp: reused_def)
    then obtain n where "generation procs n pp" using less.hyps q(1) by blast
    then show ?thesis using Some by (intro exI [of _ "Suc n"]) simp
  qed
qed

section \<open>The forest is right\<close>

lemma forest_exact:
  assumes visit: "\<And>ks. mset (visit ks) = mset ks" and srt: "\<And>le ks. mset (srt le ks) = mset ks"
  shows "\<exists>f. BuildProcessTree visit srt procs = Some f \<and>
      distinct (map pn_PID (forest_nodes f)) \<and>
      set (map pn_PID (forest_nodes f)) = {k. \<exists>n. generation procs n k} \<and>
      (\<forall>t\<in>set (forest_nodes f). node_good procs t)"
proof -
  let ?m0 = "by_pid procs" let ?ks = "visit (mkeys ?m0)"
  have ks: "set ?ks = {k. listed procs k \<noteq> None}" "distinct ?ks"
    using visit [of "mkeys ?m0"] by_pid_keys by_pid_wf mset_eq_imp_distinct_iff mset_eq_setD
    unfolding wf_map_def by metis+
  obtain m where m: "fold link_node ?ks ([], ?m0) = (filter (\<lambda>k. parent_in procs k = None) ?ks, m)" "linked procs ?ks m"
    using linked_fold [OF by_pid_linked, of ?ks procs "[]"] ks by auto
  let ?s = "sort_children srt m" let ?roots = "srt (cpu_first ?s) (filter (\<lambda>k. parent_in procs k = None) ?ks)"
  have w: "wired procs ?s" using sorted_wired [OF m(2) ks(2,1)] srt by simp
  have len: "length ?s = card {k. listed procs k \<noteq> None}"
  proof -
    have "mkeys ?s = mkeys m" by (auto simp: sort_children_def)
    moreover have "set (mkeys m) = {k. listed procs k \<noteq> None}"
    proof -
      have "k \<in> set (mkeys m) \<longleftrightarrow> mget m k \<noteq> None" for k by (simp add: map_of_eq_None_iff)
      then show ?thesis using m(2) by (auto simp: linked_def)
    qed
    moreover have "distinct (mkeys m)" using m(2) by (simp add: linked_def wf_map_def)
    ultimately show ?thesis by (metis distinct_card length_map)
  qed
  have roots: "set ?roots = {k. generation procs 0 k}" "distinct ?roots"
  proof -
    have "mset ?roots = mset (filter (\<lambda>k. parent_in procs k = None) ?ks)" by (rule srt)
    then have "set ?roots = set (filter (\<lambda>k. parent_in procs k = None) ?ks)"
      "distinct ?roots = distinct (filter (\<lambda>k. parent_in procs k = None) ?ks)"
      by (rule mset_eq_setD, rule mset_eq_imp_distinct_iff)
    then show "set ?roots = {k. generation procs 0 k}" "distinct ?roots"
      using ks by auto
  qed
  have tree: "\<forall>c\<in>set ?roots. \<exists>t. assignDepth (length ?s) ?s 0 c = Some t \<and> pn_PID t = c \<and> distinct (pids_of t) \<and>
      set (pids_of t) = {x. \<exists>j. up procs j x = Some c} \<and> (\<forall>s\<in>set (nodes_of t). node_good procs s)"
    using assign_good [OF w, of 0 _ "length ?s"] roots(1) len by simp
  have apart: "\<forall>a\<in>set ?roots. \<forall>b\<in>set ?roots. \<forall>x. x \<in> {x. \<exists>j. up procs j x = Some a} \<and>
    x \<in> {x. \<exists>j. up procs j x = Some b} \<longrightarrow> a = b"
  proof (intro ballI allI impI)
    fix a b x assume h: "a \<in> set ?roots" "b \<in> set ?roots"
      "x \<in> {x. \<exists>j. up procs j x = Some a} \<and> x \<in> {x. \<exists>j. up procs j x = Some b}"
    obtain i j where ij: "up procs i x = Some a" "up procs j x = Some b" using h by blast
    then have "generation procs (0 + i) x" "generation procs (0 + j) x" using h roots(1) up_generation by blast+
    then have "i = j" using generation_unique by fastforce
    then show "a = b" using ij by simp
  qed
  obtain ts where ts: "those (map (assignDepth (length ?s) ?s 0) ?roots) = Some ts"
    "distinct (map pn_PID (forest_nodes ts))"
    "set (map pn_PID (forest_nodes ts)) = (\<Union>c\<in>set ?roots. {x. \<exists>j. up procs j x = Some c})"
    "\<forall>s\<in>set (forest_nodes ts). node_good procs s"
    using those_forest [OF tree roots(2) apart] by blast
  have all: "set (map pn_PID (forest_nodes ts)) = {k. \<exists>n. generation procs n k}"
    unfolding ts(3) roots(1) rooted ..
  have "BuildProcessTree visit srt procs = Some ts" using ts(1) m(1) by (simp add: BuildProcessTree_def Let_def)
  then show ?thesis using ts(2,4) all by (intro exI [of _ ts] conjI)
qed

lemma all_rooted:
  assumes h: "\<forall>p\<in>set procs. 0 < p_CreateTime p \<and> p_ParentPID p \<noteq> p_PID p \<and>
          (\<forall>q\<in>set procs. p_CreateTime p = p_CreateTime q \<longrightarrow> p_PID p = p_PID q)"
  shows "{k. \<exists>n. generation procs n k} = p_PID ` set procs"
proof -
  have "{k. \<exists>n. generation procs n k} = {k. listed procs k \<noteq> None}"
  proof (rule set_eqI, unfold mem_Collect_eq, rule iffI)
    fix k assume "listed procs k \<noteq> None"
    then obtain p where p: "listed procs k = Some p" by (elim not_None_eq [THEN iffD1, elim_format] exE)
    show "\<exists>n. generation procs n k" 
    proof (rule times_acyclic [OF _ _ p])
      fix q assume "q \<in> set procs"
      from bspec [OF h this] show "0 < p_CreateTime q \<and> p_ParentPID q \<noteq> p_PID q" by (elim conjE) (intro conjI)
    next
      fix q r assume "q \<in> set procs" "r \<in> set procs" "p_CreateTime q = p_CreateTime r"
      with bspec [OF h \<open>q \<in> set procs\<close>] show "p_PID q = p_PID r" by blast
    qed
  qed (elim exE generation_listed)
  also have "\<dots> = p_PID ` set procs"
  proof -
    have "(listed procs k \<noteq> None) = (k \<in> p_PID ` set procs)" for k
      unfolding listed_def find_with_pid first_with_pid_None by auto
    then show ?thesis by simp
  qed
  finally show ?thesis .
qed

text \<open>
  C9. Whatever the order in which the map is visited and the sort, building the forest ends, and the forest holds
  exactly the processes whose chain of parents ends, each once, at the depth of its generation, as a
  child of its parent and marked as an orphan iff its parent is younger; of several entries with one
  PID the last stands. So a process in or below a circle of parents is in no tree, and nothing is lost
  when the creation times are known and differ.
\<close>

theorem process_tree_exact:
  assumes "\<And>ks. mset (visit ks) = mset ks" and "\<And>le ks. mset (srt le ks) = mset ks"
  shows "\<exists>f. BuildProcessTree visit srt procs = Some f \<and>
      distinct (map pn_PID (forest_nodes f)) \<and>
      set (map pn_PID (forest_nodes f)) = {k. \<exists>n. generation procs n k} \<and>
      (\<forall>t\<in>set (forest_nodes f). node_good procs t) \<and>
      ((\<forall>p\<in>set procs. 0 < p_CreateTime p \<and> p_ParentPID p \<noteq> p_PID p \<and>
          (\<forall>q\<in>set procs. p_CreateTime p = p_CreateTime q \<longrightarrow> p_PID p = p_PID q)) \<longrightarrow>
        set (map pn_PID (forest_nodes f)) = p_PID ` set procs)"
proof -
  obtain f where f: "BuildProcessTree visit srt procs = Some f" "distinct (map pn_PID (forest_nodes f))"
    "set (map pn_PID (forest_nodes f)) = {k. \<exists>n. generation procs n k}" "\<forall>t\<in>set (forest_nodes f). node_good procs t"
    using forest_exact [of visit srt procs] assms by blast
  show ?thesis
    by (rule exI [of _ f], intro conjI impI) (rule f(1), rule f(2), rule f(3), rule f(4), unfold f(3), rule all_rooted)
qed

definition demo_proc :: "pid \<Rightarrow> pid \<Rightarrow> int \<Rightarrow> ProcessInfo" where
  "demo_proc p parent created = zero_proc\<lparr>p_PID := p, p_ParentPID := parent, p_CreateTime := created\<rparr>"

text \<open>Of two processes that name each other as parent, and whose times could not be read, neither is in a tree.\<close>

theorem process_tree_exact_witness:
  "\<exists>f. BuildProcessTree rev (\<lambda>_. rev) [demo_proc 4 0 1, demo_proc 10 4 5, demo_proc 20 21 0, demo_proc 21 20 0] = Some f \<and>
     distinct (map pn_PID (forest_nodes f)) \<and> 20 \<notin> set (map pn_PID (forest_nodes f)) \<and> 10 \<in> set (map pn_PID (forest_nodes f))"
proof -
  let ?procs = "[demo_proc 4 0 1, demo_proc 10 4 5, demo_proc 20 21 0, demo_proc 21 20 0]"
  have "up ?procs (Suc 1) 20 = Some 20" by code_simp
  then have "20 \<notin> {k. \<exists>n. generation ?procs n k}" using circle_lost by blast
  moreover have "generation ?procs 1 10" by code_simp
  then have "10 \<in> {k. \<exists>n. generation ?procs n k}" by blast
  moreover obtain f where "BuildProcessTree rev (\<lambda>_. rev) ?procs = Some f" "distinct (map pn_PID (forest_nodes f))"
    "set (map pn_PID (forest_nodes f)) = {k. \<exists>n. generation ?procs n k}"
    using process_tree_exact [OF mset_rev mset_rev, of "?procs"] by (elim exE conjE)
  ultimately show ?thesis by (intro exI [of _ f] conjI) (simp_all only: not_False_eq_True)
qed

end
