(* ===== verification/WinTypes.thy ===== *)
theory WinTypes
  imports GoFmt
begin

text \<open>
  What \<^verbatim>\<open>internal/winapi\<close> computes itself around the Windows calls: the structures the collector
  reads, times in ticks of 100 nanoseconds, the strings in fixed arrays of 16-bit units, and the tables
  of ports and interfaces, which arrive as bytes and are read at the offsets of their layout. The calls
  are arguments: a status, the size they report and the bytes they leave in the buffer. Sizes of
  structures are those of 64-bit Windows.
\<close>

section \<open>Structures and times\<close>

record FILETIME =
  ft_LowDateTime :: u32
  ft_HighDateTime :: u32

unbundle bit_operations_syntax

definition Ticks :: "FILETIME \<Rightarrow> u64" where
  "Ticks ft = push_bit 32 (ucast (ft_HighDateTime ft)) OR ucast (ft_LowDateTime ft)"

text \<open>Seconds since 1970 of a time counted from 1601; a time of zero ticks is unknown and stays 0.\<close>

definition FileTimeToUnix :: "FILETIME \<Rightarrow> int" where
  "FileTimeToUnix ft =
     (let ticks = Ticks ft in
      if ticks = 0 then 0
      else
        (let seconds = ticks div 10000000 in
         if 11644473600 \<le> seconds then
           (let delta = seconds - 11644473600 in if 9223372036854775807 < delta then i64_max else uint delta)
         else
           (let delta = 11644473600 - seconds in if 9223372036854775807 < delta then i64_min else - uint delta)))"

record MEMORYSTATUSEX =
  ms_Length :: u32
  ms_MemoryLoad :: u32
  ms_TotalPhys :: u64
  ms_AvailPhys :: u64
  ms_TotalPageFile :: u64
  ms_AvailPageFile :: u64
  ms_TotalVirtual :: u64
  ms_AvailVirtual :: u64
  ms_AvailExtendedVirtual :: u64

record PROCESSENTRY32W =
  pe_Size :: u32
  pe_Usage :: u32
  pe_ProcessID :: u32
  pe_DefaultHeapID :: u64
  pe_ModuleID :: u32
  pe_Threads :: u32
  pe_ParentProcessID :: u32
  pe_PriClassBase :: int
  pe_Flags :: u32
  pe_ExeFile :: "u16 list"

record THREADENTRY32 =
  te_Size :: u32
  te_Usage :: u32
  te_ThreadID :: u32
  te_OwnerProcessID :: u32
  te_BasePri :: int
  te_DeltaPri :: int
  te_Flags :: u32

record PROCESS_MEMORY_COUNTERS_EX =
  pm_CB :: u32
  pm_PageFaultCount :: u32
  pm_PeakWorkingSetSize :: u64
  pm_WorkingSetSize :: u64
  pm_QuotaPeakPagedPoolUsage :: u64
  pm_QuotaPagedPoolUsage :: u64
  pm_QuotaPeakNonPagedPoolUsage :: u64
  pm_QuotaNonPagedPoolUsage :: u64
  pm_PagefileUsage :: u64
  pm_PeakPagefileUsage :: u64
  pm_PrivateUsage :: u64

record IO_COUNTERS =
  io_ReadOperationCount :: u64
  io_WriteOperationCount :: u64
  io_OtherOperationCount :: u64
  io_ReadTransferCount :: u64
  io_WriteTransferCount :: u64
  io_OtherTransferCount :: u64

definition zero_memory_counters :: PROCESS_MEMORY_COUNTERS_EX where
  "zero_memory_counters =
     \<lparr>pm_CB = 0, pm_PageFaultCount = 0, pm_PeakWorkingSetSize = 0, pm_WorkingSetSize = 0, pm_QuotaPeakPagedPoolUsage = 0,
      pm_QuotaPagedPoolUsage = 0, pm_QuotaPeakNonPagedPoolUsage = 0, pm_QuotaNonPagedPoolUsage = 0, pm_PagefileUsage = 0,
      pm_PeakPagefileUsage = 0, pm_PrivateUsage = 0\<rparr>"

definition zero_io :: IO_COUNTERS where
  "zero_io =
     \<lparr>io_ReadOperationCount = 0, io_WriteOperationCount = 0, io_OtherOperationCount = 0, io_ReadTransferCount = 0,
      io_WriteTransferCount = 0, io_OtherTransferCount = 0\<rparr>"

text \<open>What limits a job, and what the message loop and the window class of the tray are made of.\<close>

record JOBOBJECT_BASIC_LIMIT_INFORMATION =
  jb_PerProcessUserTimeLimit :: u64
  jb_PerJobUserTimeLimit :: u64
  jb_LimitFlags :: u32
  jb_MinimumWorkingSetSize :: u64
  jb_MaximumWorkingSetSize :: u64
  jb_ActiveProcessLimit :: u32
  jb_Affinity :: u64
  jb_PriorityClass :: u32
  jb_SchedulingClass :: u32

record JOBOBJECT_EXTENDED_LIMIT_INFORMATION =
  je_BasicLimitInformation :: JOBOBJECT_BASIC_LIMIT_INFORMATION
  je_IoInfo :: IO_COUNTERS
  je_ProcessMemoryLimit :: u64
  je_JobMemoryLimit :: u64
  je_PeakProcessMemoryUsed :: u64
  je_PeakJobMemoryUsed :: u64

record JOBOBJECT_CPU_RATE_CONTROL_INFORMATION =
  jr_ControlFlags :: u32
  jr_CpuRate :: u32

record POINT =
  pt_X :: int
  pt_Y :: int

record MSG =
  ms_Hwnd :: u64
  ms_Message :: u32
  ms_WParam :: u64
  ms_LParam :: u64
  ms_Time :: u32
  ms_Pt :: POINT

record WNDCLASSEXW =
  wc_Size :: u32
  wc_Style :: u32
  wc_WndProc :: u64
  wc_ClsExtra :: int
  wc_WndExtra :: int
  wc_Instance :: u64
  wc_Icon :: u64
  wc_Cursor :: u64
  wc_Background :: u64
  wc_MenuName :: "u16 list option"
  wc_ClassName :: "u16 list option"
  wc_IconSm :: u64

lemma zero_io_fields [simp]:
  "io_ReadOperationCount zero_io = 0" "io_WriteOperationCount zero_io = 0"
  "io_ReadTransferCount zero_io = 0" "io_WriteTransferCount zero_io = 0"
  by (simp_all add: zero_io_def)

record SYSTEM_PROCESSOR_PERFORMANCE_INFORMATION =
  sp_IdleTime :: int
  sp_KernelTime :: int
  sp_UserTime :: int
  sp_Reserved1 :: "int list"
  sp_Reserved2 :: u32

text \<open>
  The query for \<open>n\<close> processors fills a table of \<open>n\<close> entries of 48 bytes or fails; \<open>call\<close> gives the status and
  the entries it left.
\<close>

definition QueryProcessorPerformance ::
  "(int \<Rightarrow> u64 \<times> (nat \<Rightarrow> SYSTEM_PROCESSOR_PERFORMANCE_INFORMATION)) \<Rightarrow> int \<Rightarrow>
   goerror + SYSTEM_PROCESSOR_PERFORMANCE_INFORMATION list" where
  "QueryProcessorPerformance call numCPU =
     (if numCPU \<le> 0 then Inl (Errorf ''invalid CPU count'' [])
      else
        (let totalSize = 48 * numCPU in
         if 4294967295 < totalSize then Inl (Errorf ''processor performance table too large: %d'' [FInt totalSize])
         else
           (case call numCPU of
              (r1, entry) \<Rightarrow>
                if r1 \<noteq> 0 then Inl (Errorf ''NtQuerySystemInformation: status 0x%X'' [FInt (uint r1)])
                else Inr (map entry [0..<nat numCPU]))))"

definition uintptrToUint32 :: "u64 \<Rightarrow> gostring \<Rightarrow> goerror + u32" where
  "uintptrToUint32 v op =
     (if 4294967295 < v then Inl (Errorf ''%s: value %d overflows uint32'' [FStr op, FInt (uint v)]) else Inr (ucast v))"

definition uintptrToInt :: "u64 \<Rightarrow> gostring \<Rightarrow> goerror + int" where
  "uintptrToInt v op =
     (if 9223372036854775807 < v then Inl (Errorf ''%s: value %d overflows int'' [FStr op, FInt (uint v)]) else Inr (uint v))"

section \<open>Strings of 16-bit units\<close>

text \<open>\<^verbatim>\<open>string([]rune{r})\<close> for one 16-bit unit: a surrogate on its own becomes the replacement character.\<close>

definition encode_unit :: "u16 \<Rightarrow> gostring" where
  "encode_unit c =
     (let n = (if 0xD800 \<le> c \<and> c \<le> 0xDFFF then 0xFFFD else unat c) in
      map char_of
        (if n < 0x80 then [n]
         else if n < 0x800 then [0xC0 + n div 64, 0x80 + n mod 64]
         else [0xE0 + n div 4096, 0x80 + n div 64 mod 64, 0x80 + n mod 64 :: nat]))"

definition utf16NulString :: "u16 list \<Rightarrow> gostring" where
  "utf16NulString s = concat (map encode_unit (takeWhile (\<lambda>c. c \<noteq> 0) s))"

text \<open>
  The drive strings are stored one after the other, each ended by a zero; the loop cuts at every zero
  among the units the call says it wrote. \<open>utf16\<close> is \<^verbatim>\<open>windows.UTF16ToString\<close>.
\<close>

fun cut_strings :: "(u16 list \<Rightarrow> gostring) \<Rightarrow> u16 list \<Rightarrow> u16 list \<Rightarrow> gostring list" where
  "cut_strings utf16 cur [] = []"
| "cut_strings utf16 cur (c # cs) =
     (if c = 0 then (if cur \<noteq> [] then [utf16 cur] else []) @ cut_strings utf16 [] cs
      else cut_strings utf16 (cur @ [c]) cs)"

definition GetLogicalDriveStrings ::
  "(u16 list \<Rightarrow> gostring) \<Rightarrow> u64 \<times> goerror \<times> u16 list \<Rightarrow> goerror + gostring list" where
  "GetLogicalDriveStrings utf16 call =
     (let (r1, e, buf) = call in
      if r1 = 0 then Inl (Errorf ''GetLogicalDriveStringsW: %w'' [FWrap e])
      else
        (case uintptrToInt r1 ''GetLogicalDriveStringsW'' of
           Inl err \<Rightarrow> Inl err
         | Inr limit \<Rightarrow> Inr (cut_strings utf16 [] (take (nat (min limit 256)) buf))))"

section \<open>Tables of ports\<close>

text \<open>Little-endian words at an offset of a buffer of bytes.\<close>

definition le_bytes :: "nat \<Rightarrow> nat \<Rightarrow> gostring \<Rightarrow> nat" where
  "le_bytes n off buf = foldr (\<lambda>c acc. byte_val c + 256 * acc) (take n (drop off buf)) 0"

definition get_u32 :: "nat \<Rightarrow> gostring \<Rightarrow> u32" where "get_u32 off buf = of_nat (le_bytes 4 off buf)"
definition get_u64 :: "nat \<Rightarrow> gostring \<Rightarrow> u64" where "get_u64 off buf = of_nat (le_bytes 8 off buf)"

definition get_u16s :: "nat \<Rightarrow> nat \<Rightarrow> gostring \<Rightarrow> u16 list" where
  "get_u16s n off buf = map (\<lambda>i. of_nat (le_bytes 2 (off + 2 * i) buf)) [0..<n]"

record MIB_TCPROW_OWNER_PID =
  tr_State :: u32
  tr_LocalAddr :: u32
  tr_LocalPort :: u32
  tr_RemoteAddr :: u32
  tr_RemotePort :: u32
  tr_OwningPid :: u32

record MIB_TCP6ROW_OWNER_PID =
  t6_LocalAddr :: gostring
  t6_LocalScopeId :: u32
  t6_LocalPort :: u32
  t6_RemoteAddr :: gostring
  t6_RemoteScopeId :: u32
  t6_RemotePort :: u32
  t6_State :: u32
  t6_OwningPid :: u32

record MIB_UDPROW_OWNER_PID =
  ur_LocalAddr :: u32
  ur_LocalPort :: u32
  ur_OwningPid :: u32

record MIB_UDP6ROW_OWNER_PID =
  u6_LocalAddr :: gostring
  u6_LocalScopeId :: u32
  u6_LocalPort :: u32
  u6_OwningPid :: u32

definition read_tcp4 :: "nat \<Rightarrow> gostring \<Rightarrow> MIB_TCPROW_OWNER_PID" where
  "read_tcp4 off buf = \<lparr>tr_State = get_u32 off buf, tr_LocalAddr = get_u32 (off + 4) buf, tr_LocalPort = get_u32 (off + 8) buf,
     tr_RemoteAddr = get_u32 (off + 12) buf, tr_RemotePort = get_u32 (off + 16) buf, tr_OwningPid = get_u32 (off + 20) buf\<rparr>"

definition read_tcp6 :: "nat \<Rightarrow> gostring \<Rightarrow> MIB_TCP6ROW_OWNER_PID" where
  "read_tcp6 off buf = \<lparr>t6_LocalAddr = take 16 (drop off buf), t6_LocalScopeId = get_u32 (off + 16) buf, t6_LocalPort = get_u32 (off + 20) buf,
     t6_RemoteAddr = take 16 (drop (off + 24) buf), t6_RemoteScopeId = get_u32 (off + 40) buf, t6_RemotePort = get_u32 (off + 44) buf,
     t6_State = get_u32 (off + 48) buf, t6_OwningPid = get_u32 (off + 52) buf\<rparr>"

definition read_udp4 :: "nat \<Rightarrow> gostring \<Rightarrow> MIB_UDPROW_OWNER_PID" where
  "read_udp4 off buf = \<lparr>ur_LocalAddr = get_u32 off buf, ur_LocalPort = get_u32 (off + 4) buf, ur_OwningPid = get_u32 (off + 8) buf\<rparr>"

definition read_udp6 :: "nat \<Rightarrow> gostring \<Rightarrow> MIB_UDP6ROW_OWNER_PID" where
  "read_udp6 off buf = \<lparr>u6_LocalAddr = take 16 (drop off buf), u6_LocalScopeId = get_u32 (off + 16) buf, u6_LocalPort = get_u32 (off + 20) buf, u6_OwningPid = get_u32 (off + 24) buf\<rparr>"

text \<open>The loop over the rows: each is read only when it lies within the buffer.\<close>

fun row_loop :: "gostring \<Rightarrow> nat \<Rightarrow> (nat \<Rightarrow> gostring \<Rightarrow> 'r) \<Rightarrow> gostring \<Rightarrow> nat \<Rightarrow> nat \<Rightarrow> nat \<Rightarrow> 'r list \<Rightarrow> goerror + 'r list" where
  "row_loop name rowSize read buf count 0 i rows = Inr rows"
| "row_loop name rowSize read buf count (Suc n) i rows =
     (let offset = 4 + i * rowSize in
      if length buf < offset + rowSize
      then Inl (Errorf (name @ '': truncated buffer at row %d/%d'') [FInt (int i), FInt (int count)])
      else row_loop name rowSize read buf count n (i + 1) (rows @ [read offset buf]))"

definition read_table :: "gostring \<Rightarrow> nat \<Rightarrow> (nat \<Rightarrow> gostring \<Rightarrow> 'r) \<Rightarrow> goerror + gostring \<Rightarrow> goerror + 'r list" where
  "read_table name rowSize read raw =
     (case raw of
        Inl e \<Rightarrow> Inl e
      | Inr buf \<Rightarrow>
          if length buf < 4 then Inr []
          else (let count = unat (get_u32 0 buf) in row_loop name rowSize read buf count count 0 []))"

definition GetTcp4Table :: "goerror + gostring \<Rightarrow> goerror + MIB_TCPROW_OWNER_PID list" where
  "GetTcp4Table = read_table ''GetTcp4Table'' 24 read_tcp4"

definition GetTcp6Table :: "goerror + gostring \<Rightarrow> goerror + MIB_TCP6ROW_OWNER_PID list" where
  "GetTcp6Table = read_table ''GetTcp6Table'' 56 read_tcp6"

definition GetUdp4Table :: "goerror + gostring \<Rightarrow> goerror + MIB_UDPROW_OWNER_PID list" where
  "GetUdp4Table = read_table ''GetUdp4Table'' 12 read_udp4"

definition GetUdp6Table :: "goerror + gostring \<Rightarrow> goerror + MIB_UDP6ROW_OWNER_PID list" where
  "GetUdp6Table = read_table ''GetUdp6Table'' 28 read_udp6"

text \<open>
  Fetching a table takes two calls: the first without a buffer asks for the size, status 122 being the
  expected answer, the second fills a buffer of that size. \<open>fill\<close> gives, for the buffer offered, the
  status, the size reported and the bytes.
\<close>

definition table_raw :: "gostring \<Rightarrow> u64 \<times> u32 \<times> goerror \<Rightarrow> (u32 \<Rightarrow> u64 \<times> u32 \<times> goerror \<times> gostring) \<Rightarrow> goerror + gostring" where
  "table_raw name ask fill =
     (let (r1, size, e) = ask in
      if r1 \<noteq> 0 \<and> r1 \<noteq> 122 then Inl (Errorf (name @ ''(size): status %d (%w)'') [FInt (uint r1), FWrap e])
      else if size = 0 then Inr []
      else
        (let (r1, size', e, bytes) = fill size;
             buf = take (unat size) (bytes @ replicate (unat size) (char_of (0 :: nat)))
         in if r1 \<noteq> 0 then Inl (Errorf (name @ '': status %d (%w)'') [FInt (uint r1), FWrap e])
            else if size < size'
            then Inl (Errorf (name @ '': returned size %d exceeds buffer %d'') [FInt (uint size'), FInt (uint size)])
            else Inr (take (unat size') buf)))"

definition getExtendedTcpTableRaw :: "u64 \<times> u32 \<times> goerror \<Rightarrow> (u32 \<Rightarrow> u64 \<times> u32 \<times> goerror \<times> gostring) \<Rightarrow> goerror + gostring" where
  "getExtendedTcpTableRaw = table_raw ''GetExtendedTcpTable''"

definition getExtendedUdpTableRaw :: "u64 \<times> u32 \<times> goerror \<Rightarrow> (u32 \<Rightarrow> u64 \<times> u32 \<times> goerror \<times> gostring) \<Rightarrow> goerror + gostring" where
  "getExtendedUdpTableRaw = table_raw ''GetExtendedUdpTable''"

section \<open>The interface table\<close>

record IfRow2 =
  ir_Index :: u32
  ir_Alias :: gostring
  ir_Description :: gostring
  ir_OperStatus :: u32
  ir_Type :: u32
  ir_SpeedRx :: u64
  ir_SpeedTx :: u64
  ir_InOctets :: u64
  ir_OutOctets :: u64
  ir_InUcastPkts :: u64
  ir_OutUcastPkts :: u64
  ir_InErrors :: u64
  ir_OutErrors :: u64

definition ifRow2Size :: nat where "ifRow2Size = 1352"

definition parseIfRow2 :: "nat \<Rightarrow> gostring \<Rightarrow> IfRow2" where
  "parseIfRow2 base mem =
     \<lparr>ir_Index = get_u32 (base + 8) mem,
      ir_Alias = utf16NulString (get_u16s 257 (base + 28) mem),
      ir_Description = utf16NulString (get_u16s 257 (base + 28 + 514) mem),
      ir_OperStatus = get_u32 (base + 1156) mem,
      ir_Type = get_u32 (base + 1128) mem,
      ir_SpeedRx = get_u64 (base + 1200) mem,
      ir_SpeedTx = get_u64 (base + 1192) mem,
      ir_InOctets = get_u64 (base + 1208) mem,
      ir_OutOctets = get_u64 (base + 1280) mem,
      ir_InUcastPkts = get_u64 (base + 1216) mem,
      ir_OutUcastPkts = get_u64 (base + 1288) mem,
      ir_InErrors = get_u64 (base + 1240) mem,
      ir_OutErrors = get_u64 (base + 1312) mem\<rparr>"

text \<open>\<open>table\<close> is the memory the call allocated, or \<open>None\<close> for a nil pointer; its count is trusted.\<close>

definition GetIfTable2 :: "u64 \<times> goerror \<times> gostring option \<Rightarrow> goerror + IfRow2 list" where
  "GetIfTable2 call =
     (let (r1, e, table) = call in
      if r1 \<noteq> 0 then Inl (Errorf ''GetIfTable2: %w'' [FWrap e])
      else
        (case table of
           None \<Rightarrow> Inr []
         | Some mem \<Rightarrow>
             Inr (map (\<lambda>i. parseIfRow2 (8 + i * ifRow2Size) mem) [0..<unat (get_u32 0 mem)])))"

section \<open>Reading stays within the buffer\<close>

lemma row_loop_spec:
  "row_loop name rowSize read buf count n i rows =
     (if 4 + (i + n) * rowSize \<le> length buf \<or> n = 0
      then Inr (rows @ map (\<lambda>j. read (4 + j * rowSize) buf) [i..<i + n])
      else Inl (Errorf (name @ '': truncated buffer at row %d/%d'')
        [FInt (int (LEAST j. length buf < 4 + (j + 1) * rowSize \<and> i \<le> j)), FInt (int count)]))"
proof (induction n arbitrary: i rows)
  case (Suc n)
  show ?case
  proof (cases "length buf < 4 + i * rowSize + rowSize")
    case True
    then have "(LEAST j. length buf < 4 + (j + 1) * rowSize \<and> i \<le> j) = i" by (intro Least_equality) auto
    moreover have "\<not> 4 + (i + Suc n) * rowSize \<le> length buf" using True by (simp add: algebra_simps)
    ultimately show ?thesis using True by (simp add: Let_def)
  next
    case False
    have "(LEAST j. length buf < 4 + (j + 1) * rowSize \<and> Suc i \<le> j) = (LEAST j. length buf < 4 + (j + 1) * rowSize \<and> i \<le> j)"
    proof -
      have "(length buf < 4 + (j + 1) * rowSize \<and> Suc i \<le> j) = (length buf < 4 + (j + 1) * rowSize \<and> i \<le> j)" for j
        using False by (cases "j = i") (auto simp: algebra_simps)
      then show ?thesis by simp
    qed
    then show ?thesis using False Suc.IH [of "i + 1" "rows @ [read (4 + i * rowSize) buf]"]
      by (auto simp: Let_def upt_conv_Cons algebra_simps)
  qed
qed simp

lemma read_beyond [simp]:
  "off + n \<le> length buf \<Longrightarrow> le_bytes n off (buf @ rest) = le_bytes n off buf"
  "off + 4 \<le> length buf \<Longrightarrow> get_u32 off (buf @ rest) = get_u32 off buf"
  by (simp_all add: le_bytes_def get_u32_def)

text \<open>What a parser of rows of \<open>rowSize\<close> bytes should do with a buffer.\<close>

definition in_bounds :: "nat \<Rightarrow> (nat \<Rightarrow> gostring \<Rightarrow> 'r) \<Rightarrow> gostring \<Rightarrow> goerror + 'r list \<Rightarrow> bool" where
  "in_bounds rowSize read buf res \<longleftrightarrow>
     (let n = unat (get_u32 0 buf) in
      if length buf < 4 then res = Inr []
      else if 4 + n * rowSize \<le> length buf
      then (\<exists>rows. res = Inr rows \<and> length rows = n \<and>
              (\<forall>j < n. \<forall>rest. 4 + j * rowSize + rowSize \<le> length buf \<and> rows ! j = read (4 + j * rowSize) (buf @ rest)))
      else (\<exists>e. res = Inl e))"

lemma read_table_in_bounds:
  assumes "\<And>off rest. off + rowSize \<le> length buf \<Longrightarrow> read off (buf @ rest) = read off buf" and "0 < rowSize"
  shows "in_bounds rowSize read buf (read_table name rowSize read (Inr buf))"
proof -
  have "4 + j * rowSize + rowSize \<le> length buf" if "j < n" "4 + n * rowSize \<le> length buf" for j n
  proof -
    have "Suc j * rowSize \<le> n * rowSize" using that(1) by (intro mult_le_mono1) simp
    then show ?thesis using that(2) by simp
  qed
  then show ?thesis using assms by (auto simp: in_bounds_def read_table_def row_loop_spec Let_def)
qed

text \<open>
  C18. The four port tables are read as they are laid out. With the count at the start of the buffer, a table
  is either complete in the buffer, and then every row is what stands at its offset and ends within the
  buffer whatever lies behind it, or an error, and never a row from beyond; a buffer of fewer than
  four bytes holds no rows; and a raw buffer never has more bytes than were allocated for it.
\<close>

theorem tables_in_bounds:
  "in_bounds 24 read_tcp4 buf (GetTcp4Table (Inr buf)) \<and>
   in_bounds 56 read_tcp6 buf (GetTcp6Table (Inr buf)) \<and>
   in_bounds 12 read_udp4 buf (GetUdp4Table (Inr buf)) \<and>
   in_bounds 28 read_udp6 buf (GetUdp6Table (Inr buf)) \<and>
   (case getExtendedTcpTableRaw ask fill of Inl e \<Rightarrow> True | Inr b \<Rightarrow> length b \<le> unat (fst (snd ask))) \<and>
   (case getExtendedUdpTableRaw ask fill of Inl e \<Rightarrow> True | Inr b \<Rightarrow> length b \<le> unat (fst (snd ask)))"
proof -
  have "case table_raw name ask fill of Inl e \<Rightarrow> True | Inr b \<Rightarrow> length b \<le> unat (fst (snd ask))" for name
    by (auto simp: table_raw_def Let_def word_less_nat_alt word_le_nat_alt split: prod.splits)
  moreover have "in_bounds 24 read_tcp4 buf (GetTcp4Table (Inr buf))" "in_bounds 56 read_tcp6 buf (GetTcp6Table (Inr buf))"
    "in_bounds 12 read_udp4 buf (GetUdp4Table (Inr buf))" "in_bounds 28 read_udp6 buf (GetUdp6Table (Inr buf))"
    unfolding GetTcp4Table_def GetTcp6Table_def GetUdp4Table_def GetUdp6Table_def
    by (rule read_table_in_bounds; simp add: read_tcp4_def read_tcp6_def read_udp4_def read_udp6_def)+
  ultimately show ?thesis unfolding getExtendedTcpTableRaw_def getExtendedUdpTableRaw_def by simp
qed

text \<open>A file time before 1601 does not exist; the result is always the plain difference of the epochs.\<close>

lemma FileTimeToUnix_exact:
  "FileTimeToUnix ft = (if Ticks ft = 0 then 0 else uint (Ticks ft) div 10000000 - 11644473600)"
proof -
  let ?s = "Ticks ft div 10000000 :: u64"
  have s: "uint ?s = uint (Ticks ft) div 10000000" by (simp add: uint_div)
  have b: "uint (Ticks ft) < 18446744073709551616" using uint_lt2p [of "Ticks ft"] by simp
  have "uint (?s - 11644473600) = uint ?s - 11644473600" if "11644473600 \<le> ?s"
    using that uint_minus_simple_alt [of 11644473600 ?s] by (simp add: word_le_def)
  moreover have "uint (11644473600 - ?s) = 11644473600 - uint ?s" if "\<not> 11644473600 \<le> ?s"
    using that uint_minus_simple_alt [of ?s 11644473600] by (simp add: word_le_def)
  moreover have "0 \<le> uint (Ticks ft) div 10000000" by (simp add: pos_imp_zdiv_nonneg_iff)
  ultimately show ?thesis
    using s b unfolding FileTimeToUnix_def Let_def by (auto simp: word_less_def word_le_def)
qed

end
