(* ===== verification/Sampling.thy ===== *)
theory Sampling
  imports Metrics WinTypes
begin

text \<open>
  \<^verbatim>\<open>internal/collector/cpu.go\<close>, \<^verbatim>\<open>memory.go\<close> and \<^verbatim>\<open>disk.go\<close>: the collectors of the machine's own
  figures. A collector is a record of what it keeps between samples; the answers of Windows in one sample
  are a record of results. Loads are shares of the time that has passed on the counters, which are
  words that wrap. The first part bounds such a share: rounding never carries it above the whole.
\<close>

section \<open>Shares and their bounds\<close>

definition clamp01 :: "f64 \<Rightarrow> f64" where
  "clamp01 v = (if flt v (Fin 0) then Fin 0 else if flt (Fin 1) v then Fin 1 else v)"

definition is_pct :: "f64 \<Rightarrow> bool" where
  "is_pct v \<longleftrightarrow> fle (Fin 0) v \<and> fle v (Fin 100)"

lemma is_pct_Fin: "is_pct v \<longleftrightarrow> (\<exists>r. v = Fin r \<and> 0 \<le> r \<and> r \<le> 100)"
  by (cases v) (auto simp: is_pct_def fle_def feq_def)

lemma is_pct_0 [simp]: "is_pct (Fin 0)"
  by (simp add: is_pct_Fin)

lemma round_even_le: "x \<le> of_int k \<Longrightarrow> round_even x \<le> k"
proof -
  assume x: "x \<le> of_int k"
  show ?thesis
  proof (cases "\<lfloor>x\<rfloor> = k")
    case True
    then have "x = of_int k" using x of_int_floor_le [of x] by simp
    then show ?thesis by simp
  next
    case False
    then have "\<lfloor>x\<rfloor> + 1 \<le> k" using x floor_mono [OF x] by simp
    then show ?thesis by (auto simp: round_even_def Let_def)
  qed
qed

lemma round_even_ge: "of_int k \<le> x \<Longrightarrow> k \<le> round_even x"
proof -
  assume "of_int k \<le> x"
  then have "k \<le> \<lfloor>x\<rfloor>" by (simp add: le_floor_iff)
  then show ?thesis by (auto simp: round_even_def Let_def)
qed

text \<open>Rounding is monotone at the integers a double represents: what is at most one of them stays so.\<close>

lemma rnd_le:
  assumes "x \<le> of_int i" "0 < i" "i < 9007199254740992" "0 \<le> x"
  obtains y where "rnd x = Fin y" "0 \<le> y" "y \<le> of_int i"
proof (cases "x = 0")
  case False
  then have pos: "0 < x" using assms(4) by simp
  define m where "m = max (ilog2 x) (- 1022)"
  define n where "n = ilog2 (of_int i)"
  define u where "u = pow2 (m - 52)"
  have u: "ulp x = u" "0 < u" using pos by (simp_all add: ulp_def u_def m_def)
  have n: "pow2 n \<le> of_int i" "of_int i < pow2 (n + 1)" using ilog2_bounds [of "of_int i"] assms(2) by (simp_all add: n_def)
  have x: "pow2 (ilog2 x) \<le> x" "x < pow2 (ilog2 x + 1)" using ilog2_bounds [OF pos] by simp_all
  have "pow2 0 < pow2 (n + 1)" using n(2) assms(2) by (simp add: pow2_def)
  then have n0: "0 \<le> n" by (simp add: pow2_less_iff)
  have "pow2 n < pow2 53" using n(1) assms(3) by (simp add: pow2_def)
  then have n52: "n \<le> 52" by (simp add: pow2_less_iff)
  have "pow2 (ilog2 x) < pow2 (n + 1)" using x(1) assms(1) n(2) by simp
  then have "m \<le> n" using n0 by (simp add: pow2_less_iff m_def)
  have x': "x < pow2 (m + 1)" using x(2) pow2_mono [of "ilog2 x + 1" "m + 1"] by (simp add: m_def)
  obtain k :: int where k: "x / u \<le> of_int k" "of_int k * u \<le> of_int i"
  proof (cases "m = n")
    case True
    have w: "2 ^ nat (52 - n) * u = 1" using n52 by (simp add: u_def True pow2_def)
    then have "x / u = x * 2 ^ nat (52 - n)" using u(2) by (simp add: field_simps)
    also have "\<dots> \<le> of_int i * 2 ^ nat (52 - n)" using assms(1) by (intro mult_right_mono) simp_all
    finally show ?thesis using that [of "i * 2 ^ nat (52 - n)"] w by (simp add: mult.assoc)
  next
    case False
    then have "pow2 (m + 1) \<le> pow2 n" using \<open>m \<le> n\<close> by (intro pow2_mono) simp
    moreover have "pow2 53 * u = pow2 (m + 1)" by (simp add: u_def add.commute flip: pow2_add)
    moreover have "pow2 53 = of_int (2 ^ 53)" by (simp add: pow2_def)
    ultimately show ?thesis using that [of "2 ^ 53"] x' n(1) u(2) by (simp add: field_simps)
  qed
  let ?y = "of_int (round_even (x / u)) * u"
  have "?y \<le> of_int k * u" using round_even_le [OF k(1)] u(2) by (intro mult_right_mono) simp_all
  then have y: "?y \<le> of_int i" using k(2) by simp
  have "0 \<le> ?y" using round_even_nonneg [of "x / u"] pos u(2) by simp
  moreover have "\<not> pow2 1024 \<le> \<bar>?y\<bar>"
  proof -
    have "pow2 53 < pow2 1024" by (simp only: pow2_less_iff)
    then show ?thesis using y \<open>0 \<le> ?y\<close> assms(3) by (simp add: pow2_def [of 53])
  qed
  ultimately show ?thesis using that [of ?y] y False u(1) by (simp add: rnd_def Let_def)
qed (use assms that [of 0] in simp)

lemma fmul_100_pct:
  assumes "0 \<le> r" "r \<le> 1"
  shows "is_pct (fmul (Fin r) (Fin 100))"
proof -
  have "r * 100 \<le> of_int 100" "0 \<le> r * 100" using assms by simp_all
  then obtain y where "rnd (r * 100) = Fin y" "0 \<le> y" "y \<le> 100" using rnd_le [of "r * 100" 100] by auto
  then show ?thesis by (simp add: is_pct_Fin)
qed

lemma clamp01_pct: "v \<noteq> NaN \<Longrightarrow> is_pct (fmul (clamp01 v) (Fin 100))"
  using fmul_100_pct [of 1, simplified] fmul_100_pct [simplified] by (cases v) (auto simp: clamp01_def)

lemma fdiv_not_NaN: "x \<noteq> NaN \<Longrightarrow> r \<noteq> 0 \<Longrightarrow> fdiv x (Fin r) \<noteq> NaN"
  by (cases x) auto

text \<open>A word that is not zero rounds to a double that is not zero.\<close>

lemma rnd_pos_int:
  assumes "0 < i" shows "rnd (of_int i) = PInf \<or> (\<exists>r > 0. rnd (of_int i) = Fin r)"
proof -
  let ?x = "of_int i :: rat"
  have x: "0 < ?x" "pow2 (ilog2 ?x) \<le> ?x" using assms ilog2_bounds [of ?x] by simp_all
  have "pow2 0 < pow2 (ilog2 ?x + 1)" using ilog2_bounds [of ?x] x(1) assms by (simp add: pow2_def)
  then have e: "max (ilog2 ?x) (- 1022) = ilog2 ?x" by (simp add: pow2_less_iff)
  have "1 \<le> ?x / ulp ?x"
  proof -
    have "ulp ?x \<le> pow2 (ilog2 ?x)" unfolding ulp_def using e x(1) by (simp add: pow2_mono)
    then show ?thesis using x(2) by (simp add: field_simps)
  qed
  then have "1 \<le> round_even (?x / ulp ?x)" using round_even_ge [of 1] by simp
  then have "0 < of_int (round_even (?x / ulp ?x)) * ulp ?x" by simp
  then show ?thesis using x(1) assms by (auto simp: rnd_def Let_def)
qed

lemma rnd_finite:
  assumes "\<bar>x\<bar> \<le> 18446744073709551616" shows "\<exists>y. rnd x = Fin y \<and> \<bar>y\<bar> \<le> \<bar>x\<bar> + max \<bar>x\<bar> 1"
proof (cases "x = 0")
  case False
  let ?u = "ulp x" let ?y = "of_int (round_even (x / ?u)) * ?u"
  have u: "?u \<le> max \<bar>x\<bar> 1"
  proof -
    have "?u \<le> pow2 (max (ilog2 \<bar>x\<bar>) (- 1022))" unfolding ulp_def by (rule pow2_mono) simp
    also have "\<dots> \<le> max (pow2 (ilog2 \<bar>x\<bar>)) (pow2 0)" by (simp add: max_def pow2_mono)
    also have "\<dots> \<le> max \<bar>x\<bar> 1" using ilog2_bounds(1) [of "\<bar>x\<bar>"] False by (auto simp: pow2_def [of 0])
    finally show ?thesis .
  qed
  have "\<bar>?y - x\<bar> = \<bar>of_int (round_even (x / ?u)) - x / ?u\<bar> * ?u"
    using less_imp_neq [OF ulp_pos [of x]] by (simp add: abs_mult_pos left_diff_distrib less_imp_le)
  also have "\<dots> \<le> 1 / 2 * ?u" using round_even_error by (rule mult_right_mono) (simp add: less_imp_le)
  finally have y: "\<bar>?y\<bar> \<le> \<bar>x\<bar> + max \<bar>x\<bar> 1" using u ulp_pos [of x] by linarith
  also have "\<dots> \<le> 2 * 18446744073709551616" using assms by linarith
  also have "\<dots> < pow2 1024"
  proof -
    have "pow2 65 < pow2 1024" by (simp only: pow2_less_iff)
    then show ?thesis by (simp add: pow2_def [of 65])
  qed
  finally show ?thesis using False y by (simp add: rnd_def Let_def)
qed simp

lemma share_pct:
  assumes "0 < i" "i \<le> 18446744073709551616" "\<bar>b\<bar> \<le> 18446744073709551616"
  shows "is_pct (fmul (clamp01 (fdiv (rnd (of_int b)) (rnd (of_int i)))) (Fin 100))"
proof -
  have "\<bar>of_int b :: rat\<bar> \<le> of_int 18446744073709551616" "\<bar>of_int i :: rat\<bar> \<le> of_int 18446744073709551616"
    using assms unfolding of_int_abs [symmetric] by (simp_all only: of_int_le_iff)
  then obtain y r where "rnd (of_int b) = Fin y" "rnd (of_int i) = Fin r" using rnd_finite by fastforce
  moreover have "r \<noteq> 0" using rnd_pos_int [OF assms(1)] calculation(2) by auto
  ultimately show ?thesis by (intro clamp01_pct) simp
qed

text \<open>A difference of two times in seconds is a number.\<close>

lemma seconds_finite: "\<exists>r. dur_seconds (t_sub t u) = Fin r"
proof -
  define d where "d = t_sub t u"
  have d: "- 9223372036854775808 \<le> d" "d \<le> 9223372036854775807"
    using sat64_range unfolding d_def t_sub_def is_i64_def i64_min_def i64_max_def by auto
  have "\<bar>go_div d 1000000000\<bar> = \<bar>d\<bar> div 1000000000"
    by (simp add: go_div_def abs_mult pos_imp_zdiv_nonneg_iff sgn_if)
  then have q: "\<bar>go_div d 1000000000\<bar> \<le> 9007199254740992" using d by auto
  have "\<bar>go_rem d 1000000000\<bar> \<le> 1000000000"
  proof (cases "0 \<le> d")
    case True
    then show ?thesis by (simp add: go_rem_nonneg)
  next
    case False
    then have "go_rem d 1000000000 = - ((- d) mod 1000000000)"
      by (simp add: go_rem_def go_div_def minus_div_mult_eq_mod [symmetric] algebra_simps)
    then show ?thesis by simp
  qed
  then have g: "\<bar>of_int (go_rem d 1000000000) :: rat\<bar> \<le> of_int 1000000000"
    and g': "\<bar>go_rem d 1000000000\<bar> \<le> 9007199254740992"
    by (simp_all only: of_int_abs [symmetric] of_int_le_iff)
  have r: "f64_of_int (go_rem d 1000000000) = Fin (of_int (go_rem d 1000000000))"
    "\<bar>of_int (go_rem d 1000000000) / 1000000000 :: rat\<bar> \<le> 1"
    using g rnd_of_int [OF g'] by (simp_all add: f64_of_int_def abs_divide)
  obtain y where y: "rnd (of_int (go_rem d 1000000000) / 1000000000) = Fin y" "\<bar>y\<bar> \<le> 2"
    using rnd_finite [of "of_int (go_rem d 1000000000) / 1000000000"] r(2) by fastforce
  have "\<bar>of_int (go_div d 1000000000) + y\<bar> \<le> 18446744073709551616"
  proof -
    have "\<bar>of_int (go_div d 1000000000) :: rat\<bar> \<le> 9007199254740992" using q by linarith
    then show ?thesis using y(2) by linarith
  qed
  then obtain z where "rnd (of_int (go_div d 1000000000) + y) = Fin z" using rnd_finite by blast
  then have "dur_seconds d = Fin z"
    using r(1) y(1) rnd_of_int [OF q] rnd_of_int [of 1000000000]
    by (simp add: dur_seconds_def dur_parts_def second_def f64_of_int_def)
  then show ?thesis by (auto simp: d_def)
qed

section \<open>Processors\<close>

record CPUCollector =
  cc_numLogical :: int
  cc_cpuName :: gostring
  cc_freqMHz :: u32
  cc_prevIdle :: u64
  cc_prevKernel :: u64
  cc_prevUser :: u64
  cc_hasPrev :: bool
  cc_prevPerCore :: "SYSTEM_PROCESSOR_PERFORMANCE_INFORMATION list"

record cpu_env =
  ce_times :: "goerror + FILETIME \<times> FILETIME \<times> FILETIME"
  ce_perf :: "int \<Rightarrow> u64 \<times> (nat \<Rightarrow> SYSTEM_PROCESSOR_PERFORMANCE_INFORMATION)"

definition NewCPUCollector :: "int \<Rightarrow> gostring \<Rightarrow> u32 \<Rightarrow> CPUCollector" where
  "NewCPUCollector numCPU name freqMHz =
     \<lparr>cc_numLogical = numCPU, cc_cpuName = name, cc_freqMHz = freqMHz, cc_prevIdle = 0, cc_prevKernel = 0,
      cc_prevUser = 0, cc_hasPrev = False, cc_prevPerCore = []\<rparr>"

definition total_percent :: "CPUCollector \<Rightarrow> u64 \<Rightarrow> u64 \<Rightarrow> u64 \<Rightarrow> f64" where
  "total_percent c idleT kernelT userT =
     (if \<not> cc_hasPrev c then Fin 0
      else
        (let deltaIdle = idleT - cc_prevIdle c; deltaKernel = kernelT - cc_prevKernel c;
             deltaUser = userT - cc_prevUser c; deltaTotal = deltaKernel + deltaUser
         in if 0 < deltaTotal
            then fmul (clamp01 (fdiv (f64_of_u64 (deltaTotal - deltaIdle)) (f64_of_u64 deltaTotal))) (Fin 100)
            else Fin 0))"

definition core_percent ::
  "SYSTEM_PROCESSOR_PERFORMANCE_INFORMATION \<Rightarrow> SYSTEM_PROCESSOR_PERFORMANCE_INFORMATION \<Rightarrow> f64" where
  "core_percent prev info =
     (let deltaIdle = wrap64 (sp_IdleTime info - sp_IdleTime prev);
          deltaKernel = wrap64 (sp_KernelTime info - sp_KernelTime prev);
          deltaUser = wrap64 (sp_UserTime info - sp_UserTime prev);
          deltaTotal = wrap64 (deltaKernel + deltaUser)
      in if 0 < deltaTotal
         then fmul (clamp01 (fdiv (f64_of_int (wrap64 (deltaTotal - deltaIdle))) (f64_of_int deltaTotal))) (Fin 100)
         else Fin 0)"

definition CPU_Collect :: "cpu_env \<Rightarrow> CPUCollector \<Rightarrow> CPUCollector \<times> CPUMetrics" where
  "CPU_Collect env c =
     (let (c, total) =
            (case ce_times env of
               Inl e \<Rightarrow> (c, Fin 0)
             | Inr (idle, kern, usr) \<Rightarrow>
                 (c\<lparr>cc_prevIdle := Ticks idle, cc_prevKernel := Ticks kern, cc_prevUser := Ticks usr, cc_hasPrev := True\<rparr>,
                  total_percent c (Ticks idle) (Ticks kern) (Ticks usr)));
          (c, cores) =
            (case QueryProcessorPerformance (ce_perf env) (cc_numLogical c) of
               Inl e \<Rightarrow> (c, [])
             | Inr infos \<Rightarrow>
                 (c\<lparr>cc_prevPerCore := infos\<rparr>,
                  if length (cc_prevPerCore c) = length infos then map2 core_percent (cc_prevPerCore c) infos
                  else replicate (nat (cc_numLogical c)) (Fin 0)))
      in (c, \<lparr>cpu_TotalPercent = total, cpu_PerCore = cores, cpu_NumLogical = cc_numLogical c,
              cpu_Name = cc_cpuName c, cpu_FreqMHz = cc_freqMHz c\<rparr>))"

lemma total_percent_pct [simp]: "is_pct (total_percent c i k u)"
proof -
  have "is_pct (fmul (clamp01 (fdiv (f64_of_u64 b) (f64_of_u64 t))) (Fin 100))" if "0 < t" for b t :: u64
    unfolding f64_of_u64_def using that uint_lt2p [of b] uint_lt2p [of t] uint_ge_0 [of b]
    by (intro share_pct) (auto simp: word_less_def)
  then show ?thesis by (simp add: total_percent_def Let_def)
qed

lemma core_percent_pct [simp]: "is_pct (core_percent p i)"
proof -
  have "\<bar>wrap64 x\<bar> \<le> 18446744073709551616" for x
    using wrap64_range [of x] unfolding is_i64_def i64_min_def i64_max_def by arith
  then have "is_pct (fmul (clamp01 (fdiv (f64_of_int (wrap64 b)) (f64_of_int (wrap64 t)))) (Fin 100))" if "0 < wrap64 t" for b t
    unfolding f64_of_int_def using that abs_le_D1 by (intro share_pct) auto
  then show ?thesis by (simp add: core_percent_def Let_def)
qed

lemma CPU_Collect_bounds:
  assumes "CPU_Collect env c = (c', m)"
  shows "is_pct (cpu_TotalPercent m)" "\<forall>v\<in>set (cpu_PerCore m). is_pct v"
    "cpu_PerCore m = [] \<or> length (cpu_PerCore m) = nat (cc_numLogical c)" "cc_numLogical c' = cc_numLogical c"
  using assms by (auto simp: CPU_Collect_def QueryProcessorPerformance_def Let_def in_set_zip split: sum.splits if_splits prod.splits)

section \<open>Memory\<close>

definition zero_memory :: MemoryMetrics where
  "zero_memory = \<lparr>mem_TotalPhys = 0, mem_AvailPhys = 0, mem_UsedPhys = 0, mem_UsedPercent = Fin 0,
     mem_TotalPageFile = 0, mem_AvailPageFile = 0, mem_CommitCharge = 0\<rparr>"

definition Memory_Collect :: "goerror + MEMORYSTATUSEX option \<Rightarrow> MemoryMetrics" where
  "Memory_Collect status =
     (case status of
        Inl e \<Rightarrow> zero_memory
      | Inr None \<Rightarrow> zero_memory
      | Inr (Some ms) \<Rightarrow>
          (let used = ms_TotalPhys ms - ms_AvailPhys ms;
               pct = (if 0 < ms_TotalPhys ms
                      then fmul (fdiv (f64_of_u64 used) (f64_of_u64 (ms_TotalPhys ms))) (Fin 100) else Fin 0)
           in \<lparr>mem_TotalPhys = ms_TotalPhys ms, mem_AvailPhys = ms_AvailPhys ms, mem_UsedPhys = used,
               mem_UsedPercent = pct, mem_TotalPageFile = ms_TotalPageFile ms, mem_AvailPageFile = ms_AvailPageFile ms,
               mem_CommitCharge = ms_TotalPageFile ms - ms_AvailPageFile ms\<rparr>))"

end
