(* ===== verification/Counters.thy ===== *)
theory Counters
  imports Sampling GoParse "HOL-Library.Multiset"
begin

text \<open>
  \<^verbatim>\<open>internal/collector/disk.go\<close> and \<^verbatim>\<open>gpu.go\<close>: the collectors that also read performance counters.
  The counters of Windows are arguments; what the program keeps is the list of queries it has open, so
  that a query given up can be seen to be closed. A counter array is a Go map from instances to values.
\<close>

section \<open>Queries\<close>

record pdh_env =
  ph_open :: "goerror + u64"
  ph_add :: "u64 \<Rightarrow> gostring \<Rightarrow> goerror + u64"
  ph_collect :: "nat \<Rightarrow> u64 \<Rightarrow> goerror option"
  ph_values :: "u64 \<Rightarrow> goerror + (gostring, f64) gomap"

text \<open>Open queries and the number of times data was collected.\<close>

record pdh =
  pq_open :: "u64 list"
  pq_calls :: nat

definition query_close :: "u64 \<Rightarrow> pdh \<Rightarrow> pdh" where
  "query_close q w = (if q = 0 then w else w\<lparr>pq_open := remove1 q (pq_open w)\<rparr>)"

definition query_open :: "pdh_env \<Rightarrow> pdh \<Rightarrow> pdh \<times> (goerror + u64)" where
  "query_open env w =
     (case ph_open env of Inl e \<Rightarrow> (w, Inl e) | Inr q \<Rightarrow> (w\<lparr>pq_open := pq_open w @ [q]\<rparr>, Inr q))"

definition query_collect :: "pdh_env \<Rightarrow> u64 \<Rightarrow> pdh \<Rightarrow> pdh \<times> goerror option" where
  "query_collect env q w = (w\<lparr>pq_calls := pq_calls w + 1\<rparr>, ph_collect env (pq_calls w) q)"

definition counterUint64 :: "f64 \<Rightarrow> u64" where
  "counterUint64 v =
     (if fle v (Fin 0) then 0
      else (case v of Fin r \<Rightarrow> u64_of_f64 (Fin (of_int \<lfloor>r + 1 / 2\<rfloor>)) | _ \<Rightarrow> u64_of_f64 v))"

section \<open>Disks\<close>

record diskPerfCounters =
  dp_query :: u64
  dp_readBPS :: u64
  dp_writeBPS :: u64
  dp_readIOPS :: u64
  dp_writeIOPS :: u64

record DiskCollector =
  dc_perf :: "diskPerfCounters option"

record disk_env =
  de_drives :: "goerror + gostring list"
  de_type :: "gostring \<Rightarrow> u32"
  de_free :: "gostring \<Rightarrow> goerror + u64 \<times> u64 \<times> u64"
  de_volume :: "gostring \<Rightarrow> gostring \<times> gostring"
  de_pdh :: pdh_env

definition NewDiskCollector :: DiskCollector where "NewDiskCollector = \<lparr>dc_perf = None\<rparr>"

definition newDiskPerfCounters :: "pdh_env \<Rightarrow> pdh \<Rightarrow> pdh \<times> (goerror + diskPerfCounters)" where
  "newDiskPerfCounters env w =
     (case query_open env w of
        (w, Inl e) \<Rightarrow> (w, Inl e)
      | (w, Inr q) \<Rightarrow>
          (case ph_add env q (CHR 0x5C # ''LogicalDisk(*)'' @ CHR 0x5C # ''Disk Read Bytes/sec'') of
             Inl e \<Rightarrow> (query_close q w, Inl e)
           | Inr rb \<Rightarrow>
          (case ph_add env q (CHR 0x5C # ''LogicalDisk(*)'' @ CHR 0x5C # ''Disk Write Bytes/sec'') of
             Inl e \<Rightarrow> (query_close q w, Inl e)
           | Inr wb \<Rightarrow>
          (case ph_add env q (CHR 0x5C # ''LogicalDisk(*)'' @ CHR 0x5C # ''Disk Reads/sec'') of
             Inl e \<Rightarrow> (query_close q w, Inl e)
           | Inr ri \<Rightarrow>
          (case ph_add env q (CHR 0x5C # ''LogicalDisk(*)'' @ CHR 0x5C # ''Disk Writes/sec'') of
             Inl e \<Rightarrow> (query_close q w, Inl e)
           | Inr wi \<Rightarrow>
               (case query_collect env q w of
                  (w, Some e) \<Rightarrow> (query_close q w, Inl e)
                | (w, None) \<Rightarrow>
                    (w, Inr \<lparr>dp_query = q, dp_readBPS = rb, dp_writeBPS = wb, dp_readIOPS = ri, dp_writeIOPS = wi\<rparr>)))))))"

definition normalizeCounterMap :: "(gostring, f64) gomap \<Rightarrow> (gostring, f64) gomap" where
  "normalizeCounterMap values =
     fold (\<lambda>(name, v) m.
             let key = to_lower (trim_space name) in if key = [] \<or> key = ''_total'' then m else mput key v m)
       values []"

definition samplePerfCounters ::
  "pdh_env \<Rightarrow> DiskCollector \<times> pdh \<Rightarrow>
   (DiskCollector \<times> pdh) \<times> (gostring, f64) gomap \<times> (gostring, f64) gomap \<times> (gostring, f64) gomap \<times> (gostring, f64) gomap" where
  "samplePerfCounters env st =
     (let (d, w) = st;
          (d, w) = (case dc_perf d of
                      Some p \<Rightarrow> (d, w)
                    | None \<Rightarrow> (case newDiskPerfCounters env w of
                                 (w, Inl e) \<Rightarrow> (d, w)
                               | (w, Inr p) \<Rightarrow> (d\<lparr>dc_perf := Some p\<rparr>, w)))
      in case dc_perf d of
           None \<Rightarrow> ((d, w), [], [], [], [])
         | Some p \<Rightarrow>
             (case query_collect env (dp_query p) w of
                (w, Some e) \<Rightarrow> ((d, w), [], [], [], [])
              | (w, None) \<Rightarrow>
                  (case (ph_values env (dp_readBPS p), ph_values env (dp_writeBPS p),
                         ph_values env (dp_readIOPS p), ph_values env (dp_writeIOPS p)) of
                     (Inr rb, Inr wb, Inr ri, Inr wi) \<Rightarrow>
                       ((d, w), normalizeCounterMap rb, normalizeCounterMap wb, normalizeCounterMap ri, normalizeCounterMap wi)
                   | _ \<Rightarrow> ((d, w), [], [], [], []))))"

definition counter_at :: "(gostring, f64) gomap \<Rightarrow> gostring \<Rightarrow> u64" where
  "counter_at m k = counterUint64 (case mget m k of None \<Rightarrow> Fin 0 | Some v \<Rightarrow> v)"

definition drive_info ::
  "disk_env \<Rightarrow> (gostring, f64) gomap \<Rightarrow> (gostring, f64) gomap \<Rightarrow> (gostring, f64) gomap \<Rightarrow> (gostring, f64) gomap \<Rightarrow>
   gostring \<Rightarrow> DriveInfo option" where
  "drive_info env readBPS writeBPS readIOPS writeIOPS drive =
     (if de_type env drive \<notin> set [3, 2, 4] then None
      else
        (case de_free env drive of
           Inl e \<Rightarrow> None
         | Inr (avail, tot, free) \<Rightarrow>
             if tot = 0 then None
             else
               (let used = tot - free; (label, fs) = de_volume env drive;
                    letter = trim_right_byte (CHR 0x5C) drive; inst = to_lower letter
                in Some \<lparr>drv_Letter = letter, drv_Label = label, drv_FSType = fs, drv_TotalBytes = tot,
                     drv_FreeBytes = free, drv_UsedBytes = used,
                     drv_UsedPct = fmul (fdiv (f64_of_u64 used) (f64_of_u64 tot)) (Fin 100),
                     drv_ReadBPS = counter_at readBPS inst, drv_WriteBPS = counter_at writeBPS inst,
                     drv_ReadIOPS = counter_at readIOPS inst, drv_WriteIOPS = counter_at writeIOPS inst\<rparr>)))"

definition Disk_Collect :: "disk_env \<Rightarrow> DiskCollector \<times> pdh \<Rightarrow> (DiskCollector \<times> pdh) \<times> DiskMetrics" where
  "Disk_Collect env st =
     (case de_drives env of
        Inl e \<Rightarrow> (st, \<lparr>dsk_Drives = []\<rparr>)
      | Inr drives \<Rightarrow>
          (let (st, rb, wb, ri, wi) = samplePerfCounters (de_pdh env) st
           in (st, \<lparr>dsk_Drives = List.map_filter (drive_info env rb wb ri wi) drives\<rparr>)))"

section \<open>Graphics adapters\<close>

record gpuAdapterInfo =
  ga_name :: gostring
  ga_totalBytes :: u64

record gpuAdapterSample =
  gs_utilization :: f64
  gs_dedicated :: u64
  gs_shared :: u64

record gpuPerfCounters =
  gp_query :: u64
  gp_util :: u64
  gp_dedicated :: u64
  gp_shared :: u64

record GPUCollector =
  gc_perf :: "gpuPerfCounters option"
  gc_adapters :: "gpuAdapterInfo list"
  gc_cachedName :: gostring
  gc_cachedTotalVRAM :: u64

record gpu_env =
  ge_pdh :: pdh_env
  ge_string :: "gostring \<Rightarrow> gostring \<Rightarrow> goerror + gostring"
  ge_qword :: "gostring \<Rightarrow> gostring \<Rightarrow> goerror + u64"

definition NewGPUCollector :: GPUCollector where
  "NewGPUCollector = \<lparr>gc_perf = None, gc_adapters = [], gc_cachedName = [], gc_cachedTotalVRAM = 0\<rparr>"

text \<open>
  The two patterns are sequences of literals and of runs of a character class, matched without regard to case.
  No class holds the character that follows it, so taking the longest run never has to be undone. Folding
  lets the letter s also match U+017F.
\<close>

datatype rx = Lit gostring | Many "char \<Rightarrow> bool"

fun lit_match :: "gostring \<Rightarrow> gostring \<Rightarrow> (gostring \<times> gostring) option" where
  "lit_match [] s = Some ([], s)"
| "lit_match (c # p) s =
     (case s of
        [] \<Rightarrow> None
      | d # s' \<Rightarrow>
          if lower_byte d = c then map_option (apfst ((#) d)) (lit_match p s')
          else if c = CHR ''s'' \<and> take 2 s = [CHR 0xC5, CHR 0xBF]
               then map_option (apfst ((@) (take 2 s))) (lit_match p (drop 2 s))
          else None)"

fun rx_match :: "rx list \<Rightarrow> gostring \<Rightarrow> (gostring \<times> gostring) option" where
  "rx_match [] s = Some ([], s)"
| "rx_match (Lit p # rs) s =
     (case lit_match p s of
        None \<Rightarrow> None
      | Some (a, s) \<Rightarrow> map_option (apfst ((@) a)) (rx_match rs s))"
| "rx_match (Many P # rs) s =
     (let a = takeWhile P s in
      if a = [] then None else map_option (apfst ((@) a)) (rx_match rs (drop (length a) s)))"

definition rx_digit :: "char \<Rightarrow> bool" where "rx_digit c \<longleftrightarrow> 48 \<le> byte_val c \<and> byte_val c \<le> 57"
definition rx_hex :: "char \<Rightarrow> bool" where
  "rx_hex c \<longleftrightarrow> rx_digit c \<or> 97 \<le> byte_val (lower_byte c) \<and> byte_val (lower_byte c) \<le> 102"

definition adapter_rx :: "rx list" where
  "adapter_rx = [Lit ''luid_0x'', Many rx_hex, Lit ''_0x'', Many rx_hex, Lit ''_phys_'', Many rx_digit]"

definition parseGPUEngineInstance :: "gostring \<Rightarrow> (gostring \<times> gostring) option" where
  "parseGPUEngineInstance inst =
     (case rx_match [Lit ''pid_'', Many rx_digit, Lit ''_''] (to_lower (trim_space inst)) of
        None \<Rightarrow> None
      | Some (_, s) \<Rightarrow>
          (case rx_match adapter_rx s of
             None \<Rightarrow> None
           | Some (adapter, s) \<Rightarrow>
               (case rx_match [Lit ''_eng_''] s of
                  None \<Rightarrow> None
                | Some (_, s) \<Rightarrow>
                    (case rx_match [Many rx_digit] s of
                       None \<Rightarrow> None
                     | Some (eng, s) \<Rightarrow> if rx_match [Lit ''_''] s = None then None else Some (adapter, eng)))))"

definition parseGPUAdapterInstance :: "gostring \<Rightarrow> gostring option" where
  "parseGPUAdapterInstance inst =
     (case rx_match adapter_rx (to_lower (trim_space inst)) of
        Some (adapter, []) \<Rightarrow> Some adapter
      | _ \<Rightarrow> None)"

fun last_index :: "gostring \<Rightarrow> gostring \<Rightarrow> nat option" where
  "last_index [] p = (if p = [] then Some 0 else None)"
| "last_index (c # s) p =
     (case last_index s p of
        Some i \<Rightarrow> Some (i + 1)
      | None \<Rightarrow> if has_prefix (c # s) p then Some 0 else None)"

definition atoi :: "gostring \<Rightarrow> int option" where
  "atoi s =
     (let (neg, t) = strip_sign s; (n, e) = parse_uint 64 t; v = (if neg then - int n else int n) in
      if e = None \<and> is_i64 v then Some v else None)"

definition parseGPUAdapterIndex :: "gostring \<Rightarrow> int option" where
  "parseGPUAdapterIndex key =
     (case last_index (to_lower key) ''_phys_'' of
        None \<Rightarrow> None
      | Some i \<Rightarrow> atoi (drop (i + 6) key))"

definition zero_gpu_sample :: gpuAdapterSample where
  "zero_gpu_sample = \<lparr>gs_utilization = Fin 0, gs_dedicated = 0, gs_shared = 0\<rparr>"

definition or_zero :: "'v \<Rightarrow> 'v option \<Rightarrow> 'v" where
  "or_zero z v = (case v of None \<Rightarrow> z | Some x \<Rightarrow> x)"

definition engine_totals :: "(gostring, f64) gomap \<Rightarrow> (gostring, (gostring, f64) gomap) gomap" where
  "engine_totals utilValues =
     fold (\<lambda>(inst, v) totals.
             case parseGPUEngineInstance inst of
               None \<Rightarrow> totals
             | Some (adapter, eng) \<Rightarrow>
                 (let engines = or_zero [] (mget totals adapter) in
                  mput adapter (mput eng (fadd (or_zero (Fin 0) (mget engines eng)) v) engines) totals))
       utilValues []"

definition busiest :: "(gostring, f64) gomap \<Rightarrow> f64 \<Rightarrow> f64" where
  "busiest engines u =
     fold (\<lambda>(eng, v) u. let v = (if flt (Fin 100) v then Fin 100 else v) in if flt u v then v else u) engines u"

type_synonym gpu_samples = "(gostring, gpuAdapterSample) gomap"

definition set_memory ::
  "(u64 \<Rightarrow> gpuAdapterSample \<Rightarrow> gpuAdapterSample) \<Rightarrow> (gostring, f64) gomap \<Rightarrow> gpu_samples \<Rightarrow> gpu_samples" where
  "set_memory store values samples =
     fold (\<lambda>(inst, v) samples.
             case parseGPUAdapterInstance inst of
               None \<Rightarrow> samples
             | Some adapter \<Rightarrow>
                 mput adapter (store (counterUint64 v) (or_zero zero_gpu_sample (mget samples adapter))) samples)
       values samples"

definition aggregateGPUSamples ::
  "(gostring, f64) gomap \<Rightarrow> (gostring, f64) gomap \<Rightarrow> (gostring, f64) gomap \<Rightarrow> gpu_samples" where
  "aggregateGPUSamples utilValues dedicatedValues sharedValues =
     (let samples = fold (\<lambda>(adapter, engines) samples.
                let sample = or_zero zero_gpu_sample (mget samples adapter) in
                mput adapter (sample\<lparr>gs_utilization := busiest engines (gs_utilization sample)\<rparr>) samples)
              (engine_totals utilValues) [];
          samples = set_memory (\<lambda>n s. s\<lparr>gs_dedicated := n\<rparr>) dedicatedValues samples
      in set_memory (\<lambda>n s. s\<lparr>gs_shared := n\<rparr>) sharedValues samples)"

definition gpu_score :: "gpuAdapterSample \<Rightarrow> f64" where
  "gpu_score s = fadd (fmul (gs_utilization s) (Fin 1000000)) (f64_of_u64 (gs_dedicated s + gs_shared s))"

definition pickPrimaryGPU :: "gpu_samples \<Rightarrow> (gostring \<times> gpuAdapterSample) option" where
  "pickPrimaryGPU samples =
     fold (\<lambda>(key, sample) best.
             case best of
               None \<Rightarrow> Some (key, sample)
             | Some (_, b) \<Rightarrow> if flt (gpu_score b) (gpu_score sample) then Some (key, sample) else best)
       samples None"

definition gpu_class_key :: "nat \<Rightarrow> gostring" where
  "gpu_class_key i =
     sprintf (''%s'' @ CHR 0x5C # ''%04d'')
       [FStr (str_join [CHR 0x5C] [''SYSTEM'', ''CurrentControlSet'', ''Control'', ''Class'',
                ''{4d36e968-e325-11ce-bfc1-08002be10318}'']), FInt (int i)]"

definition readGPUName :: "gpu_env \<Rightarrow> gostring" where
  "readGPUName env =
     (case ge_string env (str_join [CHR 0x5C] [''SYSTEM'', ''CurrentControlSet'', ''Control'', ''Video'',
             ''{00000000-0000-0000-0000-000000000000}'', ''0000'']) ''DriverDesc'' of
        Inl e \<Rightarrow> ''Unknown GPU''
      | Inr name \<Rightarrow> if name \<noteq> [] then name else ''Unknown GPU'')"

text \<open>A failed read of the registry gives the empty string or 0.\<close>

definition reg_or :: "'v \<Rightarrow> goerror + 'v \<Rightarrow> 'v" where
  "reg_or z r = (case r of Inl e \<Rightarrow> z | Inr v \<Rightarrow> v)"

definition read_adapter :: "gpu_env \<Rightarrow> nat \<Rightarrow> gpuAdapterInfo option" where
  "read_adapter env i =
     (let key = gpu_class_key i;
          name = reg_or [] (ge_string env key ''DriverDesc'');
          name = (if name = [] then reg_or [] (ge_string env key ''HardwareInformation.AdapterString'') else name);
          bytes = reg_or 0 (ge_qword env key ''HardwareInformation.qwMemorySize'')
      in if name = [] \<and> bytes = 0 then None else Some \<lparr>ga_name = trim_space name, ga_totalBytes = bytes\<rparr>)"

definition readGPUAdapters :: "gpu_env \<Rightarrow> gpuAdapterInfo list" where
  "readGPUAdapters env =
     (let adapters = List.map_filter (read_adapter env) [0..<32] in
      if adapters = [] then (let name = readGPUName env in if name \<noteq> [] then [\<lparr>ga_name = name, ga_totalBytes = 0\<rparr>] else [])
      else adapters)"

definition note_adapter :: "gpuAdapterInfo \<Rightarrow> GPUCollector \<Rightarrow> GPUCollector" where
  "note_adapter a g =
     (let g = (if gc_cachedName g = [] \<and> ga_name a \<noteq> [] then g\<lparr>gc_cachedName := ga_name a\<rparr> else g) in
      if gc_cachedTotalVRAM g < ga_totalBytes a
      then (let g = g\<lparr>gc_cachedTotalVRAM := ga_totalBytes a\<rparr> in
            if ga_name a \<noteq> [] then g\<lparr>gc_cachedName := ga_name a\<rparr> else g)
      else g)"

definition initInventory :: "gpu_env \<Rightarrow> GPUCollector \<Rightarrow> GPUCollector" where
  "initInventory env g =
     (if gc_adapters g \<noteq> [] then g
      else
        (let adapters = readGPUAdapters env; g = fold note_adapter adapters (g\<lparr>gc_adapters := adapters\<rparr>)
         in if gc_cachedName g = [] then g\<lparr>gc_cachedName := ''Unknown GPU''\<rparr> else g))"

definition newGPUPerfCounters :: "pdh_env \<Rightarrow> pdh \<Rightarrow> pdh \<times> (goerror + gpuPerfCounters)" where
  "newGPUPerfCounters env w =
     (case query_open env w of
        (w, Inl e) \<Rightarrow> (w, Inl e)
      | (w, Inr q) \<Rightarrow>
          (case ph_add env q (CHR 0x5C # ''GPU Engine(*)'' @ CHR 0x5C # ''Utilization Percentage'') of
             Inl e \<Rightarrow> (query_close q w, Inl e)
           | Inr u \<Rightarrow>
               (let ded = reg_or 0 (ph_add env q (CHR 0x5C # ''GPU Adapter Memory(*)'' @ CHR 0x5C # ''Dedicated Usage''));
                    sh = reg_or 0 (ph_add env q (CHR 0x5C # ''GPU Adapter Memory(*)'' @ CHR 0x5C # ''Shared Usage''))
                in case query_collect env q w of
                     (w, Some e) \<Rightarrow> (query_close q w, Inl e)
                   | (w, None) \<Rightarrow> (w, Inr \<lparr>gp_query = q, gp_util = u, gp_dedicated = ded, gp_shared = sh\<rparr>))))"

definition formattedCounterArrayDouble :: "pdh_env \<Rightarrow> u64 \<Rightarrow> goerror + (gostring, f64) gomap" where
  "formattedCounterArrayDouble env counter = (if counter = 0 then Inr [] else ph_values env counter)"

definition no_gpu :: "gostring \<Rightarrow> u64 \<Rightarrow> GPUMetrics" where
  "no_gpu name tot = \<lparr>gpu_Name = name, gpu_Utilization = Fin 0, gpu_VRAMUsed = 0, gpu_VRAMTotal = tot,
     gpu_Temperature = -1, gpu_Available = False\<rparr>"

definition gpu_metrics ::
  "GPUCollector \<Rightarrow> (gostring, f64) gomap \<Rightarrow> (gostring, f64) gomap \<Rightarrow> (gostring, f64) gomap \<Rightarrow> GPUMetrics" where
  "gpu_metrics g utilValues dedicatedValues sharedValues =
     (let best = pickPrimaryGPU (aggregateGPUSamples utilValues dedicatedValues sharedValues);
          (key, sample) = or_zero ([], zero_gpu_sample) best;
          adapter = (case (if key = [] then None else parseGPUAdapterIndex key) of
                       None \<Rightarrow> None
                     | Some i \<Rightarrow> if 0 \<le> i \<and> i < int (length (gc_adapters g)) then Some (gc_adapters g ! nat i) else None);
          name = (case adapter of None \<Rightarrow> gc_cachedName g | Some a \<Rightarrow> if ga_name a \<noteq> [] then ga_name a else gc_cachedName g);
          tot = (case adapter of None \<Rightarrow> gc_cachedTotalVRAM g
                 | Some a \<Rightarrow> if 0 < ga_totalBytes a then ga_totalBytes a else gc_cachedTotalVRAM g);
          name = (if name = [] then ''Unknown GPU'' else name);
          used = gs_dedicated sample;
          used = (if used = 0 then gs_dedicated sample + gs_shared sample else used);
          tot = (if tot < used then used else tot)
      in \<lparr>gpu_Name = name, gpu_Utilization = gs_utilization sample, gpu_VRAMUsed = used, gpu_VRAMTotal = tot,
          gpu_Temperature = -1,
          gpu_Available = (best \<noteq> None \<or> utilValues \<noteq> [] \<or> dedicatedValues \<noteq> [] \<or> sharedValues \<noteq> [])\<rparr>)"

definition GPU_Collect :: "gpu_env \<Rightarrow> GPUCollector \<times> pdh \<Rightarrow> (GPUCollector \<times> pdh) \<times> GPUMetrics" where
  "GPU_Collect env st =
     (let (g, w) = st; g = initInventory env g;
          (g, w) = (case gc_perf g of
                      Some p \<Rightarrow> (g, w)
                    | None \<Rightarrow> (case newGPUPerfCounters (ge_pdh env) w of
                                 (w, Inl e) \<Rightarrow> (g, w)
                               | (w, Inr p) \<Rightarrow> (g\<lparr>gc_perf := Some p\<rparr>, w)))
      in case gc_perf g of
           None \<Rightarrow> ((g, w), no_gpu (gc_cachedName g) 0)
         | Some p \<Rightarrow>
             (case query_collect (ge_pdh env) (gp_query p) w of
                (w, Some e) \<Rightarrow> ((g, w), no_gpu (gc_cachedName g) (gc_cachedTotalVRAM g))
              | (w, None) \<Rightarrow>
                  (let u = formattedCounterArrayDouble (ge_pdh env) (gp_util p);
                       d = formattedCounterArrayDouble (ge_pdh env) (gp_dedicated p);
                       s = formattedCounterArrayDouble (ge_pdh env) (gp_shared p)
                   in if isl u \<and> isl d \<and> isl s
                      then ((g, w), no_gpu (gc_cachedName g) (gc_cachedTotalVRAM g))
                      else ((g, w), gpu_metrics g (reg_or [] u) (reg_or [] d) (reg_or [] s)))))"

section \<open>What the adapters show\<close>

definition samples_pct :: "gpu_samples \<Rightarrow> bool" where
  "samples_pct samples \<longleftrightarrow> (\<forall>s\<in>snd ` set samples. is_pct (gs_utilization s))"

lemma busiest_pct: "is_pct u \<Longrightarrow> is_pct (busiest engines u)"
proof (induction engines arbitrary: u)
  case (Cons e es)
  let ?v = "if flt (Fin 100) (snd e) then Fin 100 else snd e"
  have "is_pct (if flt u ?v then ?v else u)"
    using Cons.prems by (cases "snd e"; cases u) (auto simp: is_pct_Fin)
  from Cons.IH [OF this] show ?case by (simp add: busiest_def Let_def case_prod_beta)
qed (simp add: busiest_def)

lemma samples_pct_put:
  "samples_pct samples \<Longrightarrow> is_pct (gs_utilization s) \<Longrightarrow> samples_pct (mput k s samples)"
  using set_mput_subset [of k s samples] by (auto simp: samples_pct_def)

lemma samples_pct_get: "samples_pct samples \<Longrightarrow> is_pct (gs_utilization (or_zero zero_gpu_sample (mget samples k)))"
  by (auto simp: or_zero_def zero_gpu_sample_def samples_pct_def split: option.splits dest!: map_of_SomeD)

lemma set_memory_pct:
  assumes "\<And>n s. gs_utilization (store n s) = gs_utilization s"
  shows "samples_pct samples \<Longrightarrow> samples_pct (set_memory store values samples)"
  unfolding set_memory_def
  by (induction "values" arbitrary: samples)
    (auto simp: assms samples_pct_get samples_pct_put split: option.splits)

lemma aggregate_pct: "samples_pct (aggregateGPUSamples u d s)"
proof -
  have "samples_pct samples \<Longrightarrow> samples_pct (fold (\<lambda>(adapter, engines) samples.
                let sample = or_zero zero_gpu_sample (mget samples adapter) in
                mput adapter (sample\<lparr>gs_utilization := busiest engines (gs_utilization sample)\<rparr>) samples) ets samples)"
    for ets samples
    by (induction ets arbitrary: samples) (auto simp: Let_def samples_pct_get busiest_pct samples_pct_put)
  moreover have "samples_pct []" by (simp add: samples_pct_def)
  ultimately show ?thesis unfolding aggregateGPUSamples_def Let_def by (intro set_memory_pct) simp_all
qed

lemma pick_mem: "pickPrimaryGPU samples = Some (k, s) \<Longrightarrow> (k, s) \<in> set samples"
proof -
  have "fold (\<lambda>(key, sample) best. case best of None \<Rightarrow> Some (key, sample)
          | Some (_, b) \<Rightarrow> if flt (gpu_score b) (gpu_score sample) then Some (key, sample) else best) samples best
        = Some (k, s) \<Longrightarrow> best = Some (k, s) \<or> (k, s) \<in> set samples" for best
    by (induction samples arbitrary: best) (auto split: option.splits if_splits prod.splits)
  then show "pickPrimaryGPU samples = Some (k, s) \<Longrightarrow> (k, s) \<in> set samples"
    unfolding pickPrimaryGPU_def by blast
qed

lemma gpu_metrics_bounds:
  "is_pct (gpu_Utilization (gpu_metrics g u d s))" "gpu_VRAMUsed (gpu_metrics g u d s) \<le> gpu_VRAMTotal (gpu_metrics g u d s)"
proof -
  have "is_pct (gs_utilization (snd (or_zero ([], zero_gpu_sample) (pickPrimaryGPU (aggregateGPUSamples u d s)))))"
    using aggregate_pct [of u d s] pick_mem [of "aggregateGPUSamples u d s"]
    by (fastforce simp: or_zero_def zero_gpu_sample_def samples_pct_def split: option.splits)
  then show "is_pct (gpu_Utilization (gpu_metrics g u d s))"
    by (cases "or_zero ([], zero_gpu_sample) (pickPrimaryGPU (aggregateGPUSamples u d s))")
      (simp add: gpu_metrics_def Let_def)
  show "gpu_VRAMUsed (gpu_metrics g u d s) \<le> gpu_VRAMTotal (gpu_metrics g u d s)"
    by (simp add: gpu_metrics_def Let_def not_less split: prod.splits)
qed

lemma GPU_Collect_bounds:
  assumes "GPU_Collect env st = (st', m)"
  shows "is_pct (gpu_Utilization m)" "gpu_VRAMUsed m \<le> gpu_VRAMTotal m"
  using assms gpu_metrics_bounds
  by (auto simp: GPU_Collect_def Let_def no_gpu_def split: prod.splits option.splits sum.splits if_splits)

section \<open>No query is left open\<close>

text \<open>
  Of the queries a collector opens, the one it keeps stays open and every other is closed again, whatever
  call fails, provided that Windows hands out no zero handle.
\<close>

lemma newDiskPerfCounters_queries:
  assumes "newDiskPerfCounters env w = (w', r)" "ph_open env \<noteq> Inr 0"
  shows "mset (pq_open w') = mset (pq_open w) + (case r of Inl e \<Rightarrow> {#} | Inr p \<Rightarrow> {#dp_query p#})"
  using assms by (auto simp: newDiskPerfCounters_def query_open_def query_close_def query_collect_def
      split: sum.splits option.splits)

lemma newGPUPerfCounters_queries:
  assumes "newGPUPerfCounters env w = (w', r)" "ph_open env \<noteq> Inr 0"
  shows "mset (pq_open w') = mset (pq_open w) + (case r of Inl e \<Rightarrow> {#} | Inr p \<Rightarrow> {#gp_query p#})"
  using assms by (auto simp: newGPUPerfCounters_def query_open_def query_close_def query_collect_def Let_def
      split: sum.splits option.splits)

definition held_disk :: "DiskCollector \<Rightarrow> u64 multiset" where
  "held_disk d = (case dc_perf d of None \<Rightarrow> {#} | Some p \<Rightarrow> {#dp_query p#})"

definition held_gpu :: "GPUCollector \<Rightarrow> u64 multiset" where
  "held_gpu g = (case gc_perf g of None \<Rightarrow> {#} | Some p \<Rightarrow> {#gp_query p#})"

lemma Disk_Collect_queries:
  assumes "Disk_Collect env (d, w) = ((d', w'), m)" "ph_open (de_pdh env) \<noteq> Inr 0"
  shows "mset (pq_open w') + held_disk d = mset (pq_open w) + held_disk d'"
proof (cases "de_drives env")
  case (Inl e)
  then show ?thesis using assms(1) by (simp add: Disk_Collect_def)
next
  case (Inr drives)
  have c: "pq_open (fst (query_collect e q w)) = pq_open w" for e q w by (simp add: query_collect_def)
  show ?thesis
  proof (cases "dc_perf d")
    case None
    obtain w1 r where n: "newDiskPerfCounters (de_pdh env) w = (w1, r)" by (cases "newDiskPerfCounters (de_pdh env) w")
    from newDiskPerfCounters_queries [OF this assms(2)] show ?thesis
      using assms(1) Inr None n
      by (auto simp: Disk_Collect_def samplePerfCounters_def held_disk_def query_collect_def Let_def
          split: sum.splits option.splits prod.splits)
  next
    case (Some p)
    then show ?thesis using assms(1) Inr
      by (auto simp: Disk_Collect_def samplePerfCounters_def held_disk_def query_collect_def Let_def
          split: sum.splits option.splits prod.splits)
  qed
qed

lemma fold_note_adapter_perf [simp]: "gc_perf (fold note_adapter xs g) = gc_perf g"
proof -
  have "gc_perf (note_adapter a g) = gc_perf g" for a g by (simp add: note_adapter_def Let_def)
  then show ?thesis by (induction xs arbitrary: g) simp_all
qed

lemma initInventory_perf [simp]: "gc_perf (initInventory env g) = gc_perf g"
  by (simp add: initInventory_def Let_def)

lemma GPU_Collect_queries:
  assumes "GPU_Collect env (g, w) = ((g', w'), m)" "ph_open (ge_pdh env) \<noteq> Inr 0"
  shows "mset (pq_open w') + held_gpu g = mset (pq_open w) + held_gpu g'"
proof (cases "gc_perf g")
  case None
  obtain w1 r where n: "newGPUPerfCounters (ge_pdh env) w = (w1, r)" by (cases "newGPUPerfCounters (ge_pdh env) w")
  from newGPUPerfCounters_queries [OF this assms(2)] show ?thesis
    using assms(1) None n
    by (auto simp: GPU_Collect_def held_gpu_def query_collect_def Let_def
        split: sum.splits option.splits prod.splits if_splits)
next
  case (Some p)
  then show ?thesis using assms(1)
    by (auto simp: GPU_Collect_def held_gpu_def query_collect_def Let_def
        split: sum.splits option.splits prod.splits if_splits)
qed

end
