(* ===== verification/NetCollect.thy ===== *)
theory NetCollect
  imports Sampling
begin

text \<open>
  \<^verbatim>\<open>internal/collector/network.go\<close>: the rates of the network interfaces, from the counters of the
  previous sample. Rows of filter drivers and virtual adapters are left out, and of rows with one name only
  the first is shown.
\<close>

record netPrev =
  np_inOctets :: u64
  np_outOctets :: u64
  np_inPackets :: u64
  np_outPackets :: u64
  np_inErrors :: u64
  np_outErrors :: u64
  np_sampleTime :: gotime

record NetworkCollector =
  nc_prev :: "(u32, netPrev) gomap"

definition NewNetworkCollector :: NetworkCollector where "NewNetworkCollector = \<lparr>nc_prev = []\<rparr>"

definition preferAlias :: "gostring \<Rightarrow> gostring \<Rightarrow> gostring" where
  "preferAlias alias desc = (if alias \<noteq> [] then alias else desc)"

fun cut_at :: "gostring \<Rightarrow> gostring list \<Rightarrow> gostring \<Rightarrow> gostring" where
  "cut_at low [] name = name"
| "cut_at low (token # tokens) name =
     (case str_index low token of
        Some i \<Rightarrow> if 0 < i then trim_space (take i name) else cut_at low tokens name
      | None \<Rightarrow> cut_at low tokens name)"

definition driver_suffixes :: "gostring list" where
  "driver_suffixes = [''-npcap'', ''-wfp'', ''-qos packet scheduler'', ''-lightweight filter'', ''-filter driver'',
     ''-virtual filtering platform'', ''-native wifi filter driver'', ''-virtual wifi filter driver'']"

definition displayInterfaceName :: "gostring \<Rightarrow> gostring \<Rightarrow> gostring" where
  "displayInterfaceName alias desc =
     (let name = trim_space (preferAlias alias desc);
          name = (if name = [] then trim_space desc else name)
      in cut_at (to_lower name) driver_suffixes name)"

text \<open>
  The loop goes over characters and the model over bytes: a character beyond ASCII is a run of bytes that are
  neither letters nor digits, which leave one space either way.
\<close>

definition name_byte :: "char \<Rightarrow> bool" where
  "name_byte c \<longleftrightarrow> 97 \<le> byte_val c \<and> byte_val c \<le> 122 \<or> 48 \<le> byte_val c \<and> byte_val c \<le> 57"

fun norm_loop :: "bool \<Rightarrow> gostring \<Rightarrow> gostring" where
  "norm_loop lastSpace [] = []"
| "norm_loop lastSpace (c # s) =
     (if name_byte c then c # norm_loop False s
      else if lastSpace then norm_loop True s else CHR '' '' # norm_loop True s)"

definition normalizeIfaceName :: "gostring \<Rightarrow> gostring" where
  "normalizeIfaceName s = (let s = to_lower (trim_space s) in if s = [] then [] else trim_space (norm_loop False s))"

definition hidden_tokens :: "gostring list" where
  "hidden_tokens = [''npcap'', ''teredo'', ''isatap'', ''loopback'', ''wfp'', ''filter'', ''lightweight'', ''packet scheduler'',
     ''virtual wifi filter driver'', ''native wifi filter driver'', ''kernel debugger'', ''hyper-v virtual switch extension'']"

definition iface_key :: "IfRow2 \<Rightarrow> gostring" where
  "iface_key r = normalizeIfaceName (displayInterfaceName (ir_Alias r) (ir_Description r))"

definition of_driver :: "IfRow2 \<Rightarrow> bool" where
  "of_driver r \<longleftrightarrow>
     ir_Type r = 24 \<or> ir_Type r = 131 \<or>
     (let low = to_lower (trim_space (preferAlias (ir_Alias r) (ir_Description r)) @ '' '' @ ir_Description r)
      in list_ex (str_contains low) hidden_tokens)"

definition unused :: "IfRow2 \<Rightarrow> bool" where
  "unused r \<longleftrightarrow>
     ir_OperStatus r \<noteq> 1 \<and> ir_SpeedRx r = 0 \<and> ir_SpeedTx r = 0 \<and> ir_InOctets r = 0 \<and> ir_OutOctets r = 0 \<or>
     has_prefix (to_lower (displayInterfaceName (ir_Alias r) (ir_Description r))) ''local area connection*'' \<and>
       ir_SpeedRx r = 0 \<and> ir_SpeedTx r = 0"

text \<open>Whether a row is skipped, and the names seen after it.\<close>

definition shouldSkipInterface :: "IfRow2 \<Rightarrow> gostring list \<Rightarrow> bool \<times> gostring list" where
  "shouldSkipInterface r seen =
     (if of_driver r then (True, seen)
      else
        (let key = iface_key r in
         if key \<noteq> [] \<and> key \<in> set seen then (True, seen)
         else (unused r, if key \<noteq> [] then key # seen else seen)))"

definition bpsDelta :: "u64 \<Rightarrow> u64 \<Rightarrow> f64 \<Rightarrow> u64" where
  "bpsDelta cur prev elapsed = (if cur \<le> prev then 0 else u64_of_f64 (fdiv (f64_of_u64 (cur - prev)) elapsed))"

definition saturatingSub :: "u64 \<Rightarrow> u64 \<Rightarrow> u64" where
  "saturatingSub cur prev = (if cur \<le> prev then 0 else cur - prev)"

definition pickSpeedMbps :: "u64 \<Rightarrow> u64 \<Rightarrow> u64" where
  "pickSpeedMbps rx tx = (if rx < tx then tx else rx) div 1000000"

definition ifTypeName :: "u32 \<Rightarrow> gostring" where
  "ifTypeName t =
     (if t = 6 then ''ethernet'' else if t = 9 then ''token-ring'' else if t = 23 then ''ppp''
      else if t = 24 then ''loopback'' else if t = 71 then ''wifi'' else if t = 131 then ''tunnel''
      else if t = 144 then ''ieee1394'' else ''other'')"

definition operStatusName :: "u32 \<Rightarrow> gostring" where
  "operStatusName s =
     (if s = 1 then ''up'' else if s = 2 then ''down'' else if s = 3 then ''testing'' else if s = 4 then ''unknown''
      else if s = 5 then ''dormant'' else if s = 6 then ''not-present'' else if s = 7 then ''lower-layer-down''
      else ''unknown'')"

definition net_prev :: "gotime \<Rightarrow> IfRow2 \<Rightarrow> netPrev" where
  "net_prev now r =
     \<lparr>np_inOctets = ir_InOctets r, np_outOctets = ir_OutOctets r, np_inPackets = ir_InUcastPkts r,
      np_outPackets = ir_OutUcastPkts r, np_inErrors = ir_InErrors r, np_outErrors = ir_OutErrors r, np_sampleTime = now\<rparr>"

definition iface_info :: "gotime \<Rightarrow> netPrev option \<Rightarrow> IfRow2 \<Rightarrow> InterfaceInfo" where
  "iface_info now prev r =
     (let ii = \<lparr>if_Name = displayInterfaceName (ir_Alias r) (ir_Description r), if_Type = ifTypeName (ir_Type r),
            if_Status = operStatusName (ir_OperStatus r), if_SpeedMbps = pickSpeedMbps (ir_SpeedRx r) (ir_SpeedTx r),
            if_InBPS = 0, if_OutBPS = 0, if_InPPS = 0, if_OutPPS = 0, if_InErrors = 0, if_OutErrors = 0\<rparr>
      in case prev of
           None \<Rightarrow> ii
         | Some p \<Rightarrow>
             (let elapsed = dur_seconds (t_sub now (np_sampleTime p)) in
              if flt (Fin 0) elapsed
              then ii\<lparr>if_InBPS := bpsDelta (ir_InOctets r) (np_inOctets p) elapsed,
                      if_OutBPS := bpsDelta (ir_OutOctets r) (np_outOctets p) elapsed,
                      if_InPPS := bpsDelta (ir_InUcastPkts r) (np_inPackets p) elapsed,
                      if_OutPPS := bpsDelta (ir_OutUcastPkts r) (np_outPackets p) elapsed,
                      if_InErrors := saturatingSub (ir_InErrors r) (np_inErrors p),
                      if_OutErrors := saturatingSub (ir_OutErrors r) (np_outErrors p)\<rparr>
              else ii))"

type_synonym net_acc = "(u32, netPrev) gomap \<times> gostring list \<times> NetworkMetrics"

definition net_row :: "gotime \<Rightarrow> (u32, netPrev) gomap \<Rightarrow> IfRow2 \<Rightarrow> net_acc \<Rightarrow> net_acc" where
  "net_row now prev r acc =
     (let (live, seen, out) = acc;
          (skip, seen) = shouldSkipInterface r seen;
          live = mput (ir_Index r) (net_prev now r) live
      in if skip then (live, seen, out)
         else
           (let ii = iface_info now (mget prev (ir_Index r)) r in
            (live, seen,
             out\<lparr>net_Interfaces := net_Interfaces out @ [ii],
                 net_TotalDownBPS := net_TotalDownBPS out + if_InBPS ii,
                 net_TotalUpBPS := net_TotalUpBPS out + if_OutBPS ii\<rparr>)))"

definition no_interfaces :: NetworkMetrics where
  "no_interfaces = \<lparr>net_Interfaces = [], net_TotalUpBPS = 0, net_TotalDownBPS = 0\<rparr>"

definition Network_Collect :: "gotime \<Rightarrow> goerror + IfRow2 list \<Rightarrow> NetworkCollector \<Rightarrow> NetworkCollector \<times> NetworkMetrics" where
  "Network_Collect now table n =
     (case table of
        Inl e \<Rightarrow> (n, no_interfaces)
      | Inr rows \<Rightarrow>
          if rows = [] then (n, no_interfaces)
          else
            (let (live, seen, out) = fold (net_row now (nc_prev n)) rows ([], [], no_interfaces)
             in (n\<lparr>nc_prev := live\<rparr>, out)))"

section \<open>What is shown\<close>

lemma iface_info_name [simp]: "if_Name (iface_info now prev r) = displayInterfaceName (ir_Alias r) (ir_Description r)"
  by (simp add: iface_info_def Let_def split: option.splits)

definition shown_keys :: "NetworkMetrics \<Rightarrow> gostring list" where
  "shown_keys m = filter (\<lambda>k. k \<noteq> []) (map (normalizeIfaceName \<circ> if_Name) (net_Interfaces m))"

definition net_ok :: "net_acc \<Rightarrow> bool" where
  "net_ok acc \<longleftrightarrow>
     (let (live, seen, out) = acc in
      distinct (shown_keys out) \<and> set (shown_keys out) \<subseteq> set seen \<and>
      net_TotalDownBPS out = sum_list (map if_InBPS (net_Interfaces out)) \<and>
      net_TotalUpBPS out = sum_list (map if_OutBPS (net_Interfaces out)))"

lemma net_row_ok: "net_ok acc \<Longrightarrow> net_ok (net_row now prev r acc)"
proof -
  obtain live seen out where acc: "acc = (live, seen, out)" by (cases acc)
  obtain skip seen' where s: "shouldSkipInterface r seen = (skip, seen')" by (cases "shouldSkipInterface r seen")
  assume ok: "net_ok acc"
  have seen': "set seen \<subseteq> set seen'" "\<not> skip \<Longrightarrow> iface_key r \<noteq> [] \<Longrightarrow> iface_key r \<in> set seen' \<and> iface_key r \<notin> set seen"
    using s by (auto simp: shouldSkipInterface_def Let_def split: if_splits)
  then show ?thesis using ok acc s
    by (auto simp: net_ok_def net_row_def shown_keys_def iface_key_def Let_def add.commute)
qed

lemma net_fold_ok: "net_ok acc \<Longrightarrow> net_ok (fold (net_row now prev) rows acc)"
  by (induction rows arbitrary: acc) (simp_all add: net_row_ok)

lemma net_fold_live:
  "mget (fst (fold (net_row now prev) rows acc)) k =
     (case find (\<lambda>r. ir_Index r = k) (rev rows) of None \<Rightarrow> mget (fst acc) k | Some r \<Rightarrow> Some (net_prev now r))"
proof (induction rows rule: rev_induct)
  case (snoc r rows)
  obtain live seen out where a: "fold (net_row now prev) rows acc = (live, seen, out)"
    by (cases "fold (net_row now prev) rows acc")
  have "fst (net_row now prev r (live, seen, out)) = mput (ir_Index r) (net_prev now r) live"
    by (simp add: net_row_def Let_def split: prod.splits)
  then show ?case using snoc a by simp
qed simp

text \<open>A key that has been seen is never shown again.\<close>

lemma net_fold_seen:
  "k \<in> set seen \<Longrightarrow> k \<noteq> [] \<Longrightarrow> k \<notin> set (shown_keys out) \<Longrightarrow>
   k \<notin> set (shown_keys (snd (snd (fold (net_row now prev) rows (live, seen, out)))))"
proof (induction rows arbitrary: live seen out)
  case (Cons r rows)
  obtain live' seen' out' where r: "net_row now prev r (live, seen, out) = (live', seen', out')"
    by (cases "net_row now prev r (live, seen, out)")
  have "k \<in> set seen'" "k \<notin> set (shown_keys out')"
    using r Cons.prems
    by (auto simp: net_row_def shouldSkipInterface_def shown_keys_def iface_key_def Let_def split: if_splits)
  then show ?case using Cons.IH [of seen' out' live'] Cons.prems(2) r by simp
qed simp

text \<open>
  The rows shown have different names, the totals are the sums of what is shown, and the next sample
  compares each interface with this sample's counters, also of rows left out. But a row that is left out
  because it is down has used up its name: an interface that is up and carries traffic is not shown when an
  idle one of the same name is listed before it.
\<close>

theorem interfaces_shown:
  assumes "Network_Collect now (Inr rows) n = (n', m)" "rows \<noteq> []"
  shows "distinct (shown_keys m) \<and>
    net_TotalDownBPS m = sum_list (map if_InBPS (net_Interfaces m)) \<and>
    net_TotalUpBPS m = sum_list (map if_OutBPS (net_Interfaces m)) \<and>
    mget (nc_prev n') k = map_option (net_prev now) (find (\<lambda>r. ir_Index r = k) (rev rows)) \<and>
    (\<not> of_driver (hd rows) \<and> unused (hd rows) \<and> iface_key (hd rows) \<noteq> [] \<longrightarrow> iface_key (hd rows) \<notin> set (shown_keys m))"
proof -
  obtain live seen out where f: "fold (net_row now (nc_prev n)) rows ([], [], no_interfaces) = (live, seen, out)"
    by (cases "fold (net_row now (nc_prev n)) rows ([], [], no_interfaces)")
  have n: "n' = n\<lparr>nc_prev := live\<rparr>" "m = out" using assms f by (simp_all add: Network_Collect_def)
  have "net_ok (live, seen, out)"
    using net_fold_ok [of "([], [], no_interfaces)" now "nc_prev n" rows] f
    by (simp add: net_ok_def no_interfaces_def shown_keys_def)
  moreover have "mget live k = map_option (net_prev now) (find (\<lambda>r. ir_Index r = k) (rev rows))"
    using net_fold_live [of now "nc_prev n" rows "([], [], no_interfaces)" k] f by (simp split: option.splits)
  moreover have "iface_key r \<notin> set (shown_keys out)"
    if "rows = r # rs" "\<not> of_driver r" "unused r" "iface_key r \<noteq> []" for r rs
    using net_fold_seen [of "iface_key r" "[iface_key r]" no_interfaces now "nc_prev n" rs "[(ir_Index r, net_prev now r)]"] f that
    by (simp add: net_row_def shouldSkipInterface_def Let_def no_interfaces_def shown_keys_def)
  ultimately show ?thesis using n assms(2) by (cases rows) (auto simp: net_ok_def)
qed

definition demo_row :: "u32 \<Rightarrow> u32 \<Rightarrow> u64 \<Rightarrow> IfRow2" where
  "demo_row i status octets =
     \<lparr>ir_Index = i, ir_Alias = ''Wi-Fi'', ir_Description = ''Wireless'', ir_OperStatus = status, ir_Type = 71,
      ir_SpeedRx = octets, ir_SpeedTx = octets, ir_InOctets = octets, ir_OutOctets = octets, ir_InUcastPkts = octets,
      ir_OutUcastPkts = octets, ir_InErrors = 0, ir_OutErrors = 0\<rparr>"

text \<open>An adapter that is down, listed first, hides the one that is up.\<close>

theorem interfaces_shown_witness:
  "let (n, m) = Network_Collect 5 (Inr [demo_row 1 2 0, demo_row 2 1 100]) NewNetworkCollector
   in ''wi fi'' \<notin> set (shown_keys m) \<and> mget (nc_prev n) 2 = Some (net_prev 5 (demo_row 2 1 100))"
proof -
  let ?rows = "[demo_row 1 2 0, demo_row 2 1 100]"
  obtain n m where c: "Network_Collect 5 (Inr ?rows) NewNetworkCollector = (n, m)"
    by (cases "Network_Collect 5 (Inr ?rows) NewNetworkCollector")
  have "\<not> of_driver (demo_row 1 2 0)" "unused (demo_row 1 2 0)" "iface_key (demo_row 1 2 0) = ''wi fi''"
    by code_simp+
  moreover have "find (\<lambda>r. ir_Index r = 2) (rev ?rows) = Some (demo_row 2 1 100)" by (simp add: demo_row_def)
  ultimately show ?thesis using interfaces_shown [OF c, of 2] c by simp
qed

end
