(* ===== verification/ProcCollect.thy ===== *)
theory ProcCollect
  imports Sampling NetCollect Safety "HOL-Library.Multiset"
begin

text \<open>
  \<^verbatim>\<open>internal/collector/process.go\<close>: the list of processes, with the load and the transfers of each since
  the last sample. What Windows answers about a process in one sample is an argument of the process' PID; a
  handle is open only while its process is read and is closed on every way out. What is kept
  between samples is, per PID, the counters of the last one.
\<close>

record procPrev =
  pp_kernelTicks :: u64
  pp_userTicks :: u64
  pp_ioReadBytes :: u64
  pp_ioWriteBytes :: u64
  pp_ioReadOps :: u64
  pp_ioWriteOps :: u64
  pp_sampleTime :: gotime

record ProcessCollector =
  pc_prev :: "(pid, procPrev) gomap"
  pc_maxResults :: int
  pc_numLogical :: int

record proc_env =
  pv_now :: gotime
  pv_create :: "goerror option"
  pv_entries :: "PROCESSENTRY32W list"
  pv_utf16 :: "u16 list \<Rightarrow> gostring"
  pv_open :: "pid \<Rightarrow> goerror option"
  pv_memory :: "pid \<Rightarrow> goerror + PROCESS_MEMORY_COUNTERS_EX"
  pv_io :: "pid \<Rightarrow> goerror + IO_COUNTERS"
  pv_times :: "pid \<Rightarrow> goerror + FILETIME \<times> FILETIME \<times> FILETIME \<times> FILETIME"
  pv_image :: "pid \<Rightarrow> goerror + gostring"
  pv_critical :: "pid \<Rightarrow> goerror + bool"
  pv_priority :: "pid \<Rightarrow> goerror + u32"
  pv_sort :: "(ProcessInfo \<Rightarrow> ProcessInfo \<Rightarrow> bool) \<Rightarrow> ProcessInfo list \<Rightarrow> ProcessInfo list"

definition NewProcessCollector :: "int \<Rightarrow> int \<Rightarrow> ProcessCollector" where
  "NewProcessCollector numCPU maxResults =
     \<lparr>pc_prev = [], pc_maxResults = (if maxResults \<le> 0 then 2000 else maxResults), pc_numLogical = numCPU\<rparr>"

definition only_seen :: "gotime \<Rightarrow> procPrev" where
  "only_seen now = \<lparr>pp_kernelTicks = 0, pp_userTicks = 0, pp_ioReadBytes = 0, pp_ioWriteBytes = 0,
     pp_ioReadOps = 0, pp_ioWriteOps = 0, pp_sampleTime = now\<rparr>"

text \<open>\<^verbatim>\<open>filepath.Base\<close> on Windows.\<close>

definition filepath_base :: "gostring \<Rightarrow> gostring" where
  "filepath_base path =
     (if path = [] then ''.''
      else
        (let p = rev (dropWhile is_sep (rev path)); p = drop (volume_len p) p;
             p = rev (takeWhile (\<lambda>c. \<not> is_sep c) (rev p))
         in if p = [] then [CHR 0x5C] else p))"

definition with_memory :: "proc_env \<Rightarrow> ProcessInfo \<Rightarrow> ProcessInfo" where
  "with_memory env info =
     (case pv_memory env (p_PID info) of
        Inl e \<Rightarrow> info
      | Inr m \<Rightarrow> info\<lparr>p_WorkingSet := pm_WorkingSetSize m, p_PrivateBytes := pm_PrivateUsage m, p_PageFaults := pm_PageFaultCount m\<rparr>)"

text \<open>The transfers of the process so far; all zero when they cannot be read.\<close>

definition io_now :: "proc_env \<Rightarrow> pid \<Rightarrow> IO_COUNTERS" where
  "io_now env p =
     (case pv_io env p of
        Inl e \<Rightarrow> zero_io
      | Inr i \<Rightarrow> i)"

definition with_io :: "proc_env \<Rightarrow> procPrev option \<Rightarrow> ProcessInfo \<Rightarrow> ProcessInfo" where
  "with_io env prev info =
     (case (pv_io env (p_PID info), prev) of
        (Inr i, Some p) \<Rightarrow>
          info\<lparr>p_IOReadBytes := saturatingSub (io_ReadTransferCount i) (pp_ioReadBytes p),
               p_IOWriteBytes := saturatingSub (io_WriteTransferCount i) (pp_ioWriteBytes p),
               p_IOReadOps := saturatingSub (io_ReadOperationCount i) (pp_ioReadOps p),
               p_IOWriteOps := saturatingSub (io_WriteOperationCount i) (pp_ioWriteOps p)\<rparr>
      | _ \<Rightarrow> info)"

definition cpu_percent :: "int \<Rightarrow> f64 \<Rightarrow> procPrev \<Rightarrow> u64 \<Rightarrow> u64 \<Rightarrow> f64" where
  "cpu_percent numLogical elapsed p kt ut =
     (let deltaTicks = f64_of_u64 ((kt - pp_kernelTicks p) + (ut - pp_userTicks p));
          cpuSeconds = fdiv deltaTicks (Fin 10000000);
          cpuPercent = fdiv (fmul (fdiv cpuSeconds elapsed) (Fin 100)) (f64_of_int numLogical);
          cpuPercent = (if flt cpuPercent (Fin 0) then Fin 0 else cpuPercent)
      in if flt (Fin 100) cpuPercent then Fin 100 else cpuPercent)"

definition with_times :: "proc_env \<Rightarrow> int \<Rightarrow> procPrev option \<Rightarrow> ProcessInfo \<Rightarrow> ProcessInfo \<times> procPrev" where
  "with_times env numLogical prev info =
     (case pv_times env (p_PID info) of
        Inl e \<Rightarrow> (info, only_seen (pv_now env))
      | Inr (create, _, kern, usr) \<Rightarrow>
          (let info = info\<lparr>p_CreateTime := FileTimeToUnix create\<rparr>; kt = Ticks kern; ut = Ticks usr; io = io_now env (p_PID info);
               info = (case prev of
                         None \<Rightarrow> info
                       | Some p \<Rightarrow>
                           (let elapsed = dur_seconds (t_sub (pv_now env) (pp_sampleTime p)) in
                            if flt (Fin 0) elapsed
                            then info\<lparr>p_CPUPercent := cpu_percent numLogical elapsed p kt ut\<rparr> else info))
           in (info, \<lparr>pp_kernelTicks = kt, pp_userTicks = ut, pp_ioReadBytes = io_ReadTransferCount io,
                      pp_ioWriteBytes = io_WriteTransferCount io, pp_ioReadOps = io_ReadOperationCount io,
                      pp_ioWriteOps = io_WriteOperationCount io, pp_sampleTime = pv_now env\<rparr>)))"

definition with_rest :: "proc_env \<Rightarrow> ProcessInfo \<Rightarrow> ProcessInfo" where
  "with_rest env info =
     (let p = p_PID info;
          info = (case pv_image env p of
                    Inl e \<Rightarrow> info
                  | Inr path \<Rightarrow>
                      (let info = info\<lparr>p_ExePath := path\<rparr>; base = filepath_base path in
                       if base \<noteq> [] \<and> \<not> equal_fold base (p_Name info) then info\<lparr>p_Name := base\<rparr> else info));
          info = (case pv_critical env p of Inr True \<Rightarrow> info\<lparr>p_IsCritical := True\<rparr> | _ \<Rightarrow> info)
      in case pv_priority env p of Inl e \<Rightarrow> info | Inr pri \<Rightarrow> info\<lparr>p_PriorityClass := pri\<rparr>)"

definition collectOne ::
  "proc_env \<Rightarrow> ProcessCollector \<Rightarrow> PROCESSENTRY32W \<Rightarrow> (pid, procPrev) gomap \<Rightarrow> ProcessInfo \<times> (pid, procPrev) gomap" where
  "collectOne env pc entry live =
     (let p = pe_ProcessID entry;
          info = zero_proc\<lparr>p_PID := p, p_ParentPID := pe_ParentProcessID entry,
                   p_Name := pv_utf16 env (pe_ExeFile entry), p_ThreadCount := pe_Threads entry, p_Status := ''running''\<rparr>
      in if p = 0 \<or> p = 4 then (info\<lparr>p_IsCritical := True\<rparr>, mput p (only_seen (pv_now env)) live)
         else
           (case pv_open env p of
              Some e \<Rightarrow> (info, mput p (only_seen (pv_now env)) live)
            | None \<Rightarrow>
                (let prev = mget (pc_prev pc) p;
                     info = with_io env prev (with_memory env info);
                     (info, now) = with_times env (pc_numLogical pc) prev info
                 in (with_rest env info, mput p now live))))"

definition heavier :: "ProcessInfo \<Rightarrow> ProcessInfo \<Rightarrow> bool" where
  "heavier a b \<longleftrightarrow> p_WorkingSet b < p_WorkingSet a"

definition trimByWorkingSet :: "proc_env \<Rightarrow> ProcessInfo list \<Rightarrow> int \<Rightarrow> ProcessInfo list" where
  "trimByWorkingSet env xs n = (if int (length xs) \<le> n then xs else take (nat n) (pv_sort env heavier xs))"

fun collect_all ::
  "proc_env \<Rightarrow> ProcessCollector \<Rightarrow> PROCESSENTRY32W list \<Rightarrow> (pid, procPrev) gomap \<Rightarrow> ProcessInfo list \<times> (pid, procPrev) gomap" where
  "collect_all env pc [] live = ([], live)"
| "collect_all env pc (e # es) live =
     (let (info, live) = collectOne env pc e live; (infos, live) = collect_all env pc es live in (info # infos, live))"

definition Process_Collect :: "proc_env \<Rightarrow> ProcessCollector \<Rightarrow> ProcessCollector \<times> ProcessInfo list" where
  "Process_Collect env pc =
     (if pv_create env \<noteq> None \<or> pv_entries env = [] then (pc, [])
      else
        (let (results, live) = collect_all env pc (pv_entries env) [];
             pc = pc\<lparr>pc_prev := live\<rparr>
         in (pc, if pc_maxResults pc < int (length results) then trimByWorkingSet env results (pc_maxResults pc) else results)))"

section \<open>Bounds\<close>

lemma with_frame [simp]:
  "p_PID (with_memory env info) = p_PID info" "p_CPUPercent (with_memory env info) = p_CPUPercent info"
  "p_PID (with_io env prev info) = p_PID info" "p_CPUPercent (with_io env prev info) = p_CPUPercent info"
  "p_PID (fst (with_times env n prev info)) = p_PID info"
  "p_PID (with_rest env info) = p_PID info" "p_CPUPercent (with_rest env info) = p_CPUPercent info"
  by (auto simp: with_memory_def with_io_def with_times_def with_rest_def Let_def split: sum.splits option.splits bool.splits)

lemma cpu_percent_pct:
  assumes "0 < n" "is_i64 n" "elapsed = Fin r" "0 < r"
  shows "is_pct (cpu_percent n elapsed p kt ut)"
proof -
  define ticks where "ticks = (kt - pp_kernelTicks p) + (ut - pp_userTicks p)"
  have "\<bar>uint ticks\<bar> \<le> 18446744073709551616" using uint_lt2p [of ticks] uint_ge_0 [of ticks] by (simp del: uint_ge_0)
  then have "\<bar>of_int (uint ticks) :: rat\<bar> \<le> of_int 18446744073709551616" unfolding of_int_abs [symmetric] of_int_le_iff .
  then have "\<bar>of_int (uint ticks) :: rat\<bar> \<le> 18446744073709551616" by simp
  then obtain a where a: "f64_of_u64 ticks = Fin a" "\<bar>a\<bar> \<le> 2 * 18446744073709551616"
    using rnd_finite [of "of_int (uint ticks)"] unfolding f64_of_u64_def by fastforce
  then obtain b where b: "fdiv (f64_of_u64 ticks) (Fin 10000000) = Fin b"
    using rnd_finite [of "a / 10000000"] by fastforce
  have "\<bar>n\<bar> \<le> 18446744073709551616" using assms(1,2) by (simp add: is_i64_def i64_max_def)
  then have "\<bar>of_int n :: rat\<bar> \<le> of_int 18446744073709551616" unfolding of_int_abs [symmetric] of_int_le_iff .
  then obtain m where m: "f64_of_int n = Fin m" "m \<noteq> 0"
    using rnd_finite [of "of_int n"] rnd_pos_int [OF assms(1)] unfolding f64_of_int_def by fastforce
  let ?s = "fdiv (Fin b) elapsed"
  have "?s \<noteq> NaN" using assms(3,4) by simp
  then have "fmul ?s (Fin 100) \<noteq> NaN" by (cases ?s) (simp_all add: sgn_inf_def)
  then have "fdiv (fmul ?s (Fin 100)) (Fin m) \<noteq> NaN" using m(2) by (cases "fmul ?s (Fin 100)") (simp_all split: if_splits)
  then show ?thesis using b m(1) unfolding cpu_percent_def Let_def ticks_def [symmetric]
    by (cases "fdiv (fmul ?s (Fin 100)) (Fin m)") (auto simp: is_pct_Fin)
qed

lemma collectOne_pct:
  assumes "0 < pc_numLogical pc" "is_i64 (pc_numLogical pc)"
  shows "is_pct (p_CPUPercent (fst (collectOne env pc entry live)))"
proof -
  have t: "is_pct (p_CPUPercent (fst (with_times env (pc_numLogical pc) prev info)))" if "is_pct (p_CPUPercent info)" for prev info
  proof (cases prev)
    case (Some p)
    obtain r where "dur_seconds (t_sub (pv_now env) (pp_sampleTime p)) = Fin r" using seconds_finite by blast
    then show ?thesis using that Some cpu_percent_pct [OF assms]
      by (auto simp: with_times_def Let_def split: sum.splits)
  qed (use that in \<open>auto simp: with_times_def Let_def split: sum.splits\<close>)
  show ?thesis
    by (auto simp: collectOne_def Let_def zero_proc_def split: option.splits prod.splits)
      (metis (no_types, lifting) fst_conv is_pct_0 t with_frame(2,4) ProcessInfo.select_convs(5) ProcessInfo.update_convs)
qed

lemma collectOne_live:
  "collectOne env pc e live =
     (fst (collectOne env pc e []), mput (pe_ProcessID e) (snd (hd (snd (collectOne env pc e [])))) live)"
  by (auto simp: collectOne_def Let_def split: option.splits prod.splits)

lemma collectOne_PID [simp]: "p_PID (fst (collectOne env pc e live)) = pe_ProcessID e"
  by (auto simp: collectOne_def Let_def zero_proc_def split: if_splits option.splits prod.splits)
    (metis fst_conv with_frame(1,3,5) ProcessInfo.select_convs(1) ProcessInfo.update_convs)+

lemma collect_all_eq:
  "collect_all env pc es live =
     (map (\<lambda>e. fst (collectOne env pc e [])) es,
      fold (\<lambda>e. mput (pe_ProcessID e) (snd (hd (snd (collectOne env pc e []))))) es live)"
proof (induction es arbitrary: live)
  case (Cons e es)
  show ?case using collectOne_live [of env pc e live] by (simp add: Cons.IH)
qed simp

lemma collect_all_keys: "fst ` set (fold (\<lambda>e. mput (key e) (val e)) es live) = fst ` set live \<union> key ` set es"
  by (induction es arbitrary: live) auto

lemma collect_all_get:
  "e \<in> set es \<Longrightarrow> distinct (map key es) \<Longrightarrow> mget (fold (\<lambda>e. mput (key e) (val e)) es live) (key e) = Some (val e)"
proof (induction es rule: rev_induct)
  case (snoc x es)
  then show ?case by (cases "e = x") (auto, metis imageI)
qed simp

abbreviation infos_of :: "proc_env \<Rightarrow> ProcessCollector \<Rightarrow> ProcessInfo list" where
  "infos_of env pc \<equiv> map (\<lambda>e. fst (collectOne env pc e [])) (pv_entries env)"

abbreviation counters_of :: "proc_env \<Rightarrow> ProcessCollector \<Rightarrow> PROCESSENTRY32W \<Rightarrow> procPrev" where
  "counters_of env pc e \<equiv> snd (hd (snd (collectOne env pc e [])))"

lemma Process_Collect_eq:
  assumes "pv_create env = None" "pv_entries env \<noteq> []"
  shows "Process_Collect env pc =
    (pc\<lparr>pc_prev := fold (\<lambda>e. mput (pe_ProcessID e) (counters_of env pc e)) (pv_entries env) []\<rparr>,
     if pc_maxResults pc < int (length (infos_of env pc)) then take (nat (pc_maxResults pc)) (pv_sort env heavier (infos_of env pc))
     else infos_of env pc)"
  using assms by (simp add: Process_Collect_def collect_all_eq trimByWorkingSet_def Let_def)

lemma Process_Collect_parts:
  assumes "Process_Collect env pc = (pc', ps)" "pv_create env = None" "pv_entries env \<noteq> []"
  shows "pc' = pc\<lparr>pc_prev := fold (\<lambda>e. mput (pe_ProcessID e) (counters_of env pc e)) (pv_entries env) []\<rparr>"
    and "ps = (if pc_maxResults pc < int (length (infos_of env pc)) then take (nat (pc_maxResults pc)) (pv_sort env heavier (infos_of env pc))
         else infos_of env pc)"
  using assms(1) unfolding Process_Collect_eq [OF assms(2,3)] prod.inject by - (elim conjE, erule sym)+

section \<open>What a sample holds\<close>

definition sorts :: "proc_env \<Rightarrow> bool" where
  "sorts env \<longleftrightarrow> (\<forall>xs. mset (pv_sort env heavier xs) = mset xs \<and> sorted_wrt (\<lambda>a b. \<not> heavier b a) (pv_sort env heavier xs))"

lemma trim_spec:
  assumes "mset s = mset xs" "sorted_wrt (\<lambda>a b. \<not> heavier b a) s" "0 < n"
  defines "ps \<equiv> (if n < int (length xs) then take (nat n) s else xs)"
  shows "\<exists>cut. mset (ps @ cut) = mset xs \<and> (\<forall>p\<in>set ps. \<forall>q\<in>set cut. p_WorkingSet q \<le> p_WorkingSet p) \<and>
      (cut \<noteq> [] \<longrightarrow> int (length ps) = n)"
proof (cases "n < int (length xs)")
  case True
  have "\<not> heavier q p" if "p \<in> set (take (nat n) s)" "q \<in> set (drop (nat n) s)" for p q
    using assms(2) that sorted_wrt_append [of "\<lambda>a b. \<not> heavier b a" "take (nat n) s" "drop (nat n) s"]
    unfolding append_take_drop_id by blast
  then have "\<forall>p\<in>set ps. \<forall>q\<in>set (drop (nat n) s). p_WorkingSet q \<le> p_WorkingSet p"
    using True by (auto simp: ps_def heavier_def not_less)
  moreover have "length s = length xs" using assms(1) by (metis size_mset)
  moreover have "mset (ps @ drop (nat n) s) = mset xs" using True assms(1) by (simp only: ps_def if_True append_take_drop_id)
  ultimately show ?thesis using True assms(3) by (intro exI [of _ "drop (nat n) s"]) (simp add: ps_def)
qed (simp add: ps_def)

text \<open>
  C20. A sample lists no more processes than the limit: all that Windows lists, or the heaviest of them. The load of
  each is a percentage. The next sample finds the counters of exactly the processes listed now, also of those
  the limit cut off.
\<close>

theorem process_list:
  assumes c: "Process_Collect env pc = (pc', ps)" and "pv_create env = None" "pv_entries env \<noteq> []" and srt: "sorts env"
    and n: "0 < pc_numLogical pc" "is_i64 (pc_numLogical pc)" "0 < pc_maxResults pc"
  shows "int (length ps) \<le> pc_maxResults pc \<and>
    (\<exists>cut. mset (map p_PID (ps @ cut)) = mset (map pe_ProcessID (pv_entries env)) \<and>
      (\<forall>p\<in>set ps. \<forall>q\<in>set cut. p_WorkingSet q \<le> p_WorkingSet p) \<and>
      (cut \<noteq> [] \<longrightarrow> int (length ps) = pc_maxResults pc)) \<and>
    (\<forall>p\<in>set ps. is_pct (p_CPUPercent p)) \<and>
    fst ` set (pc_prev pc') = pe_ProcessID ` set (pv_entries env)"
proof -
  let ?all = "map (\<lambda>e. fst (collectOne env pc e [])) (pv_entries env)"
  let ?s = "pv_sort env heavier ?all" and ?n = "nat (pc_maxResults pc)"
  note pc_eq = Process_Collect_parts(1) [OF c assms(2,3)] and ps = Process_Collect_parts(2) [OF c assms(2,3)]
  have pc': "fst ` set (pc_prev pc') = pe_ProcessID ` set (pv_entries env)"
    unfolding pc_eq by (simp add: collect_all_keys)
  have s: "mset ?s = mset ?all" "sorted_wrt (\<lambda>a b. \<not> heavier b a) ?s" using srt by (simp_all add: sorts_def)
  have pids: "mset (map p_PID ?all) = mset (map pe_ProcessID (pv_entries env))" by (simp add: comp_def)
  have pct: "\<forall>p\<in>set ?all. is_pct (p_CPUPercent p)" using collectOne_pct [OF n(1,2)] by auto
  have "\<exists>cut. mset (ps @ cut) = mset ?all \<and> (\<forall>p\<in>set ps. \<forall>q\<in>set cut. p_WorkingSet q \<le> p_WorkingSet p) \<and>
      (cut \<noteq> [] \<longrightarrow> int (length ps) = pc_maxResults pc)"
    unfolding ps by (rule trim_spec [OF s n(3)])
  then obtain cut where cut: "mset (ps @ cut) = mset ?all" "\<forall>p\<in>set ps. \<forall>q\<in>set cut. p_WorkingSet q \<le> p_WorkingSet p"
    "cut \<noteq> [] \<longrightarrow> int (length ps) = pc_maxResults pc" by blast
  have "mset (map p_PID (ps @ cut)) = mset (map pe_ProcessID (pv_entries env))"
    using cut(1) pids by (metis mset_map)
  moreover have "\<forall>p\<in>set ps. is_pct (p_CPUPercent p)"
    using pct mset_eq_setD [OF cut(1)] unfolding set_append by blast
  moreover have "int (length ps) \<le> pc_maxResults pc" using ps n(3) by auto
  ultimately show ?thesis using cut(2,3) pc' by blast
qed

lemma with_io_frame [simp]:
  "p_IOReadBytes (fst (with_times env n pr info)) = p_IOReadBytes info"
  "p_IOWriteBytes (fst (with_times env n pr info)) = p_IOWriteBytes info"
  "p_IOReadBytes (with_rest env info) = p_IOReadBytes info"
  "p_IOWriteBytes (with_rest env info) = p_IOWriteBytes info"
  by (auto simp: with_times_def with_rest_def Let_def split: sum.splits option.splits bool.splits)

lemma collectOne_read:
  assumes "pv_open env (pe_ProcessID e) = None" "pv_io env (pe_ProcessID e) = Inr i" "pe_ProcessID e \<noteq> 0"
    "pe_ProcessID e \<noteq> 4" "mget (pc_prev pc) (pe_ProcessID e) = Some v"
  shows "p_IOReadBytes (fst (collectOne env pc e live)) = saturatingSub (io_ReadTransferCount i) (pp_ioReadBytes v) \<and>
         p_IOWriteBytes (fst (collectOne env pc e live)) = saturatingSub (io_WriteTransferCount i) (pp_ioWriteBytes v)"
proof -
  define info where "info = zero_proc\<lparr>p_PID := pe_ProcessID e, p_ParentPID := pe_ParentProcessID e,
    p_Name := pv_utf16 env (pe_ExeFile e), p_ThreadCount := pe_Threads e, p_Status := ''running''\<rparr>"
  have pid: "p_PID info = pe_ProcessID e" by (simp add: info_def)
  have "fst (collectOne env pc e live) =
      with_rest env (fst (with_times env (pc_numLogical pc) (Some v) (with_io env (Some v) (with_memory env info))))"
    using assms(1,3-5) by (simp add: collectOne_def info_def Let_def split: prod.splits)
  then show ?thesis using assms(2) pid by (simp add: with_io_def)
qed

text \<open>
  When one sample cannot read a process (it cannot be opened, or its times or its transfers cannot be read), the
  next sample that can shows everything the process ever transferred as transferred since then.
\<close>

theorem unread_sample_counts_lifetime:
  assumes c: "Process_Collect env0 pc0 = (pc1, ps0)" "Process_Collect env1 pc1 = (pc2, ps1)"
    and e0: "pv_create env0 = None" "e \<in> set (pv_entries env0)" "distinct (map pe_ProcessID (pv_entries env0))"
    and p: "pe_ProcessID e = p" "p \<noteq> 0" "p \<noteq> 4"
    and unread: "pv_open env0 p \<noteq> None \<or> isl (pv_times env0 p) \<or> isl (pv_io env0 p)"
    and e1: "pv_create env1 = None" "pv_open env1 p = None" "pv_io env1 p = Inr i" "sorts env1"
    and q: "q \<in> set ps1" "p_PID q = p"
  shows "p_IOReadBytes q = io_ReadTransferCount i \<and> p_IOWriteBytes q = io_WriteTransferCount i"
proof -
  let ?v = "snd (hd (snd (collectOne env0 pc0 e [])))"
  have "pc_prev pc1 = fold (\<lambda>e. mput (pe_ProcessID e) (snd (hd (snd (collectOne env0 pc0 e []))))) (pv_entries env0) []"
  proof -
    have "pv_entries env0 \<noteq> []" using e0(2) by auto
    then show ?thesis using c(1) by (auto simp: Process_Collect_eq e0(1))
  qed
  then have prev: "mget (pc_prev pc1) p = Some ?v"
    using collect_all_get [of e "pv_entries env0" pe_ProcessID "\<lambda>e. snd (hd (snd (collectOne env0 pc0 e [])))" "[]"] e0(2,3) p(1)
    by simp
  have zero: "pp_ioReadBytes ?v = 0" "pp_ioWriteBytes ?v = 0"
    using unread p
    by (auto simp: collectOne_def only_seen_def with_times_def io_now_def Let_def zero_proc_def
        split: option.splits sum.splits prod.splits)
  have "q \<in> set (infos_of env1 pc1)"
  proof -
    have ne: "pv_entries env1 \<noteq> []" using c(2) q(1) by (auto simp: Process_Collect_def)
    have "set (if n < int (length xs) then take (nat n) (pv_sort env1 heavier xs) else xs) \<subseteq> set xs" for n xs
    proof -
      have "set (pv_sort env1 heavier xs) = set xs" using e1(4) unfolding sorts_def by (metis mset_eq_setD)
      then show ?thesis using set_take_subset [of "nat n" "pv_sort env1 heavier xs"] by simp
    qed
    then show ?thesis using q(1) unfolding Process_Collect_parts(2) [OF c(2) e1(1) ne] by (rule subsetD)
  qed
  then obtain e' where e'': "q = fst (collectOne env1 pc1 e' [])" unfolding set_map by (elim imageE)
  have e': "q = fst (collectOne env1 pc1 e' [])" "pe_ProcessID e' = p" using e'' q(2) by (simp_all only: collectOne_PID)
  have sub0: "saturatingSub x 0 = x" for x by (simp add: saturatingSub_def)
  have "pv_open env1 (pe_ProcessID e') = None" "pv_io env1 (pe_ProcessID e') = Inr i" "pe_ProcessID e' \<noteq> 0"
    "pe_ProcessID e' \<noteq> 4" "mget (pc_prev pc1) (pe_ProcessID e') = Some ?v"
    unfolding e'(2) by (fact e1 p prev)+
  from collectOne_read [OF this, of "[]"] show ?thesis unfolding e'(1) zero sub0 .
qed

section \<open>Two samples\<close>

definition demo_entry :: "pid \<Rightarrow> PROCESSENTRY32W" where
  "demo_entry p =
     \<lparr>pe_Size = 568, pe_Usage = 0, pe_ProcessID = p, pe_DefaultHeapID = 0, pe_ModuleID = 0, pe_Threads = 3, pe_ParentProcessID = 4,
      pe_PriClassBase = 8, pe_Flags = 0, pe_ExeFile = [97, 0]\<rparr>"

definition demo_penv :: "gotime \<Rightarrow> goerror option \<Rightarrow> pid list \<Rightarrow> proc_env" where
  "demo_penv now refused pids =
     \<lparr>pv_now = now, pv_create = None, pv_entries = map demo_entry pids, pv_utf16 = (\<lambda>_. ''a.exe''), pv_open = (\<lambda>_. refused),
      pv_memory = (\<lambda>p. Inr (zero_memory_counters\<lparr>pm_PageFaultCount := 1, pm_WorkingSetSize := ucast p, pm_PrivateUsage := 7\<rparr>)),
      pv_io = (\<lambda>_. Inr (zero_io\<lparr>io_ReadOperationCount := 1, io_WriteOperationCount := 2, io_ReadTransferCount := 5000, io_WriteTransferCount := 6000\<rparr>)),
      pv_times = (\<lambda>_. Inl (ErrSys ''access denied'')), pv_image = (\<lambda>_. Inl (ErrSys ''access denied'')),
      pv_critical = (\<lambda>_. Inr False), pv_priority = (\<lambda>_. Inr 32), pv_sort = (\<lambda>_. sort_key (\<lambda>p. - uint (p_WorkingSet p)))\<rparr>"

lemma demo_penv_sorts: "sorts (demo_penv now refused pids)"
proof -
  have "sorted_wrt (\<lambda>a b. \<not> heavier b a) (sort_key (\<lambda>p. - uint (p_WorkingSet p)) xs)" for xs :: "ProcessInfo list"
  proof -
    have "sorted (map (\<lambda>p. - uint (p_WorkingSet p)) (sort_key (\<lambda>p. - uint (p_WorkingSet p)) xs))" by (rule sorted_sort_key)
    then show ?thesis unfolding sorted_map by (rule sorted_wrt_mono_rel [rotated]) (simp add: heavier_def word_less_def)
  qed
  then show ?thesis by (simp add: sorts_def demo_penv_def)
qed

theorem process_list_witness:
  "let (pc, ps) = Process_Collect (demo_penv 9 None [10, 11]) (NewProcessCollector 8 1) in
   int (length ps) \<le> 1 \<and> fst ` set (pc_prev pc) = {10, 11}"
proof -
  obtain pc ps where c: "Process_Collect (demo_penv 9 None [10, 11]) (NewProcessCollector 8 1) = (pc, ps)"
    by (cases "Process_Collect (demo_penv 9 None [10, 11]) (NewProcessCollector 8 1)")
  have "pv_create (demo_penv 9 None [10, 11]) = None" "pv_entries (demo_penv 9 None [10, 11]) \<noteq> []"
    "0 < pc_numLogical (NewProcessCollector 8 1)" "is_i64 (pc_numLogical (NewProcessCollector 8 1))"
    "0 < pc_maxResults (NewProcessCollector 8 1)"
    by (simp_all add: demo_penv_def NewProcessCollector_def is_i64_def i64_min_def i64_max_def)
  from process_list [OF c this(1,2) demo_penv_sorts this(3-5)] show ?thesis
    using c by (simp add: NewProcessCollector_def demo_penv_def demo_entry_def)
qed

theorem unread_sample_counts_lifetime_witness:
  "let pc1 = fst (Process_Collect (demo_penv 9 (Some (ErrSys ''access denied'')) [10]) (NewProcessCollector 8 5));
       ps = snd (Process_Collect (demo_penv 20 None [10]) pc1)
   in ps \<noteq> [] \<and> p_IOReadBytes (hd ps) = 5000"
proof -
  let ?env0 = "demo_penv 9 (Some (ErrSys ''access denied'')) [10]" and ?env1 = "demo_penv 20 None [10]"
  obtain pc1 ps0 where c0: "Process_Collect ?env0 (NewProcessCollector 8 5) = (pc1, ps0)"
    by (cases "Process_Collect ?env0 (NewProcessCollector 8 5)")
  obtain pc2 ps1 where c1: "Process_Collect ?env1 pc1 = (pc2, ps1)" by (cases "Process_Collect ?env1 pc1")
  have env: "pv_create ?env0 = None" "demo_entry 10 \<in> set (pv_entries ?env0)" "distinct (map pe_ProcessID (pv_entries ?env0))"
    "pe_ProcessID (demo_entry 10) = 10" "pv_open ?env0 10 \<noteq> None" "pv_create ?env1 = None" "pv_open ?env1 10 = None"
    "pv_entries ?env0 \<noteq> []" "pv_entries ?env1 = [demo_entry 10]"
    by (simp_all add: demo_penv_def demo_entry_def)
  have io: "pv_io ?env1 10 = Inr (zero_io\<lparr>io_ReadOperationCount := 1, io_WriteOperationCount := 2, io_ReadTransferCount := 5000, io_WriteTransferCount := 6000\<rparr>)"
    by (simp add: demo_penv_def)
  have "pc_maxResults pc1 = 5" using Process_Collect_parts(1) [OF c0 env(1,8)] by (simp add: NewProcessCollector_def)
  then have ps: "ps1 = [fst (collectOne ?env1 pc1 (demo_entry 10) [])]"
    using Process_Collect_parts(2) [OF c1 env(6)] env(9) by simp
  then have "hd ps1 \<in> set ps1" "p_PID (hd ps1) = 10" by (simp_all add: demo_entry_def)
  moreover have "(10 :: pid) \<noteq> 0" "(10 :: pid) \<noteq> 4" by simp_all
  ultimately have "p_IOReadBytes (hd ps1) = 5000"
    using unread_sample_counts_lifetime [OF c0 c1 env(1-4) _ _ _ env(6,7) io demo_penv_sorts, of "hd ps1"] env(5) by simp
  then show ?thesis using c0 c1 ps by simp
qed

end
