(* ===== verification/PortCollect.thy ===== *)
theory PortCollect
  imports Metrics WinTypes
begin

text \<open>
  \<^verbatim>\<open>internal/collector/ports.go\<close>: the table of TCP and UDP endpoints, with the time each has been there. The
  four tables of Windows are arguments; what is kept between scans is, per endpoint, the second of
  the scan it was first seen in.
\<close>

unbundle bit_operations_syntax

section \<open>Addresses and states\<close>

definition portFromMib :: "u32 \<Rightarrow> u16" where
  "portFromMib p = ucast (push_bit 8 (p AND 0xFF) OR (drop_bit 8 p AND 0xFF))"

definition ipv4String :: "u32 \<Rightarrow> gostring" where
  "ipv4String addr = sprintf ''%d.%d.%d.%d''
     [FInt (uint (addr AND 0xFF)), FInt (uint (drop_bit 8 addr AND 0xFF)), FInt (uint (drop_bit 16 addr AND 0xFF)),
      FInt (uint (drop_bit 24 addr AND 0xFF))]"

text \<open>
  \<^verbatim>\<open>net.IP.String\<close> of sixteen bytes: an IPv4 address in disguise in its own form, otherwise groups in
  hexadecimal, the first longest run of at least two zero groups left out.
\<close>

fun groups_of :: "gostring \<Rightarrow> nat list" where
  "groups_of (a # b # s) = (256 * byte_val a + byte_val b) # groups_of s"
| "groups_of _ = []"

definition zero_run :: "nat list \<Rightarrow> nat \<times> nat" where
  "zero_run gs =
     fold (\<lambda>i (start, len).
             let l = length (takeWhile (\<lambda>g. g = 0) (drop i gs)) in if 2 \<le> l \<and> len < l then (i, l) else (start, len))
       [0..<length gs] (0, 0)"

definition hex_groups :: "nat list \<Rightarrow> gostring" where
  "hex_groups gs = str_join '':'' (map (\<lambda>g. sprintf ''%x'' [FInt (int g)]) gs)"

definition ipv6String :: "gostring \<Rightarrow> gostring" where
  "ipv6String addr =
     (if take 10 addr = replicate 10 (char_of (0 :: nat)) \<and> take 2 (drop 10 addr) = [CHR 0xFF, CHR 0xFF]
      then str_join ''.'' (map (\<lambda>c. nat_str (byte_val c)) (drop 12 addr))
      else
        (let gs = groups_of addr; (start, len) = zero_run gs in
         if len = 0 then hex_groups gs else hex_groups (take start gs) @ ''::'' @ hex_groups (drop (start + len) gs)))"

definition tcpStateName :: "u32 \<Rightarrow> gostring" where
  "tcpStateName s =
     (if 1 \<le> s \<and> s \<le> 12
      then [''closed'', ''listen'', ''syn-sent'', ''syn-rcvd'', ''established'', ''fin-wait-1'', ''fin-wait-2'', ''close-wait'',
            ''closing'', ''last-ack'', ''time-wait'', ''delete-tcb''] ! (unat s - 1)
      else ''unknown'')"

section \<open>Scanning\<close>

record PortCollector =
  po_since :: "(gostring, int) gomap"
  po_wellKnownPorts :: "(u16, gostring) gomap"

record port_env =
  pe_now :: int
  pe_tcp4 :: "goerror + MIB_TCPROW_OWNER_PID list"
  pe_tcp6 :: "goerror + MIB_TCP6ROW_OWNER_PID list"
  pe_udp4 :: "goerror + MIB_UDPROW_OWNER_PID list"
  pe_udp6 :: "goerror + MIB_UDP6ROW_OWNER_PID list"

definition NewPortCollector :: "(u16, gostring) gomap \<Rightarrow> PortCollector" where
  "NewPortCollector wellKnown = \<lparr>po_since = [], po_wellKnownPorts = wellKnown\<rparr>"

definition SetWellKnown :: "(u16, gostring) gomap \<Rightarrow> PortCollector \<Rightarrow> PortCollector" where
  "SetWellKnown m pc = pc\<lparr>po_wellKnownPorts := m\<rparr>"

definition binding :: "gostring \<Rightarrow> gostring \<Rightarrow> u32 \<Rightarrow> gostring \<Rightarrow> u16 \<Rightarrow> gostring \<Rightarrow> u32 \<Rightarrow> pid \<Rightarrow> PortBinding" where
  "binding proto laddr lport raddr rport state code p =
     \<lparr>pb_Protocol = proto, pb_LocalAddr = laddr, pb_LocalPort = portFromMib lport, pb_RemoteAddr = raddr, pb_RemotePort = rport,
      pb_State = state, pb_StateCode = code, pb_PID = p, pb_Process = [], pb_Label = [], pb_Since = 0\<rparr>"

definition tcp4_binding :: "MIB_TCPROW_OWNER_PID \<Rightarrow> PortBinding" where
  "tcp4_binding r = binding ''tcp'' (ipv4String (tr_LocalAddr r)) (tr_LocalPort r) (ipv4String (tr_RemoteAddr r))
     (portFromMib (tr_RemotePort r)) (tcpStateName (tr_State r)) (tr_State r) (tr_OwningPid r)"

definition tcp6_binding :: "MIB_TCP6ROW_OWNER_PID \<Rightarrow> PortBinding" where
  "tcp6_binding r = binding ''tcp6'' (ipv6String (t6_LocalAddr r)) (t6_LocalPort r) (ipv6String (t6_RemoteAddr r))
     (portFromMib (t6_RemotePort r)) (tcpStateName (t6_State r)) (t6_State r) (t6_OwningPid r)"

definition udp4_binding :: "MIB_UDPROW_OWNER_PID \<Rightarrow> PortBinding" where
  "udp4_binding r = binding ''udp'' (ipv4String (ur_LocalAddr r)) (ur_LocalPort r) [] 0 ''listen'' 0 (ur_OwningPid r)"

definition udp6_binding :: "MIB_UDP6ROW_OWNER_PID \<Rightarrow> PortBinding" where
  "udp6_binding r = binding ''udp6'' (ipv6String (u6_LocalAddr r)) (u6_LocalPort r) [] 0 ''listen'' 0 (u6_OwningPid r)"

definition table_rows :: "('r \<Rightarrow> PortBinding) \<Rightarrow> goerror + 'r list \<Rightarrow> PortBinding list" where
  "table_rows f table = (case table of Inl e \<Rightarrow> [] | Inr rows \<Rightarrow> map f rows)"

definition port_rows :: "port_env \<Rightarrow> PortBinding list" where
  "port_rows env =
     table_rows tcp4_binding (pe_tcp4 env) @ table_rows tcp6_binding (pe_tcp6 env) @
     table_rows udp4_binding (pe_udp4 env) @ table_rows udp6_binding (pe_udp6 env)"

definition port_key :: "PortBinding \<Rightarrow> gostring" where
  "port_key pb = sprintf ''%d|%s|%s:%d|%s:%d|%s''
     [FInt (uint (pb_PID pb)), FStr (pb_Protocol pb), FStr (pb_LocalAddr pb), FInt (uint (pb_LocalPort pb)),
      FStr (pb_RemoteAddr pb), FInt (uint (pb_RemotePort pb)), FStr (pb_State pb)]"

definition finalize ::
  "(pid \<Rightarrow> gostring) option \<Rightarrow> int \<Rightarrow> PortBinding \<Rightarrow> PortCollector \<times> gostring list \<Rightarrow> (PortCollector \<times> gostring list) \<times> PortBinding" where
  "finalize resolveName now pb st =
     (let (pc, seen) = st;
          pb = (case resolveName of None \<Rightarrow> pb | Some f \<Rightarrow> pb\<lparr>pb_Process := f (pb_PID pb)\<rparr>);
          pb = (case mget (po_wellKnownPorts pc) (pb_LocalPort pb) of None \<Rightarrow> pb | Some l \<Rightarrow> pb\<lparr>pb_Label := l\<rparr>);
          key = port_key pb
      in case mget (po_since pc) key of
           Some first \<Rightarrow> ((pc, key # seen), pb\<lparr>pb_Since := first\<rparr>)
         | None \<Rightarrow> ((pc\<lparr>po_since := mput key now (po_since pc)\<rparr>, key # seen), pb\<lparr>pb_Since := now\<rparr>))"

fun finalize_all ::
  "(pid \<Rightarrow> gostring) option \<Rightarrow> int \<Rightarrow> PortBinding list \<Rightarrow> PortCollector \<times> gostring list \<Rightarrow> (PortCollector \<times> gostring list) \<times> PortBinding list" where
  "finalize_all resolveName now [] st = (st, [])"
| "finalize_all resolveName now (pb # pbs) st =
     (let (st, pb) = finalize resolveName now pb st; (st, pbs) = finalize_all resolveName now pbs st in (st, pb # pbs))"

definition Ports_Collect :: "(pid \<Rightarrow> gostring) option \<Rightarrow> port_env \<Rightarrow> PortCollector \<Rightarrow> PortCollector \<times> PortBinding list" where
  "Ports_Collect resolveName env pc =
     (let ((pc, seen), results) = finalize_all resolveName (pe_now env) (port_rows env) (pc, [])
      in (pc\<lparr>po_since := mfilter (\<lambda>k t. k \<in> set seen) (po_since pc)\<rparr>, results))"

section \<open>How long an endpoint has been there\<close>

text \<open>
  The history of scans, the last first: the time of each and the endpoints it saw. An endpoint has been
  there since the first scan of the unbroken run that ends now.
\<close>

type_synonym scans = "(int \<times> gostring set) list"

fun first_seen :: "scans \<Rightarrow> gostring \<Rightarrow> int option" where
  "first_seen [] k = None"
| "first_seen ((t, ks) # older) k =
     (if k \<in> ks then Some (case first_seen older k of None \<Rightarrow> t | Some t0 \<Rightarrow> t0) else None)"

definition scan_of :: "port_env \<Rightarrow> int \<times> gostring set" where
  "scan_of env = (pe_now env, port_key ` set (port_rows env))"

lemma finalize_facts:
  assumes "finalize f now pb (pc, seen) = ((pc', seen'), pb')" "wf_map (po_since pc)"
  shows "port_key pb' = port_key pb" "seen' = port_key pb # seen" "wf_map (po_since pc')"
    "mget (po_since pc') k = (if k = port_key pb \<and> mget (po_since pc) k = None then Some now else mget (po_since pc) k)"
    "Some (pb_Since pb') = mget (po_since pc') (port_key pb)"
    "po_wellKnownPorts pc' = po_wellKnownPorts pc"
  using assms by (auto simp: finalize_def port_key_def Let_def split: option.splits)

lemma finalize_all_facts:
  assumes "finalize_all f now pbs (pc, seen) = ((pc', seen'), pbs')" "wf_map (po_since pc)"
  shows "map port_key pbs' = map port_key pbs \<and> set seen' = set seen \<union> port_key ` set pbs \<and> wf_map (po_since pc') \<and>
    (\<forall>k. mget (po_since pc') k = (if k \<in> port_key ` set pbs \<and> mget (po_since pc) k = None then Some now else mget (po_since pc) k)) \<and>
    (\<forall>pb\<in>set pbs'. Some (pb_Since pb) = mget (po_since pc') (port_key pb))"
  using assms
proof (induction pbs arbitrary: pc seen pbs')
  case (Cons pb pbs)
  obtain pc1 seen1 pb1 where f: "finalize f now pb (pc, seen) = ((pc1, seen1), pb1)"
    by (metis prod.collapse)
  obtain pbs1 where g: "finalize_all f now pbs (pc1, seen1) = ((pc', seen'), pbs1)" "pbs' = pb1 # pbs1"
    using Cons.prems(1) f by (auto split: prod.splits)
  note F = finalize_facts [OF f Cons.prems(2)]
  have IH: "map port_key pbs1 = map port_key pbs" "set seen' = set seen1 \<union> port_key ` set pbs" "wf_map (po_since pc')"
    "\<And>k. mget (po_since pc') k = (if k \<in> port_key ` set pbs \<and> mget (po_since pc1) k = None then Some now else mget (po_since pc1) k)"
    "\<And>pb. pb \<in> set pbs1 \<Longrightarrow> Some (pb_Since pb) = mget (po_since pc') (port_key pb)"
    using Cons.IH [OF g(1) F(3)] by blast+
  have "Some (pb_Since pb1) = mget (po_since pc') (port_key pb1)"
    using F(1,5) by (simp add: IH(4)) (metis option.distinct(1))
  moreover have "mget (po_since pc') k =
      (if k \<in> port_key ` set (pb # pbs) \<and> mget (po_since pc) k = None then Some now else mget (po_since pc) k)" for k
    unfolding IH(4) F(4) by auto
  ultimately show ?case using IH(1,2,3,5) F(1,2) g(2) by auto
qed simp

text \<open>What the collector keeps is what the history says.\<close>

definition tracks :: "PortCollector \<Rightarrow> scans \<Rightarrow> bool" where
  "tracks pc hist \<longleftrightarrow> wf_map (po_since pc) \<and> (\<forall>k. mget (po_since pc) k = first_seen hist k)"

lemma Ports_Collect_tracks:
  assumes "Ports_Collect f env pc = (pc', pbs)" "tracks pc hist"
  shows "tracks pc' (scan_of env # hist)"
    and "\<forall>pb\<in>set pbs. Some (pb_Since pb) = first_seen (scan_of env # hist) (port_key pb)"
    and "map port_key pbs = map port_key (port_rows env)"
proof -
  obtain pc1 seen where f: "finalize_all f (pe_now env) (port_rows env) (pc, []) = ((pc1, seen), pbs)"
    and pc': "pc' = pc1\<lparr>po_since := mfilter (\<lambda>k t. k \<in> set seen) (po_since pc1)\<rparr>"
    using assms(1) by (auto simp: Ports_Collect_def Let_def split: prod.splits)
  have wf: "wf_map (po_since pc)" using assms(2) by (simp add: tracks_def)
  note F = finalize_all_facts [OF f wf]
  have hist: "mget (po_since pc) k = first_seen hist k" for k using assms(2) by (simp add: tracks_def)
  have get: "mget (po_since pc1) k = first_seen (scan_of env # hist) k" if "k \<in> port_key ` set (port_rows env)" for k
    using F that by (auto simp: scan_of_def hist split: option.splits)
  show "\<forall>pb\<in>set pbs. Some (pb_Since pb) = first_seen (scan_of env # hist) (port_key pb)"
  proof
    fix pb assume "pb \<in> set pbs"
    then have "port_key pb \<in> port_key ` set (port_rows env)" using F by (metis imageI list.set_map)
    then show "Some (pb_Since pb) = first_seen (scan_of env # hist) (port_key pb)"
      using get F \<open>pb \<in> set pbs\<close> by metis
  qed
  show "map port_key pbs = map port_key (port_rows env)" using F by simp
  have "mget (po_since pc') k = first_seen (scan_of env # hist) k" for k
    using get [of k] F by (auto simp: pc' mget_mfilter scan_of_def split: option.splits)
  then show "tracks pc' (scan_of env # hist)" using F pc' by (simp add: tracks_def wf_map_mfilter)
qed

definition scan_step :: "((pid \<Rightarrow> gostring) option \<times> port_env) \<Rightarrow> PortCollector \<Rightarrow> PortCollector" where
  "scan_step s pc = fst (Ports_Collect (fst s) (snd s) pc)"

lemma scans_track: "tracks (fold scan_step ss (NewPortCollector wellKnown)) (rev (map (scan_of \<circ> snd) ss))"
proof (induction ss rule: rev_induct)
  case (snoc s ss)
  obtain pc pbs where c: "Ports_Collect (fst s) (snd s) (fold scan_step ss (NewPortCollector wellKnown)) = (pc, pbs)"
    by (cases "Ports_Collect (fst s) (snd s) (fold scan_step ss (NewPortCollector wellKnown))")
  then have "fold scan_step (ss @ [s]) (NewPortCollector wellKnown) = pc" by (simp add: scan_step_def [of s])
  then show ?case using Ports_Collect_tracks(1) [OF c snoc.IH] by simp
qed (simp add: tracks_def NewPortCollector_def)

text \<open>
  C19. After any sequence of scans, the next lists every row of the four tables, and the time each endpoint is
  said to be there since is that of the first scan of the unbroken run of scans that saw it; what is kept
  is exactly the endpoints of the last scan, so memory does not grow with the endpoints of the past.
\<close>

theorem ports_since_first_seen:
  assumes "Ports_Collect f env (fold scan_step ss (NewPortCollector wellKnown)) = (pc, pbs)"
  shows "map port_key pbs = map port_key (port_rows env) \<and>
    (\<forall>pb\<in>set pbs. Some (pb_Since pb) = first_seen (scan_of env # rev (map (scan_of \<circ> snd) ss)) (port_key pb)) \<and>
    fst ` set (po_since pc) = port_key ` set (port_rows env)"
proof -
  note T = Ports_Collect_tracks [OF assms scans_track]
  have "k \<in> fst ` set (po_since pc) \<longleftrightarrow> mget (po_since pc) k \<noteq> None" for k by (simp add: mget_None_iff)
  moreover have "mget (po_since pc) k \<noteq> None \<longleftrightarrow> k \<in> port_key ` set (port_rows env)" for k
    using T(1) by (simp add: tracks_def scan_of_def)
  ultimately show ?thesis using T(2,3) by blast
qed

definition demo_scan :: "int \<Rightarrow> port_env" where
  "demo_scan now = \<lparr>pe_now = now, pe_tcp4 = Inl (ErrSys ''x''), pe_tcp6 = Inr [],
     pe_udp4 = Inr [\<lparr>ur_LocalAddr = 0x0100007F, ur_LocalPort = 0x3500, ur_OwningPid = 7\<rparr>], pe_udp6 = Inr []\<rparr>"

text \<open>A socket seen at 5 and 9 is there since 5; it listens on port 53 of 127.0.0.1.\<close>

theorem ports_since_first_seen_witness:
  "let (pc, pbs) = Ports_Collect None (demo_scan 9) (fold scan_step [(None, demo_scan 5)] (NewPortCollector []))
   in map port_key pbs = [''7|udp|127.0.0.1:53|:0|listen''] \<and> map pb_Since pbs = [5]"
proof -
  obtain pc pbs where c: "Ports_Collect None (demo_scan 9) (fold scan_step [(None, demo_scan 5)] (NewPortCollector [])) = (pc, pbs)"
    by (cases "Ports_Collect None (demo_scan 9) (fold scan_step [(None, demo_scan 5)] (NewPortCollector []))")
  have k: "map port_key (port_rows (demo_scan t)) = [''7|udp|127.0.0.1:53|:0|listen'']" for t
  proof -
    have "port_rows (demo_scan t) = [udp4_binding \<lparr>ur_LocalAddr = 0x0100007F, ur_LocalPort = 0x3500, ur_OwningPid = 7\<rparr>]"
      by (simp add: port_rows_def demo_scan_def table_rows_def)
    moreover have "port_key (udp4_binding \<lparr>ur_LocalAddr = 0x0100007F, ur_LocalPort = 0x3500, ur_OwningPid = 7\<rparr>)
      = ''7|udp|127.0.0.1:53|:0|listen''" by code_simp
    ultimately show ?thesis by simp
  qed
  have s: "scan_of (demo_scan t) = (t, {''7|udp|127.0.0.1:53|:0|listen''})" for t
    using arg_cong [OF k [of t], of set] by (simp add: scan_of_def demo_scan_def)
  note T = ports_since_first_seen [OF c]
  then obtain pb where pb: "pbs = [pb]" "port_key pb = ''7|udp|127.0.0.1:53|:0|listen''" using k [of 9] by (cases pbs) auto
  then have "pb_Since pb = 5" using T by (simp add: s)
  then show ?thesis using c pb by simp
qed

end
