(* ===== verification/Collector.thy ===== *)
theory Collector
  imports ProcTree Counters NetCollect ProcCollect PortCollect Storage Emitter Config Steps
begin

text \<open>
  \<^verbatim>\<open>internal/collector/manager.go\<close>: the manager runs the collectors and publishes what they find in the
  store and as events. Its three loops run at once. A sample reads the published tree and ports, to carry them
  over, and then replaces the snapshot; a new tree is computed from one snapshot and then stored in
  the latest. So both are two steps here, and the step relation lets the loops interleave between them.
\<close>

section \<open>The manager\<close>

datatype mg_payload = PSnapshot SystemSnapshot | PTree "ProcessNode list" | PPorts "PortBinding list"

record Manager =
  mg_cfg :: "Config option"
  mg_store :: Store
  mg_emitter :: "mg_payload Emitter option"
  mg_cpu :: CPUCollector
  mg_proc :: ProcessCollector
  mg_net :: NetworkCollector
  mg_disk :: DiskCollector
  mg_gpu :: GPUCollector
  mg_pdh :: pdh
  mg_ports :: PortCollector
  mg_latestPID :: "(pid, gostring) gomap"

record sample_env =
  sv_now :: gotime
  sv_cpu :: cpu_env
  sv_memory :: "goerror + MEMORYSTATUSEX option"
  sv_gpu :: gpu_env
  sv_net_now :: gotime
  sv_interfaces :: "goerror + IfRow2 list"
  sv_disk :: disk_env
  sv_proc :: proc_env

definition NewManager :: "int \<Rightarrow> Config \<Rightarrow> Store \<Rightarrow> mg_payload Emitter option \<Rightarrow> gostring \<Rightarrow> u32 \<Rightarrow> Manager" where
  "NewManager numCPU cfg store emitter cpuName cpuMHz =
     \<lparr>mg_cfg = Some cfg, mg_store = store, mg_emitter = emitter, mg_cpu = NewCPUCollector numCPU cpuName cpuMHz,
      mg_proc = NewProcessCollector numCPU (mo_MaxProcesses (c_Monitoring cfg)), mg_net = NewNetworkCollector,
      mg_disk = NewDiskCollector, mg_gpu = NewGPUCollector, mg_pdh = \<lparr>pq_open = [], pq_calls = 0\<rparr>,
      mg_ports = NewPortCollector (c_WellKnownPorts cfg), mg_latestPID = []\<rparr>"

definition mg_emit :: "gostring \<Rightarrow> mg_payload \<Rightarrow> Manager \<Rightarrow> Manager" where
  "mg_emit event d m = m\<lparr>mg_emitter := map_option (Emit event d) (mg_emitter m)\<rparr>"

definition pid_names :: "ProcessInfo list \<Rightarrow> (pid, gostring) gomap" where
  "pid_names ps = fold (\<lambda>p. mput (p_PID p) (p_Name p)) ps []"

text \<open>The first half of a sample: everything is collected, and the tree and the ports are carried over.\<close>

definition sample_read :: "sample_env \<Rightarrow> Manager \<Rightarrow> Manager \<times> SystemSnapshot" where
  "sample_read env m =
     (let (cpu, cpuM) = CPU_Collect (sv_cpu env) (mg_cpu m);
          memM = Memory_Collect (sv_memory env);
          ((gpu, w), gpuM) = GPU_Collect (sv_gpu env) (mg_gpu m, mg_pdh m);
          (net, netM) = Network_Collect (sv_net_now env) (sv_interfaces env) (mg_net m);
          ((disk, w), diskM) = Disk_Collect (sv_disk env) (mg_disk m, w);
          (proc, procs) = Process_Collect (sv_proc env) (mg_proc m);
          m = m\<lparr>mg_cpu := cpu, mg_gpu := gpu, mg_net := net, mg_disk := disk, mg_proc := proc, mg_pdh := w,
                mg_latestPID := pid_names procs\<rparr>;
          snap = \<lparr>ss_Timestamp = sv_now env, ss_CPU = cpuM, ss_Memory = memM, ss_GPU = gpuM, ss_Disk = diskM, ss_Network = netM,
                  ss_Processes = procs, ss_ProcessTree = [], ss_PortBindings = []\<rparr>
      in (m, case Latest (mg_store m) of
               None \<Rightarrow> snap
             | Some prev \<Rightarrow> snap\<lparr>ss_ProcessTree := ss_ProcessTree prev, ss_PortBindings := ss_PortBindings prev\<rparr>))"

definition sample_write :: "SystemSnapshot \<Rightarrow> Manager \<Rightarrow> Manager" where
  "sample_write snap m = mg_emit ''metrics.snapshot'' (PSnapshot snap) (m\<lparr>mg_store := SetLatest snap (mg_store m)\<rparr>)"

definition fastSample :: "sample_env \<Rightarrow> Manager \<Rightarrow> Manager \<times> SystemSnapshot" where
  "fastSample env m = (let (m, snap) = sample_read env m in (sample_write snap m, snap))"

definition CollectOnce :: "sample_env \<Rightarrow> Manager \<Rightarrow> Manager \<times> SystemSnapshot" where
  "CollectOnce = fastSample"

definition prune_step :: "gotime \<Rightarrow> Manager \<Rightarrow> Manager" where
  "prune_step now m = m\<lparr>mg_store := fst (PruneStaleProcesses (t_add now (- (2 * minute))) (mg_store m))\<rparr>"

text \<open>One turn of the tree loop: with no snapshot yet nothing happens.\<close>

definition tree_read :: "(pid list \<Rightarrow> pid list) \<Rightarrow> pid_sort \<Rightarrow> Manager \<Rightarrow> ProcessNode list option" where
  "tree_read visit srt m =
     (case Latest (mg_store m) of None \<Rightarrow> None | Some snap \<Rightarrow> BuildProcessTree visit srt (ss_Processes snap))"

definition tree_write :: "ProcessNode list \<Rightarrow> Manager \<Rightarrow> Manager" where
  "tree_write tree m =
     mg_emit ''metrics.process_tree'' (PTree tree)
       (m\<lparr>mg_store := fst (UpdateLatest (\<lambda>latest. latest\<lparr>ss_ProcessTree := tree\<rparr>) (mg_store m))\<rparr>)"

definition lookupPID :: "Manager \<Rightarrow> pid \<Rightarrow> gostring" where
  "lookupPID m p = (case mget (mg_latestPID m) p of None \<Rightarrow> [] | Some name \<Rightarrow> name)"

definition ports_step :: "port_env \<Rightarrow> Manager \<Rightarrow> Manager" where
  "ports_step env m =
     (let (ports, bindings) = Ports_Collect (Some (lookupPID m)) env (mg_ports m); m = m\<lparr>mg_ports := ports\<rparr> in
      case Latest (mg_store m) of
        None \<Rightarrow> m
      | Some snap \<Rightarrow>
          mg_emit ''metrics.port_bindings'' (PPorts bindings)
            (m\<lparr>mg_store := fst (UpdateLatest (\<lambda>latest. latest\<lparr>ss_PortBindings := bindings\<rparr>) (mg_store m))\<rparr>))"

definition ApplyConfig :: "Config \<Rightarrow> Manager \<Rightarrow> Manager" where
  "ApplyConfig cfg m = m\<lparr>mg_cfg := Some cfg, mg_ports := SetWellKnown (c_WellKnownPorts cfg) (mg_ports m)\<rparr>"

definition interval_of :: "(MonitoringConfig \<Rightarrow> duration) \<Rightarrow> duration \<Rightarrow> duration \<Rightarrow> Manager \<Rightarrow> duration" where
  "interval_of sel dflt least m =
     (let interval = (case mg_cfg m of None \<Rightarrow> dflt | Some cfg \<Rightarrow> sel (c_Monitoring cfg))
      in if interval < least then dflt else interval)"

definition fastInterval :: "Manager \<Rightarrow> duration" where
  "fastInterval = interval_of mo_Interval second (200 * millisecond)"

definition treeInterval :: "Manager \<Rightarrow> duration" where
  "treeInterval = interval_of mo_ProcessTreeInterval (2 * second) (500 * millisecond)"

definition portsInterval :: "Manager \<Rightarrow> duration" where
  "portsInterval = interval_of mo_PortScanInterval (3 * second) (500 * millisecond)"

definition CPUInfoFromRegistry ::
  "(gostring \<Rightarrow> gostring \<Rightarrow> goerror + gostring) \<Rightarrow> (gostring \<Rightarrow> gostring \<Rightarrow> goerror + u32) \<Rightarrow> gostring \<times> u32" where
  "CPUInfoFromRegistry readString readDWORD =
     (let path = str_join [CHR 0x5C] [''HARDWARE'', ''DESCRIPTION'', ''System'', ''CentralProcessor'', ''0'']
      in (reg_or [] (readString path ''ProcessorNameString''), reg_or 0 (readDWORD path ''~MHz'')))"

section \<open>The loops interleaved\<close>

text \<open>
  A state of the loops: the manager, the snapshot a sample is about to publish and the tree that is about to be
  stored. Windows answers in each step as it likes, but sorts permute and sort, and handles are not zero.
\<close>

type_synonym loops = "Manager \<times> SystemSnapshot option \<times> ProcessNode list option"

definition fair_sample :: "sample_env \<Rightarrow> bool" where
  "fair_sample env \<longleftrightarrow> sorts (sv_proc env) \<and> ph_open (ge_pdh (sv_gpu env)) \<noteq> Inr 0 \<and> ph_open (de_pdh (sv_disk env)) \<noteq> Inr 0"

definition permutes :: "(pid list \<Rightarrow> pid list) \<Rightarrow> pid_sort \<Rightarrow> bool" where
  "permutes visit srt \<longleftrightarrow> (\<forall>ks. mset (visit ks) = mset ks) \<and> (\<forall>le ks. mset (srt le ks) = mset ks)"

inductive loops_step :: "loops \<Rightarrow> loops \<Rightarrow> bool" where
  sample_begin: "fair_sample env \<Longrightarrow> sample_read env m = (m', snap) \<Longrightarrow> loops_step (m, None, t) (m', Some snap, t)"
| sample_end: "loops_step (m, Some snap, t) (sample_write snap m, None, t)"
| tree_begin: "permutes visit srt \<Longrightarrow> Latest (mg_store m) \<noteq> None \<Longrightarrow> loops_step (m, s, None) (m, s, tree_read visit srt m)"
| tree_end: "loops_step (m, s, Some tree) (tree_write tree m, s, None)"
| ports_scan: "loops_step (m, s, t) (ports_step penv m, s, t)"
| prune: "loops_step (m, None, t) (prune_step now m, None, t)"
| apply_cfg: "loops_step (m, s, t) (ApplyConfig cfg m, s, t)"

definition loops_reach :: "Manager \<Rightarrow> loops \<Rightarrow> bool" where "loops_reach m0 s \<longleftrightarrow> loops_step\<^sup>*\<^sup>* (m0, None, None) s"

inductive_simps loops_tree_simps: "loops_step (m, s, Some tree) s'"
inductive_cases loops_stepE: "loops_step (m, s, t) s'"

section \<open>What is ever published\<close>

definition snap_ok :: "int \<Rightarrow> SystemSnapshot \<Rightarrow> bool" where
  "snap_ok limit snap \<longleftrightarrow>
     is_pct (cpu_TotalPercent (ss_CPU snap)) \<and> (\<forall>v\<in>set (cpu_PerCore (ss_CPU snap)). is_pct v) \<and>
     is_pct (gpu_Utilization (ss_GPU snap)) \<and> gpu_VRAMUsed (ss_GPU snap) \<le> gpu_VRAMTotal (ss_GPU snap) \<and>
     (\<forall>p\<in>set (ss_Processes snap). is_pct (p_CPUPercent p)) \<and> int (length (ss_Processes snap)) \<le> limit"

definition tree_ok :: "ProcessNode list \<Rightarrow> bool" where
  "tree_ok f \<longleftrightarrow> distinct (map pn_PID (forest_nodes f)) \<and> (\<forall>t\<in>set (forest_nodes f). is_pct (p_CPUPercent (pn_Process t)))"

definition mgr_inv :: "int \<Rightarrow> int \<Rightarrow> Manager \<Rightarrow> bool" where
  "mgr_inv numCPU limit m \<longleftrightarrow>
     cc_numLogical (mg_cpu m) = numCPU \<and> pc_numLogical (mg_proc m) = numCPU \<and> pc_maxResults (mg_proc m) = limit \<and>
     store_inv (mg_store m) \<and>
     (\<forall>snap. Latest (mg_store m) = Some snap \<longrightarrow> snap_ok limit snap \<and> tree_ok (ss_ProcessTree snap)) \<and>
     mset (pq_open (mg_pdh m)) = held_disk (mg_disk m) + held_gpu (mg_gpu m)"

lemma mg_emit_frame [simp]:
  "mg_store (mg_emit e d m) = mg_store m" "mg_cpu (mg_emit e d m) = mg_cpu m" "mg_proc (mg_emit e d m) = mg_proc m"
  "mg_pdh (mg_emit e d m) = mg_pdh m" "mg_disk (mg_emit e d m) = mg_disk m" "mg_gpu (mg_emit e d m) = mg_gpu m"
  "mg_ports (mg_emit e d m) = mg_ports m" "mg_cfg (mg_emit e d m) = mg_cfg m" "mg_latestPID (mg_emit e d m) = mg_latestPID m"
  by (simp_all add: mg_emit_def)

lemma Process_Collect_limits:
  assumes "Process_Collect env pc = (pc', ps)" "sorts env" "0 < pc_numLogical pc" "is_i64 (pc_numLogical pc)" "0 < pc_maxResults pc"
  shows "pc_numLogical pc' = pc_numLogical pc \<and> pc_maxResults pc' = pc_maxResults pc \<and> int (length ps) \<le> pc_maxResults pc \<and>
    (\<forall>p\<in>set ps. is_pct (p_CPUPercent p))"
proof (cases "pv_create env \<noteq> None \<or> pv_entries env = []")
  case True
  then show ?thesis using assms(1,5) by (auto simp: Process_Collect_def)
next
  case False
  then have ne: "pv_create env = None" "pv_entries env \<noteq> []" by auto
  have pct: "is_pct (p_CPUPercent p)" if "p \<in> set (infos_of env pc)" for p using that collectOne_pct [OF assms(3,4)] by auto
  have "set (pv_sort env heavier xs) = set xs" for xs using assms(2) unfolding sorts_def by (metis mset_eq_setD)
  then have "set ps \<subseteq> set (infos_of env pc)" unfolding Process_Collect_parts(2) [OF assms(1) ne]
    using set_take_subset [of "nat (pc_maxResults pc)" "pv_sort env heavier (infos_of env pc)"] by simp
  moreover have "int (length ps) \<le> pc_maxResults pc"
    unfolding Process_Collect_parts(2) [OF assms(1) ne] using assms(5) by (simp add: min_def le_nat_iff)
  ultimately show ?thesis using pct unfolding Process_Collect_parts(1) [OF assms(1) ne] by auto
qed

lemma store_keeps:
  assumes "store_inv st"
  shows "store_inv (SetLatest snap st)" "Latest (SetLatest snap st) = Some snap"
    "store_inv (fst (UpdateLatest f st))" "Latest (fst (UpdateLatest f st)) = map_option f (Latest st)"
    "store_inv (fst (PruneStaleProcesses cutoff st))" "Latest (fst (PruneStaleProcesses cutoff st)) = Latest st"
proof -
  show "store_inv (SetLatest snap st)" "Latest (SetLatest snap st) = Some snap" using SetLatest_refines [OF assms] by auto
  show "store_inv (fst (UpdateLatest f st))" "Latest (fst (UpdateLatest f st)) = map_option f (Latest st)"
    using assms by (auto simp: UpdateLatest_def Latest_def store_inv_def split: option.splits)
  show "store_inv (fst (PruneStaleProcesses cutoff st))" "Latest (fst (PruneStaleProcesses cutoff st)) = Latest st"
    using prune_exact [OF assms, of cutoff] by (cases "PruneStaleProcesses cutoff st"; simp)+
qed

lemma sample_read_ok:
  assumes inv: "mgr_inv numCPU limit m" and pos: "0 < numCPU" "is_i64 numCPU" "0 < limit"
    and env: "fair_sample env" and r: "sample_read env m = (m', snap)"
  shows "mgr_inv numCPU limit m' \<and> snap_ok limit snap \<and> tree_ok (ss_ProcessTree snap) \<and> mg_store m' = mg_store m"
proof -
  obtain cpu cpuM where cpu: "CPU_Collect (sv_cpu env) (mg_cpu m) = (cpu, cpuM)" by (cases "CPU_Collect (sv_cpu env) (mg_cpu m)")
  obtain gpu w gpuM where gpu: "GPU_Collect (sv_gpu env) (mg_gpu m, mg_pdh m) = ((gpu, w), gpuM)" by (metis prod.collapse)
  obtain net netM where net: "Network_Collect (sv_net_now env) (sv_interfaces env) (mg_net m) = (net, netM)"
    by (metis prod.collapse)
  obtain disk w' diskM where disk: "Disk_Collect (sv_disk env) (mg_disk m, w) = ((disk, w'), diskM)" by (metis prod.collapse)
  obtain proc procs where proc: "Process_Collect (sv_proc env) (mg_proc m) = (proc, procs)"
    by (cases "Process_Collect (sv_proc env) (mg_proc m)")
  have m': "m' = m\<lparr>mg_cpu := cpu, mg_gpu := gpu, mg_net := net, mg_disk := disk, mg_proc := proc, mg_pdh := w',
                mg_latestPID := pid_names procs\<rparr>"
    and snap: "ss_CPU snap = cpuM" "ss_GPU snap = gpuM" "ss_Processes snap = procs"
      "ss_ProcessTree snap = (case Latest (mg_store m) of None \<Rightarrow> [] | Some prev \<Rightarrow> ss_ProcessTree prev)"
    using r cpu gpu net disk proc by (auto simp: sample_read_def Let_def split: option.splits)
  note C = CPU_Collect_bounds [OF cpu] and G = GPU_Collect_bounds [OF gpu]
  have P: "pc_numLogical proc = numCPU" "pc_maxResults proc = limit" "int (length procs) \<le> limit" "\<forall>p\<in>set procs. is_pct (p_CPUPercent p)"
    using Process_Collect_limits [OF proc] env inv pos by (auto simp: fair_sample_def mgr_inv_def)
  have "mset (pq_open w') = held_disk disk + held_gpu gpu"
  proof -
    have "mset (pq_open w) + held_gpu (mg_gpu m) = mset (pq_open (mg_pdh m)) + held_gpu gpu"
      by (rule GPU_Collect_queries [OF gpu]) (use env in \<open>simp add: fair_sample_def\<close>)
    moreover have "mset (pq_open w') + held_disk (mg_disk m) = mset (pq_open w) + held_disk disk"
      by (rule Disk_Collect_queries [OF disk]) (use env in \<open>simp add: fair_sample_def\<close>)
    moreover have "mset (pq_open (mg_pdh m)) = held_disk (mg_disk m) + held_gpu (mg_gpu m)" using inv by (simp add: mgr_inv_def)
    ultimately show ?thesis by (simp add: multiset_eq_iff)
  qed
  then have "mgr_inv numCPU limit m'" using inv C(4) P(1,2) unfolding m' mgr_inv_def by simp
  moreover have "snap_ok limit snap" using C G P(3,4) by (simp add: snap_ok_def snap)
  moreover have "tree_ok (ss_ProcessTree snap)" using inv by (auto simp: snap mgr_inv_def tree_ok_def split: option.splits)
  ultimately show ?thesis by (simp add: m')
qed

lemma tree_read_ok:
  assumes "mgr_inv numCPU limit m" "permutes visit srt" "Latest (mg_store m) = Some snap"
  shows "\<exists>f. tree_read visit srt m = Some f \<and> tree_ok f"
proof -
  obtain f where f: "BuildProcessTree visit srt (ss_Processes snap) = Some f" "distinct (map pn_PID (forest_nodes f))"
    "\<forall>t\<in>set (forest_nodes f). node_good (ss_Processes snap) t"
    using forest_exact [of visit srt "ss_Processes snap"] assms(2) unfolding permutes_def by blast
  have "is_pct (p_CPUPercent (pn_Process t))" if "t \<in> set (forest_nodes f)" for t
  proof -
    have "pn_Process t \<in> set (ss_Processes snap)"
      using f(3) that listed_PID unfolding node_good_def by blast
    then show ?thesis using assms(1,3) by (auto simp: mgr_inv_def snap_ok_def)
  qed
  then have "tree_ok f" unfolding tree_ok_def using f(2) by blast
  then show ?thesis using f(1) assms(3) by (simp add: tree_read_def)
qed

definition loops_inv :: "int \<Rightarrow> int \<Rightarrow> loops \<Rightarrow> bool" where
  "loops_inv numCPU limit st \<longleftrightarrow>
     (let (m, s, t) = st in
      mgr_inv numCPU limit m \<and> (\<forall>snap. s = Some snap \<longrightarrow> snap_ok limit snap \<and> tree_ok (ss_ProcessTree snap)) \<and>
      (\<forall>tree. t = Some tree \<longrightarrow> tree_ok tree))"

lemma loops_step_inv:
  assumes "loops_step st st'" "loops_inv numCPU limit st" "0 < numCPU" "is_i64 numCPU" "0 < limit"
  shows "loops_inv numCPU limit st'"
  using assms(1,2)
proof cases
  case (sample_begin env m m' snap t)
  then show ?thesis using sample_read_ok [OF _ assms(3-5) sample_begin(3,4)] assms(2) by (simp add: loops_inv_def)
next
  case (sample_end m snap t)
  then show ?thesis using assms(2) by (auto simp: loops_inv_def mgr_inv_def sample_write_def store_keeps)
next
  case (tree_begin visit srt m s)
  then obtain snap where "Latest (mg_store m) = Some snap" by blast
  then show ?thesis using tree_begin assms(2) tree_read_ok [of numCPU limit m visit srt snap] by (auto simp: loops_inv_def)
next
  case (tree_end m s tree)
  then show ?thesis using assms(2) by (auto simp: loops_inv_def mgr_inv_def tree_write_def store_keeps snap_ok_def)
next
  case (ports_scan m s t penv)
  then show ?thesis using assms(2)
    by (auto simp: loops_inv_def mgr_inv_def ports_step_def store_keeps snap_ok_def Let_def split: prod.splits option.splits)
next
  case (prune m t now)
  then show ?thesis using assms(2) by (auto simp: loops_inv_def mgr_inv_def prune_step_def store_keeps)
next
  case (apply_cfg m s t cfg)
  then show ?thesis using assms(2) by (auto simp: loops_inv_def mgr_inv_def ApplyConfig_def)
qed

interpretation loops: invariant_steps loops_step
    "\<lambda>st. 0 < numCPU \<and> is_i64 numCPU \<and> 0 < limit \<longrightarrow> loops_inv numCPU limit st" for numCPU limit
  by unfold_locales (use loops_step_inv in blast)

text \<open>
  C15. However the three loops, the pruning and changes of the configuration interleave, every snapshot the store
  ever publishes has its loads of processors, adapters and processes between 0 and 100 percent, no more
  processes than the limit fixed at the start, no more video memory in use than there is, and a process tree that
  lists no process twice; the store keeps its invariant and no query of the counters is left open.
\<close>

theorem published_in_bounds:
  assumes "loops_reach (NewManager numCPU cfg (NewStore h c) em name mhz) (m, s, t)" and n: "0 < numCPU" "is_i64 numCPU"
  defines "limit \<equiv> (if mo_MaxProcesses (c_Monitoring cfg) \<le> 0 then 2000 else mo_MaxProcesses (c_Monitoring cfg))"
  shows "(\<forall>snap. Latest (mg_store m) = Some snap \<longrightarrow> snap_ok limit snap \<and> tree_ok (ss_ProcessTree snap)) \<and>
    store_inv (mg_store m) \<and> mset (pq_open (mg_pdh m)) = held_disk (mg_disk m) + held_gpu (mg_gpu m)"
proof -
  have limit: "0 < limit" by (simp add: limit_def)
  have "Latest (NewStore h c) = None" by (simp add: Latest_def NewStore_def Let_def)
  then have start: "loops_inv numCPU limit (NewManager numCPU cfg (NewStore h c) em name mhz, None, None)"
    by (simp add: loops_inv_def mgr_inv_def NewManager_def NewCPUCollector_def NewProcessCollector_def NewDiskCollector_def
        NewGPUCollector_def held_disk_def held_gpu_def limit_def)
  have "loops_inv numCPU limit (m, s, t)"
    using loops.steps_keep [OF assms(1) [unfolded loops_reach_def], of numCPU limit] start n limit by blast
  then show ?thesis by (simp add: loops_inv_def mgr_inv_def)
qed

definition demo_sample :: sample_env where
  "demo_sample =
     (let none = ErrSys ''not there''; pdh = \<lparr>ph_open = Inl none, ph_add = (\<lambda>_ _. Inl none), ph_collect = (\<lambda>_ _. None), ph_values = (\<lambda>_. Inl none)\<rparr>
      in \<lparr>sv_now = 9, sv_cpu = \<lparr>ce_times = Inl none, ce_perf = (\<lambda>_. (1, \<lambda>_. \<lparr>sp_IdleTime = 0, sp_KernelTime = 0, sp_UserTime = 0, sp_Reserved1 = [0, 0], sp_Reserved2 = 0\<rparr>))\<rparr>,
          sv_memory = Inl none, sv_gpu = \<lparr>ge_pdh = pdh, ge_string = (\<lambda>_ _. Inl none), ge_qword = (\<lambda>_ _. Inl none)\<rparr>,
          sv_net_now = 9, sv_interfaces = Inl none,
          sv_disk = \<lparr>de_drives = Inl none, de_type = (\<lambda>_. 0), de_free = (\<lambda>_. Inl none), de_volume = (\<lambda>_. ([], [])), de_pdh = pdh\<rparr>,
          sv_proc = demo_penv 9 None [10, 11]\<rparr>)"

theorem published_in_bounds_witness:
  "let m = fst (fastSample demo_sample (NewManager 8 DefaultConfig (NewStore 60 10) None ''cpu'' 3000))
   in \<exists>snap. Latest (mg_store m) = Some snap \<and> snap_ok 2000 snap"
proof -
  let ?m0 = "NewManager 8 DefaultConfig (NewStore 60 10) None ''cpu'' 3000"
  obtain m1 snap where r: "sample_read demo_sample ?m0 = (m1, snap)" by (cases "sample_read demo_sample ?m0")
  have fair: "fair_sample demo_sample" by (simp add: fair_sample_def demo_sample_def Let_def demo_penv_sorts)
  have "loops_reach ?m0 (m1, Some snap, None)"
    unfolding loops_reach_def using sample_begin [OF fair r] by (rule r_into_rtranclp)
  then have reach: "loops_reach ?m0 (sample_write snap m1, None, None)" unfolding loops_reach_def by (rule rtranclp.rtrancl_into_rtrancl) (rule sample_end)
  have "mo_MaxProcesses (c_Monitoring DefaultConfig) = 2000" by (simp add: DefaultConfig_def default_monitoring_def)
  moreover have "Latest (mg_store (sample_write snap m1)) = Some snap"
    by (simp add: sample_write_def SetLatest_def recordSnapshotLocked_def Latest_def Let_def)
  ultimately show ?thesis
    using published_in_bounds [OF reach] r by (simp add: fastSample_def is_i64_def i64_min_def i64_max_def)
qed

section \<open>Where the loops meet\<close>

text \<open>
  A sample that has read the tree before a new one is stored, and publishes after, puts the old tree back; the
  new one is gone from the store until the tree loop comes round again.
\<close>

lemma racing_sample_drops_tree:
  assumes "sample_read env m = (m', snap)" "Latest (mg_store m) = Some prev"
  shows "map_option ss_ProcessTree (Latest (mg_store (sample_write snap (tree_write tree m')))) = Some (ss_ProcessTree prev)"
  using assms
  by (auto simp: sample_read_def sample_write_def SetLatest_def recordSnapshotLocked_def Latest_def Let_def
      split: prod.splits)

text \<open>
  The interval between samples is never below a fifth of a second: one that the configuration sets lower, which it
  accepts from a tenth up, makes the interval a second.
\<close>

lemma fastInterval_bounds:
  "200 * millisecond \<le> fastInterval m"
  "mg_cfg m = Some cfg \<Longrightarrow> mo_Interval (c_Monitoring cfg) < 200 * millisecond \<Longrightarrow> fastInterval m = second"
  by (auto simp: fastInterval_def interval_of_def time_units Let_def split: option.splits)

lemma pid_names_get:
  "distinct (map p_PID ps) \<Longrightarrow> mget (pid_names ps) p = map_option p_Name (first_with_pid p ps)"
proof (induction ps rule: rev_induct)
  case (snoc q ps)
  have "first_with_pid p (ps @ [q]) = (case first_with_pid p ps of Some x \<Rightarrow> Some x | None \<Rightarrow> if p_PID q = p then Some q else None)"
    by (induction ps) auto
  moreover have "first_with_pid (p_PID q) ps = None" using snoc.prems by (auto simp: first_with_pid_None) (metis imageI)
  ultimately show ?case using snoc by (auto simp: pid_names_def split: option.splits)
qed (simp add: pid_names_def)

text \<open>
  After a sample the store shows what was sampled with the tree and the ports of before, and the ports loop names each
  process as the snapshot does.
\<close>

lemma sample_published:
  assumes "fastSample env m = (m', snap)"
  shows "Latest (mg_store m') = Some snap"
    and "Latest (mg_store m) = Some prev \<Longrightarrow> ss_ProcessTree snap = ss_ProcessTree prev \<and> ss_PortBindings snap = ss_PortBindings prev"
    and "distinct (map p_PID (ss_Processes snap)) \<Longrightarrow> lookupPID m' p = ProcessName snap p"
proof -
  obtain m1 where r: "sample_read env m = (m1, snap)" and m': "m' = sample_write snap m1"
    using assms by (auto simp: fastSample_def split: prod.splits)
  show "Latest (mg_store m') = Some snap"
    by (simp add: m' sample_write_def SetLatest_def recordSnapshotLocked_def Latest_def Let_def)
  show "Latest (mg_store m) = Some prev \<Longrightarrow> ss_ProcessTree snap = ss_ProcessTree prev \<and> ss_PortBindings snap = ss_PortBindings prev"
    using r by (auto simp: sample_read_def Let_def split: prod.splits)
  have "mg_latestPID m' = pid_names (ss_Processes snap)"
    using r by (auto simp: m' sample_write_def sample_read_def Let_def split: prod.splits option.splits)
  then show "distinct (map p_PID (ss_Processes snap)) \<Longrightarrow> lookupPID m' p = ProcessName snap p"
    by (auto simp: lookupPID_def ProcessName_def pid_names_get split: option.splits)
qed

end
