(* ===== verification/WinCalls.thy ===== *)
theory WinCalls
  imports WinTypes Controller
begin

text \<open>
  The thin wrappers of \<^verbatim>\<open>internal/winapi\<close> around single calls of Windows (\<^verbatim>\<open>kernel32.go\<close>, \<^verbatim>\<open>psapi.go\<close>,
  \<^verbatim>\<open>user32.go\<close>, \<^verbatim>\<open>shell32.go\<close>, \<^verbatim>\<open>advapi32.go\<close>, \<^verbatim>\<open>pdh.go\<close>). A call is a function from the machine words and
  strings it is passed to what comes back: the result register of 64 bits, the last error and what it
  wrote through the pointers. What Windows does is that function and stays open; what the wrappers make of it is
  modelled. \<open>to16\<close> is \<^verbatim>\<open>windows.UTF16PtrFromString\<close>, which refuses a string that holds a zero byte, and
  \<open>from16\<close> is \<^verbatim>\<open>windows.UTF16ToString\<close>.
\<close>

section \<open>Calls\<close>

datatype warg =
    W u64
  | WStr "u16 list"
  | WNull
  | WOut
  | WSized u32
  | WBytes gostring

type_synonym 'o wincall = "warg list \<Rightarrow> u64 \<times> goerror \<times> 'o"
type_synonym to16 = "gostring \<Rightarrow> goerror + u16 list"
type_synonym from16 = "u16 list \<Rightarrow> gostring"

text \<open>The common shape: a result of zero is a failure, reported with the name of the call.\<close>

definition or_fail :: "gostring \<Rightarrow> u64 \<times> goerror \<times> 'o \<Rightarrow> goerror + 'o" where
  "or_fail name res = (case res of (r1, e, out) \<Rightarrow> if r1 = 0 then Inl (Errorf (name @ '': %w'') [FWrap e]) else Inr out)"

definition or_fail_plain :: "u64 \<times> goerror \<times> 'o \<Rightarrow> goerror + 'o" where
  "or_fail_plain res = (case res of (r1, e, out) \<Rightarrow> if r1 = 0 then Inl e else Inr out)"

definition all_ones :: u64 where "all_ones = 0xFFFFFFFFFFFFFFFF"

section \<open>System and processes\<close>

definition GetSystemTimes :: "(FILETIME \<times> FILETIME \<times> FILETIME) wincall \<Rightarrow> goerror + FILETIME \<times> FILETIME \<times> FILETIME" where
  "GetSystemTimes call = or_fail ''GetSystemTimes'' (call [WOut, WOut, WOut])"

definition GlobalMemoryStatusEx :: "MEMORYSTATUSEX wincall \<Rightarrow> goerror + MEMORYSTATUSEX" where
  "GlobalMemoryStatusEx call = or_fail ''GlobalMemoryStatusEx'' (call [WSized 64])"

definition CreateToolhelp32Snapshot :: "unit wincall \<Rightarrow> u32 \<Rightarrow> pid \<Rightarrow> goerror + handle" where
  "CreateToolhelp32Snapshot call flags p =
     (case call [W (ucast flags), W (ucast p)] of
        (r1, e, _) \<Rightarrow>
          if r1 = 0 \<or> r1 = all_ones then Inl (Errorf ''CreateToolhelp32Snapshot: %w'' [FWrap e]) else Inr r1)"

text \<open>The two enumerations return the error of Windows as it is; the end of a list is one of them.\<close>

definition Process32First :: "PROCESSENTRY32W wincall \<Rightarrow> handle \<Rightarrow> goerror + PROCESSENTRY32W" where
  "Process32First call snap = or_fail_plain (call [W snap, WSized 568])"

definition Process32Next :: "PROCESSENTRY32W wincall \<Rightarrow> handle \<Rightarrow> goerror + PROCESSENTRY32W" where
  "Process32Next call snap = or_fail_plain (call [W snap, WSized 568])"

definition Thread32First :: "THREADENTRY32 wincall \<Rightarrow> handle \<Rightarrow> goerror + THREADENTRY32" where
  "Thread32First call snap = or_fail_plain (call [W snap, WSized 28])"

definition Thread32Next :: "THREADENTRY32 wincall \<Rightarrow> handle \<Rightarrow> goerror + THREADENTRY32" where
  "Thread32Next call snap = or_fail_plain (call [W snap, WSized 28])"

definition OpenProcessHandle :: "unit wincall \<Rightarrow> u32 \<Rightarrow> pid \<Rightarrow> goerror + handle" where
  "OpenProcessHandle call access p =
     (case call [W (ucast access), W 0, W (ucast p)] of
        (r1, e, _) \<Rightarrow> if r1 = 0 then Inl (Errorf ''OpenProcess(%d): %w'' [FInt (uint p), FWrap e]) else Inr r1)"

definition OpenThreadHandle :: "unit wincall \<Rightarrow> u32 \<Rightarrow> u32 \<Rightarrow> goerror + handle" where
  "OpenThreadHandle call access tid =
     (case call [W (ucast access), W 0, W (ucast tid)] of
        (r1, e, _) \<Rightarrow> if r1 = 0 then Inl (Errorf ''OpenThread(%d): %w'' [FInt (uint tid), FWrap e]) else Inr r1)"

text \<open>Closing calls nothing for the null handle and reports nothing.\<close>

definition CloseHandleSafe :: "handle \<Rightarrow> warg list list" where
  "CloseHandleSafe h = (if h \<noteq> 0 then [[W h]] else [])"

definition TerminateProcessHandle :: "unit wincall \<Rightarrow> handle \<Rightarrow> u32 \<Rightarrow> goerror + unit" where
  "TerminateProcessHandle call h exitCode = or_fail ''TerminateProcess'' (call [W h, W (ucast exitCode)])"

definition GetProcessTimes ::
  "(FILETIME \<times> FILETIME \<times> FILETIME \<times> FILETIME) wincall \<Rightarrow> handle \<Rightarrow> goerror + FILETIME \<times> FILETIME \<times> FILETIME \<times> FILETIME" where
  "GetProcessTimes call h = or_fail ''GetProcessTimes'' (call [W h, WOut, WOut, WOut, WOut])"

definition GetProcessIoCounters :: "IO_COUNTERS wincall \<Rightarrow> handle \<Rightarrow> goerror + IO_COUNTERS" where
  "GetProcessIoCounters call h = or_fail ''GetProcessIoCounters'' (call [W h, WOut])"

definition GetProcessMemoryInfo :: "PROCESS_MEMORY_COUNTERS_EX wincall \<Rightarrow> handle \<Rightarrow> goerror + PROCESS_MEMORY_COUNTERS_EX" where
  "GetProcessMemoryInfo call h = or_fail ''GetProcessMemoryInfo'' (call [W h, WSized 80, W 80])"

text \<open>
  The path arrives in a buffer of 1024 units with the number written; a larger number would make the slice
  panic, which is \<open>None\<close>.
\<close>

definition QueryFullProcessImageName :: "from16 \<Rightarrow> (u16 list \<times> u32) wincall \<Rightarrow> handle \<Rightarrow> (goerror + gostring) option" where
  "QueryFullProcessImageName from16 call h =
     (case call [W h, W 0, WOut, WSized 1024] of
        (r1, e, buf, written) \<Rightarrow>
          if r1 = 0 then Some (Inl (Errorf ''QueryFullProcessImageNameW: %w'' [FWrap e]))
          else if 1024 < written then None
          else Some (Inr (from16 (take (unat written) buf))))"

definition IsProcessCritical :: "u32 wincall \<Rightarrow> handle \<Rightarrow> goerror + bool" where
  "IsProcessCritical call h = (case or_fail ''IsProcessCritical'' (call [W h, WOut]) of Inl e \<Rightarrow> Inl e | Inr c \<Rightarrow> Inr (c \<noteq> 0))"

definition SetPriorityClass :: "unit wincall \<Rightarrow> handle \<Rightarrow> u32 \<Rightarrow> goerror + unit" where
  "SetPriorityClass call h cls = or_fail ''SetPriorityClass'' (call [W h, W (ucast cls)])"

definition GetPriorityClass :: "unit wincall \<Rightarrow> handle \<Rightarrow> goerror + u32" where
  "GetPriorityClass call h =
     (case call [W h] of
        (r1, e, _) \<Rightarrow>
          if r1 = 0 then Inl (Errorf ''GetPriorityClass: %w'' [FWrap e]) else uintptrToUint32 r1 ''GetPriorityClass'')"

definition SetProcessAffinityMask :: "unit wincall \<Rightarrow> handle \<Rightarrow> u64 \<Rightarrow> goerror + unit" where
  "SetProcessAffinityMask call h affinity = or_fail ''SetProcessAffinityMask'' (call [W h, W affinity])"

definition CreateJobObject :: "unit wincall \<Rightarrow> goerror + handle" where
  "CreateJobObject call =
     (case call [W 0, W 0] of (r1, e, _) \<Rightarrow> if r1 = 0 then Inl (Errorf ''CreateJobObjectW: %w'' [FWrap e]) else Inr r1)"

definition AssignProcessToJobObject :: "unit wincall \<Rightarrow> handle \<Rightarrow> handle \<Rightarrow> goerror + unit" where
  "AssignProcessToJobObject call job p = or_fail ''AssignProcessToJobObject'' (call [W job, W p])"

definition SetInformationJobObject :: "unit wincall \<Rightarrow> handle \<Rightarrow> u32 \<Rightarrow> gostring \<Rightarrow> u32 \<Rightarrow> goerror + unit" where
  "SetInformationJobObject call job infoClass info len =
     or_fail ''SetInformationJobObject'' (call [W job, W (ucast infoClass), WBytes info, W (ucast len)])"

text \<open>
  The two structures \<^verbatim>\<open>Limit\<close> of the controller passes: fields in little-endian order, aligned to their size, the first of
  them embedded in the extended structure.
\<close>

definition put_le :: "nat \<Rightarrow> nat \<Rightarrow> gostring" where
  "put_le n v = map (\<lambda>i. char_of (v div 256 ^ i mod 256)) [0..<n]"

definition put_u32 :: "u32 \<Rightarrow> gostring" where "put_u32 v = put_le 4 (unat v)"
definition put_u64 :: "u64 \<Rightarrow> gostring" where "put_u64 v = put_le 8 (unat v)"

definition basic_bytes :: "JOBOBJECT_BASIC_LIMIT_INFORMATION \<Rightarrow> gostring" where
  "basic_bytes b =
     put_u64 (jb_PerProcessUserTimeLimit b) @ put_u64 (jb_PerJobUserTimeLimit b) @ put_u32 (jb_LimitFlags b) @ put_u32 0 @
     put_u64 (jb_MinimumWorkingSetSize b) @ put_u64 (jb_MaximumWorkingSetSize b) @ put_u32 (jb_ActiveProcessLimit b) @ put_u32 0 @
     put_u64 (jb_Affinity b) @ put_u32 (jb_PriorityClass b) @ put_u32 (jb_SchedulingClass b)"

definition extended_bytes :: "JOBOBJECT_EXTENDED_LIMIT_INFORMATION \<Rightarrow> gostring" where
  "extended_bytes x =
     (let io = je_IoInfo x in
      basic_bytes (je_BasicLimitInformation x) @
      put_u64 (io_ReadOperationCount io) @ put_u64 (io_WriteOperationCount io) @ put_u64 (io_OtherOperationCount io) @
      put_u64 (io_ReadTransferCount io) @ put_u64 (io_WriteTransferCount io) @ put_u64 (io_OtherTransferCount io) @
      put_u64 (je_ProcessMemoryLimit x) @ put_u64 (je_JobMemoryLimit x) @
      put_u64 (je_PeakProcessMemoryUsed x) @ put_u64 (je_PeakJobMemoryUsed x))"

definition rate_bytes :: "JOBOBJECT_CPU_RATE_CONTROL_INFORMATION \<Rightarrow> gostring" where
  "rate_bytes r = put_u32 (jr_ControlFlags r) @ put_u32 (jr_CpuRate r)"

definition memory_info :: "u32 \<Rightarrow> u64 \<Rightarrow> JOBOBJECT_EXTENDED_LIMIT_INFORMATION" where
  "memory_info flags maxBytes =
     \<lparr>je_BasicLimitInformation = \<lparr>jb_PerProcessUserTimeLimit = 0, jb_PerJobUserTimeLimit = 0, jb_LimitFlags = flags,
        jb_MinimumWorkingSetSize = 0, jb_MaximumWorkingSetSize = 0, jb_ActiveProcessLimit = 0, jb_Affinity = 0,
        jb_PriorityClass = 0, jb_SchedulingClass = 0\<rparr>,
      je_IoInfo = zero_io, je_ProcessMemoryLimit = maxBytes, je_JobMemoryLimit = 0, je_PeakProcessMemoryUsed = 0,
      je_PeakJobMemoryUsed = 0\<rparr>"

text \<open>How the oracle's two calls on jobs go through the wrapper.\<close>

fun job_call :: "unit wincall \<Rightarrow> syscall \<Rightarrow> goerror + unit" where
  "job_call call (SysSetMemLimit job flags maxBytes) =
     SetInformationJobObject call job 9 (extended_bytes (memory_info flags maxBytes)) 144"
| "job_call call (SysSetCpuRate job flags rate) =
     SetInformationJobObject call job 15 (rate_bytes \<lparr>jr_ControlFlags = flags, jr_CpuRate = rate\<rparr>) 8"
| "job_call call _ = Inr ()"

lemma length_put [simp]: "length (put_le n v) = n" "length (put_u32 a) = 4" "length (put_u64 b) = 8"
  by (simp_all add: put_le_def put_u32_def put_u64_def)

lemma put_le_Suc: "put_le (Suc n) v = char_of (v mod 256) # put_le n (v div 256)"
  unfolding put_le_def by (simp add: upt_conv_Cons map_Suc_upt [symmetric] div_mult2_eq del: upt_Suc)

lemma foldr_put_le: "foldr (\<lambda>c acc. byte_val c + 256 * acc) (put_le n v) 0 = v mod 256 ^ n"
proof (induction n arbitrary: v)
  case (Suc n)
  have "v mod 256 ^ Suc n = v mod 256 + 256 * (v div 256 mod 256 ^ n)" by (simp add: mod_mult2_eq)
  then show ?case by (simp add: put_le_Suc Suc.IH)
qed (simp add: put_le_def)

lemma get_put:
  "get_u32 (length pre) (pre @ put_u32 a @ post) = a" "get_u64 (length pre) (pre @ put_u64 b @ post) = b"
  using unsigned_less [of a, where ?'a = nat] unsigned_less [of b, where ?'a = nat]
  by (simp_all add: get_u32_def get_u64_def le_bytes_def put_u32_def put_u64_def foldr_put_le)

text \<open>
  What Windows reads from the bytes it is given is what the controller asked for: the structures have the sizes announced,
  and the flags, the cap in bytes and the rate stand where the structures of Windows have them.
\<close>

lemma job_info_read:
  "length (extended_bytes (memory_info flags maxBytes)) = 144 \<and> get_u32 16 (extended_bytes (memory_info flags maxBytes)) = flags \<and>
   get_u64 112 (extended_bytes (memory_info flags maxBytes)) = maxBytes \<and>
   length (rate_bytes r) = 8 \<and> get_u32 0 (rate_bytes r) = jr_ControlFlags r \<and> get_u32 4 (rate_bytes r) = jr_CpuRate r"
proof -
  let ?b = "je_BasicLimitInformation (memory_info flags maxBytes)" and ?x = "extended_bytes (memory_info flags maxBytes)"
  have b: "length (basic_bytes ?b) = 64" by (simp add: basic_bytes_def)
  have "get_u32 (length (put_u64 0 @ put_u64 0)) ((put_u64 0 @ put_u64 0) @ put_u32 flags @ post) = flags" for post by (rule get_put)
  then have "get_u32 16 (put_u64 0 @ put_u64 0 @ put_u32 flags @ post) = flags" for post by simp
  then have "get_u32 16 ?x = flags" by (simp add: extended_bytes_def basic_bytes_def memory_info_def Let_def)
  moreover have "get_u64 (length (basic_bytes ?b @ concat (replicate 6 (put_u64 0))))
      ((basic_bytes ?b @ concat (replicate 6 (put_u64 0))) @ put_u64 maxBytes @ post) = maxBytes" for post by (rule get_put)
  then have "get_u64 112 ?x = maxBytes"
    by (simp add: b extended_bytes_def Let_def numeral_eq_Suc) (simp add: memory_info_def zero_io_def)
  moreover have "get_u32 0 (rate_bytes r) = jr_ControlFlags r" using get_put(1) [of "[]"] by (simp add: rate_bytes_def)
  moreover have "get_u32 4 (rate_bytes r) = jr_CpuRate r"
    using get_put(1) [of "put_u32 (jr_ControlFlags r)" "jr_CpuRate r" "[]"] by (simp add: rate_bytes_def)
  ultimately show ?thesis using b by (simp add: extended_bytes_def rate_bytes_def Let_def)
qed

definition SuspendThread :: "unit wincall \<Rightarrow> handle \<Rightarrow> goerror + u32" where
  "SuspendThread call h =
     (case call [W h] of
        (r1, e, _) \<Rightarrow>
          if r1 = all_ones then Inl (Errorf ''SuspendThread: %w'' [FWrap e]) else uintptrToUint32 r1 ''SuspendThread'')"

definition ResumeThread :: "unit wincall \<Rightarrow> handle \<Rightarrow> goerror + u32" where
  "ResumeThread call h =
     (case call [W h] of
        (r1, e, _) \<Rightarrow>
          if r1 = all_ones then Inl (Errorf ''ResumeThread: %w'' [FWrap e]) else uintptrToUint32 r1 ''ResumeThread'')"

section \<open>Drives\<close>

definition GetDiskFreeSpaceEx :: "to16 \<Rightarrow> (u64 \<times> u64 \<times> u64) wincall \<Rightarrow> gostring \<Rightarrow> goerror + u64 \<times> u64 \<times> u64" where
  "GetDiskFreeSpaceEx to16 call path =
     (case to16 path of
        Inl e \<Rightarrow> Inl e
      | Inr p \<Rightarrow> or_fail ''GetDiskFreeSpaceExW'' (call [WStr p, WOut, WOut, WOut]))"

text \<open>0 is the type of an unknown drive.\<close>

definition GetDriveType :: "to16 \<Rightarrow> unit wincall \<Rightarrow> gostring \<Rightarrow> u32" where
  "GetDriveType to16 call drive =
     (case to16 drive of
        Inl e \<Rightarrow> 0
      | Inr p \<Rightarrow>
          (case call [WStr p] of
             (r1, _, _) \<Rightarrow> (case uintptrToUint32 r1 ''GetDriveTypeW'' of Inl e \<Rightarrow> 0 | Inr t \<Rightarrow> t)))"

definition GetVolumeInformation :: "to16 \<Rightarrow> from16 \<Rightarrow> (u16 list \<times> u16 list) wincall \<Rightarrow> gostring \<Rightarrow> gostring \<times> gostring" where
  "GetVolumeInformation to16 from16 call drive =
     (case to16 drive of
        Inl e \<Rightarrow> ([], [])
      | Inr p \<Rightarrow>
          (case call [WStr p, WOut, W 261, WOut, WOut, WOut, WOut, W 261] of
             (r1, _, label, fs) \<Rightarrow> if r1 = 0 then ([], []) else (from16 label, from16 fs)))"

section \<open>Windows and the shell\<close>

definition int32Param :: "int \<Rightarrow> u64" where "int32Param v = ucast (word_of_int v :: u32)"

definition RegisterClassEx :: "(WNDCLASSEXW \<Rightarrow> u64 \<times> goerror) \<Rightarrow> WNDCLASSEXW \<Rightarrow> goerror + u16" where
  "RegisterClassEx call c =
     (case call (c\<lparr>wc_Size := 80\<rparr>) of
        (r1, e) \<Rightarrow>
          if r1 = 0 then Inl (Errorf ''RegisterClassExW: %w'' [FWrap e])
          else if 65535 < r1 then Inl (Errorf ''RegisterClassExW: class id %d overflows uint16'' [FInt (uint r1)])
          else Inr (ucast r1))"

definition CreateWindowEx ::
  "unit wincall \<Rightarrow> u32 \<Rightarrow> u16 list \<Rightarrow> u16 list \<Rightarrow> u32 \<Rightarrow> int \<times> int \<times> int \<times> int \<Rightarrow> u64 \<Rightarrow> u64 \<Rightarrow> u64 \<Rightarrow> u64 \<Rightarrow> goerror + u64" where
  "CreateWindowEx call exStyle className windowName style rect parent menu inst param =
     (let (x, y, width, height) = rect in
      case call [W (ucast exStyle), WStr className, WStr windowName, W (ucast style), W (int32Param x), W (int32Param y),
                 W (int32Param width), W (int32Param height), W parent, W menu, W inst, W param] of
        (r1, e, _) \<Rightarrow> if r1 = 0 then Inl (Errorf ''CreateWindowExW: %w'' [FWrap e]) else Inr r1)"

definition GetMessage :: "MSG wincall \<Rightarrow> u64 \<Rightarrow> int \<times> MSG" where
  "GetMessage call hwnd =
     (case call [WOut, W hwnd, W 0, W 0] of
        (r1, _, msg) \<Rightarrow> (if r1 = 0 then 0 else if r1 = all_ones then -1 else 1, msg))"

definition AppendMenu :: "to16 \<Rightarrow> unit wincall \<Rightarrow> u64 \<Rightarrow> u64 \<Rightarrow> u64 \<Rightarrow> gostring \<Rightarrow> goerror + unit" where
  "AppendMenu to16 call menu flags idNewItem text =
     (case to16 text of
        Inl e \<Rightarrow> Inl e
      | Inr t \<Rightarrow> or_fail ''AppendMenuW'' (call [W menu, W flags, W idNewItem, WStr t]))"

definition TrackPopupMenu :: "unit wincall \<Rightarrow> u64 \<Rightarrow> u32 \<Rightarrow> int \<Rightarrow> int \<Rightarrow> u64 \<Rightarrow> u64" where
  "TrackPopupMenu call menu flags x y hwnd =
     fst (call [W menu, W (ucast flags), W (int32Param x), W (int32Param y), W 0, W hwnd, W 0])"

definition GetCursorPos :: "POINT wincall \<Rightarrow> POINT \<times> goerror option" where
  "GetCursorPos call =
     (case call [WOut] of
        (r1, e, pt) \<Rightarrow> (pt, if r1 = 0 then Some (Errorf ''GetCursorPos: %w'' [FWrap e]) else None))"

text \<open>The calls whose answer is taken as it is, and those nobody looks at the answer of: these are the calls they make.\<close>

definition DefWindowProc :: "unit wincall \<Rightarrow> u64 \<Rightarrow> u64 \<Rightarrow> u64 \<Rightarrow> u64 \<Rightarrow> u64" where
  "DefWindowProc call hwnd msg wParam lParam = fst (call [W hwnd, W msg, W wParam, W lParam])"

definition DispatchMessage :: "unit wincall \<Rightarrow> warg \<Rightarrow> u64" where "DispatchMessage call msg = fst (call [msg])"

definition CreatePopupMenu :: "unit wincall \<Rightarrow> u64" where "CreatePopupMenu call = fst (call [])"

definition LoadIcon :: "unit wincall \<Rightarrow> u64 \<Rightarrow> u64" where "LoadIcon call name = fst (call [W 0, W name])"

definition LoadCursor :: "unit wincall \<Rightarrow> u64 \<Rightarrow> u64" where "LoadCursor call name = fst (call [W 0, W name])"

definition DestroyWindow :: "u64 \<Rightarrow> warg list list" where "DestroyWindow hwnd = [[W hwnd]]"

definition TranslateMessage :: "warg \<Rightarrow> warg list list" where "TranslateMessage msg = [[msg]]"

definition PostQuitMessage :: "int \<Rightarrow> warg list list" where "PostQuitMessage exitCode = [[W (int32Param exitCode)]]"

definition PostMessage :: "u64 \<Rightarrow> u32 \<Rightarrow> u64 \<Rightarrow> u64 \<Rightarrow> warg list list" where
  "PostMessage hwnd msg wParam lParam = [[W hwnd, W (ucast msg), W wParam, W lParam]]"

definition DestroyMenu :: "u64 \<Rightarrow> warg list list" where "DestroyMenu menu = [[W menu]]"

definition SetForegroundWindow :: "u64 \<Rightarrow> warg list list" where "SetForegroundWindow hwnd = [[W hwnd]]"

definition utf16PtrOrNil :: "to16 \<Rightarrow> gostring \<Rightarrow> warg" where
  "utf16PtrOrNil to16 s = (if s = [] then WNull else (case to16 s of Inl e \<Rightarrow> WNull | Inr p \<Rightarrow> WStr p))"

text \<open>Results up to 32 are failures.\<close>

definition ShellExecute :: "to16 \<Rightarrow> unit wincall \<Rightarrow> gostring \<Rightarrow> gostring \<Rightarrow> gostring \<Rightarrow> gostring \<Rightarrow> int \<Rightarrow> goerror option" where
  "ShellExecute to16 call verb target params dir show_cmd =
     (case to16 target of
        Inl e \<Rightarrow> Some e
      | Inr p \<Rightarrow>
          (case call [W 0, utf16PtrOrNil to16 verb, WStr p, utf16PtrOrNil to16 params, utf16PtrOrNil to16 dir,
                      W (int32Param show_cmd)] of
             (r1, e, _) \<Rightarrow>
               if r1 \<le> 32 then Some (Errorf ''ShellExecuteW: code %d (%w)'' [FInt (uint r1), FWrap e]) else None))"

section \<open>The registry\<close>

text \<open>
  A key is opened, one value is read and the key is closed when the function returns. The list holds the keys
  that are open.
\<close>

definition with_key ::
  "to16 \<Rightarrow> u64 wincall \<Rightarrow> u64 \<Rightarrow> gostring \<Rightarrow> (u64 \<Rightarrow> goerror + 'v) \<Rightarrow> u64 list \<Rightarrow> u64 list \<times> (goerror + 'v)" where
  "with_key to16 call rootKey subKey body keys =
     (case to16 subKey of
        Inl e \<Rightarrow> (keys, Inl e)
      | Inr p \<Rightarrow>
          (case call [W rootKey, WStr p, W 0, W 0x20019, WOut] of
             (r1, e, hKey) \<Rightarrow>
               if r1 \<noteq> 0 then (keys, Inl e)
               else (let keys = hKey # keys; res = body hKey in (remove1 hKey keys, res))))"

definition query_key :: "to16 \<Rightarrow> 'v wincall \<Rightarrow> u32 \<Rightarrow> gostring \<Rightarrow> u64 \<Rightarrow> goerror + 'v" where
  "query_key to16 call bufSize name hKey =
     (case to16 name of
        Inl e \<Rightarrow> Inl e
      | Inr v \<Rightarrow>
          (case call [W hKey, WStr v, W 0, WOut, WOut, WSized bufSize] of
             (r1, e, data) \<Rightarrow> if r1 \<noteq> 0 then Inl e else Inr data))"

definition RegReadString ::
  "to16 \<Rightarrow> from16 \<Rightarrow> u64 wincall \<Rightarrow> u16 list wincall \<Rightarrow> u64 \<Rightarrow> gostring \<Rightarrow> gostring \<Rightarrow> u64 list \<Rightarrow> u64 list \<times> (goerror + gostring)" where
  "RegReadString to16 from16 opened query rootKey subKey name =
     with_key to16 opened rootKey subKey
       (\<lambda>hKey. case query_key to16 query 1024 name hKey of Inl e \<Rightarrow> Inl e | Inr buf \<Rightarrow> Inr (from16 (take 512 buf)))"

definition RegReadDWORD ::
  "to16 \<Rightarrow> u64 wincall \<Rightarrow> u32 wincall \<Rightarrow> u64 \<Rightarrow> gostring \<Rightarrow> gostring \<Rightarrow> u64 list \<Rightarrow> u64 list \<times> (goerror + u32)" where
  "RegReadDWORD to16 opened query rootKey subKey name = with_key to16 opened rootKey subKey (query_key to16 query 4 name)"

definition RegReadQWORD ::
  "to16 \<Rightarrow> u64 wincall \<Rightarrow> u64 wincall \<Rightarrow> u64 \<Rightarrow> gostring \<Rightarrow> gostring \<Rightarrow> u64 list \<Rightarrow> u64 list \<times> (goerror + u64)" where
  "RegReadQWORD to16 opened query rootKey subKey name = with_key to16 opened rootKey subKey (query_key to16 query 8 name)"

lemma with_key_closes: "fst (with_key to16 call rootKey subKey body keys) = keys"
  by (simp add: with_key_def Let_def split: sum.split prod.split)

section \<open>Performance counters\<close>

definition pdhError :: "gostring \<Rightarrow> u64 \<Rightarrow> goerror option" where
  "pdhError op status = (if status = 0 then None else Some (Errorf ''%s: 0x%08X'' [FStr op, FInt (uint status)]))"

definition OpenPdhQuery :: "u64 wincall \<Rightarrow> goerror + u64" where
  "OpenPdhQuery call =
     (case call [W 0, W 0, WOut] of
        (r1, _, query) \<Rightarrow> (case pdhError ''PdhOpenQueryW'' r1 of Some e \<Rightarrow> Inl e | None \<Rightarrow> Inr query))"

definition ClosePdhQuery :: "u64 \<Rightarrow> warg list list" where
  "ClosePdhQuery q = (if q = 0 then [] else [[W q]])"

definition AddEnglishCounter :: "to16 \<Rightarrow> u64 wincall \<Rightarrow> u64 \<Rightarrow> gostring \<Rightarrow> goerror + u64" where
  "AddEnglishCounter to16 call query path =
     (case to16 path of
        Inl e \<Rightarrow> Inl e
      | Inr p \<Rightarrow>
          (case call [W query, WStr p, W 0, WOut] of
             (r1, _, counter) \<Rightarrow> (case pdhError ''PdhAddEnglishCounterW'' r1 of Some e \<Rightarrow> Inl e | None \<Rightarrow> Inr counter)))"

definition CollectQueryData :: "unit wincall \<Rightarrow> u64 \<Rightarrow> goerror option" where
  "CollectQueryData call query = (case call [W query] of (r1, _, _) \<Rightarrow> pdhError ''PdhCollectQueryData'' r1)"

text \<open>An item has the name of an instance, a status and a reading; items without a name or with a status are skipped.\<close>

type_synonym pdh_item = "u16 list option \<times> u32 \<times> f64"

definition item_values :: "from16 \<Rightarrow> pdh_item list \<Rightarrow> (gostring, f64) gomap" where
  "item_values from16 items =
     fold (\<lambda>(name, status, v) m.
             case name of None \<Rightarrow> m | Some n \<Rightarrow> if status \<noteq> 0 then m else mput (from16 n) v m)
       items []"

definition GetFormattedCounterArrayDouble ::
  "from16 \<Rightarrow> (u32 \<times> u32) wincall \<Rightarrow> (u32 \<times> pdh_item list) wincall \<Rightarrow> u64 \<Rightarrow> goerror + (gostring, f64) gomap" where
  "GetFormattedCounterArrayDouble from16 ask fill counter =
     (case ask [W counter, W 0x200, WSized 0, WSized 0, W 0] of
        (r1, _, bufSize, itemCount) \<Rightarrow>
          if r1 \<noteq> 0x800007D2 \<and> r1 \<noteq> 0
          then (case pdhError ''PdhGetFormattedCounterArrayW(size)'' r1 of Some e \<Rightarrow> Inl e | None \<Rightarrow> Inr [])
          else if bufSize = 0 \<or> itemCount = 0 then Inr []
          else
            (case fill [W counter, W 0x200, WSized bufSize, WSized itemCount, WOut] of
               (r1, _, n, items) \<Rightarrow>
                 (case pdhError ''PdhGetFormattedCounterArrayW(data)'' r1 of
                    Some e \<Rightarrow> Inl e
                  | None \<Rightarrow> Inr (item_values from16 (take (unat n) items)))))"

section \<open>Failures that are not seen\<close>

text \<open>
  A function of Windows that returns a 32-bit word leaves the upper half of the register zero, so no answer of
  \<^verbatim>\<open>SuspendThread\<close> and \<^verbatim>\<open>ResumeThread\<close> is ever equal to 64 ones, not even their failure, 32 ones.
\<close>

lemma word_fits:
  "(ucast (d :: u32) :: u64) \<le> 4294967295" "(ucast (d :: u32) :: u64) \<noteq> all_ones" "(ucast (ucast (d :: u32) :: u64) :: u32) = d"
proof -
  have t: "take_bit 64 (unat d) = unat d" "take_bit 32 (unat d) = unat d"
    using unat_u32_less [of d] by (simp_all add: take_bit_nat_eq_self)
  have u: "unat (ucast d :: u64) = unat d" using t(1) by (simp add: unsigned_ucast_eq flip: unsigned_take_bit_eq)
  then have "unat (ucast (ucast d :: u64) :: u32) = unat d"
    using u t(2) by (simp add: unsigned_ucast_eq flip: unsigned_take_bit_eq)
  then show "(ucast (ucast d :: u64) :: u32) = d" by (simp add: word_unat_eq_iff)
  have "unat (ucast d :: u64) \<le> 4294967295" using u unat_u32_less [of d] by simp
  then show "(ucast d :: u64) \<le> 4294967295" by (simp add: word_le_nat_alt)
  then show "(ucast d :: u64) \<noteq> all_ones" by (auto simp: all_ones_def)
qed

lemma SuspendThread_word:
  "SuspendThread (\<lambda>_. (ucast (d :: u32), e, ())) h = Inr d" "ResumeThread (\<lambda>_. (ucast (d :: u32), e, ())) h = Inr d"
  using word_fits [of d] by (simp_all add: SuspendThread_def ResumeThread_def uintptrToUint32_def not_less)

definition error_of :: "goerror + 'v \<Rightarrow> goerror option" where
  "error_of res = (case res of Inl e \<Rightarrow> Some e | Inr _ \<Rightarrow> None)"

text \<open>Windows answering the calls on threads with 32-bit words, through the wrappers.\<close>

definition through_wrappers :: "os \<Rightarrow> (syscall list \<Rightarrow> handle \<Rightarrow> u32) \<Rightarrow> goerror \<Rightarrow> bool" where
  "through_wrappers os status e \<longleftrightarrow>
     (\<forall>t h. os_unit os t (SysSuspendThread h) = error_of (SuspendThread (\<lambda>_. (ucast (status t h), e, ())) h) \<and>
            os_unit os t (SysResumeThread h) = error_of (ResumeThread (\<lambda>_. (ucast (status t h), e, ())) h))"

lemma wrapped_threads:
  assumes "through_wrappers os status e"
  shows "os_unit os t (if b then SysSuspendThread h else SysResumeThread h) = None"
  using assms by (simp add: through_wrappers_def SuspendThread_word error_of_def)

lemma thread_walk_unseen:
  assumes "through_wrappers os status e" "\<forall>t call. \<exists>h. os_handle os t call = Inr h"
  shows "\<exists>w'. thread_walk os p b snap threads w n None = (w', n + length (filter (\<lambda>(owner, _). owner = p) threads), None) \<and>
    w_events w' = w_events w"
proof (induction threads arbitrary: w n)
  case (Cons th ts)
  obtain owner tid where th: "th = (owner, tid)" by (cases th)
  show ?case
  proof (cases "owner = p")
    case True
    obtain h where h: "os_handle os (w_trace w) (SysOpenThread THREAD_SUSPEND_RESUME tid) = Inr h" using assms(2) by blast
    let ?w1 = "(log_call (SysOpenThread THREAD_SUSPEND_RESUME tid) w)\<lparr>w_open := h # w_open w\<rparr>"
    let ?w2 = "sys_close h (log_call (if b then SysSuspendThread h else SysResumeThread h) ?w1)"
    have "thread_walk os p b snap (th # ts) w n None = thread_walk os p b snap ts (log_call (SysThreadNext snap) ?w2) (n + 1) None"
      using True wrapped_threads [OF assms(1)] by (simp add: th h sys_open_def sys_do_def)
    moreover have "w_events (log_call (SysThreadNext snap) ?w2) = w_events w" by (simp add: log_call_def sys_close_def)
    ultimately show ?thesis using Cons.IH [of "log_call (SysThreadNext snap) ?w2" "n + 1"] True by (auto simp: th)
  next
    case False
    then show ?thesis using Cons.IH [of "log_call (SysThreadNext snap) w" n] by (simp add: th log_call_def)
  qed
qed simp

text \<open>
  C35. On 64-bit Windows a suspension that fails for every thread of the process is reported as a success: whatever
  words \<^verbatim>\<open>SuspendThread\<close> returns, once the policy has cleared the process, its threads are listed and they can be
  opened, \<open>Suspend\<close> returns no error and publishes that the process was suspended.
\<close>

theorem suspend_failures_unseen:
  assumes wrapped: "through_wrappers os status e" and cleared: "guard os c p confirm w = (w1, Inr info)"
    and opens: "\<forall>t call. \<exists>h. os_handle os t call = Inr h"
    and threads: "\<forall>t. os_threads os t = (threads, ERROR_NO_MORE_FILES)" "p \<in> fst ` set threads"
  shows "\<exists>w'. Suspend os c p confirm w = (w', None) \<and>
    (ct_emitter c \<longrightarrow> CtlEvent ''controller.suspended'' p [(''name'', PStr (p_Name info))] \<in> set (w_events w'))"
proof -
  obtain snap where snap: "os_handle os (w_trace w1) (SysSnapshot 4) = Inr snap" using opens by blast
  let ?w2 = "log_call (SysThreadFirst snap) ((log_call (SysSnapshot 4) w1)\<lparr>w_open := snap # w_open w1\<rparr>)"
  have n: "filter (\<lambda>(owner, _). owner = p) threads \<noteq> []" "threads \<noteq> []" using threads(2) by (auto simp: filter_empty_conv)
  obtain w3 where w3: "thread_walk os p True snap threads ?w2 0 None = (w3, length (filter (\<lambda>(owner, _). owner = p) threads), None)"
    using thread_walk_unseen [OF wrapped opens, of p True snap threads ?w2 0] by auto
  have "suspendOrResumeThreads os p True w1 = (sys_close snap w3, None)"
    using n w3 by (simp add: suspendOrResumeThreads_def sys_open_def snap threads(1) errors_Is_def ERROR_NO_MORE_FILES_def)
  then show ?thesis by (simp add: Suspend_def cleared ctl_emit_def)
qed

text \<open>Every call on a thread fails here.\<close>

theorem suspend_failures_unseen_witness:
  "\<exists>w'. through_wrappers (demo_os [app_proc] [(8000, 5)]) (\<lambda>_ _. 0xFFFFFFFF) (ErrSys ''denied'') \<and>
     Suspend (demo_os [app_proc] [(8000, 5)]) demo_controller 8000 False world0 = (w', None)"
proof -
  let ?os = "demo_os [app_proc] [(8000, 5)]"
  have w: "through_wrappers ?os (\<lambda>_ _. 0xFFFFFFFF) (ErrSys ''denied'')"
    unfolding through_wrappers_def SuspendThread_word by (simp add: error_of_def)
  have "p_PID app_proc = 8000" by (simp add: app_proc_def)
  then have g: "guard ?os demo_controller 8000 False world0 = (log_call SysLatest world0, Inr app_proc)"
    by (simp add: guard_def ctl_findProcess_def read_latest_def)
  show ?thesis using suspend_failures_unseen [OF w g, of "[(8000, 5)]"] w by auto
qed

end
