(* ===== verification/Tray.thy ===== *)
theory Tray
  imports WinCalls Steps
begin

text \<open>
  \<^verbatim>\<open>internal/tray/tray.go\<close>: the icon in the notification area, its menu and the balloons. The state holds the icon's structure,
  which Windows reads on every change, and the calls made so far. \<open>StringToUTF16\<close> panics on a zero byte, so
  \<open>utf16\<close> returns an option. Handlers of alerts run at once: a handler reads the
  configuration and the time of the last balloon in one critical section, notes the time in a second and
  shows the balloon in a third, which are three steps here.
\<close>

section \<open>Fixed buffers\<close>

type_synonym to_utf16 = "gostring \<Rightarrow> u16 list option"

text \<open>The text cut to the buffer, the last unit kept for the terminator.\<close>

definition copyToFixed :: "to_utf16 \<Rightarrow> u16 list \<Rightarrow> gostring \<Rightarrow> u16 list option" where
  "copyToFixed utf16 dst s =
     (if dst = [] then Some dst
      else
        (case utf16 s of
           None \<Rightarrow> None
         | Some src \<Rightarrow>
             (let limit = length dst - 1 in
              if limit < length src then Some (take limit src @ [0])
              else Some (src @ drop (length src) dst))))"

text \<open>\<^verbatim>\<open>SetTipString\<close> of \<^verbatim>\<open>internal/winapi/shell32.go\<close>.\<close>

definition SetTipString :: "to_utf16 \<Rightarrow> u16 list \<Rightarrow> gostring \<Rightarrow> u16 list option" where
  "SetTipString utf16 dst s =
     (case utf16 s of
        None \<Rightarrow> None
      | Some src \<Rightarrow>
          (let n = min (length src) (length dst); dst = take n src @ drop n dst
           in Some (if n < length dst then dst[n - 1 := 0] else dst)))"

text \<open>What Windows reads of a buffer: the units up to the first zero. A buffer without one is read beyond its end.\<close>

definition terminated :: "u16 list \<Rightarrow> bool" where "terminated buf \<longleftrightarrow> 0 \<in> set buf"

definition units :: "u16 list \<Rightarrow> u16 list" where "units buf = takeWhile (\<lambda>c. c \<noteq> 0) buf"

text \<open>\<^verbatim>\<open>StringToUTF16\<close> appends a zero, and refuses texts that hold one.\<close>

definition nul_ended :: "to_utf16 \<Rightarrow> bool" where
  "nul_ended utf16 \<longleftrightarrow> (\<forall>s src. utf16 s = Some src \<longrightarrow> (\<exists>u. src = u @ [0] \<and> 0 \<notin> set u))"

lemma units_append_nul: "0 \<notin> set u \<Longrightarrow> units (u @ 0 # rest) = u"
  unfolding units_def by (induction u) auto

lemma copyToFixed_length: "copyToFixed utf16 dst s = Some dst' \<Longrightarrow> length dst' = length dst"
  by (auto simp: copyToFixed_def Let_def split: if_splits option.splits)

lemma copyToFixed_units:
  assumes "nul_ended utf16" "copyToFixed utf16 dst s = Some dst'" "dst \<noteq> []"
  obtains u where "utf16 s = Some (u @ [0])" "0 \<notin> set u" "units dst' = take (length dst - 1) u" "terminated dst'"
proof -
  obtain src where src: "utf16 s = Some src" using assms by (auto simp: copyToFixed_def split: option.splits)
  then obtain u where u: "src = u @ [0]" "0 \<notin> set u" using assms(1) unfolding nul_ended_def by blast
  let ?limit = "length dst - 1"
  show ?thesis
  proof (cases "?limit < length src")
    case True
    then have len: "?limit \<le> length u" by (simp add: u(1))
    then have d: "dst' = take ?limit u @ 0 # []" using assms(2,3) True by (simp add: copyToFixed_def src u(1))
    have "0 \<notin> set (take ?limit u)" using u(2) in_set_takeD by metis
    then have "units dst' = take ?limit u" by (simp add: d units_append_nul)
    then show ?thesis using that u src by (simp add: d terminated_def)
  next
    case False
    then have d: "dst' = u @ 0 # drop (length src) dst" using assms(2,3) by (simp add: copyToFixed_def src u(1))
    have "length u \<le> ?limit" using False by (simp add: u(1))
    then have "units dst' = take ?limit u" using u(2) by (simp add: d units_append_nul)
    then show ?thesis using that u src by (simp add: d terminated_def)
  qed
qed

lemma SetTipString_fits:
  assumes "nul_ended utf16" "utf16 s = Some src" "length src \<le> length dst"
  shows "\<exists>dst'. SetTipString utf16 dst s = Some dst' \<and> length dst' = length dst \<and> terminated dst'"
proof -
  obtain u where u: "src = u @ [0]" using assms(1,2) unfolding nul_ended_def by blast
  have "(u @ 0 # drop (length src) dst)[length u := 0] = u @ 0 # drop (length src) dst" by simp
  then show ?thesis using assms(2,3) by (auto simp: SetTipString_def Let_def u terminated_def)
qed

text \<open>A longer text leaves the buffer without a terminator.\<close>

lemma SetTipString_overflow:
  assumes "nul_ended utf16" "utf16 s = Some src" "length dst < length src"
  shows "\<exists>dst'. SetTipString utf16 dst s = Some dst' \<and> \<not> terminated dst'"
proof -
  obtain u where u: "src = u @ [0]" "0 \<notin> set u" using assms(1,2) unfolding nul_ended_def by blast
  have "0 \<notin> set (take (length dst) u)" using u(2) in_set_takeD by metis
  then show ?thesis using assms(2,3) by (auto simp: SetTipString_def Let_def u(1) terminated_def)
qed

section \<open>The icon\<close>

record NOTIFYICONDATAW =
  ni_Size :: u32
  ni_Wnd :: u64
  ni_ID :: u32
  ni_Flags :: u32
  ni_CallbackMessage :: u32
  ni_Icon :: u64
  ni_Tip :: "u16 list"
  ni_State :: u32
  ni_StateMask :: u32
  ni_Info :: "u16 list"
  ni_Union :: u32
  ni_InfoTitle :: "u16 list"
  ni_InfoFlags :: u32
  ni_GuidItem :: gostring
  ni_BalloonIcon :: u64

definition zero_nid :: NOTIFYICONDATAW where
  "zero_nid = \<lparr>ni_Size = 0, ni_Wnd = 0, ni_ID = 0, ni_Flags = 0, ni_CallbackMessage = 0, ni_Icon = 0, ni_Tip = replicate 128 0,
     ni_State = 0, ni_StateMask = 0, ni_Info = replicate 256 0, ni_Union = 0, ni_InfoTitle = replicate 64 0, ni_InfoFlags = 0,
     ni_GuidItem = replicate 16 (char_of (0 :: nat)), ni_BalloonIcon = 0\<rparr>"

datatype tray_call =
    CNotify u32 NOTIFYICONDATAW
  | CShell gostring
  | CPost u64 u32 u64 u64
  | CPostQuit
  | COnQuit
  | CAppend u64 u64 u64 gostring
  | CForeground u64
  | CDestroyMenu u64
  | CDestroyWindow u64
  | CDefault u64 u64 u64 u64

record Tray =
  ty_cfg :: Config
  ty_dashURL :: gostring
  ty_configPath :: gostring
  ty_onQuit :: bool
  ty_emitter :: bool
  ty_hwnd :: u64
  ty_nid :: NOTIFYICONDATAW
  ty_lastBalloon :: gotime
  ty_calls :: "tray_call list"

text \<open>What Windows answers: the wrappers' results, which of the menu's items is chosen, and the clock.\<close>

record tray_env =
  tv_utf16 :: to_utf16
  tv_class :: "goerror option"
  tv_module :: "goerror + u64"
  tv_register :: "goerror option"
  tv_window :: "goerror + u64"
  tv_icon :: u64
  tv_notify :: "u32 \<Rightarrow> NOTIFYICONDATAW \<Rightarrow> goerror option"
  tv_menu :: u64
  tv_track :: u64
  tv_default :: u64

definition NewTray :: "Config \<Rightarrow> gostring \<Rightarrow> gostring \<Rightarrow> bool \<Rightarrow> bool \<Rightarrow> Tray" where
  "NewTray cfg dashboardURL configPath emitter onQuit =
     \<lparr>ty_cfg = cfg, ty_dashURL = dashboardURL, ty_configPath = configPath, ty_onQuit = onQuit, ty_emitter = emitter,
      ty_hwnd = 0, ty_nid = zero_nid, ty_lastBalloon = zero_time, ty_calls = []\<rparr>"

definition Tray_SetConfig :: "Config \<Rightarrow> Tray \<Rightarrow> Tray" where "Tray_SetConfig cfg t = t\<lparr>ty_cfg := cfg\<rparr>"

definition tray_call :: "tray_call \<Rightarrow> Tray \<Rightarrow> Tray" where "tray_call c t = t\<lparr>ty_calls := ty_calls t @ [c]\<rparr>"

text \<open>\<^verbatim>\<open>ShellNotifyIcon\<close> stamps the size of the structure, 976 bytes, before the call.\<close>

definition ShellNotifyIcon :: "tray_env \<Rightarrow> u32 \<Rightarrow> Tray \<Rightarrow> Tray \<times> goerror option" where
  "ShellNotifyIcon env message t =
     (let nid = (ty_nid t)\<lparr>ni_Size := 976\<rparr>; t = t\<lparr>ty_nid := nid\<rparr>
      in (tray_call (CNotify message nid) t, tv_notify env message nid))"

definition Stop :: "Tray \<Rightarrow> Tray" where
  "Stop t = (if ty_hwnd t \<noteq> 0 then tray_call (CPost (ty_hwnd t) 0x12 0 0) t else t)"

definition create :: "tray_env \<Rightarrow> Tray \<Rightarrow> (Tray \<times> goerror option) option" where
  "create env t =
     (case tv_class env of
        Some e \<Rightarrow> Some (t, Some e)
      | None \<Rightarrow>
     (case tv_module env of
        Inl e \<Rightarrow> Some (t, Some e)
      | Inr hInstance \<Rightarrow>
     (case tv_register env of
        Some e \<Rightarrow> Some (t, Some e)
      | None \<Rightarrow>
     (case tv_window env of
        Inl e \<Rightarrow> Some (t, Some e)
      | Inr hwnd \<Rightarrow>
          (let nid = zero_nid\<lparr>ni_Wnd := hwnd, ni_ID := 1, ni_Flags := 0x7, ni_CallbackMessage := 0x401, ni_Icon := tv_icon env\<rparr>
           in case SetTipString (tv_utf16 env) (ni_Tip nid) ''Windows Task Manager'' of
                None \<Rightarrow> None
              | Some tip \<Rightarrow>
                  (case ShellNotifyIcon env 0 (t\<lparr>ty_hwnd := hwnd, ty_nid := nid\<lparr>ni_Tip := tip\<rparr>\<rparr>) of
                     (t, Some e) \<Rightarrow> Some (t, Some (Errorf ''tray: NIM_ADD: %w'' [FWrap e]))
                   | (t, None) \<Rightarrow> Some (t, None)))))))"

definition destroy :: "tray_env \<Rightarrow> Tray \<Rightarrow> Tray" where
  "destroy env t =
     (if ty_hwnd t = 0 then t
      else (tray_call (CDestroyWindow (ty_hwnd t)) (fst (ShellNotifyIcon env 2 t)))\<lparr>ty_hwnd := 0\<rparr>)"

section \<open>Messages\<close>

definition lowWordUint32 :: "u64 \<Rightarrow> u32" where "lowWordUint32 v = ucast (v AND 0xFFFFFFFF)"

definition openDashboard :: "Tray \<Rightarrow> Tray" where "openDashboard t = tray_call (CShell (ty_dashURL t)) t"

definition openConfig :: "Tray \<Rightarrow> Tray" where
  "openConfig t = (if ty_configPath t = [] then t else tray_call (CShell (ty_configPath t)) t)"

definition tray_quit :: "Tray \<Rightarrow> Tray" where
  "tray_quit t = tray_call CPostQuit (if ty_onQuit t then tray_call COnQuit t else t)"

definition showMenu :: "tray_env \<Rightarrow> Tray \<Rightarrow> Tray" where
  "showMenu env t =
     (let menu = tv_menu env in
      if menu = 0 then t
      else
        (let t = fold tray_call
               [CAppend menu 0 1001 ''Open Dashboard'', CAppend menu 0 1002 ''Open Config Folder'', CAppend menu 0x800 0 [],
                CAppend menu 0 1099 ''Quit'', CForeground (ty_hwnd t)] t;
             t = (if tv_track env \<noteq> 0 then tray_call (CPost (ty_hwnd t) 0x111 (tv_track env) 0) t else t)
         in tray_call (CDestroyMenu menu) t))"

definition wndProc :: "tray_env \<Rightarrow> u64 \<Rightarrow> u64 \<Rightarrow> u64 \<Rightarrow> u64 \<Rightarrow> Tray \<Rightarrow> Tray \<times> u64" where
  "wndProc env hwnd msg wParam lParam t =
     (let m = lowWordUint32 msg in
      if m = 0x401 then
        (let l = lowWordUint32 lParam in
         (if l = 0x203 \<or> l = 0x202 then openDashboard t else if l = 0x205 then showMenu env t else t, 0))
      else if m = 0x111 then
        (let item = wParam AND 0xFFFF in
         (if item = 1001 then openDashboard t else if item = 1002 then openConfig t
          else if item = 1099 then tray_quit t else t, 0))
      else if m = 0x2 then (tray_call CPostQuit t, 0)
      else (tray_call (CDefault hwnd msg wParam lParam) t, tv_default env))"

text \<open>
  The loop over the messages that arrive, each with the result of \<^verbatim>\<open>GetMessage\<close>: a result of 0 or -1 ends it.
  The result of \<open>create\<close> is \<open>None\<close> when it panics. After the loop the icon is taken away; an error of \<open>create\<close>
  returns before that is arranged.
\<close>

fun message_loop :: "tray_env \<Rightarrow> (int \<times> u64 \<times> u64 \<times> u64 \<times> u64) list \<Rightarrow> Tray \<Rightarrow> Tray \<times> bool" where
  "message_loop env [] t = (t, False)"
| "message_loop env ((ret, hwnd, msg, wParam, lParam) # ms) t =
     (if ret = 0 \<or> ret = -1 then (t, True)
      else message_loop env ms (fst (wndProc env hwnd msg wParam lParam t)))"

definition Tray_Run :: "tray_env \<Rightarrow> (int \<times> u64 \<times> u64 \<times> u64 \<times> u64) list \<Rightarrow> Tray \<Rightarrow> (Tray \<times> bool) option" where
  "Tray_Run env messages t =
     (case create env t of
        None \<Rightarrow> None
      | Some (t, Some e) \<Rightarrow> Some (t, True)
      | Some (t, None) \<Rightarrow>
          (case message_loop env messages t of
             (t, finished) \<Rightarrow> Some (if finished then destroy env t else t, finished)))"

section \<open>Balloons\<close>

definition severity_rank :: "gostring \<Rightarrow> nat" where
  "severity_rank x = (if x = ''info'' then 0 else if x = ''warning'' then 1 else if x = ''critical'' then 2 else 0)"

definition severityAtLeast :: "gostring \<Rightarrow> gostring \<Rightarrow> bool" where
  "severityAtLeast s threshold \<longleftrightarrow> severity_rank threshold \<le> severity_rank s"

definition balloonIcon :: "gostring \<Rightarrow> u32" where
  "balloonIcon s = (if s = SeverityCritical then 3 else if s = SeverityWarning then 2 else 1)"

text \<open>
  The texts are copied one after the other; a panic of either leaves what was written before. The second
  component says whether it panicked.
\<close>

definition showBalloon :: "tray_env \<Rightarrow> gostring \<Rightarrow> gostring \<Rightarrow> u32 \<Rightarrow> Tray \<Rightarrow> Tray \<times> bool" where
  "showBalloon env title body icon t =
     (let nid = (ty_nid t)\<lparr>ni_Flags := ni_Flags (ty_nid t) OR 0x10, ni_InfoFlags := icon\<rparr> in
      case copyToFixed (tv_utf16 env) (ni_InfoTitle nid) title of
        None \<Rightarrow> (t\<lparr>ty_nid := nid\<rparr>, True)
      | Some ti \<Rightarrow>
          (let nid = nid\<lparr>ni_InfoTitle := ti\<rparr> in
           case copyToFixed (tv_utf16 env) (ni_Info nid) body of
             None \<Rightarrow> (t\<lparr>ty_nid := nid\<rparr>, True)
           | Some bo \<Rightarrow> (fst (ShellNotifyIcon env 1 (t\<lparr>ty_nid := nid\<lparr>ni_Info := bo\<rparr>\<rparr>)), False)))"

text \<open>The first section of the handler: does this alert get a balloon?\<close>

definition wants_balloon :: "gotime \<Rightarrow> Alert \<Rightarrow> Tray \<Rightarrow> bool" where
  "wants_balloon now alert t \<longleftrightarrow>
     (let n = c_Notifications (ty_cfg t) in
      no_TrayBalloon n \<and> severityAtLeast (al_Severity alert) (no_BalloonMinSeverity n) \<and>
      \<not> t_sub now (ty_lastBalloon t) < no_BalloonRateLimit n)"

definition mark_balloon :: "gotime \<Rightarrow> Tray \<Rightarrow> Tray" where "mark_balloon now t = t\<lparr>ty_lastBalloon := now\<rparr>"

definition show_alert :: "tray_env \<Rightarrow> Alert \<Rightarrow> Tray \<Rightarrow> Tray \<times> bool" where
  "show_alert env alert t = showBalloon env (al_Title alert) (al_Description alert) (balloonIcon (al_Severity alert)) t"

text \<open>The handler when nothing runs in between; \<open>now2\<close> is the second reading of the clock.\<close>

definition handleAlert :: "tray_env \<Rightarrow> gotime \<Rightarrow> gotime \<Rightarrow> Alert \<Rightarrow> Tray \<Rightarrow> Tray" where
  "handleAlert env now1 now2 alert t =
     (if wants_balloon now1 alert t then fst (show_alert env alert (mark_balloon now2 t)) else t)"

section \<open>Alerts and messages interleaved\<close>

text \<open>
  The tray and the handlers under way: those that decided to show their alert, and those that have also noted the time.
\<close>

type_synonym tray_state = "Tray \<times> Alert list \<times> Alert list"

inductive tray_step :: "tray_state \<Rightarrow> tray_state \<Rightarrow> bool" where
  handler_decides: "wants_balloon now alert t \<Longrightarrow> tray_step (t, decided, marked) (t, decided @ [alert], marked)"
| handler_marks: "alert \<in> set decided \<Longrightarrow>
    tray_step (t, decided, marked) (mark_balloon now t, remove1 alert decided, marked @ [alert])"
| handler_shows: "alert \<in> set marked \<Longrightarrow> nul_ended (tv_utf16 env) \<Longrightarrow>
    tray_step (t, decided, marked) (fst (show_alert env alert t), decided, remove1 alert marked)"
| tray_config: "tray_step (t, decided, marked) (Tray_SetConfig cfg t, decided, marked)"
| tray_message: "tray_step (t, decided, marked) (fst (wndProc env hwnd msg wParam lParam t), decided, marked)"
| tray_stop: "tray_step (t, decided, marked) (Stop t, decided, marked)"
| tray_destroy: "tray_step (t, decided, marked) (destroy env t, decided, marked)"

definition tray_reach :: "Tray \<Rightarrow> tray_state \<Rightarrow> bool" where "tray_reach t0 s \<longleftrightarrow> tray_step\<^sup>*\<^sup>* (t0, [], []) s"

lemma tray_start: "tray_reach t0 (t0, [], [])" by (simp add: tray_reach_def)

lemma tray_more: "tray_reach t0 s \<Longrightarrow> tray_step s s' \<Longrightarrow> tray_reach t0 s'" by (simp add: tray_reach_def)

inductive_simps tray_marked_simps: "tray_step (t, decided, []) (t, decided, marked)"

text \<open>Every structure handed to Windows has its three texts ended within their fields, which keep their sizes.\<close>

definition nid_ok :: "NOTIFYICONDATAW \<Rightarrow> bool" where
  "nid_ok n \<longleftrightarrow>
     length (ni_Tip n) = 128 \<and> terminated (ni_Tip n) \<and> length (ni_Info n) = 256 \<and> terminated (ni_Info n) \<and>
     length (ni_InfoTitle n) = 64 \<and> terminated (ni_InfoTitle n)"

fun call_ok :: "tray_call \<Rightarrow> bool" where
  "call_ok (CNotify message nid) = nid_ok nid"
| "call_ok _ = True"

definition tray_ok :: "Tray \<Rightarrow> bool" where
  "tray_ok t \<longleftrightarrow> nid_ok (ty_nid t) \<and> list_all call_ok (ty_calls t)"

lemma nid_ok_frame [simp]:
  "nid_ok (n\<lparr>ni_Size := v\<rparr>) = nid_ok n" "nid_ok (n\<lparr>ni_Wnd := w\<rparr>) = nid_ok n" "nid_ok (n\<lparr>ni_ID := v\<rparr>) = nid_ok n"
  "nid_ok (n\<lparr>ni_Flags := v\<rparr>) = nid_ok n" "nid_ok (n\<lparr>ni_CallbackMessage := v\<rparr>) = nid_ok n"
  "nid_ok (n\<lparr>ni_Icon := w\<rparr>) = nid_ok n" "nid_ok (n\<lparr>ni_InfoFlags := v\<rparr>) = nid_ok n"
  by (simp_all add: nid_ok_def)

lemma tray_ok_call [simp]: "tray_ok (tray_call c t) \<longleftrightarrow> tray_ok t \<and> call_ok c"
  by (auto simp: tray_ok_def tray_call_def)

lemma tray_call_frame [simp]:
  "ty_nid (tray_call c t) = ty_nid t" "ty_hwnd (tray_call c t) = ty_hwnd t" "ty_cfg (tray_call c t) = ty_cfg t"
  "ty_lastBalloon (tray_call c t) = ty_lastBalloon t"
  by (simp_all add: tray_call_def)

lemma tray_ok_hwnd [simp]: "tray_ok (t\<lparr>ty_hwnd := h\<rparr>) = tray_ok t"
  by (simp add: tray_ok_def)

lemma ShellNotifyIcon_ok [simp]: "tray_ok t \<Longrightarrow> tray_ok (fst (ShellNotifyIcon env m t))"
  by (simp add: ShellNotifyIcon_def Let_def) (simp add: tray_ok_def)

lemma wndProc_ok: "tray_ok t \<Longrightarrow> tray_ok (fst (wndProc env hwnd msg wParam lParam t))"
  by (simp add: wndProc_def Let_def openDashboard_def openConfig_def tray_quit_def showMenu_def)

lemma show_alert_ok:
  assumes "tray_ok t" "nul_ended (tv_utf16 env)"
  shows "tray_ok (fst (show_alert env alert t))"
proof -
  let ?n = "(ty_nid t)\<lparr>ni_Flags := ni_Flags (ty_nid t) OR 0x10, ni_InfoFlags := balloonIcon (al_Severity alert)\<rparr>"
  have n: "nid_ok ?n" using assms(1) by (simp add: tray_ok_def)
  have ti: "nid_ok (?n\<lparr>ni_InfoTitle := b\<rparr>)" if "copyToFixed (tv_utf16 env) (ni_InfoTitle ?n) s = Some b" for s b
  proof -
    have "ni_InfoTitle ?n \<noteq> []" using n by (auto simp: nid_ok_def)
    then have "terminated b" using copyToFixed_units [OF assms(2) that] by blast
    then show ?thesis using n copyToFixed_length [OF that] by (simp add: nid_ok_def)
  qed
  have bo: "nid_ok (m\<lparr>ni_Info := b\<rparr>)" if "copyToFixed (tv_utf16 env) (ni_Info m) s = Some b" "nid_ok m" for m s b
  proof -
    have "ni_Info m \<noteq> []" using that(2) by (auto simp: nid_ok_def)
    then have "terminated b" using copyToFixed_units [OF assms(2) that(1)] by blast
    then show ?thesis using that(2) copyToFixed_length [OF that(1)] by (simp add: nid_ok_def)
  qed
  have upd: "tray_ok (t\<lparr>ty_nid := m\<rparr>)" if "nid_ok m" for m using assms(1) that by (simp add: tray_ok_def)
  show ?thesis
    unfolding show_alert_def showBalloon_def Let_def
    by (auto split: option.split intro!: upd ShellNotifyIcon_ok bo ti n)
qed

lemma tray_step_ok: "tray_step s s' \<Longrightarrow> tray_ok (fst s) \<Longrightarrow> tray_ok (fst s')"
  by (induction rule: tray_step.induct)
    (auto simp: mark_balloon_def Tray_SetConfig_def Stop_def destroy_def wndProc_ok show_alert_ok, simp_all add: tray_ok_def)

interpretation tray_inv: invariant_steps tray_step "\<lambda>s. tray_ok (fst s)" by unfold_locales (rule tray_step_ok)

lemma create_ok:
  assumes "tray_ok t" "nul_ended (tv_utf16 env)" "tv_utf16 env ''Windows Task Manager'' = Some src" "length src \<le> 128"
  shows "\<exists>t' e. create env t = Some (t', e) \<and> tray_ok t'"
proof -
  obtain tip where tip: "SetTipString (tv_utf16 env) (replicate 128 0) ''Windows Task Manager'' = Some tip"
    "length tip = 128" "terminated tip"
    using SetTipString_fits [OF assms(2,3), of "replicate 128 0"] assms(4) by auto
  let ?nid = "\<lambda>hwnd. zero_nid\<lparr>ni_Wnd := hwnd, ni_ID := 1, ni_Flags := 0x7, ni_CallbackMessage := 0x401, ni_Icon := tv_icon env\<rparr>"
  let ?t = "\<lambda>hwnd. t\<lparr>ty_hwnd := hwnd, ty_nid := (?nid hwnd)\<lparr>ni_Tip := tip\<rparr>\<rparr>"
  have "nid_ok ((?nid hwnd)\<lparr>ni_Tip := tip\<rparr>)" for hwnd using tip by (simp add: nid_ok_def zero_nid_def terminated_def)
  then have ok: "tray_ok (fst (ShellNotifyIcon env 0 (?t hwnd)))" for hwnd
    using assms(1) by (intro ShellNotifyIcon_ok) (simp add: tray_ok_def)
  have tip': "SetTipString (tv_utf16 env) (ni_Tip (?nid hwnd)) ''Windows Task Manager'' = Some tip" for hwnd
    using tip(1) by (simp add: zero_nid_def)
  show ?thesis
  proof (cases "tv_class env = None \<and> \<not> isl (tv_module env) \<and> tv_register env = None \<and> \<not> isl (tv_window env)")
    case True
    then obtain hInst hwnd where w: "tv_module env = Inr hInst" "tv_window env = Inr hwnd" by (cases "tv_module env"; cases "tv_window env") auto
    show ?thesis
      using True ok [of hwnd] tip' [of hwnd] unfolding create_def Let_def w
      by (cases "ShellNotifyIcon env 0 (?t hwnd)"; cases "snd (ShellNotifyIcon env 0 (?t hwnd))") auto
  next
    case False
    then show ?thesis using assms(1) by (auto simp: create_def split: option.splits sum.splits)
  qed
qed

text \<open>
  C29. Whatever alerts, messages, changes of the configuration and stops follow one another after the icon was made,
  and however the handlers interleave, every structure the tray hands to Windows has its tip, title and text ended by a
  zero within their fields of 128, 64 and 256 units, so Windows never reads past a field.
\<close>

theorem tray_texts_terminated:
  assumes "nul_ended (tv_utf16 env)" "tv_utf16 env ''Windows Task Manager'' = Some src" "length src \<le> 128"
    and "create env (NewTray cfg url path em quit) = Some (t0, e)" "tray_reach t0 (t, decided, marked)"
  shows "list_all call_ok (ty_calls t)"
proof -
  have "tray_ok (NewTray cfg url path em quit)"
    by (simp add: tray_ok_def NewTray_def nid_ok_def zero_nid_def terminated_def)
  then have start: "tray_ok t0" using create_ok [OF _ assms(1-3)] assms(4) by fastforce
  then have "tray_ok (fst (t, decided, marked))" using tray_inv.steps_keep [OF assms(5) [unfolded tray_reach_def]] by simp
  then show ?thesis by (simp add: tray_ok_def)
qed

text \<open>An encoding of ASCII texts, and Windows agreeing to everything.\<close>

definition ascii16 :: to_utf16 where
  "ascii16 s = (if CHR 0x00 \<in> set s then None else Some (map (\<lambda>c. of_nat (byte_val c)) s @ [0]))"

definition demo_tray_env :: tray_env where
  "demo_tray_env = \<lparr>tv_utf16 = ascii16, tv_class = None, tv_module = Inr 1, tv_register = None, tv_window = Inr 77, tv_icon = 5,
     tv_notify = (\<lambda>_ _. None), tv_menu = 9, tv_track = 1001, tv_default = 0\<rparr>"

definition demo_tray :: Tray where
  "demo_tray = fst (the (create demo_tray_env (NewTray DefaultConfig ''http://localhost'' ''c'' True True)))"

lemma ascii16_nul_ended: "nul_ended ascii16"
proof -
  have "0 \<notin> set (map (\<lambda>c. of_nat (byte_val c) :: u16) s)" if "CHR 0x00 \<notin> set s" for s
  proof
    assume "0 \<in> set (map (\<lambda>c. of_nat (byte_val c) :: u16) s)"
    then obtain c where c: "c \<in> set s" "(of_nat (byte_val c) :: u16) = 0" by auto
    have "byte_val c < 256" by simp
    then have "byte_val c mod 65536 = byte_val c" by (intro mod_less) linarith
    then have "byte_val c = unat (of_nat (byte_val c) :: u16)" by (simp add: unat_of_nat)
    then have "byte_val c = 0" using c(2) by simp
    then have "of_char c = (of_char (CHR 0x00) :: nat)" by simp
    then have "c = CHR 0x00" by (rule injD [OF inj_of_char])
    then show False using c(1) that by simp
  qed
  then show ?thesis by (auto simp: nul_ended_def ascii16_def split: if_splits)
qed

lemma demo_tray_created:
  "create demo_tray_env (NewTray DefaultConfig ''http://localhost'' ''c'' True True) = Some (demo_tray, None)"
  by (simp add: demo_tray_def create_def demo_tray_env_def SetTipString_def ascii16_def Let_def ShellNotifyIcon_def)

definition demo_alert :: Alert where
  "demo_alert = zero_alert\<lparr>al_Severity := ''critical'', al_Title := ''Hot'', al_Description := ''app''\<rparr>"

lemma demo_tray_limit: "no_BalloonRateLimit (c_Notifications (ty_cfg demo_tray)) = 30 * second"
  by (simp add: demo_tray_def create_def demo_tray_env_def SetTipString_def ascii16_def Let_def ShellNotifyIcon_def
      NewTray_def tray_call_def DefaultConfig_def)

lemma demo_wants: "wants_balloon 1000000000000 demo_alert demo_tray"
  by (simp add: wants_balloon_def demo_tray_def create_def demo_tray_env_def SetTipString_def ascii16_def Let_def ShellNotifyIcon_def
      NewTray_def tray_call_def demo_alert_def severityAtLeast_def severity_rank_def DefaultConfig_def t_sub_def sat64_def zero_time_def time_units i64_max_def)

theorem tray_texts_terminated_witness:
  "\<exists>t. tray_reach demo_tray (t, [], []) \<and> ty_calls t \<noteq> ty_calls demo_tray \<and> list_all call_ok (ty_calls t)"
proof -
  let ?t = "fst (show_alert demo_tray_env demo_alert (mark_balloon 5 demo_tray))"
  have u: "nul_ended (tv_utf16 demo_tray_env)" by (simp add: demo_tray_env_def ascii16_nul_ended)
  have utf: "tv_utf16 demo_tray_env ''Windows Task Manager'' = Some (map (\<lambda>c. of_nat (byte_val c)) ''Windows Task Manager'' @ [0])"
    by (simp add: demo_tray_env_def ascii16_def)
  have "tray_reach demo_tray (demo_tray, [demo_alert], [])"
    using tray_more [OF tray_start handler_decides [OF demo_wants]] by simp
  then have "tray_reach demo_tray (mark_balloon 5 demo_tray, [], [demo_alert])"
    using tray_more [OF _ handler_marks [of demo_alert "[demo_alert]" demo_tray "[]" 5]] by simp
  then have r: "tray_reach demo_tray (?t, [], [])"
    using tray_more [OF _ handler_shows [OF _ u, of demo_alert "[demo_alert]" "mark_balloon 5 demo_tray" "[]"]] by simp
  have "list_all call_ok (ty_calls ?t)"
    by (rule tray_texts_terminated [OF u utf _ demo_tray_created r]) simp
  moreover have "ty_calls ?t \<noteq> ty_calls demo_tray"
    by (simp add: show_alert_def showBalloon_def Let_def copyToFixed_def demo_tray_env_def ascii16_def demo_alert_def
        ShellNotifyIcon_def mark_balloon_def tray_call_def)
  ultimately show ?thesis using r by blast
qed

section \<open>How often balloons are shown\<close>

fun is_balloon :: "tray_call \<Rightarrow> bool" where
  "is_balloon (CNotify message nid) \<longleftrightarrow> message = 1"
| "is_balloon _ \<longleftrightarrow> False"

definition balloons :: "Tray \<Rightarrow> nat" where "balloons t = length (filter is_balloon (ty_calls t))"

lemma show_alert_balloon:
  assumes "tv_utf16 env (al_Title a) \<noteq> None" "tv_utf16 env (al_Description a) \<noteq> None"
  shows "balloons (fst (show_alert env a t)) = balloons t + 1"
  using assms
  by (auto simp: show_alert_def showBalloon_def copyToFixed_def Let_def ShellNotifyIcon_def balloons_def tray_call_def)

lemma show_alert_frame [simp]:
  "ty_cfg (fst (show_alert env a t)) = ty_cfg t" "ty_lastBalloon (fst (show_alert env a t)) = ty_lastBalloon t"
  by (simp_all add: show_alert_def showBalloon_def Let_def ShellNotifyIcon_def tray_call_def split: option.split)

text \<open>
  Handlers that do not overlap keep the limit: after a balloon, no alert that comes within the configured time changes the
  tray. Handlers that overlap do not: of two that read the time of the last balloon before either
  notes it both show theirs.
\<close>

theorem balloon_limit:
  assumes first: "wants_balloon n1 a t" and two: "wants_balloon m1 b t"
    and texts: "tv_utf16 env (al_Title a) \<noteq> None" "tv_utf16 env (al_Description a) \<noteq> None"
      "tv_utf16 env (al_Title b) \<noteq> None" "tv_utf16 env (al_Description b) \<noteq> None" and nul: "nul_ended (tv_utf16 env)"
    and soon: "\<forall>(k1, k2, c)\<in>set evs. t_sub k1 n2 < no_BalloonRateLimit (c_Notifications (ty_cfg t))"
  shows "fold (\<lambda>(k1, k2, c). handleAlert env k1 k2 c) ((n1, n2, a) # evs) t = handleAlert env n1 n2 a t \<and>
    balloons (handleAlert env n1 n2 a t) = balloons t + 1 \<and>
    (\<exists>t'. tray_reach t (t', [], []) \<and> balloons t' = balloons t + 2)"
proof (intro conjI)
  let ?t1 = "handleAlert env n1 n2 a t"
  have t1: "?t1 = fst (show_alert env a (mark_balloon n2 t))" using first by (simp add: handleAlert_def)
  have "handleAlert env k1 k2 c ?t1 = ?t1" if "t_sub k1 n2 < no_BalloonRateLimit (c_Notifications (ty_cfg t))" for k1 k2 c
    using that by (simp add: handleAlert_def [of env k1] wants_balloon_def Let_def) (simp add: t1 mark_balloon_def)
  then have "fold (\<lambda>(k1, k2, c). handleAlert env k1 k2 c) evs ?t1 = ?t1"
    using soon by (induction evs) auto
  then show "fold (\<lambda>(k1, k2, c). handleAlert env k1 k2 c) ((n1, n2, a) # evs) t = ?t1" by simp
  show "balloons ?t1 = balloons t + 1"
    using show_alert_balloon [OF texts(1,2)] by (simp add: t1) (simp add: balloons_def mark_balloon_def)
  let ?m = "mark_balloon n2 (mark_balloon n2 t)"
  let ?s1 = "fst (show_alert env a ?m)"
  have "tray_reach t (t, [a, b], [])"
    using tray_more [OF tray_more [OF tray_start handler_decides [OF first]] handler_decides [OF two]] by simp
  then have "tray_reach t (mark_balloon n2 t, [b], [a])"
    using tray_more [OF _ handler_marks [of a "[a, b]" t "[]" n2]] by simp
  then have "tray_reach t (?m, [], [a, b])"
    using tray_more [OF _ handler_marks [of b "[b]" "mark_balloon n2 t" "[a]" n2]] by simp
  then have "tray_reach t (?s1, [], [b])"
    using tray_more [OF _ handler_shows [OF _ nul, of a "[a, b]" ?m "[]"]] by simp
  then have "tray_reach t (fst (show_alert env b ?s1), [], [])"
    using tray_more [OF _ handler_shows [OF _ nul, of b "[b]" ?s1 "[]"]] by simp
  moreover have "balloons (fst (show_alert env b ?s1)) = balloons t + 2"
    using show_alert_balloon [OF texts(1,2), of ?m] show_alert_balloon [OF texts(3,4), of ?s1]
    by (simp add: balloons_def mark_balloon_def)
  ultimately show "\<exists>t'. tray_reach t (t', [], []) \<and> balloons t' = balloons t + 2" by blast
qed

theorem balloon_limit_witness:
  "fold (\<lambda>(k1, k2, c). handleAlert demo_tray_env k1 k2 c) [(1000000000000, 1000000000000, demo_alert), (1000000000001, 1000000000002, demo_alert)]
     demo_tray = handleAlert demo_tray_env 1000000000000 1000000000000 demo_alert demo_tray"
proof -
  have texts: "tv_utf16 demo_tray_env (al_Title demo_alert) \<noteq> None" "tv_utf16 demo_tray_env (al_Description demo_alert) \<noteq> None"
    "nul_ended (tv_utf16 demo_tray_env)"
    using ascii16_nul_ended by (simp_all add: demo_tray_env_def ascii16_def demo_alert_def)
  have "\<forall>(k1, k2, c)\<in>set [(1000000000001, 1000000000002 :: gotime, demo_alert)].
      t_sub k1 1000000000000 < no_BalloonRateLimit (c_Notifications (ty_cfg demo_tray))"
    using demo_tray_limit by (simp add: t_sub_def sat64_def i64_max_def i64_min_def time_units)
  from balloon_limit [OF demo_wants demo_wants texts(1,2) texts(1,2) texts(3) this] show ?thesis by blast
qed

text \<open>\<^verbatim>\<open>GetMessage\<close> reports an error as a 32-bit -1, which its wrapper takes for a message: the loop does not end.\<close>

lemma GetMessage_never_fails: "fst (GetMessage (\<lambda>_. (ucast (r :: u32), e, msg)) hwnd) \<noteq> -1"
  using word_fits(2) [of r] by (simp add: GetMessage_def)

text \<open>A stop that comes before the window exists is lost.\<close>

lemma Stop_before_create: "Stop (NewTray cfg url path em quit) = NewTray cfg url path em quit"
  by (simp add: Stop_def NewTray_def)

end
