(* ===== verification/Watcher.thy ===== *)
theory Watcher
  imports Loader
begin

text \<open>
  The loops of \<^verbatim>\<open>internal/config/watcher.go\<close>. The native loop waits for a change of the directory and looks at
  the file only when one is signalled; when the wait fails it goes over to polling, and stays there. What
  happens is a list of events, each with the answers of the operating system and the files as they are then. A
  run without an end is every finite part of it.
\<close>

section \<open>The loops\<close>

datatype wait = WaitObject | WaitTimeout | WaitOther | WaitFailed

text \<open>An event: what the wait (or the ticker) gave, and what stat and load meet then.\<close>

type_synonym 'd watch_event = "wait \<times> 'd load_env \<times> 'd load_env \<times> 'd fs"

text \<open>What the watcher remembers, and the configurations it has handed to the callback.\<close>

record watcher =
  wt_lastMod :: gotime
  wt_polling :: bool
  wt_applied :: "Config list"

definition watch_reload :: "gostring \<Rightarrow> 'd load_env \<Rightarrow> 'd load_env \<Rightarrow> 'd fs \<Rightarrow> watcher \<Rightarrow> watcher" where
  "watch_reload path env1 env2 fs w =
     (case reloadIfChanged env1 env2 path (wt_lastMod w) fs of
        (_, lastMod, cfg) \<Rightarrow>
          w\<lparr>wt_lastMod := lastMod, wt_applied := wt_applied w @ (case cfg of None \<Rightarrow> [] | Some c \<Rightarrow> [c])\<rparr>)"

text \<open>\<^verbatim>\<open>pollStart\<close> begins with the time the file has then.\<close>

definition pollStart :: "gostring \<Rightarrow> 'd load_env \<Rightarrow> 'd fs \<Rightarrow> watcher \<Rightarrow> watcher" where
  "pollStart path env fs w = w\<lparr>wt_lastMod := currentModTime env path fs, wt_polling := True\<rparr>"

definition Watcher_Start :: "gostring \<Rightarrow> goerror option \<Rightarrow> 'd load_env \<Rightarrow> 'd fs \<Rightarrow> watcher" where
  "Watcher_Start path findFirst env fs =
     (let w = \<lparr>wt_lastMod = zero_time, wt_polling = False, wt_applied = []\<rparr> in
      case findFirst of
        Some e \<Rightarrow> pollStart path env fs w
      | None \<Rightarrow> w\<lparr>wt_lastMod := currentModTime env path fs\<rparr>)"

definition watch_event :: "gostring \<Rightarrow> 'd watch_event \<Rightarrow> watcher \<Rightarrow> watcher" where
  "watch_event path ev w =
     (case ev of
        (result, env1, env2, fs) \<Rightarrow>
          if wt_polling w then watch_reload path env1 env2 fs w
          else
            (case result of
               WaitObject \<Rightarrow> watch_reload path env1 env2 fs w
             | WaitTimeout \<Rightarrow> w
             | WaitOther \<Rightarrow> pollStart path env1 fs w
             | WaitFailed \<Rightarrow> pollStart path env1 fs w))"

definition watch :: "gostring \<Rightarrow> 'd watch_event list \<Rightarrow> watcher \<Rightarrow> watcher" where
  "watch path evs w = fold (watch_event path) evs w"

section \<open>What reaches the callback\<close>

text \<open>Whether the watcher looks at the file in an event, when it does not go over to polling.\<close>

definition looks :: "watcher \<Rightarrow> 'd watch_event \<Rightarrow> bool" where
  "looks w ev \<longleftrightarrow> wt_polling w \<or> fst ev = WaitObject"

definition steady :: "watcher \<Rightarrow> 'd watch_event \<Rightarrow> bool" where
  "steady w ev \<longleftrightarrow> wt_polling w \<or> fst ev = WaitObject \<or> fst ev = WaitTimeout"

definition sees :: "gostring \<Rightarrow> 'd watch_event \<Rightarrow> goerror + gotime" where
  "sees path ev = (case ev of (_, env1, _, fs) \<Rightarrow> stat_file env1 path fs)"

definition loads :: "gostring \<Rightarrow> 'd watch_event \<Rightarrow> goerror + Config" where
  "loads path ev = (case ev of (_, _, env2, fs) \<Rightarrow> snd (Load env2 path fs))"

lemma watch_event_steady:
  assumes "steady w ev"
  shows "watch_event path ev w =
    (if looks w ev
     then (case sees path ev of
             Inl e \<Rightarrow> w
           | Inr m \<Rightarrow>
               if t_after m (wt_lastMod w)
               then w\<lparr>wt_lastMod := m, wt_applied := wt_applied w @ (case loads path ev of Inl e \<Rightarrow> [] | Inr c \<Rightarrow> [c])\<rparr>
               else w)
     else w)"
  using assms
  by (cases ev; cases "fst ev")
    (auto simp: watch_event_def watch_reload_def reloadIfChanged_def looks_def steady_def sees_def loads_def
      split: sum.split prod.split)

lemma steady_polling: "steady w ev \<Longrightarrow> wt_polling (watch_event path ev w) = wt_polling w"
  by (auto simp: watch_event_steady split: sum.split)

lemma watch_steady_polling:
  "\<forall>ev\<in>set evs. steady w ev \<Longrightarrow> wt_polling (watch path evs w) = wt_polling w"
proof (induction evs arbitrary: w)
  case (Cons ev evs)
  then have p: "wt_polling (watch_event path ev w) = wt_polling w" by (simp add: steady_polling)
  then have "\<forall>ev'\<in>set evs. steady (watch_event path ev w) ev'" using Cons.prems by (auto simp: steady_def)
  then show ?case using Cons.IH p by (simp add: watch_def)
qed (simp add: watch_def)

text \<open>Looking at a file that has not changed since does nothing.\<close>

lemma watch_unchanged:
  assumes "\<forall>ev\<in>set evs. steady w ev \<and> (\<forall>m. sees path ev = Inr m \<longrightarrow> \<not> t_after m (wt_lastMod w))"
  shows "watch path evs w = w"
  using assms
proof (induction evs)
  case (Cons ev evs)
  then have "watch_event path ev w = w" by (auto simp: watch_event_steady split: sum.split)
  then show ?case using Cons by (simp add: watch_def)
qed (simp add: watch_def)

lemma watch_bounded:
  assumes "\<forall>ev\<in>set evs. steady w ev \<and> (\<forall>m. sees path ev = Inr m \<longrightarrow> t_after mfinal m)" "t_after mfinal (wt_lastMod w)"
  shows "t_after mfinal (wt_lastMod (watch path evs w))"
  using assms
proof (induction evs arbitrary: w)
  case (Cons ev evs)
  let ?w = "watch_event path ev w"
  have p: "wt_polling ?w = wt_polling w" using Cons.prems by (simp add: steady_polling)
  have "t_after mfinal (wt_lastMod ?w)" using Cons.prems by (auto simp: watch_event_steady split: sum.split)
  moreover have "\<forall>ev'\<in>set evs. steady ?w ev' \<and> (\<forall>m. sees path ev' = Inr m \<longrightarrow> t_after mfinal m)"
    using Cons.prems(1) p by (auto simp: steady_def)
  ultimately show ?case using Cons.IH [of ?w] by (simp add: watch_def)
qed (simp add: watch_def)

lemma watch_blind: "\<forall>ev\<in>set evs. steady w ev \<and> \<not> looks w ev \<Longrightarrow> watch path evs w = w"
  by (induction evs) (simp_all add: watch_def watch_event_steady)

lemma watch_append: "watch path (xs @ ys) w = watch path ys (watch path xs w)"
  by (simp add: watch_def)



end
