(* ===== verification/Host.thy ===== *)
theory Host
  imports WinCalls Router Steps
begin

text \<open>
  What surrounds the program on its host: the mutex that keeps a second copy from starting
  (\<^verbatim>\<open>internal/platform\<close>), the frameless window (\<^verbatim>\<open>internal/desktop\<close>), and of \<^verbatim>\<open>internal/server/server.go\<close> the life of
  the listener and the text that reaches the log.
\<close>

section \<open>One instance\<close>

definition ErrAlreadyRunning :: goerror where
  "ErrAlreadyRunning = ErrNew ''another Windows Task Manager instance is already running''"

definition ERROR_ALREADY_EXISTS :: goerror where
  "ERROR_ALREADY_EXISTS = ErrSys ''Cannot create a file when that file already exists.''"

text \<open>
  \<open>create_mutex\<close> is \<^verbatim>\<open>windows.CreateMutex\<close>: a handle and an error, both for a mutex that exists. The result is the
  handle \<^verbatim>\<open>release\<close> will close; the list holds the handles closed before returning.
\<close>

definition AcquireSingleInstance ::
  "to16 \<Rightarrow> (u16 list \<Rightarrow> handle \<times> goerror option) \<Rightarrow> gostring \<Rightarrow> handle list \<times> (goerror + handle)" where
  "AcquireSingleInstance to16 create_mutex name =
     (case to16 name of
        Inl e \<Rightarrow> ([], Inl e)
      | Inr p \<Rightarrow>
          (case create_mutex p of
             (h, None) \<Rightarrow> ([], Inr h)
           | (h, Some e) \<Rightarrow>
               if errors_Is (Some e) ERROR_ALREADY_EXISTS then (if h \<noteq> 0 then [h] else [], Inl ErrAlreadyRunning)
               else ([], Inl e)))"

text \<open>
  The handles open on the mutex of the name, in all processes, the copies that run, each with its handle, and the handles
  that a refused copy has still to close. A new handle differs from the open ones; the mutex exists while a handle is
  open.
\<close>

record instances =
  in_handles :: "handle list"
  in_running :: "handle list"
  in_closing :: "handle list"

definition mutex_answer :: "instances \<Rightarrow> handle \<Rightarrow> handle \<times> goerror option" where
  "mutex_answer s h = (h, if in_handles s = [] then None else Some ERROR_ALREADY_EXISTS)"

inductive inst_step :: "instances \<Rightarrow> instances \<Rightarrow> bool" where
  copy_starts: "h \<noteq> 0 \<Longrightarrow> h \<notin> set (in_handles s) \<Longrightarrow>
    AcquireSingleInstance to16 (\<lambda>_. mutex_answer s h) name = (shut, res) \<Longrightarrow> to16 name = Inr w \<Longrightarrow>
    inst_step s (s\<lparr>in_handles := h # in_handles s, in_closing := shut @ in_closing s,
                   in_running := (case res of Inl e \<Rightarrow> in_running s | Inr r \<Rightarrow> r # in_running s)\<rparr>)"
| copy_closes: "h \<in> set (in_closing s) \<Longrightarrow>
    inst_step s (s\<lparr>in_handles := remove1 h (in_handles s), in_closing := remove1 h (in_closing s)\<rparr>)"
| copy_ends: "h \<in> set (in_running s) \<Longrightarrow>
    inst_step s (s\<lparr>in_handles := remove1 h (in_handles s), in_running := remove1 h (in_running s)\<rparr>)"

definition inst_reach :: "instances \<Rightarrow> bool" where
  "inst_reach s \<longleftrightarrow> inst_step\<^sup>*\<^sup>* \<lparr>in_handles = [], in_running = [], in_closing = []\<rparr> s"

definition inst_inv :: "instances \<Rightarrow> bool" where
  "inst_inv s \<longleftrightarrow> mset (in_handles s) = mset (in_running s) + mset (in_closing s) \<and> length (in_running s) \<le> 1"

lemma acquire_answer:
  assumes "AcquireSingleInstance to16 (\<lambda>_. mutex_answer s h) name = (shut, res)" "to16 name = Inr w" "h \<noteq> 0"
  shows "if in_handles s = [] then shut = [] \<and> res = Inr h else shut = [h] \<and> res = Inl ErrAlreadyRunning"
  using assms by (auto simp: AcquireSingleInstance_def mutex_answer_def errors_Is_def ERROR_ALREADY_EXISTS_def split: if_splits)

lemma inst_step_inv:
  assumes "inst_step s s'" "inst_inv s"
  shows "inst_inv s'"
  using assms(1)
proof cases
  case (copy_starts h to16 name shut res w)
  then show ?thesis
    using acquire_answer [OF copy_starts(4,5,2)] assms(2) by (cases "in_handles s = []") (auto simp: inst_inv_def)
next
  case (copy_closes h)
  then have "mset (in_closing s) = add_mset h (mset (remove1 h (in_closing s)))" by simp
  then show ?thesis using copy_closes assms(2) by (simp add: inst_inv_def)
next
  case (copy_ends h)
  then have "mset (in_running s) = add_mset h (mset (remove1 h (in_running s)))" by simp
  moreover have "length (remove1 h (in_running s)) \<le> length (in_running s)" by (simp add: length_remove1)
  ultimately show ?thesis using copy_ends assms(2) by (simp add: inst_inv_def)
qed

interpretation one_copy: invariant_steps inst_step inst_inv by unfold_locales (rule inst_step_inv)

text \<open>
  C37. However copies of the program start and end, at most one of them runs, and every handle on the mutex belongs to it or is
  about to be closed by a copy that was refused.
\<close>

theorem single_instance:
  assumes "inst_reach s"
  shows "length (in_running s) \<le> 1 \<and> mset (in_handles s) = mset (in_running s) + mset (in_closing s)"
  using one_copy.steps_keep [OF assms [unfolded inst_reach_def]] by (simp add: inst_inv_def)

theorem single_instance_witness:
  "inst_reach \<lparr>in_handles = [2, 1], in_running = [1], in_closing = [2]\<rparr> \<and>
   length (in_running \<lparr>in_handles = [2, 1], in_running = [1], in_closing = [2]\<rparr>) \<le> 1"
proof -
  let ?s0 = "\<lparr>in_handles = [], in_running = [], in_closing = []\<rparr>"
  let ?s1 = "\<lparr>in_handles = [1], in_running = [1], in_closing = []\<rparr>"
  let ?s2 = "\<lparr>in_handles = [2, 1], in_running = [1], in_closing = [2]\<rparr>"
  have "inst_step ?s0 ?s1"
    using copy_starts [of 1 ?s0 "\<lambda>_. Inr []" "''m''" "[]" "Inr 1" "[]"]
    by (simp add: AcquireSingleInstance_def mutex_answer_def)
  moreover have "inst_step ?s1 ?s2"
    using copy_starts [of 2 ?s1 "\<lambda>_. Inr []" "''m''" "[2]" "Inl ErrAlreadyRunning" "[]"]
    by (simp add: AcquireSingleInstance_def mutex_answer_def errors_Is_def ERROR_ALREADY_EXISTS_def)
  ultimately have r: "inst_reach ?s2" unfolding inst_reach_def by (rule rtranclp.rtrancl_into_rtrancl [OF r_into_rtranclp])
  show ?thesis using single_instance [OF r] r by simp
qed

section \<open>The window\<close>

datatype win_call =
    WShow handle int
  | WSetLong handle u64 u64
  | WSetPos handle int int u32
  | WForeground handle
  | WBind gostring
  | WNavigate gostring
  | WOnClose
  | WDestroy

record Window =
  wi_hwnd :: handle
  wi_onClose :: bool
  wi_calls :: "win_call list"

unbundle bit_operations_syntax

definition win_call :: "win_call \<Rightarrow> Window \<Rightarrow> Window" where "win_call c w = w\<lparr>wi_calls := wi_calls w @ [c]\<rparr>"

text \<open>The style without caption, system menu, border and the two boxes, and with the bit of a popup.\<close>

definition frameless_style :: "u32 \<Rightarrow> u32" where
  "frameless_style cur =
     (cur AND NOT (0x00C00000 OR 0x00080000 OR 0x00040000 OR 0x00010000 OR 0x00020000)) OR 0x80000000"

text \<open>\<open>get_long\<close> is \<^verbatim>\<open>GetWindowLongPtrW\<close>; the indices -16 and -20 are machine words.\<close>

definition makeFrameless :: "(handle \<Rightarrow> u64 \<Rightarrow> u64) \<Rightarrow> handle \<Rightarrow> int \<Rightarrow> int \<Rightarrow> Window \<Rightarrow> Window" where
  "makeFrameless get_long hwnd width height w =
     (if hwnd = 0 then w
      else
        fold win_call
          [WSetLong hwnd (NOT 15) (ucast (frameless_style (ucast (get_long hwnd (NOT 15))))),
           WSetLong hwnd (NOT 19) (get_long hwnd (NOT 19)),
           WSetPos hwnd width height (0x1 OR 0x3 OR 0x4 OR 0x20)] w)"

text \<open>
  \<open>view\<close> is the web view, or \<open>None\<close> when the runtime is not installed, given by the word the program takes for the
  handle of its window.
\<close>

definition Desktop_New ::
  "handle option \<Rightarrow> (handle \<Rightarrow> u64 \<Rightarrow> u64) \<Rightarrow> gostring \<Rightarrow> int \<Rightarrow> int \<Rightarrow> bool \<Rightarrow> Window option" where
  "Desktop_New view get_long url width height onDone =
     (case view of
        None \<Rightarrow> None
      | Some hwnd \<Rightarrow>
          (let w = \<lparr>wi_hwnd = hwnd, wi_onClose = onDone, wi_calls = []\<rparr>;
               w = (if hwnd = 0 then w
                    else fold win_call [WSetPos hwnd width height (0x1 OR 0x3 OR 0x4 OR 0x20), WShow hwnd 9, WForeground hwnd]
                           (makeFrameless get_long hwnd width height (win_call (WShow hwnd 1) w)))
           in Some (fold win_call [WBind ''__wtmDesktopClose'', WBind ''__wtmDesktopMinimize'', WBind ''__wtmDesktopMaximize'',
                WNavigate url] w)))"

definition minimize :: "Window \<Rightarrow> Window" where
  "minimize w = (if wi_hwnd w \<noteq> 0 then win_call (WShow (wi_hwnd w) 6) w else w)"

definition maximize :: "Window \<Rightarrow> Window" where
  "maximize w = (if wi_hwnd w \<noteq> 0 then win_call (WShow (wi_hwnd w) 3) w else w)"

definition close_window :: "Window \<Rightarrow> Window" where
  "close_window w = win_call WDestroy ((if wi_onClose w then win_call WOnClose w else w)\<lparr>wi_onClose := False\<rparr>)"

lemma frameless_style_bits:
  "bit (frameless_style s) n \<longleftrightarrow> n = 31 \<or> bit s n \<and> n < 32 \<and> n \<notin> {16, 17, 18, 19, 22, 23}"
proof (cases "n < 32")
  case True
  then have "n \<in> set [0..<32]" by simp
  then show ?thesis unfolding frameless_style_def
    by (simp add: upt_rec bit_simps) (elim disjE; simp add: bit_simps)
next
  case False
  then show ?thesis using bit_imp_le_length by (fastforce simp: frameless_style_def)
qed

text \<open>The shutdown is run once, however often the window is closed.\<close>

lemma close_window_once:
  assumes "wi_calls w = []" "wi_onClose w"
  shows "length (filter (\<lambda>c. c = WOnClose) (wi_calls ((close_window ^^ Suc n) w))) = 1"
proof -
  have "length (filter (\<lambda>c. c = WOnClose) (wi_calls ((close_window ^^ Suc n) w))) = 1 \<and> \<not> wi_onClose ((close_window ^^ Suc n) w)"
  proof (induction n)
    case 0
    show ?case using assms by (simp add: close_window_def win_call_def)
  next
    case (Suc n)
    then show ?case by (simp add: close_window_def [of "(close_window ^^ Suc n) w" for n] win_call_def) (simp add: close_window_def win_call_def)
  qed
  then show ?thesis by blast
qed

section \<open>The listener\<close>

text \<open>
  The server of the standard library, made at the start; \<open>listen\<close> is what \<^verbatim>\<open>ListenAndServe\<close> returns in the end. A shutdown
  before the start finds none and does nothing.
\<close>

record listener =
  ls_addr :: gostring
  ls_readHeader :: duration
  ls_read :: duration
  ls_write :: duration
  ls_idle :: duration

definition listener_for :: "ServerConfig \<Rightarrow> listener" where
  "listener_for c =
     \<lparr>ls_addr = sprintf ''%s:%d'' [FStr (sv_Host c), FInt (sv_Port c)], ls_readHeader = 10 * second, ls_read = 15 * second,
      ls_write = 0, ls_idle = 60 * second\<rparr>"

definition Server_Start :: "Config \<Rightarrow> (listener \<Rightarrow> goerror) \<Rightarrow> listener option \<times> goerror" where
  "Server_Start cfg listen = (let l = listener_for (c_Server cfg) in (Some l, listen l))"

definition Server_Shutdown :: "(listener \<Rightarrow> goerror option) \<Rightarrow> listener option \<Rightarrow> goerror option" where
  "Server_Shutdown stop httpSrv = (case httpSrv of None \<Rightarrow> None | Some l \<Rightarrow> stop l)"

section \<open>Text for the log\<close>

definition cont_byte :: "nat \<Rightarrow> nat \<Rightarrow> char \<Rightarrow> bool" where "cont_byte lo hi c \<longleftrightarrow> lo \<le> byte_val c \<and> byte_val c \<le> hi"

text \<open>
  How many bytes follow a first byte, and the range of the first of them; the others are from 80 to BF. Then the bytes of the
  character a string of bytes begins with: 0 when they are no valid UTF-8.
\<close>

definition utf8_need :: "nat \<Rightarrow> nat \<times> nat \<times> nat" where
  "utf8_need b =
     (if 0xC2 \<le> b \<and> b \<le> 0xDF then (1, 0x80, 0xBF)
      else if b = 0xE0 then (2, 0xA0, 0xBF)
      else if b = 0xED then (2, 0x80, 0x9F)
      else if 0xE1 \<le> b \<and> b \<le> 0xEF then (2, 0x80, 0xBF)
      else if b = 0xF0 then (3, 0x90, 0xBF)
      else if 0xF1 \<le> b \<and> b \<le> 0xF3 then (3, 0x80, 0xBF)
      else if b = 0xF4 then (3, 0x80, 0x8F)
      else (0, 0x80, 0xBF))"

fun utf8_len :: "gostring \<Rightarrow> nat" where
  "utf8_len [] = 0"
| "utf8_len (c # s) =
     (if byte_val c < 0x80 then 1
      else
        (case utf8_need (byte_val c) of
           (n, lo, hi) \<Rightarrow>
             if 0 < n \<and> n \<le> length s \<and> cont_byte lo hi (hd s) \<and> list_all (cont_byte 0x80 0xBF) (take (n - 1) (tl s))
             then Suc n else 0))"

text \<open>\<^verbatim>\<open>unicode.IsControl\<close> of the first character: below 32, and from 127 to 159.\<close>

definition is_control :: "gostring \<Rightarrow> bool" where
  "is_control s \<longleftrightarrow>
     (case s of
        [] \<Rightarrow> False
      | c # t \<Rightarrow> byte_val c < 32 \<or> byte_val c = 127 \<or>
          (byte_val c = 0xC2 \<and> t \<noteq> [] \<and> 0x80 \<le> byte_val (hd t) \<and> byte_val (hd t) < 0xA0))"

text \<open>\<^verbatim>\<open>strings.Map\<close> drops the control characters and writes the replacement character for every invalid byte.\<close>

function sanitizeLogToken :: "gostring \<Rightarrow> gostring" where
  "sanitizeLogToken s =
     (if s = [] then []
      else if is_control s then sanitizeLogToken (drop (max 1 (utf8_len s)) s)
      else if utf8_len s = 0 then [CHR 0xEF, CHR 0xBF, CHR 0xBD] @ sanitizeLogToken (tl s)
      else take (utf8_len s) s @ sanitizeLogToken (drop (utf8_len s) s))"
  by pat_completeness auto
termination by (relation "measure length") auto

declare sanitizeLogToken.simps [simp del]

definition control_byte :: "char \<Rightarrow> bool" where "control_byte c \<longleftrightarrow> byte_val c < 32 \<or> byte_val c = 127"

lemma utf8_len_high:
  assumes "utf8_len s \<noteq> 0" "\<not> is_control s" "c \<in> set (take (utf8_len s) s)"
  shows "\<not> control_byte c"
proof (cases s)
  case (Cons d t)
  show ?thesis
  proof (cases "byte_val d < 0x80")
    case True
    then have "c = d" using assms(3) Cons by (simp add: Let_def)
    then show ?thesis using assms(2) Cons by (simp add: is_control_def control_byte_def)
  next
    case False
    obtain n lo hi where need: "utf8_need (byte_val d) = (n, lo, hi)" by (metis prod_cases3)
    then have lo: "0x80 \<le> lo" by (auto simp: utf8_need_def split: if_splits)
    from assms(1) False need have n: "0 < n" "n \<le> length t" "cont_byte lo hi (hd t)" "list_all (cont_byte 0x80 0xBF) (take (n - 1) (tl t))"
      and len: "utf8_len s = Suc n"
      by (auto simp: Cons split: if_splits)
    obtain e es m where t: "t = e # es" "n = Suc m" using n(1,2) by (cases t; cases n) auto
    have "take (utf8_len s) s = d # e # take m es" using len by (simp add: Cons t del: utf8_len.simps)
    moreover have "\<forall>x\<in>set (d # e # take m es). 0x80 \<le> byte_val x"
      using n(3,4) False lo by (auto simp: t list_all_iff cont_byte_def)
    ultimately show ?thesis using assms(3) by (auto simp: control_byte_def simp del: utf8_len.simps)
  qed
qed (use assms in simp)

text \<open>No line of the log can be broken or forged by a request: the text keeps no control byte.\<close>

lemma sanitizeLogToken_clean: "c \<in> set (sanitizeLogToken s) \<Longrightarrow> \<not> control_byte c"
proof (induction s rule: sanitizeLogToken.induct)
  case (1 s)
  have c: "c \<in> set (if s = [] then []
      else if is_control s then sanitizeLogToken (drop (max 1 (utf8_len s)) s)
      else if utf8_len s = 0 then [CHR 0xEF, CHR 0xBF, CHR 0xBD] @ sanitizeLogToken (tl s)
      else take (utf8_len s) s @ sanitizeLogToken (drop (utf8_len s) s))"
    using "1.prems" by (simp only: sanitizeLogToken.simps [of s])
  have mark: "\<forall>d\<in>set [CHR 0xEF, CHR 0xBF, CHR 0xBD]. \<not> control_byte d" by (simp add: control_byte_def)
  from c "1.IH" mark utf8_len_high [of s c] show ?case
    by (cases "s = []"; cases "is_control s"; cases "utf8_len s = 0") auto
qed

text \<open>
  The middleware around every handler: the response goes through as it is, and a line for it is appended to the log.
  \<open>took\<close> is the time the handler needed.
\<close>

definition logged_line :: "Request \<Rightarrow> int \<Rightarrow> duration \<Rightarrow> gostring" where
  "logged_line req status took =
     sprintf ''%s %s %d %s'' [FStr (sanitizeLogToken (rq_Method req)), FStr (sanitizeLogToken (rq_Path req)), FInt status, FDur took]"

definition loggingMiddleware :: "duration \<Rightarrow> ('s, 'p) handlerfn \<Rightarrow> ('s \<times> gostring list, 'p) handlerfn" where
  "loggingMiddleware took nxt = (\<lambda>req ps (s, lines).
     map_option (\<lambda>(s', r). ((s', lines @ [logged_line req (rs_status r) took]), r)) (nxt req ps s))"

lemma control_free_nat_str [simp]: "c \<in> set (nat_str n) \<Longrightarrow> \<not> control_byte c"
  using nat_str_digits [of c n] by (auto simp: control_byte_def)

lemma control_free_int_str: "c \<in> set (int_str i) \<Longrightarrow> \<not> control_byte c"
  by (auto simp: int_str_def control_byte_def dest!: nat_str_digits split: if_splits)

lemma control_free_frac_str: "c \<in> set (frac_str v prec) \<Longrightarrow> \<not> control_byte c"
proof -
  have strip: "set (strip_zeros t) \<subseteq> set t" for t by (auto simp: strip_zeros_def dest: set_dropWhileD)
  have zeros: "set (repeat_char k CHR ''0'') \<subseteq> {CHR ''0''}" for k by (induction k) auto
  have "\<not> control_byte d" if "d \<in> set (strip_zeros (pad_left prec CHR ''0'' (nat_str n)))" for d n
  proof -
    have "d \<in> set (nat_str n) \<or> d = CHR ''0''" using that strip zeros by (fastforce simp: pad_left_def)
    then show ?thesis by (auto simp: control_byte_def dest!: nat_str_digits)
  qed
  then show "c \<in> set (frac_str v prec) \<Longrightarrow> \<not> control_byte c"
    by (auto simp: frac_str_def Let_def control_byte_def dest!: nat_str_digits split: if_splits)
qed

lemma control_free_dur_string: "c \<in> set (dur_string d) \<Longrightarrow> \<not> control_byte c"
  unfolding dur_string_def Let_def
  by (auto dest!: control_free_nat_str control_free_frac_str split: if_splits) (auto simp: control_byte_def)

text \<open>
  C38. Logging changes no answer, and no request can break or forge a line of the log: a request adds one line, and no byte of
  it is a control character.
\<close>

theorem log_lines_clean:
  assumes "loggingMiddleware took nxt req ps (s, lines) = Some ((s', lines'), r)"
  shows "nxt req ps s = Some (s', r) \<and> (\<exists>line. lines' = lines @ [line] \<and> (\<forall>c\<in>set line. \<not> control_byte c))"
proof -
  let ?line = "logged_line req (rs_status r) took"
  have "\<not> control_byte c" if c: "c \<in> set ?line" for c
  proof -
    have "c \<in> set (sanitizeLogToken (rq_Method req)) \<union> set (sanitizeLogToken (rq_Path req)) \<union>
        set (int_str (rs_status r)) \<union> set (dur_string took) \<or> c = CHR '' ''"
      using c by (auto simp: logged_line_def sprintf_def pad_spec_def no_spec_def pad_left_def)
    then show ?thesis
      using sanitizeLogToken_clean control_free_int_str control_free_dur_string by (auto simp: control_byte_def)
  qed
  then show ?thesis using assms by (auto simp: loggingMiddleware_def)
qed

theorem log_lines_clean_witness:
  "\<exists>line. snd (fst (the (loggingMiddleware 1500000 (\<lambda>req ps s. Some (s, http_error ''x'' 404 :: gostring Response))
       \<lparr>rq_Method = ''GET'', rq_Path = ''/a'' @ [CHR 0x0A] @ ''forged'', rq_RemoteAddr = ''127.0.0.1:1'', rq_Host = [],
        rq_header = (\<lambda>_. []), rq_query = (\<lambda>_. []), rq_Body = None\<rparr> [] ((), [''first''])))) = [''first'', line] \<and>
     (\<forall>c\<in>set line. \<not> control_byte c)"
proof -
  let ?h = "(\<lambda>req ps s. Some (s, http_error ''x'' 404)) :: (unit, gostring) handlerfn"
  let ?req = "\<lparr>rq_Method = ''GET'', rq_Path = ''/a'' @ [CHR 0x0A] @ ''forged'', rq_RemoteAddr = ''127.0.0.1:1'', rq_Host = [],
        rq_header = (\<lambda>_. []), rq_query = (\<lambda>_. []), rq_Body = None\<rparr>"
  obtain l where l: "loggingMiddleware 1500000 ?h ?req [] ((), [''first'']) = Some (((), l), http_error ''x'' 404)"
    by (simp add: loggingMiddleware_def)
  from log_lines_clean [OF l] obtain line where "l = [''first'', line]" "\<forall>c\<in>set line. \<not> control_byte c" by auto
  then show ?thesis using l by (auto simp: loggingMiddleware_def)
qed

end
