(* ===== verification/App.thy ===== *)
theory App
  imports Tray Collector Server Telegram Watcher Host Steps
begin

text \<open>
  \<^verbatim>\<open>cmd/wtm/main.go\<close>: the components put together, a new configuration handed to all of them, the file it
  comes from, and the life of the process from the start to the end of \<^verbatim>\<open>main\<close>.
\<close>

section \<open>The configuration file\<close>

text \<open>\<^verbatim>\<open>filepath.Dir\<close> and \<^verbatim>\<open>filepath.Join\<close> on Windows, for elements that are not empty and hold no separator after the first.\<close>

definition filepath_dir :: "gostring \<Rightarrow> gostring" where
  "filepath_dir path =
     (let v = volume_len path; vol = take v path;
          dir = filepath_clean (rev (dropWhile (\<lambda>c. \<not> is_sep c) (rev (drop v path))))
      in if dir = ''.'' \<and> 2 < length vol then vol else vol @ dir)"

definition filepath_join :: "gostring \<Rightarrow> gostring list \<Rightarrow> gostring" where
  "filepath_join base elems =
     filepath_clean
       (fold (\<lambda>e b. if b = [] \<or> is_sep (last b) \<or> last b = CHR '':'' then b @ e else b @ CHR 0x5C # e) elems base)"

definition resolveConfigPath :: "gostring \<Rightarrow> goerror + gostring \<Rightarrow> (gostring \<Rightarrow> bool) \<Rightarrow> gostring \<Rightarrow> gostring" where
  "resolveConfigPath flagVal executable exists_file appData =
     (if flagVal \<noteq> [] then flagVal
      else
        (let local = (case executable of Inl e \<Rightarrow> [] | Inr exe \<Rightarrow> filepath_join (filepath_dir exe) [''config.yaml'']) in
         if (case executable of Inl e \<Rightarrow> False | Inr exe \<Rightarrow> exists_file local) then local
         else filepath_join (if appData = [] then ''.'' else appData) [''WindowsTaskManager'', ''config.yaml'']))"

section \<open>The components\<close>

text \<open>
  The server holds the controller, the alerts, the advisor and its background tracker. The engine acts
  through the same controller, so its actuator is renewed when the controller changes.
\<close>

record App =
  ap_mgr :: Manager
  ap_engine :: "World Engine"
  ap_bot :: Bot
  ap_tray :: "Tray option"
  ap_srv :: Server

definition historyCap :: "Config \<Rightarrow> int" where
  "historyCap cfg =
     (let n = go_div (mo_HistoryDuration (c_Monitoring cfg)) (mo_Interval (c_Monitoring cfg)) in if n < 60 then 60 else n)"

definition disabled_types :: "Config \<Rightarrow> gostring list" where
  "disabled_types cfg =
     (let a = c_Anomaly cfg in
      (if \<not> hp_Enabled (an_HungProcess a) then [''hung_process''] else []) @
      (if \<not> or_Enabled (an_Orphan a) then [''orphan''] else []) @
      (if \<not> pc_Enabled (an_PortConflict a) then [''port_conflict''] else []) @
      (if \<not> na_Enabled (an_NetworkAnomaly a) then [''network_anomaly'', ''network_anomaly_system''] else []) @
      (if \<not> st_Enabled (an_SpawnStorm a) then [''spawn_storm''] else []) @
      (if \<not> ml_Enabled (an_MemoryLeak a) then [''memory_leak''] else []) @
      (if \<not> rc_Enabled (an_RunawayCPU a) then [''runaway_cpu''] else []) @
      (if \<not> np_Enabled (an_NewProcess a) then [''new_process''] else []))"

definition clearDisabledDetectorAlerts :: "gotime \<Rightarrow> Config \<Rightarrow> AlertStore \<Rightarrow> AlertStore" where
  "clearDisabledDetectorAlerts now cfg s = fold (\<lambda>t s. fst (ClearByType now t s)) (disabled_types cfg) s"

definition applyConfig :: "os \<Rightarrow> gotime \<Rightarrow> Config \<Rightarrow> App \<Rightarrow> App" where
  "applyConfig os now newCfg app =
     (let srv = ap_srv app; ctl = Ctl_SetConfig (Some newCfg) (wb_ctl srv) in
      app\<lparr>ap_mgr := ApplyConfig newCfg (ap_mgr app),
          ap_engine := SetActuator (Some (controller_actuator os ctl)) (SetConfig newCfg (ap_engine app)),
          ap_bot := Bot_SetConfig (Some newCfg) (ap_bot app),
          ap_tray := map_option (Tray_SetConfig newCfg) (ap_tray app),
          ap_srv := srv\<lparr>wb_ctl := ctl,
            wb_advisor := map_option (Advisor_SetConfig now newCfg) (wb_advisor srv),
            wb_bg := bg_applyConfig (Some newCfg) (wb_bg srv),
            wb_alerts := clearDisabledDetectorAlerts now newCfg
              (SetMaxActive (an_MaxActiveAlerts (c_Anomaly newCfg)) (wb_alerts srv))\<rparr>\<rparr>)"

definition Server_SetConfig :: "Config \<Rightarrow> Server \<Rightarrow> Server" where
  "Server_SetConfig cfg s = s\<lparr>wb_conf := (wb_conf s)\<lparr>cs_cfg := cfg\<rparr>\<rparr>"

text \<open>The callback of the watcher.\<close>

definition on_reload :: "os \<Rightarrow> gotime \<Rightarrow> Config \<Rightarrow> App \<Rightarrow> App" where
  "on_reload os now cfg app =
     (let app = applyConfig os now cfg app in app\<lparr>ap_srv := Server_SetConfig cfg (ap_srv app)\<rparr>)"

text \<open>A page that stores a configuration: the server takes it over and then calls \<^verbatim>\<open>applyConfig\<close>.\<close>

definition on_update :: "os \<Rightarrow> gotime \<Rightarrow> gostring load_env \<Rightarrow> Config \<Rightarrow> App \<Rightarrow> App \<times> persist_error option" where
  "on_update os now env nxt app =
     (case persist env nxt (wb_conf (ap_srv app)) of
        (conf, err) \<Rightarrow>
          (let app = app\<lparr>ap_srv := (ap_srv app)\<lparr>wb_conf := conf\<rparr>\<rparr>
           in (if err = None then applyConfig os now (cs_cfg conf) app else app, err)))"

text \<open>What \<^verbatim>\<open>main\<close> builds, up to the start of the loops.\<close>

record start_env =
  sa_now :: gotime
  sa_os :: os
  sa_numCPU :: int
  sa_cpu :: "gostring \<times> u32"
  sa_sample :: sample_env
  sa_selfPID :: int
  sa_random :: "goerror + gostring"
  sa_world :: World

definition dashURL :: "Config \<Rightarrow> gostring" where
  "dashURL cfg = sprintf ''http://%s:%d'' [FStr (sv_Host (c_Server cfg)), FInt (sv_Port (c_Server cfg))]"

definition start_app :: "start_env \<Rightarrow> Config \<Rightarrow> gostring \<Rightarrow> gostring fs \<Rightarrow> bool \<Rightarrow> gostring \<Rightarrow> goerror + App" where
  "start_app env cfg path fs noTray version =
     (let (cpuName, cpuMHz) = sa_cpu env;
          mgr = fst (CollectOnce (sa_sample env)
            (NewManager (sa_numCPU env) cfg (NewStore (historyCap cfg) 60) (Some NewEmitter) cpuName cpuMHz));
          ctl = NewController (Some cfg) (sa_selfPID env) True;
          alerts = clearDisabledDetectorAlerts (sa_now env) cfg
            (SetMaxActive (an_MaxActiveAlerts (c_Anomaly cfg)) (NewAlertStore 256));
          engine = SetActuator (Some (controller_actuator (sa_os env) ctl)) (NewEngine cfg)
      in case NewServer (sa_random env)
                \<lparr>cs_cfg = cfg, cs_path = path, cs_fs = fs, cs_callback = True, cs_applied = []\<rparr> ctl (sa_world env) alerts
                (Some (NewAdvisor (sa_now env) cfg)) (bg_applyConfig (Some cfg) zero_tracker) version of
           Inl e \<Rightarrow> Inl e
         | Inr srv \<Rightarrow>
             Inr \<lparr>ap_mgr = mgr, ap_engine = engine, ap_bot = NewBot (Some cfg) True,
                  ap_tray = (if noTray then None else Some (NewTray cfg (dashURL cfg) path True True)), ap_srv = srv\<rparr>)"

section \<open>One configuration everywhere\<close>

lemma clearDisabled_eq:
  assumes "wf_map (as_active s)"
  shows "clearDisabledDetectorAlerts now cfg s =
    s\<lparr>as_active := mfilter (\<lambda>_ a. al_Type a \<notin> set (disabled_types cfg)) (as_active s)\<rparr>"
proof -
  have "fold (\<lambda>t s. fst (ClearByType now t s)) ts s = s\<lparr>as_active := mfilter (\<lambda>_ a. al_Type a \<notin> set ts) (as_active s)\<rparr>" for ts
    using assms
  proof (induction ts arbitrary: s)
    case Nil
    then show ?case by (simp add: mfilter_def)
  next
    case (Cons t ts)
    have "fst (ClearByType now t s) = s\<lparr>as_active := mfilter (\<lambda>_ a. al_Type a \<noteq> t) (as_active s)\<rparr>"
      using ClearByType_eq [OF Cons.prems] by simp
    then show ?case using Cons.IH [of "fst (ClearByType now t s)"] Cons.prems by (simp add: mfilter_mfilter)
  qed
  then show ?thesis by (simp add: clearDisabledDetectorAlerts_def)
qed

lemma alerts_inv_clearDisabled: "alerts_inv s \<Longrightarrow> alerts_inv (clearDisabledDetectorAlerts now cfg s)"
proof -
  have "alerts_inv s \<Longrightarrow> alerts_inv (fold (\<lambda>t s. fst (ClearByType now t s)) ts s)" for ts
    by (induction ts arbitrary: s) (simp_all add: alerts_inv_ClearByType)
  then show "alerts_inv s \<Longrightarrow> alerts_inv (clearDisabledDetectorAlerts now cfg s)" by (simp add: clearDisabledDetectorAlerts_def)
qed

text \<open>Every component works with the configuration, and no alert of a detector it turns off is active.\<close>

definition in_sync :: "os \<Rightarrow> Config \<Rightarrow> App \<Rightarrow> bool" where
  "in_sync os cfg app \<longleftrightarrow>
     (let srv = ap_srv app in
      cs_cfg (wb_conf srv) = cfg \<and> mg_cfg (ap_mgr app) = Some cfg \<and>
      po_wellKnownPorts (mg_ports (ap_mgr app)) = c_WellKnownPorts cfg \<and>
      en_cfg (ap_engine app) = cfg \<and> en_actuator (ap_engine app) = Some (controller_actuator os (wb_ctl srv)) \<and>
      sf_cfg (ct_safety (wb_ctl srv)) = Some cfg \<and> map_option ad_cfg (wb_advisor srv) = Some cfg \<and>
      tb_cfg (ap_bot app) = Some cfg \<and> (\<forall>t. ap_tray app = Some t \<longrightarrow> ty_cfg t = cfg) \<and>
      as_maxActive (wb_alerts srv) = an_MaxActiveAlerts (c_Anomaly cfg) \<and> alerts_inv (wb_alerts srv) \<and>
      (\<forall>a\<in>snd ` set (as_active (wb_alerts srv)). al_Type a \<notin> set (disabled_types cfg)))"

inductive app_step :: "os \<Rightarrow> App \<Rightarrow> App \<Rightarrow> bool" for os where
  reload: "app_step os app (on_reload os now cfg app)"
| update: "app_step os app (fst (on_update os now env nxt app))"

definition app_reach :: "os \<Rightarrow> App \<Rightarrow> App \<Rightarrow> bool" where "app_reach os app0 app \<longleftrightarrow> (app_step os)\<^sup>*\<^sup>* app0 app"

lemma Advisor_SetConfig_cfg: "ad_cfg (Advisor_SetConfig now cfg a) = cfg"
  by (simp add: Advisor_SetConfig_def Let_def)

lemma in_sync_apply:
  assumes "cs_cfg (wb_conf (ap_srv app)) = cfg" "alerts_inv (wb_alerts (ap_srv app))" "wb_advisor (ap_srv app) \<noteq> None"
  shows "in_sync os cfg (applyConfig os now cfg app)"
proof -
  let ?s = "SetMaxActive (an_MaxActiveAlerts (c_Anomaly cfg)) (wb_alerts (ap_srv app))"
  obtain adv where adv: "wb_advisor (ap_srv app) = Some adv" using assms(3) by blast
  have inv: "alerts_inv ?s" using assms(2) by (rule alerts_inv_SetMaxActive)
  then have "clearDisabledDetectorAlerts now cfg ?s =
      ?s\<lparr>as_active := mfilter (\<lambda>_ a. al_Type a \<notin> set (disabled_types cfg)) (as_active ?s)\<rparr>"
    by (intro clearDisabled_eq) (simp add: alerts_inv_def)
  then show ?thesis
    using assms(1) alerts_inv_clearDisabled [OF inv, of now cfg]
    by (auto simp: in_sync_def applyConfig_def Let_def ApplyConfig_def SetWellKnown_def SetActuator_def SetConfig_def Ctl_SetConfig_def
        Safety_SetConfig_def Bot_SetConfig_def Tray_SetConfig_def Advisor_SetConfig_cfg adv SetMaxActive_def mfilter_def)
qed

lemma in_sync_server_first:
  "on_reload os now cfg app = applyConfig os now cfg (app\<lparr>ap_srv := Server_SetConfig cfg (ap_srv app)\<rparr>)"
  by (simp add: on_reload_def applyConfig_def Let_def Server_SetConfig_def)

lemma app_step_sync:
  assumes "app_step os app app'" "in_sync os (cs_cfg (wb_conf (ap_srv app))) app"
  shows "in_sync os (cs_cfg (wb_conf (ap_srv app'))) app'"
  using assms(1)
proof cases
  case (reload now cfg)
  have "in_sync os cfg app'"
    unfolding reload in_sync_server_first using assms(2)
    by (intro in_sync_apply) (auto simp: Server_SetConfig_def in_sync_def Let_def)
  then show ?thesis by (simp add: in_sync_def Let_def)
next
  case (update now env nxt)
  obtain conf err where p: "persist env nxt (wb_conf (ap_srv app)) = (conf, err)" by fastforce
  let ?app = "app\<lparr>ap_srv := (ap_srv app)\<lparr>wb_conf := conf\<rparr>\<rparr>"
  show ?thesis
  proof (cases "err = None")
    case True
    have "in_sync os (cs_cfg conf) (applyConfig os now (cs_cfg conf) ?app)"
      using assms(2) by (intro in_sync_apply) (auto simp: in_sync_def Let_def)
    moreover have "app' = applyConfig os now (cs_cfg conf) ?app" using update True by (simp add: on_update_def p Let_def)
    ultimately show ?thesis by (simp add: in_sync_def Let_def)
  next
    case False
    then have "cs_cfg conf = cs_cfg (wb_conf (ap_srv app))"
      using p by (auto simp: persist_def split: prod.splits option.splits)
    moreover have "app' = ?app" using update False by (simp add: on_update_def p Let_def)
    ultimately show ?thesis using assms(2) by (simp add: in_sync_def Let_def)
  qed
qed

interpretation app_sync: invariant_steps "app_step os" "\<lambda>app. in_sync os (cs_cfg (wb_conf (ap_srv app))) app" for os
  by unfold_locales (rule app_step_sync)

lemma start_app_sync:
  assumes "start_app env cfg path fs noTray version = Inr app"
  shows "in_sync (sa_os env) cfg app"
proof -
  let ?s = "SetMaxActive (an_MaxActiveAlerts (c_Anomaly cfg)) (NewAlertStore 256)"
  have inv: "alerts_inv ?s" by (rule alerts_inv_SetMaxActive) simp
  then have a: "clearDisabledDetectorAlerts (sa_now env) cfg ?s =
      ?s\<lparr>as_active := mfilter (\<lambda>_ a. al_Type a \<notin> set (disabled_types cfg)) (as_active ?s)\<rparr>"
    by (intro clearDisabled_eq) (simp add: alerts_inv_def)
  have m: "mg_cfg (fst (CollectOnce se m)) = mg_cfg m" "mg_ports (fst (CollectOnce se m)) = mg_ports m" for se m
    by (auto simp: CollectOnce_def fastSample_def sample_read_def sample_write_def Let_def split: prod.splits)
  show ?thesis
    using assms alerts_inv_clearDisabled [OF inv, of "sa_now env" cfg] a
    by (auto simp: start_app_def NewServer_def in_sync_def Let_def m NewManager_def NewPortCollector_def SetActuator_def NewEngine_def
        NewController_def newSafetyWithPID_def NewAdvisor_def NewBot_def NewTray_def SetMaxActive_def NewAlertStore_def mfilter_def
        split: prod.splits sum.splits if_splits)
qed

section \<open>The start of main\<close>

text \<open>
  What a start of the program comes to: it prints its version, gives up with a message, opens the dashboard of the copy that runs
  already (or nothing, when told not to), or goes on with the handle of the mutex and the components. The configuration
  is loaded, and perhaps written for the first time, before the mutex is asked for.
\<close>

record start_flags =
  fl_config :: gostring
  fl_version :: bool
  fl_noTray :: bool
  fl_noBrowser :: bool

datatype start_result = Prints gostring | GivesUp gostring | Refuses "gostring option" | Runs handle App

definition main_start ::
  "start_env \<Rightarrow> start_flags \<Rightarrow> goerror + gostring \<Rightarrow> (gostring \<Rightarrow> bool) \<Rightarrow> gostring \<Rightarrow> gostring load_env \<Rightarrow> to16 \<Rightarrow>
   (u16 list \<Rightarrow> handle \<times> goerror option) \<Rightarrow> gostring \<Rightarrow> gostring fs \<Rightarrow> gostring fs \<times> start_result" where
  "main_start env flags executable exists_file appData loading to16 create_mutex version fs =
     (if fl_version flags then (fs, Prints (sprintf ''Windows Task Manager %s'' [FStr version] @ [CHR 0x0A]))
      else
        (let cfgPath = resolveConfigPath (fl_config flags) executable exists_file appData in
         case Load loading cfgPath fs of
           (fs, Inl e) \<Rightarrow> (fs, GivesUp (sprintf ''load config: %v'' [FStr (err_text e)]))
         | (fs, Inr cfg) \<Rightarrow>
             (fs,
              case snd (AcquireSingleInstance to16 create_mutex (''Local'' @ CHR 0x5C # ''WindowsTaskManager.Singleton'')) of
                Inl e \<Rightarrow>
                  if e = ErrAlreadyRunning then Refuses (if fl_noBrowser flags then None else Some (dashURL cfg))
                  else GivesUp (sprintf ''single-instance guard: %v'' [FStr (err_text e)])
              | Inr h \<Rightarrow>
                  (case start_app env cfg cfgPath fs (fl_noTray flags) version of
                     Inl e \<Rightarrow> GivesUp (sprintf ''initialize server: %v'' [FStr (err_text e)])
                   | Inr app \<Rightarrow> Runs h app))))"

text \<open>A copy that runs made the mutex, and all its components have the configuration it loaded.\<close>

lemma main_start_runs:
  assumes "main_start env flags executable exists_file appData loading to16 create_mutex version fs = (fs', Runs h app)"
  shows "\<exists>w cfg. create_mutex w = (h, None) \<and> in_sync (sa_os env) cfg app \<and>
    snd (Load loading (resolveConfigPath (fl_config flags) executable exists_file appData) fs) = Inr cfg"
  using assms
  by (auto simp: main_start_def AcquireSingleInstance_def Let_def dest!: start_app_sync
      split: if_splits prod.splits sum.splits option.splits)


definition demo_start :: start_env where
  "demo_start = \<lparr>sa_now = 5, sa_os = demo_os [app_proc] [], sa_numCPU = 4, sa_cpu = (''cpu'', 3000), sa_sample = demo_sample,
     sa_selfPID = 99, sa_random = Inr (replicate 32 CHR ''x''), sa_world = world0\<rparr>"


text \<open>
  The two callers of \<^verbatim>\<open>applyConfig\<close> do not exclude each other. When a reload falls between a page's storing of its configuration
  and the page's own call, the server ends with the one and everything else with the other.
\<close>

lemma racing_applies:
  assumes "stored = app\<lparr>ap_srv := (ap_srv app)\<lparr>wb_conf := conf\<rparr>\<rparr>"
    and "app' = applyConfig os now (cs_cfg conf) (on_reload os now cfg stored)"
  shows "cs_cfg (wb_conf (ap_srv app')) = cfg \<and> en_cfg (ap_engine app') = cs_cfg conf \<and> mg_cfg (ap_mgr app') = Some (cs_cfg conf)"
  by (simp add: assms(2) on_reload_def applyConfig_def Server_SetConfig_def Let_def SetConfig_def SetActuator_def ApplyConfig_def)

section \<open>From the start to the end\<close>

text \<open>
  The life of the process: what the tray's goroutine is at, whether a message to quit is posted to its window, whether
  the HTTP server runs, and where \<^verbatim>\<open>main\<close> is. The window of the tray exists exactly while it loops. The menu's
  Quit cancels the loops, shuts the server down and ends the loop of the tray. The page's own button runs the shutdown before
  it destroys the desktop window; a window that Windows closes ends its loop, and \<^verbatim>\<open>main\<close>, at once.
\<close>

datatype tray_phase = TrayOff | TrayStarting | TrayLooping | TrayDone
datatype main_phase = MainSelect | MainWindow | MainStopping | MainShutdown | MainWait | MainExit

record life =
  lf_tray :: tray_phase
  lf_quit :: bool
  lf_serving :: bool
  lf_main :: main_phase

definition showDesktop :: "bool \<Rightarrow> bool \<Rightarrow> bool" where
  "showDesktop noWindow openBrowser \<longleftrightarrow> \<not> noWindow \<and> openBrowser"

definition showBrowser :: "bool \<Rightarrow> bool \<Rightarrow> bool \<Rightarrow> bool" where
  "showBrowser noWindow noBrowser openBrowser \<longleftrightarrow> \<not> showDesktop noWindow openBrowser \<and> openBrowser \<and> \<not> noBrowser"

text \<open>The state when everything has been started; \<open>webView\<close> says whether the desktop window could be made.\<close>

definition started :: "bool \<Rightarrow> bool \<Rightarrow> bool \<Rightarrow> bool \<Rightarrow> life" where
  "started noTray noWindow openBrowser webView =
     \<lparr>lf_tray = (if noTray then TrayOff else TrayStarting), lf_quit = False, lf_serving = True,
      lf_main = (if showDesktop noWindow openBrowser then if webView then MainWindow else MainExit else MainSelect)\<rparr>"

inductive life_step :: "life \<Rightarrow> life \<Rightarrow> bool" where
  tray_created: "lf_tray s = TrayStarting \<Longrightarrow> lf_main s \<noteq> MainExit \<Longrightarrow> life_step s (s\<lparr>lf_tray := TrayLooping\<rparr>)"
| tray_failed: "lf_tray s = TrayStarting \<Longrightarrow> lf_main s \<noteq> MainExit \<Longrightarrow> life_step s (s\<lparr>lf_tray := TrayDone\<rparr>)"
| tray_told: "lf_tray s = TrayLooping \<Longrightarrow> lf_quit s \<Longrightarrow> lf_main s \<noteq> MainExit \<Longrightarrow> life_step s (s\<lparr>lf_tray := TrayDone\<rparr>)"
| menu_quit: "lf_tray s = TrayLooping \<Longrightarrow> lf_main s \<noteq> MainExit \<Longrightarrow> life_step s (s\<lparr>lf_tray := TrayDone, lf_serving := False\<rparr>)"
| server_fails: "lf_serving s \<Longrightarrow> lf_main s \<noteq> MainExit \<Longrightarrow> life_step s (s\<lparr>lf_serving := False\<rparr>)"
| signal: "lf_main s = MainSelect \<Longrightarrow> life_step s (s\<lparr>lf_main := MainStopping\<rparr>)"
| server_ended: "lf_main s = MainSelect \<Longrightarrow> \<not> lf_serving s \<Longrightarrow> life_step s (s\<lparr>lf_main := MainStopping\<rparr>)"
| window_closed: "lf_main s = MainWindow \<Longrightarrow> life_step s (s\<lparr>lf_main := MainStopping\<rparr>)"
| window_destroyed: "lf_main s = MainWindow \<Longrightarrow> life_step s (s\<lparr>lf_main := MainExit\<rparr>)"
| stop_tray: "lf_main s = MainStopping \<Longrightarrow>
    life_step s (s\<lparr>lf_main := MainShutdown, lf_quit := (lf_quit s \<or> lf_tray s = TrayLooping)\<rparr>)"
| shut_down: "lf_main s = MainShutdown \<Longrightarrow> life_step s (s\<lparr>lf_main := MainWait, lf_serving := False\<rparr>)"
| joined: "lf_main s = MainWait \<Longrightarrow> lf_tray s \<in> {TrayOff, TrayDone} \<Longrightarrow> life_step s (s\<lparr>lf_main := MainExit\<rparr>)"

inductive_cases life_stepE: "life_step s s'"

text \<open>What is still ahead of a state: every step takes at least one away.\<close>

primrec main_rank :: "main_phase \<Rightarrow> nat" where
  "main_rank MainSelect = 4"
| "main_rank MainWindow = 4"
| "main_rank MainStopping = 3"
| "main_rank MainShutdown = 2"
| "main_rank MainWait = 1"
| "main_rank MainExit = 0"

primrec tray_rank :: "tray_phase \<Rightarrow> nat" where
  "tray_rank TrayOff = 0"
| "tray_rank TrayStarting = 2"
| "tray_rank TrayLooping = 1"
| "tray_rank TrayDone = 0"

definition life_measure :: "life \<Rightarrow> nat" where
  "life_measure s = main_rank (lf_main s) + tray_rank (lf_tray s) + (if lf_serving s then 1 else 0)"

lemma life_step_decreases: "life_step s s' \<Longrightarrow> life_measure s' < life_measure s"
  by (induction rule: life_step.induct) (auto simp: life_measure_def)

text \<open>The tray was there, or never will be, when \<^verbatim>\<open>main\<close> began to stop it.\<close>

definition orderly :: "life \<Rightarrow> bool" where
  "orderly s \<longleftrightarrow> lf_tray s \<noteq> TrayStarting \<and> (lf_main s \<in> {MainShutdown, MainWait} \<and> lf_tray s = TrayLooping \<longrightarrow> lf_quit s)"

lemma orderly_step: "life_step s s' \<Longrightarrow> orderly s \<Longrightarrow> orderly s'"
  by (induction rule: life_step.induct) (auto simp: orderly_def)

lemma orderly_progress:
  assumes "orderly s" "lf_main s \<noteq> MainExit"
  shows "\<exists>s'. life_step s s'"
proof (cases "lf_main s")
  case MainWait
  show ?thesis
  proof (cases "lf_tray s")
    case TrayLooping
    then show ?thesis using assms MainWait tray_told [of s] by (auto simp: orderly_def)
  qed (use assms MainWait joined [of s] in \<open>auto simp: orderly_def\<close>)
qed (use assms signal [of s] window_closed [of s] stop_tray [of s] shut_down [of s] in auto)

interpretation life_end: ending_steps life_step orderly life_measure "\<lambda>s. lf_main s = MainExit"
  by unfold_locales (simp_all add: orderly_step life_step_decreases orderly_progress)



lemmas life_steps = converse_rtranclp_into_rtranclp [of life_step]

text \<open>
  C40. Three ways in which the end does not come as meant. A signal before the tray has made its window leaves \<^verbatim>\<open>main\<close> waiting for
  a tray nobody told to stop: only its own menu ends the program. With the desktop window open the menu's Quit
  shuts the server down and leaves the window. And when that window cannot be made \<^verbatim>\<open>main\<close> returns at once,
  although the browser is opened on the server that ends with it.
\<close>

theorem shutdown_gaps:
  "(\<exists>s. life_step\<^sup>*\<^sup>* (started False True True webView) s \<and> lf_main s = MainWait \<and> lf_tray s = TrayLooping \<and>
      Collect (life_step s) = {s\<lparr>lf_tray := TrayDone, lf_serving := False\<rparr>}) \<and>
   (\<exists>s. life_step\<^sup>*\<^sup>* (started False False True True) s \<and> lf_main s = MainWindow \<and> \<not> lf_serving s \<and> lf_tray s = TrayDone) \<and>
   lf_main (started noTray False True False) = MainExit \<and> lf_serving (started noTray False True False)"
proof (intro conjI)
  let ?s = "\<lambda>serving q. \<lparr>lf_tray = TrayStarting, lf_quit = False, lf_serving = serving, lf_main = q\<rparr>"
  let ?last = "\<lparr>lf_tray = TrayLooping, lf_quit = False, lf_serving = False, lf_main = MainWait\<rparr>"
  have "life_step (?s True MainSelect) (?s True MainStopping)" using signal [of "?s True MainSelect"] by simp
  moreover have "life_step (?s True MainStopping) (?s True MainShutdown)" using stop_tray [of "?s True MainStopping"] by simp
  moreover have "life_step (?s True MainShutdown) (?s False MainWait)" using shut_down [of "?s True MainShutdown"] by simp
  moreover have "life_step (?s False MainWait) ?last" using tray_created [of "?s False MainWait"] by simp
  ultimately have "life_step\<^sup>*\<^sup>* (?s True MainSelect) ?last" by (meson life_steps rtranclp.rtrancl_refl)
  moreover have "started False True True webView = ?s True MainSelect" by (simp add: started_def showDesktop_def)
  moreover have "life_step ?last s' \<longleftrightarrow> s' = ?last\<lparr>lf_tray := TrayDone, lf_serving := False\<rparr>" for s'
    using menu_quit [of ?last] by (auto elim!: life_stepE)
  then have "Collect (life_step ?last) = {?last\<lparr>lf_tray := TrayDone, lf_serving := False\<rparr>}" by blast
  moreover have "lf_main ?last = MainWait" "lf_tray ?last = TrayLooping" by simp_all
  ultimately show "\<exists>s. life_step\<^sup>*\<^sup>* (started False True True webView) s \<and> lf_main s = MainWait \<and> lf_tray s = TrayLooping \<and>
      Collect (life_step s) = {s\<lparr>lf_tray := TrayDone, lf_serving := False\<rparr>}"
    by metis
  let ?w = "started False False True True"
  have w: "lf_tray ?w = TrayStarting" "lf_main ?w = MainWindow" by (simp_all add: started_def showDesktop_def)
  let ?w2 = "?w\<lparr>lf_tray := TrayLooping, lf_tray := TrayDone, lf_serving := False\<rparr>"
  have "life_step ?w (?w\<lparr>lf_tray := TrayLooping\<rparr>)" using w by (intro tray_created) simp_all
  moreover have "life_step (?w\<lparr>lf_tray := TrayLooping\<rparr>) ?w2" using w by (intro menu_quit) simp_all
  ultimately have "life_step\<^sup>*\<^sup>* ?w ?w2" by (meson life_steps rtranclp.rtrancl_refl)
  then show "\<exists>s. life_step\<^sup>*\<^sup>* ?w s \<and> lf_main s = MainWindow \<and> \<not> lf_serving s \<and> lf_tray s = TrayDone" using w by fastforce
qed (simp_all add: started_def showDesktop_def)

end
