(* ===== verification/Spec2Isabelle.thy ===== *)
theory Spec2Isabelle
  imports Emitter Loader Engine Controller Guarded BotGuarded Collector App Host
begin

text \<open>
  Windows Task Manager is a single Go program that watches a Windows machine and acts on it. This
  development translates its logic into definitions and proves what makes it correct. Paths are those of the
  repository; a theory named here is a file of this directory.

  \<^bold>\<open>The program.\<close> The collectors (\<^verbatim>\<open>internal/collector\<close>) read counters and tables from Windows
  (\<^verbatim>\<open>internal/winapi\<close>) and publish snapshots in the metric store (\<^verbatim>\<open>internal/storage\<close>) and on the event
  emitter (\<^verbatim>\<open>internal/event\<close>). The anomaly engine (\<^verbatim>\<open>internal/anomaly\<close>) runs nine detectors over the latest
  snapshot, raises and clears alerts, and its rules may kill or suspend processes through the controller
  (\<^verbatim>\<open>internal/controller\<close>), which asks the safety policy first. The HTTP server (\<^verbatim>\<open>internal/server\<close>) shows all this
  to a local dashboard, changes the configuration and passes operations to the controller; the AI advisor
  (\<^verbatim>\<open>internal/ai\<close>) asks a model and offers suggestions, which the dashboard or the Telegram bot
  (\<^verbatim>\<open>internal/telegram\<close>) can have executed. The tray icon (\<^verbatim>\<open>internal/tray\<close>) and the desktop window
  (\<^verbatim>\<open>internal/desktop\<close>) are the user's way in. \<^verbatim>\<open>cmd/wtm/main.go\<close> wires the parts, spreads a new configuration to
  all of them and ends them.

  \<^bold>\<open>Go itself.\<close> \<^verbatim>\<open>Prelude\<close> has the machine types, wrapping \<^verbatim>\<open>int\<close> and \<^verbatim>\<open>time.Duration\<close>, Go maps as
  association lists, and the locale of bounded logs. \<^verbatim>\<open>GoText\<close>, \<^verbatim>\<open>GoFloat\<close>, \<^verbatim>\<open>GoFmt\<close>, \<^verbatim>\<open>GoParse\<close> and \<^verbatim>\<open>GoNet\<close>
  model what the program uses of the standard library: strings as bytes, IEEE doubles with their rounding,
  \<^verbatim>\<open>Sprintf\<close> and error chains, number and duration parsing, addresses and URLs.

  \<^bold>\<open>Contracts.\<close> Interfaces that several components share are locales, each interpreted where its provider is defined:
  bounded logs (\<^verbatim>\<open>Prelude\<close>: ring buffer, alert history, recent runs), steps that keep an invariant and runs that end
  (\<^verbatim>\<open>Steps\<close>: emitter, background analysis, collector loops, tray, copies of the program, configuration, life of
  \<^verbatim>\<open>main\<close>), what detectors keep and passes over a list with keys (\<^verbatim>\<open>Sink\<close>), the actuator of the rules (\<^verbatim>\<open>Rules\<close>) and
  things taken once within their time (\<^verbatim>\<open>Ttl\<close>: issued suggestions, pending confirmations).

  \<^bold>\<open>Data and storage.\<close> \<^verbatim>\<open>Metrics\<close> (\<^verbatim>\<open>metrics/types.go\<close>), \<^verbatim>\<open>Stats\<close> (\<^verbatim>\<open>internal/stats\<close>: the ring buffer is
  refined to the list of the last entries), \<^verbatim>\<open>Storage\<close> (histories are what was recorded last), \<^verbatim>\<open>Emitter\<close> (a step
  relation over notifications waiting, running and done), \<^verbatim>\<open>Config\<close> (the settings, defaults and validation),
  \<^verbatim>\<open>Loader\<close> (loading, migration and the atomic save over an explicit file system) and \<^verbatim>\<open>Watcher\<close> (its two
  loops over the events that reach them).

  \<^bold>\<open>Collecting.\<close> \<^verbatim>\<open>WinTypes\<close> decodes the buffers and structures of Windows byte by byte and \<^verbatim>\<open>WinCalls\<close> has the wrappers
  of single calls and the bytes of the job limits, which are read back as they were asked for. \<^verbatim>\<open>Sampling\<close> (\<^verbatim>\<open>cpu.go\<close>, \<^verbatim>\<open>memory.go\<close>), \<^verbatim>\<open>Counters\<close> (\<^verbatim>\<open>disk.go\<close>, \<^verbatim>\<open>gpu.go\<close>), \<^verbatim>\<open>NetCollect\<close>,
  \<^verbatim>\<open>ProcCollect\<close>, \<^verbatim>\<open>PortCollect\<close> and \<^verbatim>\<open>ProcTree\<close> are the collectors, each a function from what Windows answers in one
  sample; \<^verbatim>\<open>Collector\<close> is the manager, whose loops are split where they read and write the store and
  interleaved by a step relation.

  \<^bold>\<open>Alerts and actions.\<close> \<^verbatim>\<open>Alerts\<close> is the alert store, \<^verbatim>\<open>Sink\<close> what a detector sees and the contracts all
  detectors share, \<^verbatim>\<open>Detectors\<close> and \<^verbatim>\<open>Activity\<close> the detectors, \<^verbatim>\<open>Rules\<close> the automation rules over any
  actuator that keeps its contract, \<^verbatim>\<open>Engine\<close> one tick. \<^verbatim>\<open>Safety\<close> is the policy and \<^verbatim>\<open>Controller\<close> the
  operations over an oracle for Windows, with a trace of calls and the handles that are open; there the contract of
  the actuator is discharged for the real controller.

  \<^bold>\<open>Advice.\<close> \<^verbatim>\<open>RateCache\<close> (token bucket and answer cache), \<^verbatim>\<open>Advice\<close> (prompt and suggestions), \<^verbatim>\<open>Advisor\<close> (both
  provider formats), \<^verbatim>\<open>Background\<close> (scheduling, budgets and the automatic policy) and \<^verbatim>\<open>Models\<close> (the catalogue).
  \<^verbatim>\<open>Ttl\<close> is the interface of the two stores of things that can be taken once within their time; \<^verbatim>\<open>Issued\<close>
  and \<^verbatim>\<open>BotGuarded\<close> interpret it.

  \<^bold>\<open>Serving.\<close> \<^verbatim>\<open>Router\<close>, \<^verbatim>\<open>WebConfig\<close>, \<^verbatim>\<open>WebRules\<close>, \<^verbatim>\<open>Sse\<close>, \<^verbatim>\<open>Handlers\<close> and \<^verbatim>\<open>Server\<close> have every handler, the three guards and
  the table of routes; \<^verbatim>\<open>Guarded\<close> states what holds of all routes together. \<^verbatim>\<open>BotText\<close> and \<^verbatim>\<open>Telegram\<close> are the bot
  and \<^verbatim>\<open>BotGuarded\<close> what holds of any sequence of its messages.

  \<^bold>\<open>The host.\<close> \<^verbatim>\<open>Tray\<close> (icon, menu, messages, balloons), \<^verbatim>\<open>Host\<close> (single instance, desktop window, listener, log lines) and
  \<^verbatim>\<open>App\<close>: the start of \<^verbatim>\<open>main\<close>, the wiring, \<^verbatim>\<open>applyConfig\<close>, and the life of the process as a step relation.

  \<^bold>\<open>What is shown.\<close> Every way to an operation but resuming, by rule, request or message, passes the safety policy, and handles
  are closed on every path. Only guarded requests and allowed chats change anything. What may be done once is done
  once: suggestions and confirmations. Invariants hold of the stores, the budgets, the emitter and the collectors under
  every interleaving, and buffers are read and written within their bounds. The configuration survives saving and
  reaches every component. Loops end, with the exact exceptions stated: parent cycles, and the end of \<^verbatim>\<open>main\<close>
  before its tray is there. Other theorems record where the code does not do what it means to.

  \<^bold>\<open>Bounds and fuel.\<close> Definitions are total or return \<open>None\<close> for a panic or a loop without end. \<^verbatim>\<open>descend\<close> in
  \<^verbatim>\<open>Controller\<close> is a partial function, so not ending is a value; its theorem says exactly when it ends.
  \<^verbatim>\<open>assignDepth\<close> in \<^verbatim>\<open>ProcTree\<close> has as many levels as there are nodes, which a chain of parents cannot exceed, and
  the theorem proves that they suffice. Digits and unit loops have the digits of 64 bits. The measure of the life
  of \<^verbatim>\<open>main\<close> is at most seven. Times are \<^verbatim>\<open>int\<close> nanoseconds, durations wrap at 64 bits, counters are words.

  \<^bold>\<open>Parameters.\<close> What is not in the repository is an argument: the clock, the calls of Windows (one record of answers
  per operation or sample), JSON and YAML coding, SHA-256, random bytes, \<^verbatim>\<open>sort.Slice\<close>, the order in which Go visits a
  map, the HTTP exchanges with Telegram and the models, UTF-16 conversion, the calendar day and the web
  view. Hypotheses about them state documented behaviour only, such as that a sort permutes.

  \<^bold>\<open>Not modelled.\<close> \<^verbatim>\<open>winapi/dll.go\<close> and \<^verbatim>\<open>_check.go\<close> (names of procedures), \<^verbatim>\<open>controller/seams_windows.go\<close> (variables for
  tests), \<^verbatim>\<open>frontend/embed.go\<close> and the pages (built files), \<^verbatim>\<open>cmd/count\<close> (a filter for coverage reports), the timers that
  repeat the modelled loop bodies, what the program writes to its log apart from the lines for requests, and heartbeats of
  the event stream, which carry nothing. None of these decides anything.
\<close>

section \<open>Automation: rules act through the controller\<close>

text \<open>
  C1. Whatever rules are configured and however many ticks the engine runs on whatever snapshots, what
  it does to processes passes the monitor of guarded calls: no process is opened, terminated or
  suspended that the safety policy did not clear, unconfirmed, at the look at the store just before.
\<close>

theorem automation_guarded:
  assumes "en_actuator e = Some (controller_actuator os c)"
    and "fold (\<lambda>(env, store). analyzeOnce env store) ticks (e, sk, w) = (e', sk', w')"
  shows "monitored os c False w w'"
  using ctl_actuator.ticks_R [OF assms(1), of w ticks sk] assms(2) by simp

theorem automation_guarded_witness:
  "monitored (demo_os [app_proc] []) demo_controller False world0
     (snd (snd (analyzeOnce
       \<lparr>te_now = 0, te_getenv = (\<lambda>v. []), te_spawn_order = id, te_conn_order = id\<rparr>
       (SetLatest demo_snapshot (NewStore 60 10))
       (SetActuator (Some (controller_actuator (demo_os [app_proc] []) demo_controller)) (NewEngine DefaultConfig),
        empty_sink, world0))))"
proof -
  let ?env = "\<lparr>te_now = 0, te_getenv = (\<lambda>v. []), te_spawn_order = id, te_conn_order = id\<rparr>"
  let ?st = "SetLatest demo_snapshot (NewStore 60 10)"
  let ?e = "SetActuator (Some (controller_actuator (demo_os [app_proc] []) demo_controller)) (NewEngine DefaultConfig)"
  obtain e s w where a: "analyzeOnce ?env ?st (?e, empty_sink, world0) = (e, s, w)" by (metis prod_cases3)
  have "en_actuator ?e = Some (controller_actuator (demo_os [app_proc] []) demo_controller)"
    by (simp add: SetActuator_def)
  moreover have "fold (\<lambda>(env, store). analyzeOnce env store) [(?env, ?st)] (?e, empty_sink, world0) = (e, s, w)"
    using a by simp
  ultimately show ?thesis
    using automation_guarded [of ?e "demo_os [app_proc] []" demo_controller "[(?env, ?st)]" empty_sink world0 e s w] a
    by simp
qed

end
